(* ===== verification/Go_Prelude.thy ===== *)
theory Go_Prelude
  imports Complex_Main "HOL-Library.Word" "HOL-Library.Multiset"
    "HOL-Library.Char_ord" "HOL-Library.List_Lexorder"
begin

text \<open>
  What the Go sources use of the language and its standard library, shared by every
  component: calls that return an error beside the state they leave, loops over slices that
  stop at the first match, slices updated by index, \<open>strconv.Atoi\<close>, and \<open>time.Time\<close>.

  A Go \<open>string\<close> is a sequence of bytes, an Isabelle \<open>string\<close> is a list of 8-bit
  characters, so byte comparison (\<open>strings.Compare\<close>) is the lexicographic order of
  \<open>List_Lexorder\<close> over \<open>Char_ord\<close>. A Go \<open>int\<close> whose values stay below the length of
  a slice is an \<open>int\<close>; a \<open>uint64\<close> that is incremented is a \<open>64 word\<close>.
\<close>

named_theorems slice_simps \<open>equations of the slice and loop combinators\<close>
named_theorems slice_set \<open>membership, length and projections of updated slices\<close>

section \<open>Slices\<close>

text \<open>\<open>for i, c := range xs { if p(c) { ...; return } }\<close> writing through the pointer \<open>c\<close>.\<close>

fun update_first :: "('a \<Rightarrow> bool) \<Rightarrow> ('a \<Rightarrow> 'a) \<Rightarrow> 'a list \<Rightarrow> 'a list" where
  "update_first p f [] = []"
| "update_first p f (x # xs) = (if p x then f x # xs else x # update_first p f xs)"

text \<open>\<open>append(xs[:i], xs[i+1:]...)\<close> at the first index where \<open>p\<close> holds.\<close>

fun remove_first :: "('a \<Rightarrow> bool) \<Rightarrow> 'a list \<Rightarrow> 'a list" where
  "remove_first p [] = []"
| "remove_first p (x # xs) = (if p x then xs else x # remove_first p xs)"

text \<open>\<open>append(xs[:i], xs[i+1:]...)\<close> and \<open>slices.Insert(xs, i, x)\<close> for \<open>i\<close> in range.\<close>

definition remove_nth :: "nat \<Rightarrow> 'a list \<Rightarrow> 'a list" where
  "remove_nth i xs = take i xs @ drop (Suc i) xs"

definition insert_nth :: "nat \<Rightarrow> 'a \<Rightarrow> 'a list \<Rightarrow> 'a list" where
  "insert_nth i x xs = take i xs @ x # drop i xs"

text \<open>The index of the first match of a range loop, \<open>-1\<close> when there is none.\<close>

fun index_from :: "('a \<Rightarrow> bool) \<Rightarrow> int \<Rightarrow> 'a list \<Rightarrow> int" where
  "index_from p i [] = -1"
| "index_from p i (x # xs) = (if p x then i else index_from p (i + 1) xs)"

lemma length_update_first [simp, slice_set]: "length (update_first p f xs) = length xs"
  by (induction xs) auto

lemma update_first_eq_Nil [simp]: "update_first p f xs = [] \<longleftrightarrow> xs = []"
  by (cases xs) auto

lemma update_first_id: "(\<And>x. x \<in> set xs \<Longrightarrow> \<not> p x) \<Longrightarrow> update_first p f xs = xs"
  by (induction xs) auto

lemma map_update_first [slice_set]:
  "(\<And>x. g (f x) = g x) \<Longrightarrow> map g (update_first p f xs) = map g xs"
  by (induction xs) auto

lemma set_update_first [slice_set]: "set (update_first p f xs) \<subseteq> f ` set xs \<union> set xs"
  by (induction xs) auto

lemma update_firstE:
  assumes "y \<in> set (update_first p f xs)"
  obtains "y \<in> set xs" | x where "x \<in> set xs" "p x" "y = f x"
  using assms by (induction xs) (auto split: if_splits)

lemma update_first_split:
  assumes "find p xs = Some x"
  shows "\<exists>us vs. xs = us @ x # vs \<and> (\<forall>u \<in> set us. \<not> p u) \<and> p x \<and>
    update_first p f xs = us @ f x # vs"
  using assms
proof (induction xs)
  case (Cons y ys)
  show ?case
  proof (cases "p y")
    case True
    with Cons.prems show ?thesis by (intro exI [of _ "[]"] exI [of _ ys]) simp
  next
    case False
    with Cons obtain us vs where "ys = us @ x # vs" "\<forall>u \<in> set us. \<not> p u" "p x"
      "update_first p f ys = us @ f x # vs" by auto
    with False show ?thesis by (intro exI [of _ "y # us"] exI [of _ vs]) simp
  qed
qed simp

lemma find_SomeD: "find p xs = Some x \<Longrightarrow> x \<in> set xs \<and> p x"
  by (induction xs) (auto split: if_splits)

lemma find_NoneD: "find p xs = None \<Longrightarrow> x \<in> set xs \<Longrightarrow> \<not> p x"
  by (auto simp: find_None_iff)

lemma find_distinct_key:
  "distinct (map k xs) \<Longrightarrow> x \<in> set xs \<Longrightarrow> find (\<lambda>y. k y = k x) xs = Some x"
  by (induction xs) (auto simp: image_iff)

lemma find_update_first_same:
  "find p xs = Some x \<Longrightarrow> p (f x) \<Longrightarrow> find p (update_first p f xs) = Some (f x)"
  by (induction xs) auto

lemma find_update_first_other:
  "(\<And>x. p x \<Longrightarrow> \<not> q x) \<Longrightarrow> (\<And>x. p x \<Longrightarrow> \<not> q (f x)) \<Longrightarrow>
   find q (update_first p f xs) = find q xs"
  by (induction xs) auto

lemma find_append:
  "find p (xs @ ys) = (case find p xs of Some x \<Rightarrow> Some x | None \<Rightarrow> find p ys)"
  by (induction xs) auto

lemma hd_filter_find: "(case filter p xs of [] \<Rightarrow> None | x # _ \<Rightarrow> Some x) = find p xs"
  by (induction xs) auto

lemma set_remove_first: "set (remove_first p xs) \<subseteq> set xs"
  by (induction xs) auto

lemma length_remove_first_le: "length (remove_first p xs) \<le> length xs"
  by (induction xs) auto

lemma length_remove_first:
  "length (remove_first p xs) = (if \<exists>x \<in> set xs. p x then length xs - 1 else length xs)"
proof (induction xs)
  case (Cons x xs)
  then show ?case using length_pos_if_in_set [of _ xs] by (fastforce simp: Suc_pred)
qed simp

lemma distinct_remove_first: "distinct (map f xs) \<Longrightarrow> distinct (map f (remove_first p xs))"
  by (induction xs) (use set_remove_first in fastforce)+

lemma filter_remove_first:
  "distinct (map k xs) \<Longrightarrow> remove_first (\<lambda>x. k x = a) xs = filter (\<lambda>x. k x \<noteq> a) xs"
proof (induction xs)
  case (Cons x xs)
  show ?case
  proof (cases "k x = a")
    case True
    with Cons.prems have "\<forall>y \<in> set xs. k y \<noteq> a" by (auto simp: image_iff)
    with True show ?thesis by (simp add: filter_id_conv)
  qed (use Cons in simp)
qed simp

section \<open>Updating by index\<close>

lemma length_remove_nth [simp]: "i < length xs \<Longrightarrow> length (remove_nth i xs) = length xs - 1"
  by (simp add: remove_nth_def)

lemma length_insert_nth [simp]: "i \<le> length xs \<Longrightarrow> length (insert_nth i x xs) = Suc (length xs)"
  by (simp add: insert_nth_def)

lemma remove_nth_single: "length xs = Suc 0 \<Longrightarrow> i < length xs \<Longrightarrow> remove_nth i xs = []"
  by (auto simp: remove_nth_def length_Suc_conv)

lemma mset_remove_nth: "i < length xs \<Longrightarrow> add_mset (xs ! i) (mset (remove_nth i xs)) = mset xs"
  unfolding remove_nth_def by (metis id_take_nth_drop mset.simps(2) mset_append union_mset_add_mset_right)

lemma mset_insert_nth [simp]: "mset (insert_nth i x xs) = add_mset x (mset xs)"
  unfolding insert_nth_def
  by (metis append_take_drop_id mset.simps(2) mset_append union_mset_add_mset_right)

lemma set_remove_nth: "set (remove_nth i xs) \<subseteq> set xs"
  using set_take_subset [of i xs] set_drop_subset [of "Suc i" xs] by (auto simp: remove_nth_def)

lemma set_insert_nth [simp]: "set (insert_nth i x xs) = insert x (set xs)"
  by (metis mset_insert_nth set_mset_add_mset_insert set_mset_mset)

lemma map_remove_nth: "map f (remove_nth i xs) = remove_nth i (map f xs)"
  by (simp add: remove_nth_def take_map drop_map)

lemma map_insert_nth: "map f (insert_nth i x xs) = insert_nth i (f x) (map f xs)"
  by (simp add: insert_nth_def take_map drop_map)

lemma nth_remove_nth:
  "i < length xs \<Longrightarrow> j < length xs - 1 \<Longrightarrow>
   remove_nth i xs ! j = (if j < i then xs ! j else xs ! Suc j)"
  by (auto simp: remove_nth_def nth_append min_def)

lemma nth_insert_nth:
  "i \<le> length xs \<Longrightarrow> j \<le> length xs \<Longrightarrow>
   insert_nth i x xs ! j = (if j < i then xs ! j else if j = i then x else xs ! (j - 1))"
  by (auto simp: insert_nth_def nth_append min_def nth_Cons')

lemma remove_insert_nth [simp]: "i \<le> length xs \<Longrightarrow> remove_nth i (insert_nth i x xs) = xs"
  by (simp add: remove_nth_def insert_nth_def)

lemma insert_remove_nth [simp]: "i < length xs \<Longrightarrow> insert_nth i (xs ! i) (remove_nth i xs) = xs"
  by (simp add: remove_nth_def insert_nth_def id_take_nth_drop [symmetric])

lemma distinct_remove_nth: "i < length xs \<Longrightarrow> distinct xs \<Longrightarrow> distinct (remove_nth i xs)"
  using id_take_nth_drop [of i xs] unfolding remove_nth_def
  by (metis distinct_append distinct_take distinct_drop disjoint_iff
      set_take_disj_set_drop_if_distinct le_SucI order_refl)

lemma distinct_mset_eq: "mset xs = mset ys \<Longrightarrow> distinct xs = distinct ys"
  by (metis distinct_count_atmost_1 set_mset_mset)

section \<open>\<open>strconv.Atoi\<close>\<close>

text \<open>
  \<open>Atoi\<close> accepts one optional sign followed by at least one decimal digit, and fails on
  anything else and on values outside \<open>int64\<close>.
\<close>

definition is_digit :: "char \<Rightarrow> bool" where
  "is_digit c \<longleftrightarrow> (48::nat) \<le> of_char c \<and> of_char c \<le> (57::nat)"

fun digits_val :: "int \<Rightarrow> string \<Rightarrow> int option" where
  "digits_val acc [] = Some acc"
| "digits_val acc (c # cs) =
     (if is_digit c then digits_val (acc * 10 + (of_char c - 48)) cs else None)"

definition Atoi :: "string \<Rightarrow> int option" where
  "Atoi s =
     (let (neg, ds) =
        (case s of [] \<Rightarrow> (False, s)
         | c # cs \<Rightarrow> if c = CHR ''-'' then (True, cs)
                     else if c = CHR ''+'' then (False, cs) else (False, s))
      in if ds = [] then None
         else case digits_val 0 ds of None \<Rightarrow> None
              | Some n \<Rightarrow> let v = (if neg then - n else n)
                          in if - (2 ^ 63) \<le> v \<and> v < 2 ^ 63 then Some v else None)"

lemma Atoi_examples:
  "Atoi ''13'' = Some 13" "Atoi ''0'' = Some 0" "Atoi ''XS'' = None" "Atoi [] = None"
  "Atoi ''-7'' = Some (- 7)" "Atoi ''9223372036854775808'' = None"
  by (simp_all add: Atoi_def is_digit_def)

section \<open>\<open>time.Time\<close>\<close>

text \<open>
  A \<open>time.Time\<close> is an instant (nanoseconds since 1 January of year 1, UTC) and the location
  it is shown in. The zero time is instant 0; \<open>UTC()\<close> changes the location only. The clock is
  an input of every operation: a function \<open>clk\<close> from the number of the call of
  \<open>time.Now\<close> inside the operation, in program order, to what that call returns.
\<close>

datatype time = Time (instant: int) (location: string)

type_synonym clock = "nat \<Rightarrow> time"

definition zero_time :: time where "zero_time = Time 0 ''UTC''"

definition IsZero :: "time \<Rightarrow> bool" where "IsZero t \<longleftrightarrow> instant t = 0"

definition UTC :: "time \<Rightarrow> time" where "UTC t = Time (instant t) ''UTC''"

lemma UTC_idem [simp]: "UTC (UTC t) = UTC t" by (simp add: UTC_def)
lemma IsZero_UTC [simp]: "IsZero (UTC t) = IsZero t" by (simp add: UTC_def IsZero_def)
lemma UTC_zero_time [simp]: "UTC zero_time = zero_time" by (simp add: UTC_def zero_time_def)
lemma IsZero_zero_time [simp]: "IsZero zero_time" by (simp add: IsZero_def zero_time_def)

lemma UTC_zero: "IsZero t \<Longrightarrow> UTC t = zero_time"
  by (simp add: UTC_def IsZero_def zero_time_def)

end
