(* ===== verification/Go_Errors.thy ===== *)
theory Go_Errors
  imports Go_Prelude
begin

text \<open>
  Go errors and the domain error type of \<open>internal/domain/domainerror/domainerror.go\<close>.

  An error is a tree: a leaf made by \<open>errors.New\<close>, a \<open>*domainerror.Error\<close> with its code,
  message and optional cause, a \<open>fmt.Errorf\<close> with the operands of its \<open>%w\<close> verbs, or the
  list an \<open>errors.Join\<close> collects. Two errors are the same for \<open>errors.Is\<close> when they are the
  same pointer; the only pointers the program compares with are package variables, so a node
  carries the name of the variable it was made for, and \<open>None\<close> when it was made on the spot.

  A message is kept as its format and operands: \<open>fmt.Sprintf\<close> is not applied.
\<close>

section \<open>Errors and how they are searched\<close>

text \<open>The codes of the source, and any other string converted to \<open>Code\<close>.\<close>

datatype Code =
    CodeValidation | CodeForbidden | CodeNotFound | CodeConflict | CodeStaleVersion
  | CodeOther string

datatype operand = OStr string | OInt int

datatype message = Msg string "operand list"

text \<open>The package-level error variables the program compares with. \<open>RuntimePanic\<close> is not a variable
  but marks a panic on its way up: like an error it ends every call it passes through, but no
  code of the program runs in between that handles errors.\<close>

datatype sentinel =
    RoomNotFound | ClientNotFound | LastOwner | StaleRoomVersion
  | InvalidPayload | CommandInProgress | RedisNil | RuntimePanic

datatype go_error =
    DomainError "sentinel option" Code message "go_error option"
  | PlainError "sentinel option" message
  | FmtError message "go_error list"
  | JoinError "go_error list"

text \<open>\<open>errors.Is(err, target)\<close> for a package variable \<open>target\<close>.\<close>

fun errors_is :: "sentinel \<Rightarrow> go_error \<Rightarrow> bool" where
  "errors_is s (DomainError v c m None) = (v = Some s)"
| "errors_is s (DomainError v c m (Some e)) = (v = Some s \<or> errors_is s e)"
| "errors_is s (PlainError v m) = (v = Some s)"
| "errors_is s (FmtError m es) = list_ex (errors_is s) es"
| "errors_is s (JoinError es) = list_ex (errors_is s) es"

text \<open>
  \<open>domainerror.As\<close>: \<open>errors.As\<close> with a \<open>*domainerror.Error\<close> target returns the first
  such node, depth first; of it the program reads code and message.
\<close>

fun errors_as :: "go_error \<Rightarrow> (Code \<times> message) option"
  and errors_as_list :: "go_error list \<Rightarrow> (Code \<times> message) option" where
  "errors_as (DomainError v c m e) = Some (c, m)"
| "errors_as (PlainError v m) = None"
| "errors_as (FmtError m es) = errors_as_list es"
| "errors_as (JoinError es) = errors_as_list es"
| "errors_as_list [] = None"
| "errors_as_list (e # es) =
     (case errors_as e of Some r \<Rightarrow> Some r | None \<Rightarrow> errors_as_list es)"

section \<open>Constructors and accessors of \<open>domainerror\<close>\<close>

definition Newf :: "Code \<Rightarrow> string \<Rightarrow> operand list \<Rightarrow> go_error" where
  "Newf c f args = DomainError None c (Msg f args) None"

definition Wrapf :: "Code \<Rightarrow> go_error option \<Rightarrow> string \<Rightarrow> operand list \<Rightarrow> go_error" where
  "Wrapf c cause f args = DomainError None c (Msg f args) cause"

fun Error_Code :: "go_error \<Rightarrow> Code option" where
  "Error_Code (DomainError v c m e) = Some c"
| "Error_Code _ = None"

fun Error_Unwrap :: "go_error \<Rightarrow> go_error option" where
  "Error_Unwrap (DomainError v c m e) = e"
| "Error_Unwrap _ = None"

definition ErrRoomNotFound :: go_error where
  "ErrRoomNotFound = DomainError (Some RoomNotFound) CodeNotFound (Msg ''room not found'' []) None"

definition ErrClientNotFound :: go_error where
  "ErrClientNotFound =
     DomainError (Some ClientNotFound) CodeNotFound (Msg ''client not found'' []) None"

definition ErrLastOwner :: go_error where
  "ErrLastOwner =
     DomainError (Some LastOwner) CodeConflict (Msg ''cannot remove the last owner'' []) None"

definition ErrStaleRoomVersion :: go_error where
  "ErrStaleRoomVersion =
     DomainError (Some StaleRoomVersion) CodeStaleVersion (Msg ''stale room version'' []) None"

definition indexOutOfRange :: go_error where
  "indexOutOfRange = PlainError (Some RuntimePanic) (Msg ''index out of range'' [])"

definition Errorf :: "string \<Rightarrow> operand list \<Rightarrow> go_error list \<Rightarrow> go_error" where
  "Errorf f args es = FmtError (Msg f args) es"

definition New :: "string \<Rightarrow> go_error" where
  "New m = PlainError None (Msg m [])"

lemmas sentinel_defs =
  ErrRoomNotFound_def ErrClientNotFound_def ErrLastOwner_def ErrStaleRoomVersion_def

lemma Error_Code_Newf [simp]: "Error_Code (Newf c f args) = Some c"
  by (simp add: Newf_def)

lemma errors_as_Newf [simp]: "errors_as (Newf c f args) = Some (c, Msg f args)"
  by (simp add: Newf_def)

lemma errors_is_Newf [simp]: "\<not> errors_is s (Newf c f args)"
  by (simp add: Newf_def)

lemma errors_is_New [simp]: "\<not> errors_is s (New m)"
  by (simp add: New_def)

lemma errors_is_sentinels [simp]:
  "errors_is s ErrRoomNotFound \<longleftrightarrow> s = RoomNotFound"
  "errors_is s ErrClientNotFound \<longleftrightarrow> s = ClientNotFound"
  "errors_is s ErrLastOwner \<longleftrightarrow> s = LastOwner"
  "errors_is s ErrStaleRoomVersion \<longleftrightarrow> s = StaleRoomVersion"
  by (auto simp: sentinel_defs)

lemma errors_is_panic [simp]: "errors_is s indexOutOfRange \<longleftrightarrow> s = RuntimePanic"
  by (auto simp: indexOutOfRange_def)

lemma errors_is_Errorf [simp]: "errors_is s (Errorf f args es) = list_ex (errors_is s) es"
  by (simp add: Errorf_def)

lemma errors_as_Errorf [simp]: "errors_as (Errorf f args [e]) = errors_as e"
  by (simp add: Errorf_def split: option.splits)

section \<open>Operations that fail\<close>

text \<open>
  A method with a pointer receiver that returns an error: the state it leaves behind is part of
  the result on the error path too.
\<close>

type_synonym 's update = "'s \<Rightarrow> 's \<times> go_error option"

text \<open>
  A call that returns a value or an error and changes the state \<open>'s\<close>, and the sequencing
  \<open>x, err := m(); if err != nil { return err }; k(x)\<close>.
\<close>

type_synonym ('s, 'a) call = "'s \<Rightarrow> (go_error + 'a) \<times> 's"

definition ret :: "'a \<Rightarrow> ('s, 'a) call" where
  "ret a = (\<lambda>s. (Inr a, s))"

definition fail :: "go_error \<Rightarrow> ('s, 'a) call" where
  "fail e = (\<lambda>s. (Inl e, s))"

definition andThen :: "('s, 'a) call \<Rightarrow> ('a \<Rightarrow> ('s, 'b) call) \<Rightarrow> ('s, 'b) call" where
  "andThen m k = (\<lambda>s. case m s of (Inl e, s') \<Rightarrow> (Inl e, s') | (Inr a, s') \<Rightarrow> k a s')"

lemma ret_apply [simp]: "ret a s = (Inr a, s)" by (simp add: ret_def)
lemma fail_apply [simp]: "fail e s = (Inl e, s)" by (simp add: fail_def)

lemma andThen_Inl [simp]: "m s = (Inl e, s') \<Longrightarrow> andThen m k s = (Inl e, s')"
  by (simp add: andThen_def)

lemma andThen_Inr [simp]: "m s = (Inr a, s') \<Longrightarrow> andThen m k s = k a s'"
  by (simp add: andThen_def)

lemma andThen_cases:
  obtains e s' where "m s = (Inl e, s')" "andThen m k s = (Inl e, s')"
  | a s' where "m s = (Inr a, s')" "andThen m k s = k a s'"
  by (cases "m s"; cases "fst (m s)") auto

lemma andThen_assoc: "andThen (andThen m k) h = andThen m (\<lambda>a. andThen (k a) h)"
  by (rule ext) (auto simp: andThen_def split: prod.splits sum.splits)

end
