(* ===== verification/Client.thy ===== *)
theory Client
  imports Go_Prelude
begin

text \<open>
  Participants and their votes: \<open>ids.go\<close>, \<open>vote.go\<close>, \<open>time.go\<close>, \<open>client.go\<close> of
  \<open>internal/domain/entity\<close>, and the slice-backed collection of
  \<open>internal/infra/boundaries/hub/clientcollection/clientcollection.go\<close> that rooms hold them in.

  The collection holds pointers. Inside one operation a pointer is obtained from the collection
  (the first match of a filter, or its first element) and written through at once, so the model
  updates that element in place with \<^const>\<open>update_first\<close>.
\<close>

section \<open>Identifiers, votes, optional times\<close>

type_synonym ClientID = string
type_synonym StoryID = string
type_synonym Vote = string

definition Vote_IsEmpty :: "Vote \<Rightarrow> bool" where "Vote_IsEmpty v \<longleftrightarrow> v = ''''"

definition VotePtr :: "string \<Rightarrow> Vote option" where "VotePtr v = Some v"

definition Vote_Ptr :: "Vote option \<Rightarrow> string option" where
  "Vote_Ptr v = (case v of None \<Rightarrow> None | Some x \<Rightarrow> Some x)"

definition OptionalUTCTimePtr :: "time option \<Rightarrow> time option" where
  "OptionalUTCTimePtr v =
     (case v of None \<Rightarrow> None | Some t \<Rightarrow> if IsZero t then None else Some (UTC t))"

definition OptionalUTCTime :: "time \<Rightarrow> time option" where
  "OptionalUTCTime t = OptionalUTCTimePtr (Some t)"

definition UTCTimeOrZero :: "time option \<Rightarrow> time" where
  "UTCTimeOrZero v =
     (case v of None \<Rightarrow> zero_time | Some t \<Rightarrow> if IsZero t then zero_time else UTC t)"

lemma UTCTimeOrZero_Optional [simp]: "UTCTimeOrZero (OptionalUTCTime t) = UTC t"
  by (simp add: UTCTimeOrZero_def OptionalUTCTime_def OptionalUTCTimePtr_def UTC_zero)

lemma OptionalUTCTimePtr_idem [simp]:
  "OptionalUTCTimePtr (OptionalUTCTimePtr v) = OptionalUTCTimePtr v"
  by (simp add: OptionalUTCTimePtr_def split: option.splits)

lemma Vote_Ptr_id [simp]: "Vote_Ptr v = v"
  by (simp add: Vote_Ptr_def split: option.splits)

section \<open>Clients\<close>

record client =
  client_ID :: ClientID
  client_Name :: string
  CurrentVote :: "Vote option"
  HasVoted :: bool
  VotedAt :: "time option"
  IsSpectator :: bool
  IsOwner :: bool

definition newClient :: "ClientID \<Rightarrow> client" where
  "newClient i = \<lparr>client_ID = i, client_Name = [], CurrentVote = None, HasVoted = False,
     VotedAt = None, IsSpectator = False, IsOwner = False\<rparr>"

text \<open>\<open>now\<close> is what \<open>time.Now()\<close> returns in the branch that reads the clock.\<close>

definition client_applyVote :: "time \<Rightarrow> Vote option \<Rightarrow> client \<Rightarrow> client" where
  "client_applyVote now vote c =
     (let c' = c\<lparr>CurrentVote := vote\<rparr>
      in if (case vote of None \<Rightarrow> False | Some v \<Rightarrow> \<not> Vote_IsEmpty v)
         then c'\<lparr>HasVoted := True, VotedAt := Some (UTC now)\<rparr>
         else c'\<lparr>HasVoted := False, VotedAt := None\<rparr>)"

definition client_UpdateName :: "string \<Rightarrow> client \<Rightarrow> client" where
  "client_UpdateName n c = c\<lparr>client_Name := n\<rparr>"

text \<open>A client's vote fields agree: it has voted, it carries a label, and it has a time of
  voting, all or none of the three.\<close>

definition vote_consistent :: "client \<Rightarrow> bool" where
  "vote_consistent c \<longleftrightarrow>
     (HasVoted c \<longleftrightarrow> (\<exists>v. CurrentVote c = Some v \<and> v \<noteq> '''')) \<and>
     (HasVoted c \<longleftrightarrow> VotedAt c \<noteq> None)"

lemma applyVote_fields [simp]:
  "client_ID (client_applyVote t v c) = client_ID c"
  "client_Name (client_applyVote t v c) = client_Name c"
  "IsSpectator (client_applyVote t v c) = IsSpectator c"
  "IsOwner (client_applyVote t v c) = IsOwner c"
  "CurrentVote (client_applyVote t v c) = v"
  by (simp_all add: client_applyVote_def Let_def)

lemma HasVoted_applyVote:
  "HasVoted (client_applyVote t v c) \<longleftrightarrow> (\<exists>x. v = Some x \<and> x \<noteq> '''')"
  by (auto simp: client_applyVote_def Let_def Vote_IsEmpty_def split: option.splits)

lemma HasVoted_applyVote_None [simp]: "\<not> HasVoted (client_applyVote t None c)"
  by (simp add: HasVoted_applyVote)

lemma applyVote_consistent [intro, simp]: "vote_consistent (client_applyVote t v c)"
  by (auto simp: vote_consistent_def client_applyVote_def Let_def Vote_IsEmpty_def
      split: option.splits)

lemma newClient_consistent [simp]: "vote_consistent (newClient i)"
  by (simp add: vote_consistent_def newClient_def)

lemma newClient_fields [simp]:
  "client_ID (newClient i) = i" "IsOwner (newClient i) = False" "HasVoted (newClient i) = False"
  "CurrentVote (newClient i) = None" "IsSpectator (newClient i) = False"
  by (simp_all add: newClient_def)

section \<open>The collection\<close>

type_synonym collection = "client list"

definition cc_New :: "client list \<Rightarrow> collection" where "cc_New cs = cs"
definition cc_Add :: "client \<Rightarrow> collection \<Rightarrow> collection" where "cc_Add c cs = cs @ [c]"
definition cc_Remove :: "string \<Rightarrow> collection \<Rightarrow> collection" where
  "cc_Remove i cs = remove_first (\<lambda>c. client_ID c = i) cs"
definition cc_Values :: "collection \<Rightarrow> client list" where "cc_Values cs = cs"
definition cc_Count :: "collection \<Rightarrow> int" where "cc_Count cs = int (length cs)"
definition cc_First :: "collection \<Rightarrow> client option" where
  "cc_First cs = (case cs of [] \<Rightarrow> None | c # _ \<Rightarrow> Some c)"
definition cc_ForEach :: "(client \<Rightarrow> client) \<Rightarrow> collection \<Rightarrow> collection" where
  "cc_ForEach f cs = map f cs"

fun cc_Filter_loop :: "(client \<Rightarrow> bool) \<Rightarrow> collection \<Rightarrow> client list \<Rightarrow> collection" where
  "cc_Filter_loop f acc [] = acc"
| "cc_Filter_loop f acc (c # cs) = cc_Filter_loop f (if f c then cc_Add c acc else acc) cs"

definition cc_Filter :: "(client \<Rightarrow> bool) \<Rightarrow> collection \<Rightarrow> collection" where
  "cc_Filter f cs = cc_Filter_loop f (cc_New []) cs"

lemma cc_Filter_eq [simp]: "cc_Filter f cs = filter f cs"
proof -
  have "cc_Filter_loop f acc cs = acc @ filter f cs" for acc
    by (induction cs arbitrary: acc) (auto simp: cc_Add_def)
  then show ?thesis by (simp add: cc_Filter_def cc_New_def)
qed

lemma cc_First_Filter: "cc_First (cc_Filter f cs) = find f cs"
  by (simp add: cc_First_def hd_filter_find)

lemmas cc_defs = cc_Add_def cc_Values_def cc_Count_def cc_ForEach_def cc_Remove_def

text \<open>
  The interface \<open>entity.ClientCollection\<close> as rooms use it, over the slice of clients it stands
  for, and the facts the room operations need of any implementation.
\<close>

locale client_collection =
  fixes add :: "client \<Rightarrow> 'c \<Rightarrow> 'c"
    and remove :: "string \<Rightarrow> 'c \<Rightarrow> 'c"
    and count :: "'c \<Rightarrow> int"
    and first :: "'c \<Rightarrow> client option"
    and filt :: "(client \<Rightarrow> bool) \<Rightarrow> 'c \<Rightarrow> 'c"
    and vals :: "'c \<Rightarrow> client list"
  assumes vals_add: "vals (add c cs) = vals cs @ [c]"
    and vals_remove: "vals (remove i cs) = remove_first (\<lambda>c. client_ID c = i) (vals cs)"
    and count_vals: "count cs = int (length (vals cs))"
    and first_vals: "first cs = (case vals cs of [] \<Rightarrow> None | c # _ \<Rightarrow> Some c)"
    and vals_filt: "vals (filt p cs) = filter p (vals cs)"
begin

text \<open>The lookup by ID that every operation of a room starts with.\<close>

lemma lookup_find: "first (filt p cs) = find p (vals cs)"
  by (simp add: first_vals vals_filt hd_filter_find)

lemma lookup_Some: "first (filt p cs) = Some c \<Longrightarrow> c \<in> set (vals cs) \<and> p c"
  unfolding lookup_find by (rule find_SomeD)

lemma lookup_None: "first (filt p cs) = None \<longleftrightarrow> (\<forall>c \<in> set (vals cs). \<not> p c)"
  unfolding lookup_find by (auto simp: find_None_iff)

lemma lookup_unique:
  "distinct (map client_ID (vals cs)) \<Longrightarrow> c \<in> set (vals cs) \<Longrightarrow>
   first (filt (\<lambda>x. client_ID x = client_ID c) cs) = Some c"
  unfolding lookup_find by (rule find_distinct_key)

lemma count_filt_zero: "count (filt p cs) = 0 \<longleftrightarrow> (\<forall>c \<in> set (vals cs). \<not> p c)"
  by (auto simp: count_vals vals_filt filter_empty_conv)

lemma count_filt_one:
  assumes "count (filt p cs) = 1"
  obtains c where "first (filt p cs) = Some c" "c \<in> set (vals cs)" "p c"
    "\<And>d. d \<in> set (vals cs) \<Longrightarrow> p d \<Longrightarrow> d = c"
proof -
  have "length (filter p (vals cs)) = 1" using assms by (simp add: count_vals vals_filt)
  then obtain c where c: "filter p (vals cs) = [c]" by (auto simp: length_Suc_conv)
  then have eq: "set (filter p (vals cs)) = {c}" by simp
  show ?thesis
  proof (rule that)
    show "first (filt p cs) = Some c" by (simp add: first_vals vals_filt c)
    show "c \<in> set (vals cs)" "p c" using eq by auto
    show "d = c" if "d \<in> set (vals cs)" "p d" for d using eq that by auto
  qed
qed

lemma lookup_add:
  "first (filt p (add c cs)) =
     (case first (filt p cs) of Some d \<Rightarrow> Some d | None \<Rightarrow> if p c then Some c else None)"
  by (auto simp: lookup_find vals_add find_append split: option.splits)

lemma lookup_remove:
  "distinct (map client_ID (vals cs)) \<Longrightarrow>
   first (filt (\<lambda>x. client_ID x = i) (remove i cs)) = None"
  by (simp add: lookup_None vals_remove filter_remove_first)

end

interpretation slice_clients:
  client_collection cc_Add cc_Remove cc_Count cc_First cc_Filter cc_Values
  by unfold_locales (simp_all add: cc_defs cc_First_def)

end
