(* ===== verification/Deck.thy ===== *)
theory Deck
  imports Go_Prelude
begin

text \<open>
  The voting decks of \<open>internal/domain/entity/deck.go\<close>: the catalogue, its lookup by type, and
  the order of the estimate cards on which every vote summary is computed.
\<close>

section \<open>Descriptors and the catalogue\<close>

type_synonym DeckType = string

definition DeckTypeFibonacci :: DeckType where "DeckTypeFibonacci = ''fibonacci''"
definition DeckTypeTShirt :: DeckType where "DeckTypeTShirt = ''t-shirt''"

datatype DeckKind = DeckKindNumeric | DeckKindCategorical

text \<open>\<open>SpecialVoteCoffee\<close> is the UTF-8 encoding of U+2615.\<close>

definition SpecialVoteUnknown :: string where "SpecialVoteUnknown = ''?''"
definition SpecialVoteCoffee :: string where
  "SpecialVoteCoffee = [CHR 0xE2, CHR 0x98, CHR 0x95]"

record deck =
  deck_ID :: string
  deck_Name :: string
  deck_Kind :: DeckKind
  deck_Cards :: "string list"

definition specialDeckCards :: "string list" where
  "specialDeckCards = [SpecialVoteUnknown, SpecialVoteCoffee]"

definition fibonacciDeck :: deck where
  "fibonacciDeck =
     \<lparr>deck_ID = DeckTypeFibonacci, deck_Name = ''Fibonacci'', deck_Kind = DeckKindNumeric,
      deck_Cards = [''0'', ''1'', ''2'', ''3'', ''5'', ''8'', ''13'', ''21'', ''34'', ''55'', ''89'']
        @ specialDeckCards\<rparr>"

definition tShirtDeck :: deck where
  "tShirtDeck =
     \<lparr>deck_ID = DeckTypeTShirt, deck_Name = ''T-shirt'', deck_Kind = DeckKindCategorical,
      deck_Cards = [''XS'', ''S'', ''M'', ''L'', ''XL'', ''XXL''] @ specialDeckCards\<rparr>"

definition decks :: "deck list" where "decks = [fibonacciDeck, tShirtDeck]"

text \<open>\<open>clone\<close> copies the card slice; as a value the copy is the deck itself.\<close>

definition deck_clone :: "deck \<Rightarrow> deck" where
  "deck_clone d = d\<lparr>deck_Cards := [] @ deck_Cards d\<rparr>"

definition Decks :: "deck list" where "Decks = map deck_clone decks"

fun DeckByType_loop :: "deck list \<Rightarrow> DeckType \<Rightarrow> deck option" where
  "DeckByType_loop [] t = None"
| "DeckByType_loop (d # ds) t = (if deck_ID d = t then Some (deck_clone d) else DeckByType_loop ds t)"

definition DeckByType :: "DeckType \<Rightarrow> deck option" where
  "DeckByType t = DeckByType_loop decks t"

definition DefaultDeck :: deck where "DefaultDeck = deck_clone fibonacciDeck"

definition deckForType :: "DeckType \<Rightarrow> deck" where
  "deckForType t = (case DeckByType t of Some d \<Rightarrow> d | None \<Rightarrow> DefaultDeck)"

section \<open>Cards\<close>

definition HasCard :: "deck \<Rightarrow> string \<Rightarrow> bool" where
  "HasCard d v \<longleftrightarrow> List.member (deck_Cards d) v"

definition IsSpecial :: "deck \<Rightarrow> string \<Rightarrow> bool" where
  "IsSpecial d v \<longleftrightarrow> List.member specialDeckCards v"

text \<open>The loop of \<open>EstimateCards\<close> stops at the first special card.\<close>

fun EstimateCards_loop :: "deck \<Rightarrow> string list \<Rightarrow> string list" where
  "EstimateCards_loop d [] = []"
| "EstimateCards_loop d (c # cs) = (if IsSpecial d c then [] else c # EstimateCards_loop d cs)"

definition EstimateCards :: "deck \<Rightarrow> string list" where
  "EstimateCards d = EstimateCards_loop d (deck_Cards d)"

text \<open>\<open>Position\<close> returns the index and whether there is one; \<open>0\<close> stands in for none.\<close>

fun Position_loop :: "int \<Rightarrow> string list \<Rightarrow> string \<Rightarrow> int \<times> bool" where
  "Position_loop i [] v = (0, False)"
| "Position_loop i (c # cs) v = (if c = v then (i, True) else Position_loop (i + 1) cs v)"

definition Position :: "deck \<Rightarrow> string \<Rightarrow> int \<times> bool" where
  "Position d v = Position_loop 0 (EstimateCards d) v"

section \<open>Lemmas\<close>

lemma deck_clone_id [simp]: "deck_clone d = d"
  by (simp add: deck_clone_def)

lemma DeckByType_cases:
  "DeckByType t = (if t = DeckTypeFibonacci then Some fibonacciDeck
                   else if t = DeckTypeTShirt then Some tShirtDeck else None)"
  by (simp add: DeckByType_def decks_def fibonacciDeck_def tShirtDeck_def)

lemma deckForType_cases:
  "deckForType t = (if t = DeckTypeTShirt then tShirtDeck else fibonacciDeck)"
  by (simp add: deckForType_def DeckByType_cases DefaultDeck_def DeckTypeFibonacci_def
      DeckTypeTShirt_def)

lemma deckForType_catalogue: "deckForType t \<in> set decks"
  by (simp add: deckForType_cases decks_def)

lemma EstimateCards_eq_takeWhile:
  "EstimateCards d = takeWhile (\<lambda>c. \<not> IsSpecial d c) (deck_Cards d)"
proof -
  have "EstimateCards_loop d cs = takeWhile (\<lambda>c. \<not> IsSpecial d c) cs" for cs
    by (induction cs) auto
  then show ?thesis by (simp add: EstimateCards_def)
qed

lemma EstimateCards_subset: "set (EstimateCards d) \<subseteq> {c \<in> set (deck_Cards d). \<not> IsSpecial d c}"
  unfolding EstimateCards_eq_takeWhile by (auto dest: set_takeWhileD)

lemmas special_defs =
  IsSpecial_def specialDeckCards_def SpecialVoteUnknown_def SpecialVoteCoffee_def

lemma EstimateCards_fibonacci:
  "EstimateCards fibonacciDeck =
     [''0'', ''1'', ''2'', ''3'', ''5'', ''8'', ''13'', ''21'', ''34'', ''55'', ''89'']"
  by (simp add: EstimateCards_def fibonacciDeck_def special_defs)

lemma EstimateCards_tShirt:
  "EstimateCards tShirtDeck = [''XS'', ''S'', ''M'', ''L'', ''XL'', ''XXL'']"
  by (simp add: EstimateCards_def tShirtDeck_def special_defs)

lemma Position_loop_notin: "v \<notin> set cs \<Longrightarrow> Position_loop i cs v = (0, False)"
  by (induction cs arbitrary: i) auto

lemma Position_loop_nth:
  "distinct cs \<Longrightarrow> k < length cs \<Longrightarrow> Position_loop i cs (cs ! k) = (i + int k, True)"
proof (induction cs arbitrary: i k)
  case (Cons c cs)
  then show ?case by (cases k) (auto simp: algebra_simps)
qed simp

lemma snd_Position_loop: "snd (Position_loop i cs v) \<longleftrightarrow> v \<in> set cs"
  by (induction cs arbitrary: i) auto

lemma fst_Position_loop_ge: "v \<in> set cs \<Longrightarrow> i \<le> fst (Position_loop i cs v)"
proof (induction cs arbitrary: i)
  case (Cons c cs)
  show ?case by (cases "c = v") (use Cons.prems Cons.IH [of "i + 1"] in auto)
qed simp

lemma Position_loop_inj:
  "v \<in> set cs \<Longrightarrow> w \<in> set cs \<Longrightarrow> Position_loop i cs v = Position_loop i cs w \<Longrightarrow> v = w"
proof (induction cs arbitrary: i)
  case (Cons c cs)
  then show ?case
    using fst_Position_loop_ge [of v cs "i + 1"] fst_Position_loop_ge [of w cs "i + 1"]
    by (auto simp: prod_eq_iff split: if_splits)
qed simp

lemma Position_iff [simp]: "snd (Position d v) \<longleftrightarrow> v \<in> set (EstimateCards d)"
  by (simp add: Position_def snd_Position_loop)

lemma Position_nonneg: "0 \<le> fst (Position d v)"
  using fst_Position_loop_ge [of v "EstimateCards d" 0]
    Position_loop_notin [of v "EstimateCards d" 0]
  by (cases "v \<in> set (EstimateCards d)") (auto simp: Position_def)

lemma Position_inj:
  "v \<in> set (EstimateCards d) \<Longrightarrow> w \<in> set (EstimateCards d) \<Longrightarrow>
   fst (Position d v) = fst (Position d w) \<Longrightarrow> v = w"
  using Position_loop_inj [of v "EstimateCards d" w 0]
  by (simp add: Position_def prod_eq_iff snd_Position_loop)

lemma Position_inj_on: "inj_on (\<lambda>v. fst (Position d v)) (set (EstimateCards d))"
  by (rule inj_onI) (rule Position_inj)

lemma distinct_EstimateCards: "distinct (EstimateCards (deckForType t))"
  by (simp add: deckForType_cases EstimateCards_fibonacci EstimateCards_tShirt)

text \<open>in every deck a room can have, the ordered estimates and the special cards partition
  the cards, and the position of an estimate is its index, counted from zero.\<close>

theorem deck_positions:
  "set (deck_Cards (deckForType t)) = set (EstimateCards (deckForType t)) \<union> set specialDeckCards
   \<and> set (EstimateCards (deckForType t)) \<inter> set specialDeckCards = {}
   \<and> (\<forall>k < length (EstimateCards (deckForType t)).
        Position (deckForType t) (EstimateCards (deckForType t) ! k) = (int k, True))
   \<and> (\<forall>v. v \<notin> set (EstimateCards (deckForType t)) \<longrightarrow> Position (deckForType t) v = (0, False))"
proof -
  have "set (deck_Cards (deckForType t)) = set (EstimateCards (deckForType t)) \<union> set specialDeckCards
    \<and> set (EstimateCards (deckForType t)) \<inter> set specialDeckCards = {}"
    by (cases "t = DeckTypeTShirt")
      (simp_all add: deckForType_cases EstimateCards_fibonacci EstimateCards_tShirt,
       auto simp: fibonacciDeck_def tShirtDeck_def specialDeckCards_def SpecialVoteUnknown_def
         SpecialVoteCoffee_def)
  then show ?thesis
    by (auto simp: Position_def Position_loop_nth [OF distinct_EstimateCards] Position_loop_notin)
qed

theorem deck_positions_witness:
  "Position (deckForType DeckTypeFibonacci) ''13'' = (6, True)
   \<and> Position (deckForType DeckTypeFibonacci) ''?'' = (0, False)"
proof -
  have "6 < length (EstimateCards (deckForType DeckTypeFibonacci))"
    "EstimateCards (deckForType DeckTypeFibonacci) ! 6 = ''13''"
    "''?'' \<notin> set (EstimateCards (deckForType DeckTypeFibonacci))" by code_simp+
  with deck_positions [of DeckTypeFibonacci] show ?thesis by (metis of_nat_numeral)
qed

text \<open>The numeric deck's estimates are decimal numbers in increasing order; the other's are not.\<close>

lemma fibonacci_Atoi:
  "map Atoi (EstimateCards fibonacciDeck) = map Some [0, 1, 2, 3, 5, 8, 13, 21, 34, 55, 89]"
  by (simp add: EstimateCards_fibonacci Atoi_def is_digit_def)

lemma tShirt_Atoi: "v \<in> set (EstimateCards tShirtDeck) \<Longrightarrow> Atoi v = None"
  by (auto simp: EstimateCards_tShirt Atoi_def is_digit_def)

end
