(* ===== verification/Float32.thy ===== *)
theory Float32
  imports Go_Prelude
begin

text \<open>
  Go's \<open>float32\<close> where the program uses it: sums and one quotient of small non-negative
  numbers. A finite \<open>float32\<close> is the rational it denotes; an operation is the exact rational
  result rounded to 24 significant bits, ties to even (IEEE 754 binary32). The exponent is not
  bounded here: the lemmas of the voting component show that every value the program computes
  lies between 0 and \<open>2 ^ 24\<close> times the largest card, far inside the range where binary32
  neither overflows nor loses precision to subnormals.
\<close>

type_synonym float32 = rat

section \<open>Rounding\<close>

text \<open>Round a rational to an integer, ties to even.\<close>

definition round_even :: "rat \<Rightarrow> int" where
  "round_even x =
     (let f = \<lfloor>x\<rfloor>; d = x - of_int f
      in if d < 1 / 2 then f else if 1 / 2 < d then f + 1
         else if even f then f else f + 1)"

text \<open>\<open>2 ^ e\<close> for an integer exponent.\<close>

definition pow2 :: "int \<Rightarrow> rat" where
  "pow2 e = (if 0 \<le> e then 2 ^ nat e else 1 / 2 ^ nat (- e))"

text \<open>\<open>bits n\<close> is the length of \<open>n\<close> in binary; the exponent of \<open>x > 0\<close> is the \<open>k\<close> with
  \<open>2 ^ k \<le> x < 2 ^ (k + 1)\<close>.\<close>

fun bits :: "nat \<Rightarrow> nat" where
  "bits n = (if n = 0 then 0 else Suc (bits (n div 2)))"

declare bits.simps [simp del]

definition exponent :: "rat \<Rightarrow> int" where
  "exponent x =
     (let (n, d) = quotient_of x; e = int (bits (nat n)) - int (bits (nat d))
      in if pow2 e \<le> x then e else e - 1)"

text \<open>The nearest number with 24 significant bits.\<close>

definition round32 :: "rat \<Rightarrow> float32" where
  "round32 x =
     (if x = 0 then 0
      else if x < 0 then - (let u = pow2 (exponent (- x) - 23) in of_int (round_even (- x / u)) * u)
      else (let u = pow2 (exponent x - 23) in of_int (round_even (x / u)) * u))"

section \<open>Conversion from \<open>int\<close>, addition, division\<close>

definition float32_of_int :: "int \<Rightarrow> float32" where
  "float32_of_int n = round32 (of_int n)"

definition fadd32 :: "float32 \<Rightarrow> float32 \<Rightarrow> float32" where
  "fadd32 a b = round32 (a + b)"

definition fdiv32 :: "float32 \<Rightarrow> float32 \<Rightarrow> float32" where
  "fdiv32 a b = round32 (a / b)"

section \<open>Powers of two and the exponent\<close>

lemma pow2_pos [simp]: "0 < pow2 e"
  by (simp add: pow2_def)

lemma pow2_nat: "pow2 (int n) = 2 ^ n"
  by (simp add: pow2_def)

lemma pow2_0 [simp]: "pow2 0 = 1"
  by (simp add: pow2_def)

lemma pow2_Suc: "pow2 (e + 1) = 2 * pow2 e"
proof (cases "0 \<le> e")
  case True
  then show ?thesis by (simp add: pow2_def nat_add_distrib)
next
  case False
  then have "nat (- e) = Suc (nat (- (e + 1)))" by simp
  with False show ?thesis by (cases "e = - 1") (simp_all add: pow2_def field_simps)
qed

lemma pow2_add_nat: "pow2 (e + int n) = pow2 e * 2 ^ n"
proof (induction n)
  case (Suc n)
  have "pow2 (e + int (Suc n)) = pow2 ((e + int n) + 1)" by (simp add: algebra_simps)
  then show ?case using Suc by (simp add: pow2_Suc)
qed simp

lemma pow2_mono: "a \<le> b \<Longrightarrow> pow2 a \<le> pow2 b"
proof -
  assume "a \<le> b"
  then have "pow2 b = pow2 a * 2 ^ nat (b - a)"
    using pow2_add_nat [of a "nat (b - a)"] by simp
  moreover have "pow2 a * 1 \<le> pow2 a * 2 ^ nat (b - a)"
    by (rule mult_left_mono) (simp_all add: less_imp_le)
  ultimately show ?thesis by simp
qed

lemma pow2_less_cancel: "pow2 a < pow2 b \<Longrightarrow> a < b"
  using pow2_mono [of b a] by linarith

lemma pow2_diff: "pow2 (a - b) * pow2 b = pow2 a"
proof (cases "0 \<le> b")
  case True
  then show ?thesis using pow2_add_nat [of "a - b" "nat b"] by (simp add: pow2_def)
next
  case False
  then have "pow2 (a - b) = pow2 a * 2 ^ nat (- b)"
    using pow2_add_nat [of a "nat (- b)"] by simp
  with False show ?thesis by (simp add: pow2_def)
qed

lemma bits_bounds: "0 < n \<Longrightarrow> 2 ^ (bits n - 1) \<le> n \<and> n < 2 ^ bits n"
proof (induction n rule: bits.induct)
  case (1 n)
  show ?case
  proof (cases "n div 2 = 0")
    case True
    with 1 have "n = 1" by (simp add: div_eq_0_iff)
    then show ?thesis by (simp add: bits.simps [of "Suc 0"] bits.simps [of 0])
  next
    case False
    with 1 have IH: "2 ^ (bits (n div 2) - 1) \<le> n div 2" "n div 2 < 2 ^ bits (n div 2)" by auto
    have b: "bits n = Suc (bits (n div 2))" using 1 by (simp add: bits.simps [of n])
    obtain k where k: "bits (n div 2) = Suc k" using False by (simp add: bits.simps [of "n div 2"])
    from IH k have "2 * 2 ^ k \<le> n" "n < 2 * (2 * 2 ^ k)" by auto
    then show ?thesis by (simp add: b k)
  qed
qed

lemma bits_pow2:
  assumes "0 < n" and "bits (nat n) = Suc a"
  shows "pow2 (int a) \<le> of_int n \<and> of_int n < pow2 (int a + 1)"
proof -
  have "2 ^ a \<le> nat n" "nat n < 2 ^ Suc a" using bits_bounds [of "nat n"] assms by auto
  then have "(2::int) ^ a \<le> n" "n < 2 * 2 ^ a"
    using assms(1) by (simp_all add: le_nat_iff nat_less_iff)
  then have "(of_int (2 ^ a) :: rat) \<le> of_int n" "(of_int n :: rat) < of_int (2 * 2 ^ a)"
    by (simp_all only: of_int_le_iff of_int_less_iff)
  then show ?thesis by (simp add: pow2_Suc pow2_nat)
qed

lemma exponent_bounds:
  assumes "0 < x"
  shows "pow2 (exponent x) \<le> x \<and> x < pow2 (exponent x + 1)"
proof -
  obtain n d where q: "quotient_of x = (n, d)" by fastforce
  have d: "0 < d" using q by (rule quotient_of_denom_pos)
  have x: "x = of_int n / of_int d" using q by (rule quotient_of_div)
  with assms d have n: "0 < n" by (simp add: zero_less_divide_iff)
  obtain a where a: "bits (nat n) = Suc a" using n by (simp add: bits.simps [of "nat n"])
  obtain b where b: "bits (nat d) = Suc b" using d by (simp add: bits.simps [of "nat d"])
  have N: "pow2 (int a) \<le> of_int n" "of_int n < pow2 (int a + 1)"
    using bits_pow2 [OF n a] by auto
  have D: "pow2 (int b) \<le> of_int d" "of_int d < pow2 (int b + 1)"
    using bits_pow2 [OF d b] by auto
  have up: "x < pow2 (int a - int b + 1)"
  proof -
    have "of_int n < pow2 (int a - int b + 1) * pow2 (int b)"
      using N(2) pow2_diff [of "int a + 1" "int b"] by (simp add: algebra_simps)
    also have "\<dots> \<le> pow2 (int a - int b + 1) * of_int d" using D(1) by simp
    finally show ?thesis using d by (simp add: x field_simps)
  qed
  have lo: "pow2 (int a - int b - 1) \<le> x"
  proof -
    have "pow2 (int a - int b - 1) * of_int d \<le> pow2 (int a - int b - 1) * pow2 (int b + 1)"
      using D(2) by simp
    also have "\<dots> = pow2 (int a)" using pow2_diff [of "int a" "int b + 1"] by (simp add: algebra_simps)
    also have "\<dots> \<le> of_int n" by (rule N)
    finally show ?thesis using d by (simp add: x field_simps)
  qed
  have "exponent x = (if pow2 (int a - int b) \<le> x then int a - int b else int a - int b - 1)"
    by (simp add: exponent_def q a b)
  with up lo show ?thesis by auto
qed

section \<open>Rounding is monotone and exact on 24-bit integers\<close>

lemma round_even_of_int [simp]: "round_even (of_int n) = n"
  by (simp add: round_even_def)

lemma round_even_bounds: "\<lfloor>x\<rfloor> \<le> round_even x \<and> round_even x \<le> \<lceil>x\<rceil>"
proof -
  have "x \<noteq> of_int \<lfloor>x\<rfloor> \<Longrightarrow> \<lceil>x\<rceil> = \<lfloor>x\<rfloor> + 1"
    by (simp add: ceiling_altdef)
  then show ?thesis
    by (cases "x = of_int \<lfloor>x\<rfloor>") (auto simp: round_even_def Let_def ceiling_altdef)
qed

lemma round_even_mono: "x \<le> y \<Longrightarrow> round_even x \<le> round_even y"
proof (cases "\<lfloor>x\<rfloor> = \<lfloor>y\<rfloor>")
  case True
  assume "x \<le> y"
  with True show ?thesis by (auto simp: round_even_def Let_def)
next
  case False
  assume "x \<le> y"
  with False have "\<lfloor>x\<rfloor> + 1 \<le> \<lfloor>y\<rfloor>" using floor_mono [of x y] by linarith
  moreover have "\<lceil>x\<rceil> \<le> \<lfloor>x\<rfloor> + 1" by linarith
  ultimately show ?thesis using round_even_bounds [of x] round_even_bounds [of y] by linarith
qed

lemma round32_0 [simp]: "round32 0 = 0"
  by (simp add: round32_def)

lemma round32_pos_def:
  "0 < x \<Longrightarrow> round32 x = of_int (round_even (x / pow2 (exponent x - 23))) * pow2 (exponent x - 23)"
  by (simp add: round32_def Let_def)

lemma ulp_scale: "pow2 (k - 23) * 2 ^ 23 = pow2 k"
  using pow2_add_nat [of "k - 23" 23] by simp

text \<open>A positive number is rounded within its binade, up to the next power of two.\<close>

lemma round32_binade:
  assumes "0 < x"
  shows "pow2 (exponent x) \<le> round32 x \<and> round32 x \<le> pow2 (exponent x + 1)"
proof -
  define u where "u = pow2 (exponent x - 23)"
  have u: "0 < u" by (simp add: u_def)
  have e: "pow2 (exponent x) = u * 2 ^ 23" by (simp only: u_def ulp_scale)
  have b: "of_int (2 ^ 23) \<le> x / u" "x / u \<le> of_int (2 ^ 24)"
    using exponent_bounds [OF assms] u unfolding pow2_Suc e by (simp_all add: field_simps)
  have "2 ^ 23 \<le> round_even (x / u)" "round_even (x / u) \<le> 2 ^ 24"
    using round_even_mono [OF b(1)] round_even_mono [OF b(2)]
    by (simp_all only: round_even_of_int)
  then have "(of_int (2 ^ 23) :: rat) \<le> of_int (round_even (x / u))"
    "(of_int (round_even (x / u)) :: rat) \<le> of_int (2 ^ 24)"
    by (simp_all only: of_int_le_iff)
  then have "2 ^ 23 * u \<le> of_int (round_even (x / u)) * u"
    "of_int (round_even (x / u)) * u \<le> 2 ^ 24 * u"
    using u by (simp_all add: mult_right_mono)
  then show ?thesis by (simp add: round32_pos_def [OF assms] u_def [symmetric] pow2_Suc e mult.commute)
qed

lemma round32_pos: "0 < x \<Longrightarrow> 0 < round32 x"
  using round32_binade [of x] pow2_pos [of "exponent x"] by linarith

lemma round32_mono:
  assumes "0 \<le> x" and "x \<le> y"
  shows "round32 x \<le> round32 y"
proof (cases "x = 0")
  case True
  with assms show ?thesis using round32_pos [of y] by (cases "y = 0") (auto simp: less_imp_le)
next
  case False
  with assms have x: "0 < x" and y: "0 < y" by auto
  have "pow2 (exponent x) < pow2 (exponent y + 1)"
    using exponent_bounds [OF x] exponent_bounds [OF y] assms(2) by linarith
  then have le: "exponent x \<le> exponent y" by (auto dest: pow2_less_cancel)
  show ?thesis
  proof (cases "exponent x = exponent y")
    case True
    have "x / pow2 (exponent y - 23) \<le> y / pow2 (exponent y - 23)"
      using assms(2) by (simp add: divide_right_mono less_imp_le)
    then have "(of_int (round_even (x / pow2 (exponent y - 23))) :: rat)
        \<le> of_int (round_even (y / pow2 (exponent y - 23)))"
      by (simp only: of_int_le_iff round_even_mono)
    with True show ?thesis
      by (simp add: round32_pos_def [OF x] round32_pos_def [OF y] mult_right_mono less_imp_le)
  next
    case False
    with le have "pow2 (exponent x + 1) \<le> pow2 (exponent y)" by (intro pow2_mono) simp
    then show ?thesis using round32_binade [OF x] round32_binade [OF y] by linarith
  qed
qed

lemma round32_exact:
  assumes "0 \<le> n" and "n \<le> 2 ^ 24"
  shows "round32 (of_int n) = of_int n"
proof (cases "n = 0")
  case False
  with assms(1) have pos: "(0::rat) < of_int n" by simp
  define k where "k = exponent (of_int n)"
  have kb: "pow2 k \<le> of_int n" "(of_int n :: rat) < pow2 (k + 1)"
    using exponent_bounds [OF pos] by (auto simp: k_def)
  show ?thesis
  proof (cases "k \<le> 23")
    case True
    have "pow2 (k - 23) * 2 ^ nat (23 - k) = 1"
      using pow2_add_nat [of "k - 23" "nat (23 - k)"] True by simp
    then have "pow2 (k - 23) = 1 / 2 ^ nat (23 - k)" by (simp add: field_simps)
    then have "of_int n / pow2 (k - 23) = (of_int (n * 2 ^ nat (23 - k)) :: rat)"
      by simp
    moreover have "of_int (n * 2 ^ nat (23 - k)) * pow2 (k - 23) = (of_int n :: rat)"
      using \<open>pow2 (k - 23) * 2 ^ nat (23 - k) = 1\<close> by (simp add: field_simps)
    ultimately show ?thesis
      by (simp only: round32_pos_def [OF pos] k_def [symmetric] round_even_of_int)
  next
    case False
    have "(of_int n :: rat) \<le> of_int (2 ^ 24)" using assms(2) by (simp only: of_int_le_iff)
    also have "\<dots> = pow2 24" by (simp add: pow2_def)
    also have "\<dots> \<le> pow2 k" using False by (intro pow2_mono) simp
    finally have eq: "(of_int n :: rat) = pow2 k" using kb by simp
    define u where "u = pow2 (k - 23)"
    have u: "0 < u" by (simp add: u_def)
    have n: "(of_int n :: rat) = of_int (2 ^ 23) * u"
      using ulp_scale [of k] by (simp add: eq u_def mult.commute)
    have "(of_int n :: rat) / u = of_int (2 ^ 23)" unfolding n using u by simp
    then have "round32 (of_int n) = of_int (2 ^ 23) * u"
      by (simp only: round32_pos_def [OF pos] k_def [symmetric] u_def [symmetric]
          round_even_of_int)
    then show ?thesis by (simp only: n)
  qed
qed simp

lemma round32_between:
  assumes "0 \<le> a" "b \<le> 2 ^ 24" and "of_int a \<le> x" "x \<le> of_int b"
  shows "of_int a \<le> round32 x \<and> round32 x \<le> of_int b"
proof -
  have a: "(0::rat) \<le> of_int a" using assms(1) by simp
  then have "0 \<le> x" using assms(3) by linarith
  have ab: "a \<le> b" using assms(3,4) by (metis of_int_le_iff order_trans)
  show ?thesis
    using round32_mono [OF a assms(3)] round32_mono [OF \<open>0 \<le> x\<close> assms(4)]
      round32_exact [of a] round32_exact [of b] assms ab by simp
qed

end
