(* ===== verification/Room.thy ===== *)
theory Room
  imports Go_Errors Client Deck Float32
begin

text \<open>
  The room aggregate: \<open>roomversion.go\<close>, \<open>story.go\<close>, \<open>event.go\<close>, \<open>room.go\<close> of
  \<open>internal/domain/entity\<close>, and \<open>FindClient\<close> with the pointer updates its callers make.

  A slice whose nil-ness is visible on the wire (\<open>MostAppearingVotes\<close>) is an option of a list,
  \<open>None\<close> for nil; the other slices are lists. Pointers to values the program never writes
  through are options.
\<close>

section \<open>Versions, stories, events\<close>

type_synonym RoomVersion = "64 word"

definition RoomVersion_Uint64 :: "RoomVersion \<Rightarrow> 64 word" where "RoomVersion_Uint64 v = v"
definition RoomVersion_Next :: "RoomVersion \<Rightarrow> RoomVersion" where "RoomVersion_Next v = v + 1"

record story =
  story_ID :: StoryID
  story_Name :: string
  story_Result :: "float32 option"
  story_MostAppearingVotes :: "string list option"
  story_Voted :: bool

text \<open>A story literal that sets only ID and name.\<close>

definition newStory :: "StoryID \<Rightarrow> string \<Rightarrow> story" where
  "newStory i n = \<lparr>story_ID = i, story_Name = n, story_Result = None,
     story_MostAppearingVotes = None, story_Voted = False\<rparr>"

datatype event =
    VoteCast (ev_RoomID: string) (ev_ClientID: ClientID) (ev_Vote: Vote) (ev_OccurredAt: time)
  | VotesRevealed (ev_RoomID: string) (ev_Result: "float32 option") (ev_Consensus: string)
      (ev_OccurredAt: time)
  | StorySelected (ev_RoomID: string) (ev_StoryID: StoryID) (ev_OccurredAt: time)
  | StoryEstimated (ev_RoomID: string) (ev_StoryID: StoryID) (ev_Result: "float32 option")
      (ev_OccurredAt: time)

fun event_Name :: "event \<Rightarrow> string" where
  "event_Name (VoteCast _ _ _ _) = ''vote-cast''"
| "event_Name (VotesRevealed _ _ _ _) = ''votes-revealed''"
| "event_Name (StorySelected _ _ _) = ''story-selected''"
| "event_Name (StoryEstimated _ _ _ _) = ''story-estimated''"

definition cloneResult :: "float32 option \<Rightarrow> float32 option" where
  "cloneResult r = (case r of None \<Rightarrow> None | Some v \<Rightarrow> Some v)"

lemma cloneResult_id [simp]: "cloneResult r = r"
  by (simp add: cloneResult_def split: option.splits)

section \<open>Rooms\<close>

record room =
  room_ID :: string
  startedAt :: time
  Clients :: collection
  DeckType :: DeckType
  CurrentStory :: string
  Reveal :: bool
  Result :: "float32 option"
  MostAppearingVotes :: "string list option"
  Consensus :: string
  LowestVote :: "string option"
  HighestVote :: "string option"
  VoteRange :: "int option"
  VoteSpread :: "int option"
  SpecialVoteCount :: int
  BacklogMode :: bool
  Stories :: "story list"
  CurrentStoryIndex :: int
  RoomVersion :: RoomVersion
  events :: "event list"

definition NewRoomWithIDAndStartedAt :: "string \<Rightarrow> collection \<Rightarrow> time \<Rightarrow> room" where
  "NewRoomWithIDAndStartedAt i cs t =
     \<lparr>room_ID = i, startedAt = UTC t, Clients = cs, DeckType = DeckTypeFibonacci,
      CurrentStory = [], Reveal = False, Result = None, MostAppearingVotes = None,
      Consensus = [], LowestVote = None, HighestVote = None, VoteRange = None,
      VoteSpread = None, SpecialVoteCount = 0, BacklogMode = True, Stories = [],
      CurrentStoryIndex = 0, RoomVersion = 0, events = []\<rparr>"

definition NewRoomWithID :: "time \<Rightarrow> string \<Rightarrow> collection \<Rightarrow> room" where
  "NewRoomWithID now i cs = NewRoomWithIDAndStartedAt i cs (UTC now)"

text \<open>\<open>uuid\<close> is what \<open>uuid.NewString()\<close> returns.\<close>

definition NewRoom :: "string \<Rightarrow> time \<Rightarrow> collection \<Rightarrow> room" where
  "NewRoom uuid now cs = NewRoomWithID now uuid cs"

definition NewRoomWithIDAndDeck :: "time \<Rightarrow> string \<Rightarrow> collection \<Rightarrow> DeckType \<Rightarrow> room" where
  "NewRoomWithIDAndDeck now i cs t =
     (NewRoomWithIDAndStartedAt i cs (UTC now))\<lparr>DeckType := t\<rparr>"

definition NewRoomWithDeck :: "string \<Rightarrow> time \<Rightarrow> collection \<Rightarrow> DeckType \<Rightarrow> room" where
  "NewRoomWithDeck uuid now cs t = NewRoomWithIDAndDeck now uuid cs t"

definition room_Deck :: "room \<Rightarrow> deck" where
  "room_Deck r = deckForType (DeckType r)"

definition room_StartedAt :: "room \<Rightarrow> time" where
  "room_StartedAt r = startedAt r"

text \<open>\<open>PullEvents\<close> returns nil when there are none, and drains the buffer.\<close>

definition PullEvents :: "room \<Rightarrow> event list option \<times> room" where
  "PullEvents r =
     (if length (events r) = 0 then (None, r) else (Some (events r), r\<lparr>events := []\<rparr>))"

definition recordEvent :: "event \<Rightarrow> room \<Rightarrow> room" where
  "recordEvent e r = r\<lparr>events := events r @ [e]\<rparr>"

section \<open>Finding a client, writing through its pointer\<close>

definition FindClient :: "room \<Rightarrow> ClientID \<Rightarrow> client option" where
  "FindClient r i = cc_First (cc_Filter (\<lambda>c. client_ID c = i) (Clients r))"

definition CountOwners :: "room \<Rightarrow> int" where
  "CountOwners r = cc_Count (cc_Filter IsOwner (Clients r))"

definition room_IsEmpty :: "room \<Rightarrow> bool" where
  "room_IsEmpty r \<longleftrightarrow> cc_Count (Clients r) = 0"

text \<open>A write through the pointer \<open>FindClient\<close> returned.\<close>

definition upd_client :: "ClientID \<Rightarrow> (client \<Rightarrow> client) \<Rightarrow> room \<Rightarrow> room" where
  "upd_client i f r = r\<lparr>Clients := update_first (\<lambda>c. client_ID c = i) f (Clients r)\<rparr>"

text \<open>The two failures every operation of an owner starts with.\<close>

definition clientNotFound :: "ClientID \<Rightarrow> room \<Rightarrow> go_error" where
  "clientNotFound i r =
     Newf CodeNotFound ''client %s not found in room %s'' [OStr i, OStr (room_ID r)]"

definition forbidden :: "string \<Rightarrow> go_error" where
  "forbidden m = Newf CodeForbidden m []"

lemma FindClient_find: "FindClient r i = find (\<lambda>c. client_ID c = i) (Clients r)"
  by (simp add: FindClient_def cc_First_Filter del: cc_Filter_eq)

lemma FindClient_Some: "FindClient r i = Some c \<Longrightarrow> c \<in> set (Clients r) \<and> client_ID c = i"
  unfolding FindClient_find by (rule find_SomeD)

lemma FindClient_None: "FindClient r i = None \<longleftrightarrow> i \<notin> client_ID ` set (Clients r)"
  by (auto simp: FindClient_find find_None_iff)

lemma FindClient_unique:
  "distinct (map client_ID (Clients r)) \<Longrightarrow> c \<in> set (Clients r) \<Longrightarrow>
   FindClient r (client_ID c) = Some c"
  by (simp add: FindClient_find find_distinct_key)

lemma CountOwners_filter: "CountOwners r = int (length (filter IsOwner (Clients r)))"
  by (simp add: CountOwners_def cc_Count_def)

lemma CountOwners_pos: "0 < CountOwners r \<longleftrightarrow> (\<exists>c \<in> set (Clients r). IsOwner c)"
  by (auto simp: CountOwners_filter filter_empty_conv)

lemma room_IsEmpty_iff: "room_IsEmpty r \<longleftrightarrow> Clients r = []"
  by (simp add: room_IsEmpty_def cc_Count_def)

text \<open>Fields no write through a client pointer touches.\<close>

lemma upd_client_fields [simp]:
  "room_ID (upd_client i f r) = room_ID r"
  "startedAt (upd_client i f r) = startedAt r"
  "DeckType (upd_client i f r) = DeckType r"
  "CurrentStory (upd_client i f r) = CurrentStory r"
  "Reveal (upd_client i f r) = Reveal r"
  "Result (upd_client i f r) = Result r"
  "MostAppearingVotes (upd_client i f r) = MostAppearingVotes r"
  "Consensus (upd_client i f r) = Consensus r"
  "LowestVote (upd_client i f r) = LowestVote r"
  "HighestVote (upd_client i f r) = HighestVote r"
  "VoteRange (upd_client i f r) = VoteRange r"
  "VoteSpread (upd_client i f r) = VoteSpread r"
  "SpecialVoteCount (upd_client i f r) = SpecialVoteCount r"
  "BacklogMode (upd_client i f r) = BacklogMode r"
  "Stories (upd_client i f r) = Stories r"
  "CurrentStoryIndex (upd_client i f r) = CurrentStoryIndex r"
  "RoomVersion (upd_client i f r) = RoomVersion r"
  "events (upd_client i f r) = events r"
  by (simp_all add: upd_client_def)

lemma Clients_upd_client [simp]:
  "Clients (upd_client i f r) = update_first (\<lambda>c. client_ID c = i) f (Clients r)"
  by (simp add: upd_client_def)

lemma Clients_recordEvent [simp]: "Clients (recordEvent e r) = Clients r"
  by (simp add: recordEvent_def)

lemma room_Deck_catalogue: "room_Deck r \<in> set decks"
  by (simp add: room_Deck_def deckForType_catalogue)

text \<open>
  The contract of an operation reserved to owners: an unknown caller is reported as not found, a
  caller who is not an owner is refused with the operation's message, and only then does the
  operation's own code run.
\<close>

locale owner_guarded =
  fixes oper :: "ClientID \<Rightarrow> room \<Rightarrow> room \<times> go_error option"
    and denial :: string
    and body :: "ClientID \<Rightarrow> room \<Rightarrow> room \<times> go_error option"
  assumes guarded: "oper i r =
     (case FindClient r i of
        None \<Rightarrow> (r, Some (clientNotFound i r))
      | Some c \<Rightarrow> if \<not> IsOwner c then (r, Some (forbidden denial)) else body i r)"
begin

lemma unknown_caller: "FindClient r i = None \<Longrightarrow> oper i r = (r, Some (clientNotFound i r))"
  by (simp add: guarded)

lemma not_owner:
  "FindClient r i = Some c \<Longrightarrow> \<not> IsOwner c \<Longrightarrow> oper i r = (r, Some (forbidden denial))"
  by (simp add: guarded)

lemma owner: "FindClient r i = Some c \<Longrightarrow> IsOwner c \<Longrightarrow> oper i r = body i r"
  by (simp add: guarded)

text \<open>Whatever the operation changes, an owner asked for it.\<close>

lemma changes_only_by_owner:
  assumes "fst (oper i r) \<noteq> r"
  shows "\<exists>c. FindClient r i = Some c \<and> IsOwner c"
  using assms by (auto simp: guarded split: option.splits if_splits)

lemma succeeds_only_for_owner:
  assumes "snd (oper i r) = None"
  shows "\<exists>c. FindClient r i = Some c \<and> IsOwner c"
  using assms by (auto simp: guarded split: option.splits if_splits)

text \<open>An invariant of the operation's own code is one of the operation.\<close>

lemma guarded_invariant:
  assumes "I r"
    and "\<And>c. FindClient r i = Some c \<Longrightarrow> IsOwner c \<Longrightarrow> I (fst (body i r))"
  shows "I (fst (oper i r))"
  using assms by (auto simp: guarded split: option.splits)

lemma guarded_error_unchanged:
  assumes "snd (oper i r) \<noteq> None" and "snd (body i r) \<noteq> None \<Longrightarrow> fst (body i r) = r"
  shows "fst (oper i r) = r"
  using assms by (auto simp: guarded split: option.splits if_splits)

end

end
