(* ===== verification/Room_Voting.thy ===== *)
theory Room_Voting
  imports Room
begin

text \<open>
  Voting rounds: \<open>internal/domain/entity/room_voting.go\<close>, with \<open>checkReveal\<close> of
  \<open>room_presence.go\<close>, which votes trigger. A round is hidden until an owner reveals it or every
  participant has voted; the transition to revealed computes the result, the most frequent
  cards and the consensus, and stamps the current story.

  A Go map is the list of its entries. Iteration visits them in any order; the lemmas about
  \<open>mostAppearingVotes\<close> and \<open>getMostVoteCount\<close> hold for every order of the entries.
\<close>

section \<open>Counting votes\<close>

type_synonym counts = "(string \<times> int) list"

text \<open>\<open>m[k]++\<close>\<close>

fun incr :: "string \<Rightarrow> counts \<Rightarrow> counts" where
  "incr k [] = [(k, 1)]"
| "incr k ((k', n) # m) = (if k' = k then (k', n + 1) # m else (k', n) # incr k m)"

record voteMetrics =
  vm_sum :: float32
  vm_count :: float32
  vm_counts :: counts
  vm_ordered :: "string list"
  vm_specialCount :: int

definition noMetrics :: voteMetrics where
  "noMetrics = \<lparr>vm_sum = 0, vm_count = 0, vm_counts = [], vm_ordered = [], vm_specialCount = 0\<rparr>"

text \<open>One turn of the loop of \<open>collectVotes\<close>; its \<open>continue\<close>s leave the metrics as they are.\<close>

definition collect_step :: "deck \<Rightarrow> client \<Rightarrow> voteMetrics \<Rightarrow> voteMetrics" where
  "collect_step d c m =
     (if IsSpectator c then m
      else case CurrentVote c of
        None \<Rightarrow> m
      | Some vote \<Rightarrow>
          if vote = '''' then m
          else if \<not> snd (Position d vote) then m\<lparr>vm_specialCount := vm_specialCount m + 1\<rparr>
          else let m1 = (case Atoi vote of
                           Some value \<Rightarrow> m\<lparr>vm_sum := fadd32 (vm_sum m) (float32_of_int value),
                                           vm_count := fadd32 (vm_count m) 1\<rparr>
                         | None \<Rightarrow> m)
               in m1\<lparr>vm_counts := incr vote (vm_counts m1),
                     vm_ordered := vm_ordered m1 @ [vote]\<rparr>)"

fun collect_loop :: "deck \<Rightarrow> client list \<Rightarrow> voteMetrics \<Rightarrow> voteMetrics" where
  "collect_loop d [] m = m"
| "collect_loop d (c # cs) m = collect_loop d cs (collect_step d c m)"

definition collectVotes :: "room \<Rightarrow> deck \<Rightarrow> voteMetrics" where
  "collectVotes r d = collect_loop d (cc_Values (Clients r)) noMetrics"

fun mostVotes_loop :: "counts \<Rightarrow> int \<Rightarrow> string list \<Rightarrow> string list" where
  "mostVotes_loop [] n acc = acc"
| "mostVotes_loop ((vote, cnt) # m) n acc =
     mostVotes_loop m n (if cnt = n then acc @ [vote] else acc)"

text \<open>\<open>slices.SortFunc\<close> by \<open>aPosition - bPosition\<close>: the keys of the map have distinct
  positions, so every sorting algorithm returns the list \<open>sort_key\<close> returns.\<close>

definition mostAppearingVotes :: "counts \<Rightarrow> int \<Rightarrow> deck \<Rightarrow> string list" where
  "mostAppearingVotes votes n d = sort_key (\<lambda>v. fst (Position d v)) (mostVotes_loop votes n [])"

fun mostVoteCount_loop :: "counts \<Rightarrow> int \<Rightarrow> int" where
  "mostVoteCount_loop [] n = n"
| "mostVoteCount_loop ((_, cnt) # m) n = mostVoteCount_loop m (if n < cnt then cnt else n)"

definition getMostVoteCount :: "counts \<Rightarrow> int" where
  "getMostVoteCount m = mostVoteCount_loop m 0"

section \<open>Consensus\<close>

definition consensusHigh :: string where "consensusHigh = ''High''"
definition consensusMedium :: string where "consensusMedium = ''Medium''"
definition consensusLow :: string where "consensusLow = ''Low''"
definition consensusUnavailable :: string where "consensusUnavailable = ''Unavailable''"

record voteSummary =
  vs_Consensus :: string
  vs_LowestVote :: "string option"
  vs_HighestVote :: "string option"
  vs_VoteRange :: "int option"
  vs_VoteSpread :: "int option"

definition unavailableSummary :: voteSummary where
  "unavailableSummary = \<lparr>vs_Consensus = consensusUnavailable, vs_LowestVote = None,
     vs_HighestVote = None, vs_VoteRange = None, vs_VoteSpread = None\<rparr>"

fun count_loop :: "string list \<Rightarrow> counts \<Rightarrow> counts" where
  "count_loop [] m = m"
| "count_loop (v # vs) m = count_loop vs (incr v m)"

text \<open>The second loop: lowest and highest position, \<open>-1\<close> for none, and their labels.\<close>

definition extreme_step ::
  "deck \<Rightarrow> string \<Rightarrow> (int \<times> string) \<times> (int \<times> string) \<Rightarrow> (int \<times> string) \<times> (int \<times> string)" where
  "extreme_step d vote =
     (\<lambda>((minP, minL), (maxP, maxL)).
        (case Position d vote of (p, ok) \<Rightarrow>
           if \<not> ok then ((minP, minL), (maxP, maxL))
           else (if minP = -1 \<or> p < minP then (p, vote) else (minP, minL),
                 if maxP < p then (p, vote) else (maxP, maxL))))"

fun extreme_loop ::
  "deck \<Rightarrow> string list \<Rightarrow> (int \<times> string) \<times> (int \<times> string) \<Rightarrow> (int \<times> string) \<times> (int \<times> string)" where
  "extreme_loop d [] s = s"
| "extreme_loop d (v # vs) s = extreme_loop d vs (extreme_step d v s)"

definition calculateConsensus :: "deck \<Rightarrow> string list \<Rightarrow> voteSummary" where
  "calculateConsensus d votes =
     (if length votes = 0 then unavailableSummary
      else
        let voteCounts = count_loop votes [];
            ((minPosition, minLabel), (maxPosition, maxLabel)) =
              extreme_loop d votes ((-1, ''''), (-1, ''''))
        in if minPosition = -1 then unavailableSummary
           else
             let spread = maxPosition - minPosition;
                 mostVoteCount = getMostVoteCount voteCounts;
                 strongMajority = (2 * int (length votes) + 2) div 3 \<le> mostVoteCount;
                 consensus =
                   (if minLabel = maxLabel then consensusHigh
                    else if strongMajority \<and> spread \<le> 1 then consensusHigh
                    else if spread \<le> 2 then consensusMedium
                    else consensusLow);
                 voteRange =
                   (case Atoi minLabel of
                      None \<Rightarrow> None
                    | Some minValue \<Rightarrow>
                        (case Atoi maxLabel of
                           None \<Rightarrow> None
                         | Some maxValue \<Rightarrow> Some (maxValue - minValue)))
             in \<lparr>vs_Consensus = consensus, vs_LowestVote = Some minLabel,
                 vs_HighestVote = Some maxLabel, vs_VoteRange = voteRange,
                 vs_VoteSpread = Some spread\<rparr>)"

section \<open>Revealing and hiding\<close>

definition clearConsensus :: "room \<Rightarrow> room" where
  "clearConsensus r = r\<lparr>Result := None, MostAppearingVotes := None, Consensus := '''',
     LowestVote := None, HighestVote := None, VoteRange := None, VoteSpread := None,
     SpecialVoteCount := 0\<rparr>"

text \<open>The stamp on the current story, and its ID, \<open>''''\<close> when no story is stamped.\<close>

definition stampStory :: "room \<Rightarrow> room \<times> StoryID" where
  "stampStory r =
     (if BacklogMode r \<and> 0 \<le> CurrentStoryIndex r \<and> CurrentStoryIndex r < int (length (Stories r))
      then let i = nat (CurrentStoryIndex r); s = Stories r ! i
           in (r\<lparr>Stories := (Stories r)[i := s\<lparr>story_Result := Result r,
                   story_MostAppearingVotes := MostAppearingVotes r, story_Voted := True\<rparr>]\<rparr>,
               story_ID s)
      else (r, ''''))"

text \<open>\<open>reveal\<close> reads the clock for the \<open>VotesRevealed\<close> and then the \<open>StoryEstimated\<close> event.\<close>

definition reveal :: "clock \<Rightarrow> bool \<Rightarrow> room \<Rightarrow> room" where
  "reveal clk revealed r =
     (if revealed \<and> Reveal r then r
      else
        let r1 = r\<lparr>Reveal := revealed\<rparr>
        in if \<not> revealed then clearConsensus r1
           else
             let d = room_Deck r1;
                 m = collectVotes r1 d;
                 r2 = r1\<lparr>MostAppearingVotes :=
                        Some (mostAppearingVotes (vm_counts m) (getMostVoteCount (vm_counts m)) d)\<rparr>;
                 r3 = r2\<lparr>Result := (if 0 < vm_count m then Some (fdiv32 (vm_sum m) (vm_count m))
                                    else None)\<rparr>;
                 summary = calculateConsensus d (vm_ordered m);
                 r4 = r3\<lparr>Consensus := vs_Consensus summary, LowestVote := vs_LowestVote summary,
                         HighestVote := vs_HighestVote summary, VoteRange := vs_VoteRange summary,
                         VoteSpread := vs_VoteSpread summary,
                         SpecialVoteCount := vm_specialCount m\<rparr>;
                 (r5, estimatedStoryID) = stampStory r4;
                 r6 = recordEvent (VotesRevealed (room_ID r5) (cloneResult (Result r5)) (Consensus r5)
                        (UTC (clk 0))) r5
             in if estimatedStoryID \<noteq> ''''
                then recordEvent (StoryEstimated (room_ID r6) estimatedStoryID
                       (cloneResult (Result r6)) (UTC (clk 1))) r6
                else r6)"

definition checkReveal :: "clock \<Rightarrow> room \<Rightarrow> room" where
  "checkReveal clk r =
     (if list_all HasVoted (cc_Values (cc_Filter (\<lambda>c. \<not> IsSpectator c) (Clients r)))
      then reveal clk True r else r)"

section \<open>Operations\<close>

text \<open>\<open>r.applyVote(client, vote)\<close>: nothing is applied to a revealed round. The client returned
  is what the pointer holds afterwards.\<close>

definition room_applyVote :: "time \<Rightarrow> room \<Rightarrow> Vote option \<Rightarrow> client \<Rightarrow> bool \<times> client" where
  "room_applyVote now r vote c =
     (if Reveal r then (False, c) else (True, client_applyVote now vote c))"

text \<open>\<open>ForEach(func(c) { r.applyVote(c, nil) })\<close>; clearing a vote does not read the clock.\<close>

definition clearVotes :: "room \<Rightarrow> room" where
  "clearVotes r = r\<lparr>Clients := cc_ForEach (\<lambda>c. snd (room_applyVote zero_time r None c)) (Clients r)\<rparr>"

text \<open>\<open>Vote\<close> reads the clock in \<open>applyVote\<close>, for the event, and in \<open>reveal\<close>.\<close>

definition Vote :: "clock \<Rightarrow> ClientID \<Rightarrow> Vote option \<Rightarrow> room update" where
  "Vote clk i vote r =
     (case FindClient r i of
        None \<Rightarrow> (r, Some (clientNotFound i r))
      | Some client \<Rightarrow>
          (let nonEmpty = (case vote of None \<Rightarrow> False | Some v \<Rightarrow> \<not> Vote_IsEmpty v);
               d = room_Deck r
           in if nonEmpty \<and> \<not> HasCard d (the vote)
              then (r, Some (Newf CodeValidation ''vote %q is not part of deck %s''
                              [OStr (the vote), OStr (deck_ID d)]))
              else
                let applied = fst (room_applyVote (clk 0) r vote client);
                    r1 = upd_client i (\<lambda>c. snd (room_applyVote (clk 0) r vote c)) r;
                    r2 = (if applied \<and> nonEmpty
                          then recordEvent (VoteCast (room_ID r1) i (the vote) (UTC (clk 1))) r1
                          else r1)
                in (checkReveal (\<lambda>n. clk (n + 2)) r2, None)))"

definition ToggleReveal :: "clock \<Rightarrow> ClientID \<Rightarrow> room update" where
  "ToggleReveal clk i r =
     (case FindClient r i of
        None \<Rightarrow> (r, Some (clientNotFound i r))
      | Some client \<Rightarrow>
          if \<not> IsOwner client
          then (r, Some (forbidden ''only the room owner can toggle reveal''))
          else (reveal clk (\<not> Reveal r) r, None))"

definition ResetVoting :: "clock \<Rightarrow> ClientID \<Rightarrow> room update" where
  "ResetVoting clk i r =
     (case FindClient r i of
        None \<Rightarrow> (r, Some (clientNotFound i r))
      | Some client \<Rightarrow>
          if \<not> IsOwner client
          then (r, Some (forbidden ''only the room owner can reset voting''))
          else (clearVotes (reveal clk False r), None))"

interpretation toggle_reveal:
  owner_guarded "ToggleReveal clk" "''only the room owner can toggle reveal''"
    "\<lambda>i r. (reveal clk (\<not> Reveal r) r, None)"
  for clk
  by unfold_locales (simp add: ToggleReveal_def)

interpretation reset_voting:
  owner_guarded "ResetVoting clk" "''only the room owner can reset voting''"
    "\<lambda>i r. (clearVotes (reveal clk False r), None)"
  for clk
  by unfold_locales (simp add: ResetVoting_def)

end
