(* ===== verification/Voting_Facts.thy ===== *)
theory Voting_Facts
  imports Room_Voting
begin

text \<open>
  What a revealed round reports, proved of the loops of \<open>Room_Voting\<close>: the tally of the votes,
  the most frequent cards, the average, the consensus. Every statement about a Go map holds for
  each order in which its entries may be visited.
\<close>

section \<open>The tally\<close>

text \<open>The votes that count: those of participants who are not spectators and hold a label.\<close>

definition cast_votes :: "client list \<Rightarrow> string list" where
  "cast_votes cs = map (\<lambda>c. the (CurrentVote c))
     (filter (\<lambda>c. \<not> IsSpectator c \<and> CurrentVote c \<noteq> None \<and> CurrentVote c \<noteq> Some '''') cs)"

definition estimates :: "deck \<Rightarrow> client list \<Rightarrow> string list" where
  "estimates d cs = filter (\<lambda>v. v \<in> set (EstimateCards d)) (cast_votes cs)"

definition specials :: "deck \<Rightarrow> client list \<Rightarrow> string list" where
  "specials d cs = filter (\<lambda>v. v \<notin> set (EstimateCards d)) (cast_votes cs)"

definition numbers :: "string list \<Rightarrow> int list" where
  "numbers vs = map (\<lambda>v. the (Atoi v)) (filter (\<lambda>v. Atoi v \<noteq> None) vs)"

text \<open>\<open>m\<close> lists, in some order, each vote of \<open>vs\<close> once, with the number of times it occurs.\<close>

definition tallies :: "string list \<Rightarrow> counts \<Rightarrow> bool" where
  "tallies vs m \<longleftrightarrow> distinct (map fst m) \<and>
     (\<forall>k n. (k, n) \<in> set m \<longleftrightarrow> k \<in> set vs \<and> n = int (count_list vs k))"

lemma set_cast_votes: "set (cast_votes cs) \<subseteq> {v. v \<noteq> ''''}"
  by (auto simp: cast_votes_def)

lemma fst_incr: "fst ` set (incr v m) = insert v (fst ` set m)"
  by (induction m rule: incr.induct) auto

lemma distinct_incr: "distinct (map fst m) \<Longrightarrow> distinct (map fst (incr v m))"
proof (induction v m rule: incr.induct)
  case (2 k k' n m)
  then show ?case using fst_incr [of k m] by (auto simp: image_iff)
qed simp

lemma incr_other: "k \<noteq> v \<Longrightarrow> (k, n) \<in> set (incr v m) \<longleftrightarrow> (k, n) \<in> set m"
  by (induction v m rule: incr.induct) auto

lemma incr_new: "v \<notin> fst ` set m \<Longrightarrow> (v, n) \<in> set (incr v m) \<longleftrightarrow> n = 1"
  by (induction v m rule: incr.induct) (auto simp: image_iff)

lemma incr_old:
  "distinct (map fst m) \<Longrightarrow> v \<in> fst ` set m \<Longrightarrow>
   (v, n) \<in> set (incr v m) \<longleftrightarrow> (v, n - 1) \<in> set m"
proof (induction v m rule: incr.induct)
  case (2 v k' n' m)
  then show ?case by (cases "k' = v") (auto simp: image_iff)
qed simp

lemma tallies_Nil [simp]: "tallies [] m \<longleftrightarrow> m = []"
  by (cases m) (auto simp: tallies_def)

lemma tallies_incr:
  assumes "tallies vs m"
  shows "tallies (vs @ [v]) (incr v m)"
proof -
  have dist: "distinct (map fst m)"
    and mem: "(k, n) \<in> set m \<longleftrightarrow> k \<in> set vs \<and> n = int (count_list vs k)" for k n
    using assms by (auto simp: tallies_def)
  have keys: "v \<in> fst ` set m \<longleftrightarrow> v \<in> set vs" using mem by force
  have "(k, n) \<in> set (incr v m) \<longleftrightarrow> k \<in> set (vs @ [v]) \<and> n = int (count_list (vs @ [v]) k)" for k n
  proof (cases "k = v")
    case False
    then show ?thesis by (simp add: incr_other mem)
  next
    case True
    show ?thesis
    proof (cases "v \<in> set vs")
      case True
      then show ?thesis using incr_old [OF dist, of v n] \<open>k = v\<close> by (auto simp: keys mem)
    next
      case False
      then show ?thesis using incr_new [of v m n] \<open>k = v\<close> by (simp add: keys)
    qed
  qed
  then show ?thesis using distinct_incr [OF dist] by (simp add: tallies_def)
qed

lemma tallies_mset:
  assumes "tallies vs m" and "mset m' = mset m"
  shows "tallies vs m'"
proof -
  have "distinct (map fst m') = distinct (map fst m)"
    by (rule distinct_mset_eq) (simp add: assms(2))
  moreover have "set m' = set m" using assms(2) by (rule mset_eq_setD)
  ultimately show ?thesis using assms(1) by (simp add: tallies_def)
qed

lemma tallies_count_loop: "tallies us m \<Longrightarrow> tallies (us @ vs) (count_loop vs m)"
proof (induction vs arbitrary: us m)
  case (Cons v vs)
  from Cons.IH [OF tallies_incr [OF Cons.prems, of v]] show ?case by simp
qed simp

lemma count_loop_tallies [simp]: "tallies vs (count_loop vs [])"
  using tallies_count_loop [of "[]" "[]" vs] by simp

section \<open>The loop of \<open>collectVotes\<close>\<close>

text \<open>What the metrics hold once the clients \<open>cs\<close> have been visited.\<close>

definition metrics_of :: "deck \<Rightarrow> client list \<Rightarrow> voteMetrics \<Rightarrow> bool" where
  "metrics_of d cs m \<longleftrightarrow>
     vm_ordered m = estimates d cs \<and> tallies (estimates d cs) (vm_counts m) \<and>
     vm_specialCount m = int (length (specials d cs)) \<and>
     vm_sum m = foldl fadd32 0 (map float32_of_int (numbers (estimates d cs))) \<and>
     vm_count m = foldl fadd32 0 (map (\<lambda>_. 1) (numbers (estimates d cs)))"

lemma metrics_collect_step:
  assumes "metrics_of d cs m"
  shows "metrics_of d (cs @ [c]) (collect_step d c m)"
proof -
  consider (skip) "IsSpectator c \<or> CurrentVote c = None \<or> CurrentVote c = Some ''''"
    | (vote) v where "\<not> IsSpectator c" "CurrentVote c = Some v" "v \<noteq> ''''"
    by (cases "CurrentVote c") auto
  then show ?thesis
  proof cases
    case skip
    then have "collect_step d c m = m" by (auto simp: collect_step_def)
    moreover from skip have "cast_votes (cs @ [c]) = cast_votes cs" by (auto simp: cast_votes_def)
    ultimately show ?thesis using assms by (simp add: metrics_of_def estimates_def specials_def)
  next
    case vote
    then have cast: "cast_votes (cs @ [c]) = cast_votes cs @ [v]" by (simp add: cast_votes_def)
    have step: "collect_step d c m =
      (if v \<notin> set (EstimateCards d) then m\<lparr>vm_specialCount := vm_specialCount m + 1\<rparr>
       else let m1 = (case Atoi v of
              Some x \<Rightarrow> m\<lparr>vm_sum := fadd32 (vm_sum m) (float32_of_int x),
                          vm_count := fadd32 (vm_count m) 1\<rparr>
            | None \<Rightarrow> m)
            in m1\<lparr>vm_counts := incr v (vm_counts m1), vm_ordered := vm_ordered m1 @ [v]\<rparr>)"
      using vote by (simp add: collect_step_def)
    show ?thesis
      using assms tallies_incr [of "estimates d cs" "vm_counts m" v]
      unfolding step metrics_of_def estimates_def specials_def cast
      by (cases "Atoi v") (simp_all add: Let_def numbers_def)
  qed
qed

lemma metrics_collect_loop:
  "metrics_of d us m \<Longrightarrow> metrics_of d (us @ cs) (collect_loop d cs m)"
proof (induction cs arbitrary: us m)
  case (Cons c cs)
  from Cons.IH [OF metrics_collect_step [OF Cons.prems, of c]] show ?case by simp
qed simp

lemma metrics_collectVotes: "metrics_of d (Clients r) (collectVotes r d)"
  using metrics_collect_loop [of d "[]" noMetrics "Clients r"]
  by (simp add: collectVotes_def cc_defs metrics_of_def noMetrics_def estimates_def specials_def
      cast_votes_def numbers_def)

lemmas collectVotes_facts = metrics_collectVotes [unfolded metrics_of_def]

section \<open>The most frequent cards\<close>

definition top_count :: "string list \<Rightarrow> nat" where
  "top_count vs = fold max (map (count_list vs) vs) 0"

lemma top_count_Max: "top_count vs = Max (insert 0 (count_list vs ` set vs))"
  by (simp add: top_count_def Max.set_eq_fold [symmetric])

lemma top_count_ge: "v \<in> set vs \<Longrightarrow> count_list vs v \<le> top_count vs"
  by (simp add: top_count_Max)

lemma top_count_attained: "vs \<noteq> [] \<Longrightarrow> \<exists>v \<in> set vs. count_list vs v = top_count vs"
proof -
  assume "vs \<noteq> []"
  then obtain v where v: "v \<in> set vs" by (cases vs) auto
  then have "0 < count_list vs v" using count_list_0_iff [of vs v] by (metis gr0I)
  with top_count_ge [OF v] have "top_count vs \<noteq> 0" by simp
  moreover have "top_count vs \<in> insert 0 (count_list vs ` set vs)"
    unfolding top_count_Max by (rule Max_in) auto
  ultimately show ?thesis by auto
qed

lemma mostVoteCount_loop_Max:
  "mostVoteCount_loop m n = Max (insert n (snd ` set m))"
proof (induction m arbitrary: n)
  case (Cons e m)
  obtain k c where e: "e = (k, c)" by (cases e)
  have "Max (insert n (insert c (snd ` set m))) = Max (insert (max n c) (snd ` set m))"
    by (cases "m = []") (simp_all add: max.assoc [symmetric])
  then show ?case by (auto simp: e Cons.IH max_def not_less)
qed simp

lemma getMostVoteCount_top:
  assumes "tallies vs m"
  shows "getMostVoteCount m = int (top_count vs)"
proof -
  have "snd ` set m = int ` count_list vs ` set vs"
    using assms by (force simp: tallies_def image_iff)
  moreover have "int (Max (insert 0 S)) = Max (insert 0 (int ` S))" if "finite S" for S
    using that mono_Max_commute [of int "insert 0 S"] by (simp add: mono_def)
  ultimately show ?thesis
    by (simp add: getMostVoteCount_def mostVoteCount_loop_Max top_count_Max)
qed

lemma mostVotes_loop_filter:
  "mostVotes_loop m n acc = acc @ map fst (filter (\<lambda>e. snd e = n) m)"
  by (induction m arbitrary: acc) auto

lemma Position_EstimateCards:
  "distinct (EstimateCards d) \<Longrightarrow>
   map (\<lambda>v. fst (Position d v)) (EstimateCards d) = map int [0..<length (EstimateCards d)]"
  by (rule nth_equalityI) (simp_all add: Position_def Position_loop_nth)

lemma sorted_cards:
  "distinct (EstimateCards d) \<Longrightarrow>
   sorted (map (\<lambda>v. fst (Position d v)) (filter P (EstimateCards d)))"
  by (rule sorted_filter) (simp add: Position_EstimateCards sorted_map sorted_wrt_map)

lemma mostAppearingVotes_cards:
  assumes m: "tallies vs m" and vs: "set vs \<subseteq> set (EstimateCards d)"
    and d: "distinct (EstimateCards d)"
  shows "mostAppearingVotes m (getMostVoteCount m) d =
    filter (\<lambda>c. c \<in> set vs \<and> count_list vs c = top_count vs) (EstimateCards d)"
    (is "_ = ?ys")
proof -
  let ?xs = "map fst (filter (\<lambda>e. snd e = int (top_count vs)) m)"
  have set: "set ?xs = set ?ys" using m vs by (auto simp: tallies_def image_iff)
  have "distinct ?xs" using m by (simp add: tallies_def distinct_map_filter)
  moreover have "distinct ?ys" using d by simp
  ultimately have "mset ?xs = mset ?ys" using set set_eq_iff_mset_eq_distinct by blast
  moreover have "inj_on (\<lambda>v. fst (Position d v)) (set ?xs)"
    by (rule inj_on_subset [OF Position_inj_on]) (unfold set, auto)
  ultimately show ?thesis
    unfolding mostAppearingVotes_def getMostVoteCount_top [OF m] mostVotes_loop_filter append_Nil
    by (rule sort_key_inj_key_eq) (rule sorted_cards [OF d])
qed

section \<open>The consensus\<close>

text \<open>The lowest and the highest card voted for, in the order of the deck.\<close>

definition voted_cards :: "deck \<Rightarrow> string list \<Rightarrow> string list" where
  "voted_cards d vs = filter (\<lambda>c. c \<in> set vs) (EstimateCards d)"

definition lowest :: "deck \<Rightarrow> string list \<Rightarrow> string" where
  "lowest d vs = hd (voted_cards d vs)"

definition highest :: "deck \<Rightarrow> string list \<Rightarrow> string" where
  "highest d vs = last (voted_cards d vs)"

text \<open>The distance between them, in cards, and the level of consensus: everyone on one card, or
  two thirds on one card and the rest next to it, is high; within two cards is medium.\<close>

definition card_spread :: "deck \<Rightarrow> string list \<Rightarrow> int" where
  "card_spread d vs = fst (Position d (highest d vs)) - fst (Position d (lowest d vs))"

definition consensus_level :: "deck \<Rightarrow> string list \<Rightarrow> string" where
  "consensus_level d vs =
     (if card_spread d vs = 0 \<or> card_spread d vs = 1 \<and> 2 * length vs \<le> 3 * top_count vs then ''High''
      else if card_spread d vs \<le> 2 then ''Medium'' else ''Low'')"

definition numeric_range :: "deck \<Rightarrow> string list \<Rightarrow> int option" where
  "numeric_range d vs =
     (case (Atoi (lowest d vs), Atoi (highest d vs)) of
        (Some a, Some b) \<Rightarrow> Some (b - a) | _ \<Rightarrow> None)"

definition consensus_spec :: "deck \<Rightarrow> string list \<Rightarrow> voteSummary" where
  "consensus_spec d vs =
     (if vs = [] then unavailableSummary
      else \<lparr>vs_Consensus = consensus_level d vs, vs_LowestVote = Some (lowest d vs),
            vs_HighestVote = Some (highest d vs), vs_VoteRange = numeric_range d vs,
            vs_VoteSpread = Some (card_spread d vs)\<rparr>)"

lemma voted_cards_extremes:
  assumes d: "distinct (EstimateCards d)" and vs: "set vs \<subseteq> set (EstimateCards d)" "vs \<noteq> []"
  shows "lowest d vs \<in> set vs" "highest d vs \<in> set vs"
    "v \<in> set vs \<Longrightarrow> fst (Position d (lowest d vs)) \<le> fst (Position d v)"
    "v \<in> set vs \<Longrightarrow> fst (Position d v) \<le> fst (Position d (highest d vs))"
proof -
  let ?f = "\<lambda>v. fst (Position d v)"
  have set: "set (voted_cards d vs) = set vs" using vs by (auto simp: voted_cards_def)
  with vs have ne: "voted_cards d vs \<noteq> []" by (metis set_empty)
  show "lowest d vs \<in> set vs" "highest d vs \<in> set vs"
    using hd_in_set [OF ne] last_in_set [OF ne] by (simp_all add: set lowest_def highest_def)
  have srt: "sorted (map ?f (voted_cards d vs))"
    unfolding voted_cards_def by (rule sorted_cards [OF d])
  show "?f (lowest d vs) \<le> ?f v" if "v \<in> set vs"
  proof -
    obtain us where us: "voted_cards d vs = lowest d vs # us"
      using ne by (cases "voted_cards d vs") (auto simp: lowest_def)
    have "v = lowest d vs \<or> v \<in> set us" using that set unfolding us by auto
    with srt show ?thesis unfolding us by auto
  qed
  show "?f v \<le> ?f (highest d vs)" if "v \<in> set vs"
  proof -
    have us: "voted_cards d vs = butlast (voted_cards d vs) @ [highest d vs]"
      using ne by (simp add: highest_def)
    have "v \<in> set (butlast (voted_cards d vs) @ [highest d vs])" using that us set by metis
    moreover have "sorted (map ?f (butlast (voted_cards d vs) @ [highest d vs]))" using srt us by metis
    ultimately show ?thesis by (auto simp: sorted_append)
  qed
qed

text \<open>After the votes \<open>us\<close>, the loop holds a lowest and a highest of them.\<close>

definition extremes :: "deck \<Rightarrow> string list \<Rightarrow> (int \<times> string) \<times> (int \<times> string) \<Rightarrow> bool" where
  "extremes d us s \<longleftrightarrow>
     (if us = [] then s = ((-1, []), (-1, []))
      else (let ((minP, minL), (maxP, maxL)) = s in
        minL \<in> set us \<and> maxL \<in> set us \<and>
        minP = fst (Position d minL) \<and> maxP = fst (Position d maxL) \<and>
        (\<forall>v \<in> set us. minP \<le> fst (Position d v) \<and> fst (Position d v) \<le> maxP)))"

lemma extremes_step:
  assumes "extremes d us s" and "v \<in> set (EstimateCards d)"
  shows "extremes d (us @ [v]) (extreme_step d v s)"
proof -
  obtain p where p: "Position d v = (p, True)" "0 \<le> p"
    using assms(2) Position_iff [of d v] Position_nonneg [of d v] by (cases "Position d v") auto
  obtain minP minL maxP maxL where s: "s = ((minP, minL), (maxP, maxL))" by (metis surj_pair)
  show ?thesis
  proof (cases "us = []")
    case True
    then show ?thesis using assms(1) p by (simp add: extremes_def extreme_step_def)
  next
    case False
    have "minP \<noteq> -1" using assms(1) False Position_nonneg [of d minL] by (auto simp: s extremes_def)
    then show ?thesis
      using assms(1) False p by (fastforce simp: s extremes_def extreme_step_def)
  qed
qed

lemma extremes_loop:
  "extremes d us s \<Longrightarrow> set vs \<subseteq> set (EstimateCards d) \<Longrightarrow>
   extremes d (us @ vs) (extreme_loop d vs s)"
proof (induction vs arbitrary: us s)
  case (Cons v vs)
  from Cons.IH [OF extremes_step [OF Cons.prems(1), of v]] Cons.prems(2) show ?case by simp
qed simp

lemma extreme_loop_cards:
  assumes d: "distinct (EstimateCards d)" and vs: "set vs \<subseteq> set (EstimateCards d)" "vs \<noteq> []"
  shows "extreme_loop d vs ((-1, []), (-1, [])) =
    ((fst (Position d (lowest d vs)), lowest d vs), (fst (Position d (highest d vs)), highest d vs))"
proof -
  obtain a b c e where l: "extreme_loop d vs ((-1, []), (-1, [])) = ((a, b), (c, e))"
    by (metis surj_pair)
  have "extremes d ([] @ vs) (extreme_loop d vs ((-1, []), (-1, [])))"
    by (rule extremes_loop) (use vs in \<open>simp_all add: extremes_def\<close>)
  then have x: "b \<in> set vs" "e \<in> set vs" "a = fst (Position d b)" "c = fst (Position d e)"
    "\<forall>v \<in> set vs. a \<le> fst (Position d v) \<and> fst (Position d v) \<le> c"
    using vs by (auto simp: l extremes_def)
  note w = voted_cards_extremes [OF d vs]
  have "fst (Position d b) = fst (Position d (lowest d vs))"
    using x w(1) w(3) [OF x(1)] by (intro antisym) auto
  with x w(1) vs have "b = lowest d vs" by (metis Position_inj subsetD)
  moreover have "fst (Position d e) = fst (Position d (highest d vs))"
    using x w(2) w(4) [OF x(2)] by (intro antisym) auto
  with x w(2) vs have "e = highest d vs" by (metis Position_inj subsetD)
  ultimately show ?thesis using x by (simp add: l)
qed

lemma calculateConsensus_spec:
  assumes d: "distinct (EstimateCards d)" and vs: "set vs \<subseteq> set (EstimateCards d)"
  shows "calculateConsensus d vs = consensus_spec d vs"
proof (cases "vs = []")
  case True
  then show ?thesis by (simp add: calculateConsensus_def consensus_spec_def)
next
  case False
  note w = voted_cards_extremes [OF d vs False]
  have pos: "fst (Position d (lowest d vs)) \<noteq> -1" using Position_nonneg [of d "lowest d vs"] by simp
  have same: "lowest d vs = highest d vs \<longleftrightarrow> card_spread d vs = 0"
    using Position_inj [of "lowest d vs" d "highest d vs"] w(1,2) vs
    by (auto simp: card_spread_def subset_iff)
  have nonneg: "0 \<le> card_spread d vs" using w(3) [OF w(2)] by (simp add: card_spread_def)
  have majority: "(2 * int (length vs) + 2) div 3 \<le> int (top_count vs)
      \<longleftrightarrow> 2 * length vs \<le> 3 * top_count vs"
    by linarith
  have range: "(case Atoi (lowest d vs) of None \<Rightarrow> None | Some a \<Rightarrow>
      (case Atoi (highest d vs) of None \<Rightarrow> None | Some b \<Rightarrow> Some (b - a))) = numeric_range d vs"
    by (simp add: numeric_range_def split: option.splits)
  show ?thesis
    using False pos
    by (simp add: calculateConsensus_def consensus_spec_def extreme_loop_cards [OF d vs False]
        getMostVoteCount_top [OF count_loop_tallies] majority range same Let_def
        card_spread_def [symmetric] del: One_nat_def)
      (use nonneg in \<open>auto simp: consensus_level_def consensusHigh_def consensusMedium_def
        consensusLow_def\<close>)
qed

section \<open>The average\<close>

lemma fibonacci_numeric:
  assumes "v \<in> set (EstimateCards fibonacciDeck)"
  shows "\<exists>n. Atoi v = Some n \<and> 0 \<le> n \<and> n \<le> 89"
proof -
  have "Atoi v \<in> set (map Atoi (EstimateCards fibonacciDeck))" using assms by simp
  then show ?thesis unfolding fibonacci_Atoi by auto
qed

lemma numbers_fibonacci:
  assumes "set vs \<subseteq> set (EstimateCards fibonacciDeck)"
  shows "length (numbers vs) = length vs" "\<And>x. x \<in> set (numbers vs) \<Longrightarrow> 0 \<le> x \<and> x \<le> 89"
proof -
  have all: "\<exists>n. Atoi v = Some n \<and> 0 \<le> n \<and> n \<le> 89" if "v \<in> set vs" for v
    using assms that by (intro fibonacci_numeric) auto
  have id: "filter (\<lambda>v. Atoi v \<noteq> None) vs = vs" using all by (fastforce simp: filter_id_conv)
  show "length (numbers vs) = length vs" by (simp only: numbers_def id length_map)
  show "0 \<le> x \<and> x \<le> 89" if "x \<in> set (numbers vs)" for x
    using that all unfolding numbers_def id by fastforce
qed

lemma numbers_tShirt:
  "set vs \<subseteq> set (EstimateCards tShirtDeck) \<Longrightarrow> numbers vs = []"
  by (auto simp: numbers_def filter_empty_conv tShirt_Atoi subset_iff)

text \<open>Below \<open>2 ^ 24\<close> the additions of \<open>collectVotes\<close> are exact.\<close>

lemma fadd32_exact:
  "0 \<le> a \<Longrightarrow> 0 \<le> b \<Longrightarrow> a + b \<le> 2 ^ 24 \<Longrightarrow> fadd32 (of_int a) (of_int b) = of_int (a + b)"
  using round32_exact [of "a + b"] by (simp add: fadd32_def)

lemma fold_fadd32_exact:
  "(\<And>x. x \<in> set ns \<Longrightarrow> 0 \<le> x) \<Longrightarrow> 0 \<le> a \<Longrightarrow> a + sum_list ns \<le> 2 ^ 24 \<Longrightarrow>
   foldl fadd32 (of_int a) (map float32_of_int ns) = of_int (a + sum_list ns)"
proof (induction ns arbitrary: a)
  case (Cons n ns)
  have n: "0 \<le> n" and ns: "0 \<le> sum_list ns" using Cons.prems(1) by (simp_all add: sum_list_nonneg)
  have "n \<le> 2 ^ 24" and b: "a + n \<le> 2 ^ 24" using Cons.prems n ns by simp_all
  then have "float32_of_int n = of_int n" using n by (simp only: float32_of_int_def round32_exact)
  with fadd32_exact [OF Cons.prems(2) n b]
  have "foldl fadd32 (of_int a) (map float32_of_int (n # ns)) =
      foldl fadd32 (of_int (a + n)) (map float32_of_int ns)" by simp
  also have "\<dots> = of_int (a + n + sum_list ns)"
    by (rule Cons.IH) (use Cons.prems n in auto)
  finally show ?case by (simp add: add.assoc)
qed simp

lemma float32_of_int_1: "float32_of_int 1 = 1"
  using round32_exact [of 1] by (simp add: float32_of_int_def)

lemma sum_list_bounds:
  "(\<And>x. x \<in> set ns \<Longrightarrow> a \<le> x \<and> x \<le> b) \<Longrightarrow>
   a * int (length ns) \<le> sum_list ns \<and> sum_list ns \<le> b * int (length ns)"
  by (induction ns) (auto simp: algebra_simps intro!: add_mono)

text \<open>Up to \<open>2 ^ 17\<close> votes of the numeric deck are added and counted without rounding.\<close>

lemma sums_exact:
  assumes "\<And>x. x \<in> set ns \<Longrightarrow> 0 \<le> x \<and> x \<le> 89" and len: "length ns \<le> 2 ^ 17"
  shows "foldl fadd32 0 (map float32_of_int ns) = of_int (sum_list ns)"
    and "foldl fadd32 0 (map (\<lambda>_. 1) ns) = of_int (int (length ns))"
proof -
  have "int (length ns) \<le> 2 ^ 17" using len by simp
  then have s: "sum_list ns \<le> 2 ^ 24" "int (length ns) \<le> 2 ^ 24"
    using sum_list_bounds [of ns 0 89] assms(1) by (auto simp del: of_nat_le_iff)
  show "foldl fadd32 0 (map float32_of_int ns) = of_int (sum_list ns)"
    using fold_fadd32_exact [of ns 0] assms(1) s(1) by simp
  have ones: "sum_list (map (\<lambda>_. 1 :: int) ns) = int (length ns)" by (induction ns) simp_all
  have "foldl fadd32 (of_int 0) (map float32_of_int (map (\<lambda>_. 1) ns)) =
      of_int (0 + sum_list (map (\<lambda>_. 1) ns))"
    by (rule fold_fadd32_exact) (use s(2) ones in auto)
  then show "foldl fadd32 0 (map (\<lambda>_. 1) ns) = of_int (int (length ns))"
    by (simp add: ones float32_of_int_1 comp_def)
qed

lemma average_between:
  assumes ne: "ns \<noteq> []" and b: "\<And>x. x \<in> set ns \<Longrightarrow> a \<le> x \<and> x \<le> b" and "0 \<le> a" "b \<le> 2 ^ 24"
  shows "of_int a \<le> round32 (of_int (sum_list ns) / of_int (int (length ns))) \<and>
    round32 (of_int (sum_list ns) / of_int (int (length ns))) \<le> of_int b"
proof (rule round32_between)
  have n: "0 < int (length ns)" using ne by simp
  have s: "a * int (length ns) \<le> sum_list ns" "sum_list ns \<le> b * int (length ns)"
    using sum_list_bounds [of ns a b] b by auto
  have "rat_of_int a * of_int (int (length ns)) \<le> of_int (sum_list ns)"
    using s(1) by (metis of_int_le_iff of_int_mult)
  moreover have "of_int (sum_list ns) \<le> rat_of_int b * of_int (int (length ns))"
    using s(2) by (metis of_int_le_iff of_int_mult)
  ultimately show "of_int a \<le> rat_of_int (sum_list ns) / of_int (int (length ns))"
    "rat_of_int (sum_list ns) / of_int (int (length ns)) \<le> of_int b"
    using n by (simp_all add: field_simps)
qed (use assms in auto)

section \<open>The transition to a revealed round\<close>

lemma count_pos:
  "0 \<le> a \<Longrightarrow> 0 \<le> foldl fadd32 a (map (\<lambda>_. 1) ns) \<and>
   (ns \<noteq> [] \<longrightarrow> 1 \<le> foldl fadd32 a (map (\<lambda>_. 1) ns))"
proof (induction ns arbitrary: a)
  case (Cons n ns)
  have one: "1 \<le> fadd32 a 1"
    using round32_mono [of 1 "a + 1"] round32_exact [of 1] Cons.prems by (simp add: fadd32_def)
  then have "0 \<le> fadd32 a 1" by simp
  from Cons.IH [OF this] one show ?case by (cases ns) auto
qed simp

text \<open>The votes of a round, and its average as binary32 computes it.\<close>

definition round_votes :: "room \<Rightarrow> string list" where
  "round_votes r = estimates (room_Deck r) (Clients r)"

definition round_result :: "room \<Rightarrow> float32 option" where
  "round_result r =
     (let ns = numbers (round_votes r)
      in if ns = [] then None
         else Some (fdiv32 (foldl fadd32 0 (map float32_of_int ns))
                           (foldl fadd32 0 (map (\<lambda>_. 1) ns))))"

definition most_frequent :: "room \<Rightarrow> string list" where
  "most_frequent r =
     filter (\<lambda>c. c \<in> set (round_votes r) \<and> count_list (round_votes r) c = top_count (round_votes r))
       (EstimateCards (room_Deck r))"

definition story_stamped :: "room \<Rightarrow> bool" where
  "story_stamped r \<longleftrightarrow> BacklogMode r \<and> 0 \<le> CurrentStoryIndex r \<and>
     CurrentStoryIndex r < int (length (Stories r))"

definition stamped_stories :: "room \<Rightarrow> story list" where
  "stamped_stories r =
     (if story_stamped r
      then (Stories r)[nat (CurrentStoryIndex r) := (Stories r ! nat (CurrentStoryIndex r))
        \<lparr>story_Result := round_result r, story_MostAppearingVotes := Some (most_frequent r),
         story_Voted := True\<rparr>]
      else Stories r)"

definition reveal_events :: "clock \<Rightarrow> room \<Rightarrow> event list" where
  "reveal_events clk r =
     VotesRevealed (room_ID r) (round_result r)
       (vs_Consensus (consensus_spec (room_Deck r) (round_votes r))) (UTC (clk 0)) #
     (if story_stamped r \<and> story_ID (Stories r ! nat (CurrentStoryIndex r)) \<noteq> ''''
      then [StoryEstimated (room_ID r) (story_ID (Stories r ! nat (CurrentStoryIndex r)))
              (round_result r) (UTC (clk 1))]
      else [])"

definition revealed_room :: "clock \<Rightarrow> room \<Rightarrow> room" where
  "revealed_room clk r =
     (let s = consensus_spec (room_Deck r) (round_votes r)
      in r\<lparr>Reveal := True, Result := round_result r, MostAppearingVotes := Some (most_frequent r),
           Consensus := vs_Consensus s, LowestVote := vs_LowestVote s,
           HighestVote := vs_HighestVote s, VoteRange := vs_VoteRange s,
           VoteSpread := vs_VoteSpread s,
           SpecialVoteCount := int (length (specials (room_Deck r) (Clients r))),
           Stories := stamped_stories r, events := events r @ reveal_events clk r\<rparr>)"

lemma distinct_room_cards: "distinct (EstimateCards (room_Deck r))"
  by (simp add: room_Deck_def distinct_EstimateCards)

lemma round_votes_cards: "set (round_votes r) \<subseteq> set (EstimateCards (room_Deck r))"
  by (auto simp: round_votes_def estimates_def)

lemma room_Deck_update [simp]:
  "room_Deck (r\<lparr>Reveal := b\<rparr>) = room_Deck r" "room_Deck (r\<lparr>Clients := cs\<rparr>) = room_Deck r"
  by (simp_all add: room_Deck_def)

lemma round_Reveal [simp]:
  "collectVotes (r\<lparr>Reveal := b\<rparr>) d = collectVotes r d"
  "round_votes (r\<lparr>Reveal := b\<rparr>) = round_votes r"
  "round_result (r\<lparr>Reveal := b\<rparr>) = round_result r"
  "most_frequent (r\<lparr>Reveal := b\<rparr>) = most_frequent r"
  by (simp_all add: collectVotes_def round_votes_def round_result_def most_frequent_def)

lemma collectVotes_result:
  "(if 0 < vm_count (collectVotes r (room_Deck r))
    then Some (fdiv32 (vm_sum (collectVotes r (room_Deck r))) (vm_count (collectVotes r (room_Deck r))))
    else None) = round_result r"
proof (cases "numbers (round_votes r) = []")
  case False
  then show ?thesis using count_pos [of 0 "numbers (round_votes r)"] collectVotes_facts [of r "room_Deck r"]
    by (simp add: round_result_def round_votes_def Let_def)
qed (use collectVotes_facts [of r "room_Deck r"] in \<open>simp add: round_result_def round_votes_def\<close>)

lemma collectVotes_most:
  "mset m = mset (vm_counts (collectVotes r (room_Deck r))) \<Longrightarrow>
   mostAppearingVotes m (getMostVoteCount m) (room_Deck r) = most_frequent r"
  unfolding most_frequent_def
  by (rule mostAppearingVotes_cards [OF tallies_mset _ distinct_room_cards])
    (use collectVotes_facts [of r "room_Deck r"] round_votes_cards in \<open>auto simp: round_votes_def\<close>)

lemma reveal_on: "\<not> Reveal r \<Longrightarrow> reveal clk True r = revealed_room clk r"
proof -
  assume hidden: "\<not> Reveal r"
  let ?d = "room_Deck r"
  have cons: "calculateConsensus ?d (vm_ordered (collectVotes r ?d)) = consensus_spec ?d (round_votes r)"
    using collectVotes_facts [of r ?d] calculateConsensus_spec [OF distinct_room_cards round_votes_cards]
    by (simp add: round_votes_def)
  have spec: "vm_specialCount (collectVotes r ?d) = int (length (specials ?d (Clients r)))"
    using collectVotes_facts [of r ?d] by simp
  note eqs = cons spec collectVotes_result collectVotes_most [OF refl]
  note defs = reveal_def stampStory_def recordEvent_def revealed_room_def stamped_stories_def
    reveal_events_def
  show ?thesis
  proof (cases "story_stamped r")
    case True
    then show ?thesis
      using hidden
      by (cases "story_ID (Stories r ! nat (CurrentStoryIndex r)) = []")
        (simp_all add: defs story_stamped_def Let_def eqs split del: if_split cong: if_cong)
  next
    case False
    note unstamped = False [unfolded story_stamped_def]
    show ?thesis
      using hidden
      by (simp add: defs story_stamped_def Let_def eqs unstamped split del: if_split cong: if_cong)
  qed
qed

lemma reveal_again [simp]: "Reveal r \<Longrightarrow> reveal clk True r = r"
  by (simp add: reveal_def)

lemma reveal_off: "reveal clk False r = clearConsensus (r\<lparr>Reveal := False\<rparr>)"
  by (simp add: reveal_def)

lemma reveal_cases:
  obtains "b" "Reveal r" "reveal clk b r = r"
  | "b" "\<not> Reveal r" "reveal clk b r = revealed_room clk r"
  | "\<not> b" "reveal clk b r = clearConsensus (r\<lparr>Reveal := False\<rparr>)"
  using reveal_on [of r clk] reveal_off [of clk r] by (cases b; cases "Reveal r") auto

lemma reveal_fields [simp]:
  "room_ID (reveal clk b r) = room_ID r" "startedAt (reveal clk b r) = startedAt r"
  "Clients (reveal clk b r) = Clients r" "DeckType (reveal clk b r) = DeckType r"
  "CurrentStory (reveal clk b r) = CurrentStory r" "Reveal (reveal clk b r) = b"
  "BacklogMode (reveal clk b r) = BacklogMode r"
  "CurrentStoryIndex (reveal clk b r) = CurrentStoryIndex r"
  "RoomVersion (reveal clk b r) = RoomVersion r"
  "length (Stories (reveal clk b r)) = length (Stories r)"
  by (cases rule: reveal_cases [of b r clk];
      simp add: revealed_room_def clearConsensus_def Let_def stamped_stories_def)+

lemma reveal_story_IDs [simp]: "map story_ID (Stories (reveal clk b r)) = map story_ID (Stories r)"
  by (cases rule: reveal_cases [of b r clk])
    (auto simp: revealed_room_def clearConsensus_def Let_def stamped_stories_def story_stamped_def
      map_update intro!: nth_equalityI simp: nth_list_update)

section \<open>Votes cleared, votes applied, rounds revealed\<close>

lemma Clients_clearVotes [simp]:
  "Clients (clearVotes r) =
     (if Reveal r then Clients r else map (client_applyVote zero_time None) (Clients r))"
  by (simp add: clearVotes_def cc_ForEach_def room_applyVote_def)

lemma clearVotes_fields [simp]:
  "room_ID (clearVotes r) = room_ID r" "startedAt (clearVotes r) = startedAt r"
  "DeckType (clearVotes r) = DeckType r" "CurrentStory (clearVotes r) = CurrentStory r"
  "Reveal (clearVotes r) = Reveal r" "BacklogMode (clearVotes r) = BacklogMode r"
  "Stories (clearVotes r) = Stories r" "CurrentStoryIndex (clearVotes r) = CurrentStoryIndex r"
  "RoomVersion (clearVotes r) = RoomVersion r" "events (clearVotes r) = events r"
  by (simp_all add: clearVotes_def)

lemma checkReveal_cases:
  "checkReveal clk r = (if list_all HasVoted (filter (\<lambda>c. \<not> IsSpectator c) (Clients r))
                        then reveal clk True r else r)"
  by (simp add: checkReveal_def cc_Values_def)

lemma checkReveal_fields [simp]:
  "room_ID (checkReveal clk r) = room_ID r" "startedAt (checkReveal clk r) = startedAt r"
  "Clients (checkReveal clk r) = Clients r" "DeckType (checkReveal clk r) = DeckType r"
  "CurrentStory (checkReveal clk r) = CurrentStory r"
  "BacklogMode (checkReveal clk r) = BacklogMode r"
  "CurrentStoryIndex (checkReveal clk r) = CurrentStoryIndex r"
  "RoomVersion (checkReveal clk r) = RoomVersion r"
  "length (Stories (checkReveal clk r)) = length (Stories r)"
  "map story_ID (Stories (checkReveal clk r)) = map story_ID (Stories r)"
  by (simp_all add: checkReveal_cases)

lemma checkReveal_revealed [simp]: "Reveal r \<Longrightarrow> checkReveal clk r = r"
  by (simp add: checkReveal_cases)

text \<open>Every participant has voted.\<close>

definition all_voted :: "room \<Rightarrow> bool" where
  "all_voted r \<longleftrightarrow> (\<forall>c \<in> set (Clients r). IsSpectator c \<or> HasVoted c)"

lemma Reveal_checkReveal [simp]: "Reveal (checkReveal clk r) \<longleftrightarrow> Reveal r \<or> all_voted r"
  by (auto simp: checkReveal_cases all_voted_def list_all_iff)

text \<open>Hiding a round that is not revealed, or revealing one twice, changes nothing more.\<close>

definition consensus_levels :: "string list" where
  "consensus_levels = [consensusHigh, consensusMedium, consensusLow, consensusUnavailable]"

definition round_ok :: "room \<Rightarrow> bool" where
  "round_ok r \<longleftrightarrow>
     (if Reveal r then MostAppearingVotes r \<noteq> None \<and> Consensus r \<in> set consensus_levels
      else Result r = None \<and> MostAppearingVotes r = None \<and> Consensus r = '''' \<and>
           LowestVote r = None \<and> HighestVote r = None \<and> VoteRange r = None \<and>
           VoteSpread r = None \<and> SpecialVoteCount r = 0)"

lemma consensus_in_levels: "vs_Consensus (consensus_spec d vs) \<in> set consensus_levels"
  by (simp add: consensus_spec_def unavailableSummary_def consensus_levels_def consensusHigh_def consensusMedium_def
      consensusLow_def consensusUnavailable_def consensus_level_def)

lemma round_ok_reveal [simp, intro]: "round_ok r \<Longrightarrow> round_ok (reveal clk b r)"
  by (cases rule: reveal_cases [of b r clk])
    (simp_all add: round_ok_def revealed_room_def clearConsensus_def Let_def consensus_in_levels)

lemma round_ok_checkReveal [simp, intro]: "round_ok r \<Longrightarrow> round_ok (checkReveal clk r)"
  by (simp add: checkReveal_cases round_ok_reveal)

lemma round_ok_frame [simp]:
  "round_ok (r\<lparr>Clients := cs\<rparr>) = round_ok r"
  "round_ok (r\<lparr>Stories := ss\<rparr>) = round_ok r"
  "round_ok (r\<lparr>CurrentStoryIndex := k\<rparr>) = round_ok r"
  "round_ok (r\<lparr>CurrentStory := n\<rparr>) = round_ok r"
  "round_ok (r\<lparr>BacklogMode := b\<rparr>) = round_ok r"
  "round_ok (r\<lparr>events := es\<rparr>) = round_ok r"
  "round_ok (upd_client i f r) = round_ok r"
  "round_ok (recordEvent e r) = round_ok r"
  "round_ok (clearVotes r) = round_ok r"
  by (simp_all add: round_ok_def recordEvent_def clearVotes_def)

text \<open>Events are only appended.\<close>

definition appends :: "room \<Rightarrow> room \<Rightarrow> bool" where
  "appends r r' \<longleftrightarrow> (\<exists>es. events r' = events r @ es)"

lemma appends_refl [simp]: "appends r r" by (simp add: appends_def)

lemma appends_trans: "appends r r1 \<Longrightarrow> appends r1 r2 \<Longrightarrow> appends r r2"
  by (auto simp: appends_def)

lemma appends_same: "events r' = events r \<Longrightarrow> appends r r'" by (simp add: appends_def)

lemma appends_reveal [simp]: "appends r (reveal clk b r)"
  by (cases rule: reveal_cases [of b r clk])
    (auto simp: appends_def revealed_room_def clearConsensus_def Let_def)

lemma appends_checkReveal [simp]: "appends r (checkReveal clk r)"
  by (simp add: checkReveal_cases)

lemma appends_recordEvent [simp]: "appends r (recordEvent e r)"
  by (simp add: appends_def recordEvent_def)

section \<open>The clients of a room, kept well formed\<close>

text \<open>No two clients share an ID, each client's vote fields agree, a vote is a card of the deck,
  and a room that is not empty has an owner.\<close>

definition vote_valid :: "deck \<Rightarrow> client \<Rightarrow> bool" where
  "vote_valid d c \<longleftrightarrow> (\<forall>v. CurrentVote c = Some v \<longrightarrow> v = '''' \<or> HasCard d v)"

definition owned :: "client list \<Rightarrow> bool" where
  "owned cs \<longleftrightarrow> (cs \<noteq> [] \<longrightarrow> (\<exists>c \<in> set cs. IsOwner c))"

definition clients_ok :: "deck \<Rightarrow> client list \<Rightarrow> bool" where
  "clients_ok d cs \<longleftrightarrow> distinct (map client_ID cs) \<and>
     (\<forall>c \<in> set cs. vote_consistent c \<and> vote_valid d c) \<and> owned cs"

lemma vote_valid_None [simp]: "vote_valid d (client_applyVote t None c)"
  by (simp add: vote_valid_def)

lemma clients_ok_clear [simp]:
  "clients_ok d cs \<Longrightarrow> clients_ok d (map (client_applyVote t None) cs)"
  by (auto simp: clients_ok_def owned_def comp_def)

lemma clients_ok_clearVotes [simp]:
  "clients_ok d (Clients r) \<Longrightarrow> clients_ok d (Clients (clearVotes r))"
  by simp

text \<open>A write through a client pointer that keeps the ID and the client well formed.\<close>

lemma clients_ok_update:
  assumes ok: "clients_ok d cs"
    and f: "\<And>c. client_ID (f c) = client_ID c"
      "\<And>c. vote_consistent c \<Longrightarrow> vote_valid d c \<Longrightarrow> vote_consistent (f c) \<and> vote_valid d (f c)"
    and own: "owned (update_first p f cs)"
  shows "clients_ok d (update_first p f cs)"
proof -
  have "distinct (map client_ID (update_first p f cs))"
    using ok f(1) by (simp add: map_update_first clients_ok_def)
  moreover have "vote_consistent c \<and> vote_valid d c" if "c \<in> set (update_first p f cs)" for c
    using that ok f(2) by (elim update_firstE) (auto simp: clients_ok_def)
  ultimately show ?thesis using own by (simp add: clients_ok_def)
qed

lemma owner_update_first:
  "\<exists>c \<in> set cs. IsOwner c \<Longrightarrow> (\<And>c. IsOwner c \<Longrightarrow> IsOwner (f c)) \<Longrightarrow>
   \<exists>c \<in> set (update_first p f cs). IsOwner c"
  by (induction cs) auto

lemma owned_update_first:
  "owned cs \<Longrightarrow> (\<And>c. IsOwner c \<Longrightarrow> IsOwner (f c)) \<Longrightarrow> owned (update_first p f cs)"
  using owner_update_first [of cs f p] by (auto simp: owned_def)

text \<open>Writes that do not touch the vote.\<close>

lemma vote_fields_frame [simp]:
  "vote_consistent (c\<lparr>IsSpectator := b\<rparr>) = vote_consistent c"
  "vote_consistent (c\<lparr>IsOwner := b\<rparr>) = vote_consistent c"
  "vote_consistent (c\<lparr>client_Name := n\<rparr>) = vote_consistent c"
  "vote_valid d (c\<lparr>IsSpectator := b\<rparr>) = vote_valid d c"
  "vote_valid d (c\<lparr>IsOwner := b\<rparr>) = vote_valid d c"
  "vote_valid d (c\<lparr>client_Name := n\<rparr>) = vote_valid d c"
  by (simp_all add: vote_consistent_def vote_valid_def)

end
