(* ===== verification/Room_Presence.thy ===== *)
theory Room_Presence
  imports Voting_Facts
begin

text \<open>
  Participants of a room: \<open>internal/domain/entity/room_presence.go\<close>. The first client of an empty
  room owns it; whoever leaves, and whatever owners toggle, a room that is not empty keeps an
  owner.

  \<open>NewClient\<close> writes \<open>IsOwner\<close> through the pointer it has just added, so the model writes to the
  last element of the collection.
\<close>

section \<open>Joining and leaving\<close>

fun write_last :: "('a \<Rightarrow> 'a) \<Rightarrow> 'a list \<Rightarrow> 'a list" where
  "write_last f [] = []"
| "write_last f [x] = [f x]"
| "write_last f (x # y # zs) = x # write_last f (y # zs)"

definition room_NewClient :: "ClientID \<Rightarrow> room \<Rightarrow> client \<times> room" where
  "room_NewClient i r =
     (let client = newClient i;
          r1 = r\<lparr>Clients := cc_Add client (Clients r)\<rparr>
      in if cc_Count (Clients r1) = 1
         then (client\<lparr>IsOwner := True\<rparr>,
               r1\<lparr>Clients := write_last (\<lambda>c. c\<lparr>IsOwner := True\<rparr>) (Clients r1)\<rparr>)
         else (client, r1))"

text \<open>\<open>r.Clients.First()\<close> and the write through the pointer it returns.\<close>

definition promoteFirst :: "room \<Rightarrow> room" where
  "promoteFirst r =
     (case cc_First (Clients r) of
        Some _ \<Rightarrow> r\<lparr>Clients := update_first (\<lambda>_. True) (\<lambda>c. c\<lparr>IsOwner := True\<rparr>) (Clients r)\<rparr>
      | None \<Rightarrow> r)"

definition RemoveClient :: "clock \<Rightarrow> ClientID \<Rightarrow> room update" where
  "RemoveClient clk i r =
     (let r1 = r\<lparr>Clients := cc_Remove i (Clients r)\<rparr>;
          r2 = (if CountOwners r1 = 0 \<and> 0 < cc_Count (Clients r1) then promoteFirst r1 else r1)
      in (checkReveal clk r2, None))"

section \<open>Roles and names\<close>

definition targetNotFound :: "ClientID \<Rightarrow> room \<Rightarrow> go_error" where
  "targetNotFound i r =
     Newf CodeNotFound ''target client %s not found in room %s'' [OStr i, OStr (room_ID r)]"

definition ToggleSpectator_body :: "clock \<Rightarrow> ClientID \<Rightarrow> room update" where
  "ToggleSpectator_body clk target r =
     (case FindClient r target of
        Some _ \<Rightarrow>
          (let r1 = upd_client target (\<lambda>c. c\<lparr>IsSpectator := \<not> IsSpectator c\<rparr>) r;
               r2 = upd_client target (\<lambda>c. snd (room_applyVote zero_time r1 None c)) r1
           in (checkReveal clk r2, None))
      | None \<Rightarrow> (r, Some (targetNotFound target r)))"

definition ToggleSpectator :: "clock \<Rightarrow> ClientID \<Rightarrow> ClientID \<Rightarrow> room update" where
  "ToggleSpectator clk i target r =
     (case FindClient r i of
        None \<Rightarrow> (r, Some (clientNotFound i r))
      | Some client \<Rightarrow>
          if \<not> IsOwner client
          then (r, Some (forbidden ''only the room owner can toggle ownership''))
          else ToggleSpectator_body clk target r)"

text \<open>The guard both ownership toggles start with: the target is the only owner.\<close>

definition lastOwner :: "ClientID \<Rightarrow> room \<Rightarrow> bool" where
  "lastOwner target r =
     (let owners = cc_Filter IsOwner (Clients r)
      in cc_Count owners = 1 \<and>
         (case cc_First owners of
            Some first \<Rightarrow> client_ID first = target \<and> IsOwner first | None \<Rightarrow> False))"

definition flipOwner :: "client \<Rightarrow> client" where
  "flipOwner c = c\<lparr>IsOwner := \<not> IsOwner c\<rparr>"

definition ToggleOwner_body :: "ClientID \<Rightarrow> room update" where
  "ToggleOwner_body target r =
     (if lastOwner target r then (r, None)
      else (case FindClient r target of
              Some _ \<Rightarrow> (upd_client target flipOwner r, None)
            | None \<Rightarrow> (r, Some (targetNotFound target r))))"

definition ToggleOwner :: "ClientID \<Rightarrow> ClientID \<Rightarrow> room update" where
  "ToggleOwner i target r =
     (case FindClient r i of
        None \<Rightarrow> (r, Some (clientNotFound i r))
      | Some client \<Rightarrow>
          if \<not> IsOwner client
          then (r, Some (forbidden ''only the room owner can toggle ownership''))
          else ToggleOwner_body target r)"

definition AdminToggleOwner :: "ClientID \<Rightarrow> room update" where
  "AdminToggleOwner target r =
     (if lastOwner target r then (r, Some ErrLastOwner)
      else (case FindClient r target of
              Some _ \<Rightarrow> (upd_client target flipOwner r, None)
            | None \<Rightarrow>
                (r, Some (Errorf ''target client %s not found in room %s: %w''
                            [OStr target, OStr (room_ID r)] [ErrClientNotFound]))))"

definition UpdateClientName :: "ClientID \<Rightarrow> string \<Rightarrow> room update" where
  "UpdateClientName i name r =
     (case FindClient r i of
        None \<Rightarrow> (r, Some (clientNotFound i r))
      | Some _ \<Rightarrow> (upd_client i (client_UpdateName name) r, None))"

interpretation toggle_spectator:
  owner_guarded "\<lambda>i. ToggleSpectator clk i target" "''only the room owner can toggle ownership''"
    "\<lambda>i. ToggleSpectator_body clk target"
  for clk target
  by unfold_locales (simp add: ToggleSpectator_def)

interpretation toggle_owner:
  owner_guarded "\<lambda>i. ToggleOwner i target" "''only the room owner can toggle ownership''"
    "\<lambda>i. ToggleOwner_body target"
  for target
  by unfold_locales (simp add: ToggleOwner_def)

section \<open>Clients and owners\<close>

lemma write_last_snoc [simp]: "write_last f (xs @ [x]) = xs @ [f x]"
  by (induction xs rule: induct_list012) auto

lemma room_NewClient_Clients:
  "Clients (snd (room_NewClient i r)) =
     Clients r @ [(newClient i)\<lparr>IsOwner := (Clients r = [])\<rparr>]"
  by (auto simp: room_NewClient_def Let_def cc_defs newClient_def)

lemma room_NewClient_client:
  "fst (room_NewClient i r) = (newClient i)\<lparr>IsOwner := (Clients r = [])\<rparr>"
  by (simp add: room_NewClient_def Let_def cc_defs newClient_def)

lemma room_NewClient_frame: "snd (room_NewClient i r) = r\<lparr>Clients := Clients (snd (room_NewClient i r))\<rparr>"
  by (simp add: room_NewClient_def Let_def)

lemma clients_ok_NewClient:
  assumes "clients_ok d (Clients r)" and "i \<notin> client_ID ` set (Clients r)"
  shows "clients_ok d (Clients (snd (room_NewClient i r)))"
  using assms
  by (auto simp: room_NewClient_Clients clients_ok_def owned_def vote_valid_def newClient_def
      vote_consistent_def)

lemma owned_promoteFirst: "owned (Clients (promoteFirst r))"
  by (cases "Clients r") (simp_all add: promoteFirst_def cc_First_def owned_def)

lemma promoteFirst_Clients:
  "Clients (promoteFirst r) = update_first (\<lambda>_. True) (\<lambda>c. c\<lparr>IsOwner := True\<rparr>) (Clients r)"
  by (cases "Clients r") (simp_all add: promoteFirst_def cc_First_def)

lemma promoteFirst_frame: "promoteFirst r = r\<lparr>Clients := Clients (promoteFirst r)\<rparr>"
  by (simp add: promoteFirst_def split: option.splits)

text \<open>What \<open>RemoveClient\<close> leaves before it looks at the votes.\<close>

definition without_client :: "ClientID \<Rightarrow> client list \<Rightarrow> client list" where
  "without_client i cs =
     (let rest = remove_first (\<lambda>c. client_ID c = i) cs
      in if list_ex IsOwner rest then rest
         else update_first (\<lambda>_. True) (\<lambda>c. c\<lparr>IsOwner := True\<rparr>) rest)"

lemma RemoveClient_eq:
  "RemoveClient clk i r = (checkReveal clk (r\<lparr>Clients := without_client i (Clients r)\<rparr>), None)"
proof -
  let ?rest = "remove_first (\<lambda>c. client_ID c = i) (Clients r)"
  have "CountOwners (r\<lparr>Clients := ?rest\<rparr>) = 0 \<longleftrightarrow> \<not> list_ex IsOwner ?rest"
    by (auto simp: CountOwners_filter filter_empty_conv list_ex_iff)
  then show ?thesis
    by (cases ?rest)
      (auto simp: RemoveClient_def Let_def cc_defs without_client_def promoteFirst_def cc_First_def)
qed

lemma clients_ok_without:
  assumes "clients_ok d cs"
  shows "clients_ok d (without_client i cs)"
proof -
  let ?rest = "remove_first (\<lambda>c. client_ID c = i) cs"
  have "distinct (map client_ID ?rest)"
    using assms by (simp add: clients_ok_def distinct_remove_first)
  moreover have "vote_consistent c \<and> vote_valid d c" if "c \<in> set ?rest" for c
    using that assms set_remove_first [of "\<lambda>c. client_ID c = i" cs] by (auto simp: clients_ok_def)
  ultimately have rest: "distinct (map client_ID ?rest)"
    "\<forall>c \<in> set ?rest. vote_consistent c \<and> vote_valid d c" by blast+
  show ?thesis
  proof (cases "list_ex IsOwner ?rest")
    case True
    with rest show ?thesis
      by (auto simp: without_client_def clients_ok_def owned_def list_ex_iff)
  next
    case False
    with rest show ?thesis
      by (cases ?rest) (auto simp: without_client_def clients_ok_def owned_def)
  qed
qed

lemma lastOwner_iff:
  "lastOwner target r \<longleftrightarrow> (\<exists>c. filter IsOwner (Clients r) = [c] \<and> client_ID c = target)"
proof -
  have "c \<in> set (Clients r) \<and> IsOwner c" if "filter IsOwner (Clients r) = [c]" for c
  proof -
    have "c \<in> set (filter IsOwner (Clients r))" by (simp add: that)
    then show ?thesis by simp
  qed
  then show ?thesis
    by (cases "filter IsOwner (Clients r)") (auto simp: lastOwner_def Let_def cc_Count_def cc_First_def)
qed

text \<open>Flipping any client but a sole owner leaves an owner.\<close>

lemma owned_flip:
  assumes own: "owned (Clients r)" and last: "\<not> lastOwner i r"
  shows "owned (update_first (\<lambda>c. client_ID c = i) flipOwner (Clients r))"
proof (cases "find (\<lambda>c. client_ID c = i) (Clients r)")
  case None
  then show ?thesis using own by (simp add: update_first_id find_None_iff)
next
  case (Some c)
  then obtain us vs where cs: "Clients r = us @ c # vs" and c: "client_ID c = i"
    and upd: "update_first (\<lambda>c. client_ID c = i) flipOwner (Clients r) = us @ flipOwner c # vs"
    using update_first_split [OF Some, of flipOwner] by blast
  show ?thesis
  proof (cases "IsOwner c")
    case False
    then show ?thesis unfolding upd by (auto simp: owned_def flipOwner_def)
  next
    case True
    have "filter IsOwner us \<noteq> [] \<or> filter IsOwner vs \<noteq> []"
      using last c True by (auto simp: lastOwner_iff cs)
    then show ?thesis unfolding upd by (auto simp: owned_def filter_empty_conv)
  qed
qed

lemma clients_ok_flip:
  assumes "clients_ok d (Clients r)" and "\<not> lastOwner i r"
  shows "clients_ok d (Clients (upd_client i flipOwner r))"
proof -
  have "owned (update_first (\<lambda>c. client_ID c = i) flipOwner (Clients r))"
    using assms by (intro owned_flip) (auto simp: clients_ok_def)
  then show ?thesis
    using clients_ok_update [OF assms(1), of flipOwner "\<lambda>c. client_ID c = i"]
    by (auto simp: flipOwner_def)
qed

text \<open>\<open>ToggleSpectator\<close> on a client: the role changes, and a hidden round forgets its vote.\<close>

definition respectated :: "bool \<Rightarrow> client \<Rightarrow> client" where
  "respectated revealed c =
     (let c' = c\<lparr>IsSpectator := \<not> IsSpectator c\<rparr>
      in if revealed then c' else client_applyVote zero_time None c')"

lemma respectated_fields [simp]:
  "client_ID (respectated b c) = client_ID c" "IsOwner (respectated b c) = IsOwner c"
  "client_Name (respectated b c) = client_Name c"
  "IsSpectator (respectated b c) = (\<not> IsSpectator c)"
  by (simp_all add: respectated_def Let_def)

lemma update_first_twice:
  "(\<And>x. p (f x) = p x) \<Longrightarrow> update_first p g (update_first p f xs) = update_first p (\<lambda>x. g (f x)) xs"
  by (induction xs) auto

lemma ToggleSpectator_body_eq:
  "ToggleSpectator_body clk target r =
     (case FindClient r target of
        Some _ \<Rightarrow> (checkReveal clk (upd_client target (respectated (Reveal r)) r), None)
      | None \<Rightarrow> (r, Some (targetNotFound target r)))"
proof -
  have "(\<lambda>c. snd (room_applyVote zero_time r1 None (c\<lparr>IsSpectator := \<not> IsSpectator c\<rparr>))) =
      respectated (Reveal r1)" for r1
    by (simp add: fun_eq_iff room_applyVote_def respectated_def)
  then show ?thesis
    by (simp add: ToggleSpectator_body_def Let_def upd_client_def update_first_twice
        room_applyVote_def split: option.split)
qed

lemma clients_ok_respectate:
  "clients_ok d cs \<Longrightarrow> clients_ok d (update_first p (respectated b) cs)"
  by (rule clients_ok_update)
    (auto simp: respectated_def Let_def clients_ok_def intro!: owned_update_first)

lemma clients_ok_rename:
  "clients_ok d cs \<Longrightarrow> clients_ok d (update_first p (client_UpdateName n) cs)"
  by (rule clients_ok_update)
    (auto simp: client_UpdateName_def clients_ok_def intro!: owned_update_first)

end
