(* ===== verification/Room_Backlog.thy ===== *)
theory Room_Backlog
  imports Voting_Facts
begin

text \<open>
  The backlog of a room: \<open>internal/domain/entity/room_backlog.go\<close>. A room keeps its stories in
  order with the index of the current one; every change of the current story starts a fresh
  voting round, and moving stories around it does not.

  A story is found by its ID, the index \<open>-1\<close> standing for none. \<open>EffectiveCurrentStory\<close> and
  \<open>getCurrentStoryName\<close> index the slice without testing that the index is not negative: their
  result, and that of \<open>ToggleBacklogMode\<close> which calls the second, is \<open>None\<close> where Go panics.
\<close>

section \<open>Finding stories\<close>

definition storyIndexByID :: "StoryID \<Rightarrow> room \<Rightarrow> int" where
  "storyIndexByID i r = index_from (\<lambda>s. story_ID s = i) 0 (Stories r)"

definition currentStoryID :: "room \<Rightarrow> StoryID" where
  "currentStoryID r =
     (if CurrentStoryIndex r < 0 \<or> int (length (Stories r)) \<le> CurrentStoryIndex r then ''''
      else story_ID (Stories r ! nat (CurrentStoryIndex r)))"

definition storyAt :: "room \<Rightarrow> story option" where
  "storyAt r =
     (if CurrentStoryIndex r < 0 then None else Some (Stories r ! nat (CurrentStoryIndex r)))"

definition EffectiveCurrentStory :: "room \<Rightarrow> string option" where
  "EffectiveCurrentStory r =
     (if BacklogMode r \<and> 0 < length (Stories r) \<and> CurrentStoryIndex r < int (length (Stories r))
      then map_option story_Name (storyAt r)
      else Some (CurrentStory r))"

definition getCurrentStoryName :: "room \<Rightarrow> string option" where
  "getCurrentStoryName r =
     (if 0 < length (Stories r) \<and> CurrentStoryIndex r < int (length (Stories r))
      then map_option story_Name (storyAt r)
      else Some '''')"

definition storyIDEmpty :: go_error where
  "storyIDEmpty = Newf CodeValidation ''story ID cannot be empty'' []"

definition storyNotFound :: "StoryID \<Rightarrow> room \<Rightarrow> go_error" where
  "storyNotFound i r =
     Newf CodeNotFound ''story %s not found in room %s'' [OStr i, OStr (room_ID r)]"

text \<open>\<open>r.reveal(false)\<close> and the loop that clears every vote.\<close>

definition freshRound :: "clock \<Rightarrow> room \<Rightarrow> room" where
  "freshRound clk r = clearVotes (reveal clk False r)"

section \<open>Operations\<close>

definition ToggleBacklogMode :: "string \<Rightarrow> ClientID \<Rightarrow> room \<Rightarrow> (room \<times> go_error option) option" where
  "ToggleBacklogMode uuid i r =
     (case FindClient r i of
        None \<Rightarrow> Some (r, Some (clientNotFound i r))
      | Some client \<Rightarrow>
          if \<not> IsOwner client
          then Some (r, Some (forbidden ''only the room owner can toggle backlog mode''))
          else if \<not> BacklogMode r then
            (let r1 = r\<lparr>BacklogMode := True\<rparr>
             in Some (if CurrentStory r1 \<noteq> ''''
                      then r1\<lparr>Stories := [newStory uuid (CurrentStory r1)], CurrentStoryIndex := 0\<rparr>
                      else r1, None))
          else
            (let r1 = r\<lparr>BacklogMode := False\<rparr>
             in case getCurrentStoryName r1 of
                  None \<Rightarrow> None
                | Some name \<Rightarrow>
                    (let r2 = (if name \<noteq> '''' then r1\<lparr>CurrentStory := name\<rparr> else r1)
                     in Some (r2\<lparr>Stories := [], CurrentStoryIndex := 0\<rparr>, None))))"

definition AddStory :: "string \<Rightarrow> ClientID \<Rightarrow> string \<Rightarrow> room update" where
  "AddStory uuid i name r =
     (case FindClient r i of
        None \<Rightarrow> (r, Some (clientNotFound i r))
      | Some client \<Rightarrow>
          if \<not> IsOwner client
          then (r, Some (forbidden ''only the room owner can add a story''))
          else
            (let r1 = (if \<not> BacklogMode r then r\<lparr>BacklogMode := True\<rparr> else r);
                 r2 = r1\<lparr>Stories := Stories r1 @ [newStory uuid name]\<rparr>
             in (if length (Stories r2) = 1 then r2\<lparr>CurrentStoryIndex := 0\<rparr> else r2, None)))"

definition RemoveStory_body :: "clock \<Rightarrow> StoryID \<Rightarrow> room update" where
  "RemoveStory_body clk sid r =
     (if sid = '''' then (r, Some storyIDEmpty)
      else
        let index = storyIndexByID sid r
        in if index = -1 then (r, Some (storyNotFound sid r))
           else if index = CurrentStoryIndex r \<and> length (Stories r) = 1
           then (freshRound clk (r\<lparr>CurrentStoryIndex := 0, Stories := []\<rparr>), None)
           else
             (let r1 =
                (if index = CurrentStoryIndex r
                 then freshRound clk
                   (if index = int (length (Stories r)) - 1
                    then r\<lparr>CurrentStoryIndex := CurrentStoryIndex r - 1\<rparr> else r)
                 else if index < CurrentStoryIndex r
                 then r\<lparr>CurrentStoryIndex := CurrentStoryIndex r - 1\<rparr> else r)
              in (r1\<lparr>Stories := remove_nth (nat index) (Stories r1)\<rparr>, None)))"

definition RemoveStory :: "clock \<Rightarrow> ClientID \<Rightarrow> StoryID \<Rightarrow> room update" where
  "RemoveStory clk i sid r =
     (case FindClient r i of
        None \<Rightarrow> (r, Some (clientNotFound i r))
      | Some client \<Rightarrow>
          if \<not> IsOwner client
          then (r, Some (forbidden ''only the room owner can remove a story''))
          else RemoveStory_body clk sid r)"

text \<open>\<open>clk 0\<close> stamps the event; hiding the round does not read the clock.\<close>

definition SelectStory_body :: "clock \<Rightarrow> StoryID \<Rightarrow> room update" where
  "SelectStory_body clk sid r =
     (if sid = '''' then (r, Some storyIDEmpty)
      else
        let index = storyIndexByID sid r
        in if index = -1 then (r, Some (storyNotFound sid r))
           else if index = CurrentStoryIndex r
           then (r, Some (Newf CodeConflict ''story %s is already the current story'' [OStr sid]))
           else if story_Voted (Stories r ! nat index)
           then (r, Some (Newf CodeConflict ''estimated story %s cannot be selected'' [OStr sid]))
           else
             (let r1 = freshRound clk (r\<lparr>CurrentStoryIndex := index\<rparr>)
              in (recordEvent (StorySelected (room_ID r1) sid (UTC (clk 0))) r1, None)))"

definition SelectStory :: "clock \<Rightarrow> ClientID \<Rightarrow> StoryID \<Rightarrow> room update" where
  "SelectStory clk i sid r =
     (case FindClient r i of
        None \<Rightarrow> (r, Some (clientNotFound i r))
      | Some client \<Rightarrow>
          if \<not> IsOwner client
          then (r, Some (forbidden ''only the room owner can select a story''))
          else SelectStory_body clk sid r)"

definition validateReorderStory ::
  "ClientID \<Rightarrow> StoryID \<Rightarrow> int \<Rightarrow> room \<Rightarrow> go_error + int" where
  "validateReorderStory i sid targetIndex r =
     (case FindClient r i of
        None \<Rightarrow> Inl (clientNotFound i r)
      | Some client \<Rightarrow>
          if \<not> IsOwner client
          then Inl (forbidden ''only the room owner can reorder stories'')
          else if sid = '''' then Inl storyIDEmpty
          else if targetIndex < 0 \<or> int (length (Stories r)) \<le> targetIndex
          then Inl (Newf CodeValidation ''target story index %d out of range'' [OInt targetIndex])
          else if storyIndexByID sid r = -1 then Inl (storyNotFound sid r)
          else Inr (storyIndexByID sid r))"

definition updateCurrentStoryIndex :: "int \<Rightarrow> int \<Rightarrow> StoryID \<Rightarrow> room \<Rightarrow> room" where
  "updateCurrentStoryIndex storyIndex targetIndex currentID r =
     (if currentID \<noteq> '''' then r\<lparr>CurrentStoryIndex := storyIndexByID currentID r\<rparr>
      else if CurrentStoryIndex r = storyIndex then r\<lparr>CurrentStoryIndex := targetIndex\<rparr>
      else
        let r1 = (if storyIndex < CurrentStoryIndex r
                  then r\<lparr>CurrentStoryIndex := CurrentStoryIndex r - 1\<rparr> else r)
        in if targetIndex \<le> CurrentStoryIndex r1
           then r1\<lparr>CurrentStoryIndex := CurrentStoryIndex r1 + 1\<rparr> else r1)"

definition ReorderStory :: "ClientID \<Rightarrow> StoryID \<Rightarrow> int \<Rightarrow> room update" where
  "ReorderStory i sid targetIndex r =
     (case validateReorderStory i sid targetIndex r of
        Inl err \<Rightarrow> (r, Some err)
      | Inr storyIndex \<Rightarrow>
          if storyIndex = targetIndex then (r, None)
          else
            (let currentID = currentStoryID r;
                 story = Stories r ! nat storyIndex;
                 r1 = r\<lparr>Stories := remove_nth (nat storyIndex) (Stories r)\<rparr>;
                 r2 = r1\<lparr>Stories := insert_nth (nat targetIndex) story (Stories r1)\<rparr>
             in (updateCurrentStoryIndex storyIndex targetIndex currentID r2, None)))"

definition AdvanceToNextStory :: "clock \<Rightarrow> ClientID \<Rightarrow> room update" where
  "AdvanceToNextStory clk i r =
     (case FindClient r i of
        None \<Rightarrow> (r, Some (clientNotFound i r))
      | Some client \<Rightarrow>
          if \<not> IsOwner client
          then (r, Some (forbidden ''only the room owner can advance to the next story''))
          else (if CurrentStoryIndex r < int (length (Stories r)) - 1
                then freshRound clk (r\<lparr>CurrentStoryIndex := CurrentStoryIndex r + 1\<rparr>)
                else r, None))"

definition PrevStory :: "clock \<Rightarrow> ClientID \<Rightarrow> room update" where
  "PrevStory clk i r =
     (case FindClient r i of
        None \<Rightarrow> (r, Some (clientNotFound i r))
      | Some client \<Rightarrow>
          if \<not> IsOwner client
          then (r, Some (forbidden ''only the room owner can go to the previous story''))
          else (if 0 < CurrentStoryIndex r
                then freshRound clk (r\<lparr>CurrentStoryIndex := CurrentStoryIndex r - 1\<rparr>)
                else r, None))"

definition SetCurrentStory :: "ClientID \<Rightarrow> string \<Rightarrow> room update" where
  "SetCurrentStory i name r =
     (case FindClient r i of
        None \<Rightarrow> (r, Some (clientNotFound i r))
      | Some client \<Rightarrow>
          if \<not> IsOwner client
          then (r, Some (forbidden ''only the room owner can set the current story''))
          else (if BacklogMode r \<and> 0 \<le> CurrentStoryIndex r \<and>
                   CurrentStoryIndex r < int (length (Stories r))
                then r\<lparr>Stories := (Stories r)[nat (CurrentStoryIndex r) :=
                       (Stories r ! nat (CurrentStoryIndex r))\<lparr>story_Name := name\<rparr>]\<rparr>
                else r\<lparr>CurrentStory := name\<rparr>, None))"

section \<open>The owner's operations\<close>

interpretation add_story:
  owner_guarded "\<lambda>i. AddStory uuid i name" "''only the room owner can add a story''"
    "\<lambda>i r. (let r1 = (if \<not> BacklogMode r then r\<lparr>BacklogMode := True\<rparr> else r);
                 r2 = r1\<lparr>Stories := Stories r1 @ [newStory uuid name]\<rparr>
             in (if length (Stories r2) = 1 then r2\<lparr>CurrentStoryIndex := 0\<rparr> else r2, None))"
  for uuid name
  by unfold_locales (simp add: AddStory_def)

interpretation remove_story:
  owner_guarded "\<lambda>i. RemoveStory clk i sid" "''only the room owner can remove a story''"
    "\<lambda>i. RemoveStory_body clk sid"
  for clk sid
  by unfold_locales (simp add: RemoveStory_def)

interpretation select_story:
  owner_guarded "\<lambda>i. SelectStory clk i sid" "''only the room owner can select a story''"
    "\<lambda>i. SelectStory_body clk sid"
  for clk sid
  by unfold_locales (simp add: SelectStory_def)

interpretation next_story:
  owner_guarded "AdvanceToNextStory clk"
    "''only the room owner can advance to the next story''"
    "\<lambda>i r. (if CurrentStoryIndex r < int (length (Stories r)) - 1
            then freshRound clk (r\<lparr>CurrentStoryIndex := CurrentStoryIndex r + 1\<rparr>) else r, None)"
  for clk
  by unfold_locales (simp add: AdvanceToNextStory_def)

interpretation prev_story:
  owner_guarded "PrevStory clk" "''only the room owner can go to the previous story''"
    "\<lambda>i r. (if 0 < CurrentStoryIndex r
            then freshRound clk (r\<lparr>CurrentStoryIndex := CurrentStoryIndex r - 1\<rparr>) else r, None)"
  for clk
  by unfold_locales (simp add: PrevStory_def)

interpretation set_current_story:
  owner_guarded "\<lambda>i. SetCurrentStory i name" "''only the room owner can set the current story''"
    "\<lambda>i r. (if BacklogMode r \<and> 0 \<le> CurrentStoryIndex r \<and>
               CurrentStoryIndex r < int (length (Stories r))
            then r\<lparr>Stories := (Stories r)[nat (CurrentStoryIndex r) :=
                   (Stories r ! nat (CurrentStoryIndex r))\<lparr>story_Name := name\<rparr>]\<rparr>
            else r\<lparr>CurrentStory := name\<rparr>, None)"
  for name
  by unfold_locales (simp add: SetCurrentStory_def)

section \<open>Stories by ID and by index\<close>

lemma index_from_none: "index_from p k xs = -1 \<longleftrightarrow> (\<forall>x \<in> set xs. \<not> p x)" if "0 \<le> k"
  using that by (induction xs arbitrary: k) auto

lemma index_from_some:
  "0 \<le> k \<Longrightarrow> index_from p k xs \<noteq> -1 \<Longrightarrow>
   \<exists>n < length xs. index_from p k xs = k + int n \<and> p (xs ! n) \<and> (\<forall>m < n. \<not> p (xs ! m))"
proof (induction xs arbitrary: k)
  case (Cons x xs)
  show ?case
  proof (cases "p x")
    case False
    with Cons.IH [of "k + 1"] Cons.prems obtain n where n: "n < length xs"
      "index_from p (k + 1) xs = k + 1 + int n" "p (xs ! n)" "\<forall>m < n. \<not> p (xs ! m)"
      by auto
    with False show ?thesis
      by (intro exI [of _ "Suc n"]) (auto simp: nth_Cons split: nat.splits)
  qed auto
qed simp

lemma storyIndexByID_none: "storyIndexByID i r = -1 \<longleftrightarrow> i \<notin> set (map story_ID (Stories r))"
  by (auto simp: storyIndexByID_def index_from_none)

lemma storyIndexByID_some:
  assumes "storyIndexByID i r \<noteq> -1"
  obtains n where "storyIndexByID i r = int n" "n < length (Stories r)" "story_ID (Stories r ! n) = i"
  using assms index_from_some [of 0 "\<lambda>s. story_ID s = i" "Stories r"]
  by (auto simp: storyIndexByID_def)

lemma storyIndexByID_nth:
  assumes "distinct (map story_ID (Stories r))" and "n < length (Stories r)"
  shows "storyIndexByID (story_ID (Stories r ! n)) r = int n"
proof -
  have "story_ID (Stories r ! n) \<in> set (map story_ID (Stories r))"
    using assms(2) by simp
  then have "storyIndexByID (story_ID (Stories r ! n)) r \<noteq> -1" by (simp add: storyIndexByID_none)
  then obtain m where m: "storyIndexByID (story_ID (Stories r ! n)) r = int m"
    "m < length (Stories r)" "story_ID (Stories r ! m) = story_ID (Stories r ! n)"
    by (rule storyIndexByID_some)
  with assms have "m = n" by (metis length_map nth_eq_iff_index_eq nth_map)
  with m show ?thesis by simp
qed

section \<open>The well-formed backlog\<close>

text \<open>Story IDs are distinct and not empty, the index is that of a story (0 when there is none),
  and a room without backlog mode keeps no stories.\<close>

definition backlog_ok :: "StoryID list \<Rightarrow> int \<Rightarrow> bool \<Rightarrow> bool" where
  "backlog_ok ids i mode \<longleftrightarrow> distinct ids \<and> '''' \<notin> set ids \<and>
     (if ids = [] then i = 0 else 0 \<le> i \<and> i < int (length ids)) \<and> (mode \<or> ids = [])"

definition stories_ok :: "room \<Rightarrow> bool" where
  "stories_ok r \<longleftrightarrow>
     backlog_ok (map story_ID (Stories r)) (CurrentStoryIndex r) (BacklogMode r)"

lemma stories_ok_frame [simp]:
  "stories_ok (reveal clk b r) = stories_ok r"
  "stories_ok (checkReveal clk r) = stories_ok r"
  "stories_ok (clearVotes r) = stories_ok r"
  "stories_ok (freshRound clk r) = stories_ok r"
  "stories_ok (r\<lparr>Clients := cs\<rparr>) = stories_ok r"
  "stories_ok (r\<lparr>CurrentStory := n\<rparr>) = stories_ok r"
  "stories_ok (recordEvent e r) = stories_ok r"
  "stories_ok (upd_client i f r) = stories_ok r"
  by (simp_all add: stories_ok_def freshRound_def recordEvent_def)

lemma freshRound_fields [simp]:
  "room_ID (freshRound clk r) = room_ID r" "startedAt (freshRound clk r) = startedAt r"
  "DeckType (freshRound clk r) = DeckType r" "CurrentStory (freshRound clk r) = CurrentStory r"
  "Reveal (freshRound clk r) = False" "BacklogMode (freshRound clk r) = BacklogMode r"
  "CurrentStoryIndex (freshRound clk r) = CurrentStoryIndex r"
  "RoomVersion (freshRound clk r) = RoomVersion r"
  "Stories (freshRound clk r) = Stories r" "events (freshRound clk r) = events r"
  "Clients (freshRound clk r) = map (client_applyVote zero_time None) (Clients r)"
  by (simp_all add: freshRound_def reveal_off clearConsensus_def)

lemma round_ok_fresh [simp]: "round_ok (freshRound clk r)"
  by (simp add: freshRound_def reveal_off clearConsensus_def round_ok_def clearVotes_def)

lemma room_Deck_cong: "DeckType r' = DeckType r \<Longrightarrow> room_Deck r' = room_Deck r"
  by (simp add: room_Deck_def)

lemma backlog_ok_remove:
  assumes ok: "backlog_ok ids i mode" and k: "k < length ids" and two: "int k = i \<Longrightarrow> 1 < length ids"
  shows "backlog_ok (remove_nth k ids)
    (if int k = i then (if k = length ids - 1 then i - 1 else i) else if int k < i then i - 1 else i)
    mode"
proof -
  define n where "n = length ids"
  have len: "length (remove_nth k ids) = n - 1" using k by (simp add: n_def)
  have nil: "remove_nth k ids = [] \<longleftrightarrow> n \<le> 1" using len by (metis diff_is_0_eq length_0_conv)
  have keep: "distinct (remove_nth k ids)" "'''' \<notin> set (remove_nth k ids)"
    using ok k set_remove_nth [of k ids] by (auto simp: backlog_ok_def distinct_remove_nth)
  have i: "0 \<le> i" "i < int n" "mode" and kn: "k < n"
    using ok k by (auto simp: backlog_ok_def n_def split: if_splits)
  show ?thesis
    using keep i kn two unfolding backlog_ok_def nil len n_def [symmetric]
    by (auto simp: of_nat_diff)
qed

text \<open>Moving the story at \<open>s\<close> to \<open>t\<close> takes the one at \<open>i\<close> to \<open>moved s t i\<close>.\<close>

definition move_nth :: "nat \<Rightarrow> nat \<Rightarrow> 'a list \<Rightarrow> 'a list" where
  "move_nth s t xs = insert_nth t (xs ! s) (remove_nth s xs)"

definition moved :: "int \<Rightarrow> int \<Rightarrow> int \<Rightarrow> int" where
  "moved s t i =
     (if i = s then t
      else let i1 = (if s < i then i - 1 else i) in if t \<le> i1 then i1 + 1 else i1)"

lemma mset_move_nth: "s < length xs \<Longrightarrow> mset (move_nth s t xs) = mset xs"
  by (simp add: move_nth_def mset_remove_nth)

lemma length_move_nth [simp]: "s < length xs \<Longrightarrow> length (move_nth s t xs) = length xs"
  using arg_cong [OF mset_move_nth, of s xs size t] by simp

lemma filter_move_nth:
  assumes "s < length xs" and "\<not> p (xs ! s)"
  shows "filter p (move_nth s t xs) = filter p xs"
proof -
  have "filter p (move_nth s t xs) = filter p (remove_nth s xs)"
    using assms(2) filter_append [of p "take t (remove_nth s xs)" "drop t (remove_nth s xs)"]
    unfolding append_take_drop_id by (simp add: move_nth_def insert_nth_def)
  also have "\<dots> = filter p (take s xs @ xs ! s # drop (Suc s) xs)"
    using assms(2) by (simp add: remove_nth_def)
  finally show ?thesis using assms(1) by (simp add: id_take_nth_drop [symmetric])
qed

lemma remove_nth_filter:
  assumes "distinct (map f xs)" and "n < length xs"
  shows "remove_nth n xs = filter (\<lambda>x. f x \<noteq> f (xs ! n)) xs"
proof -
  have xs: "xs = take n xs @ xs ! n # drop (Suc n) xs" using assms(2) by (rule id_take_nth_drop)
  have "distinct (map f (take n xs) @ f (xs ! n) # map f (drop (Suc n) xs))"
    using assms(1) xs by (metis list.simps(9) map_append)
  then have "filter (\<lambda>x. f x \<noteq> f (xs ! n)) (take n xs) = take n xs"
    "filter (\<lambda>x. f x \<noteq> f (xs ! n)) (drop (Suc n) xs) = drop (Suc n) xs"
    by (auto simp: filter_id_conv image_iff)
  then show ?thesis by (subst (3) xs) (simp add: remove_nth_def)
qed

lemma map_move_nth: "s < length xs \<Longrightarrow> map f (move_nth s t xs) = move_nth s t (map f xs)"
  by (simp add: move_nth_def map_insert_nth map_remove_nth)

lemma moved_range:
  "0 \<le> s \<Longrightarrow> s < n \<Longrightarrow> 0 \<le> t \<Longrightarrow> t < n \<Longrightarrow> 0 \<le> i \<Longrightarrow> i < n \<Longrightarrow> 0 \<le> moved s t i \<and> moved s t i < n"
  by (auto simp: moved_def Let_def)

lemma nth_move_target: "s < length xs \<Longrightarrow> t < length xs \<Longrightarrow> move_nth s t xs ! t = xs ! s"
  by (simp add: move_nth_def nth_insert_nth)

lemma nth_move_nth:
  assumes "s < length xs" "t < length xs" "i < length xs"
  shows "move_nth s t xs ! nat (moved (int s) (int t) (int i)) = xs ! i"
proof (cases "i = s")
  case True
  then show ?thesis using assms by (simp add: moved_def nth_move_target)
next
  case False
  define j where "j = (if s < i then i - 1 else i)"
  have j: "j < length xs - 1" "remove_nth s xs ! j = xs ! i"
    using assms False by (auto simp: j_def nth_remove_nth)
  have "nat (moved (int s) (int t) (int i)) = (if t \<le> j then Suc j else j)"
    using False by (auto simp: moved_def Let_def j_def)
  then show ?thesis
    using j assms by (auto simp: move_nth_def nth_insert_nth)
qed

text \<open>Looking the current story up by its ID and shifting its index arithmetically agree.\<close>

lemma updateCurrentStoryIndex_moved:
  assumes ok: "stories_ok r" and s: "s < length (Stories r)" and t: "t < length (Stories r)"
  defines "r2 \<equiv> r\<lparr>Stories := move_nth s t (Stories r)\<rparr>"
  shows "updateCurrentStoryIndex (int s) (int t) (currentStoryID r) r2 =
      r2\<lparr>CurrentStoryIndex := moved (int s) (int t) (CurrentStoryIndex r)\<rparr>"
    and "updateCurrentStoryIndex (int s) (int t) '''' r2 =
      r2\<lparr>CurrentStoryIndex := moved (int s) (int t) (CurrentStoryIndex r)\<rparr>"
proof -
  show "updateCurrentStoryIndex (int s) (int t) '''' r2 =
      r2\<lparr>CurrentStoryIndex := moved (int s) (int t) (CurrentStoryIndex r)\<rparr>"
    by (simp add: updateCurrentStoryIndex_def moved_def r2_def Let_def)
  have i: "0 \<le> CurrentStoryIndex r" "CurrentStoryIndex r < int (length (Stories r))"
    and dist: "distinct (map story_ID (Stories r))" and ne: "'''' \<notin> set (map story_ID (Stories r))"
    using ok s by (auto simp: stories_ok_def backlog_ok_def split: if_splits)
  define i where "i = nat (CurrentStoryIndex r)"
  have i_len: "i < length (Stories r)" and i_int: "CurrentStoryIndex r = int i"
    using i by (simp_all add: i_def)
  define j where "j = nat (moved (int s) (int t) (int i))"
  have j: "j < length (Stories r)" "int j = moved (int s) (int t) (int i)"
    using moved_range [of "int s" "int (length (Stories r))" "int t" "int i"] s t i_len
    by (simp_all add: j_def nat_less_iff)
  have "distinct (map story_ID (Stories r2))"
    unfolding r2_def using dist distinct_mset_eq [OF arg_cong [OF mset_move_nth [OF s], of "image_mset story_ID" t, unfolded mset_map [symmetric]]]
    by simp
  moreover have "Stories r2 ! j = Stories r ! i"
    using nth_move_nth [OF s t i_len] by (simp add: r2_def j_def)
  ultimately have "storyIndexByID (story_ID (Stories r ! i)) r2 = int j"
    using storyIndexByID_nth [of r2 j] j s by (simp add: r2_def)
  moreover have "currentStoryID r = story_ID (Stories r ! i)"
    using i_int i_len by (simp add: currentStoryID_def)
  moreover have "story_ID (Stories r ! i) \<noteq> ''''"
    using ne nth_mem [OF i_len] by (metis imageI set_map)
  ultimately show "updateCurrentStoryIndex (int s) (int t) (currentStoryID r) r2 =
      r2\<lparr>CurrentStoryIndex := moved (int s) (int t) (CurrentStoryIndex r)\<rparr>"
    using j i_int by (simp add: updateCurrentStoryIndex_def)
qed

section \<open>Every operation keeps the backlog well formed\<close>

lemma backlog_ok_append:
  "backlog_ok ids i mode \<Longrightarrow> uuid \<noteq> '''' \<Longrightarrow> uuid \<notin> set ids \<Longrightarrow>
   backlog_ok (ids @ [uuid]) (if ids = [] then 0 else i) True"
  by (auto simp: backlog_ok_def split: if_splits)

lemma stories_ok_AddStory:
  assumes "stories_ok r" and "uuid \<noteq> ''''" and "uuid \<notin> set (map story_ID (Stories r))"
  shows "stories_ok (fst (AddStory uuid i name r))"
proof (rule add_story.guarded_invariant [where I = stories_ok, OF assms(1)])
  from backlog_ok_append [OF assms(1)[unfolded stories_ok_def] assms(2,3)]
  show "stories_ok (fst (let r1 = (if \<not> BacklogMode r then r\<lparr>BacklogMode := True\<rparr> else r);
                 r2 = r1\<lparr>Stories := Stories r1 @ [newStory uuid name]\<rparr>
             in (if length (Stories r2) = 1 then r2\<lparr>CurrentStoryIndex := 0\<rparr> else r2, None)))"
    by (cases "Stories r = []") (auto simp: stories_ok_def newStory_def Let_def)
qed

lemma stories_ok_ToggleBacklogMode:
  assumes "stories_ok r" and "uuid \<noteq> ''''" and "ToggleBacklogMode uuid i r = Some (r', e)"
  shows "stories_ok r'"
  using assms
  by (auto simp: ToggleBacklogMode_def Let_def stories_ok_def backlog_ok_def newStory_def
      split: option.splits if_splits)

lemma ToggleBacklogMode_total:
  "stories_ok r \<Longrightarrow> ToggleBacklogMode uuid i r \<noteq> None"
  by (auto simp: ToggleBacklogMode_def Let_def stories_ok_def backlog_ok_def getCurrentStoryName_def
      storyAt_def split: option.splits if_splits)

text \<open>The three ways \<open>RemoveStory\<close> moves the index, as one equation.\<close>

lemma RemoveStory_body_eq:
  assumes "sid \<noteq> ''''" and n: "storyIndexByID sid r = int n" "n < length (Stories r)"
  shows "RemoveStory_body clk sid r =
    (let i = CurrentStoryIndex r; len = length (Stories r);
         i' = (if int n = i then (if len = 1 then 0 else if n = len - 1 then i - 1 else i)
               else if int n < i then i - 1 else i);
         r1 = r\<lparr>CurrentStoryIndex := i', Stories := remove_nth n (Stories r)\<rparr>
     in (if int n = i then freshRound clk r1 else r1, None))"
proof -
  have one: "length (Stories r) = 1 \<Longrightarrow> remove_nth n (Stories r) = []"
    using n(2) by (simp add: remove_nth_single)
  have swap: "(freshRound clk r0)\<lparr>Stories := ss\<rparr> = freshRound clk (r0\<lparr>Stories := ss\<rparr>)" for r0 ss
    by (simp add: freshRound_def reveal_off clearConsensus_def clearVotes_def room_applyVote_def)
  show ?thesis
    using assms one by (auto simp: RemoveStory_body_def Let_def swap of_nat_diff)
qed

lemma stories_ok_RemoveStory_body:
  assumes ok: "stories_ok r"
  shows "stories_ok (fst (RemoveStory_body clk sid r))"
proof (cases "sid = '''' \<or> storyIndexByID sid r = -1")
  case True
  then show ?thesis using ok by (auto simp: RemoveStory_body_def Let_def)
next
  case False
  then obtain n where sid: "sid \<noteq> ''''" and n: "storyIndexByID sid r = int n" "n < length (Stories r)"
    by (auto elim: storyIndexByID_some)
  show ?thesis
  proof (cases "length (Stories r) = 1")
    case True
    then have "remove_nth n (Stories r) = []" using n(2) by (simp add: remove_nth_single)
    with True n ok show ?thesis
      by (auto simp: RemoveStory_body_eq [OF sid n] Let_def stories_ok_def backlog_ok_def
          split: if_splits)
  next
    case False
    with n(2) have "1 < length (Stories r)" by simp
    with backlog_ok_remove [OF ok[unfolded stories_ok_def], of n] n(2) False show ?thesis
      by (auto simp: RemoveStory_body_eq [OF sid n] Let_def stories_ok_def map_remove_nth
          split: if_splits)
  qed
qed

lemma stories_ok_index:
  "stories_ok r \<Longrightarrow> n < length (Stories r) \<Longrightarrow> stories_ok (r\<lparr>CurrentStoryIndex := int n\<rparr>)"
  by (auto simp: stories_ok_def backlog_ok_def)

lemma SelectStory_body_cases:
  assumes "SelectStory_body clk sid r = (r', e)"
  obtains (error) err where "r' = r" "e = Some err"
  | (selected) n where "e = None" "sid \<noteq> ''''" "storyIndexByID sid r = int n"
      "n < length (Stories r)" "story_ID (Stories r ! n) = sid"
      "\<not> story_Voted (Stories r ! n)" "int n \<noteq> CurrentStoryIndex r"
      "r' = recordEvent (StorySelected (room_ID r) sid (UTC (clk 0)))
              (freshRound clk (r\<lparr>CurrentStoryIndex := int n\<rparr>))"
proof (cases "sid = '''' \<or> storyIndexByID sid r = -1 \<or> storyIndexByID sid r = CurrentStoryIndex r \<or>
    story_Voted (Stories r ! nat (storyIndexByID sid r))")
  case True
  with assms show thesis
    by (intro error [of "the e"]) (auto simp: SelectStory_body_def Let_def split: if_splits)
next
  case False
  then obtain n where "storyIndexByID sid r = int n" "n < length (Stories r)"
    "story_ID (Stories r ! n) = sid" by (auto elim: storyIndexByID_some)
  with False assms show thesis
    by (intro selected [of n]) (auto simp: SelectStory_body_def Let_def split: if_splits)
qed

lemma stories_ok_SelectStory_body:
  assumes "stories_ok r"
  shows "stories_ok (fst (SelectStory_body clk sid r))"
proof -
  obtain r' e where b: "SelectStory_body clk sid r = (r', e)" by (cases "SelectStory_body clk sid r")
  from b show ?thesis
    by (cases rule: SelectStory_body_cases) (simp_all add: b assms stories_ok_index)
qed

text \<open>\<open>ReorderStory\<close> fails, does nothing, or moves one story and follows the current one.\<close>

lemma ReorderStory_cases:
  assumes ok: "stories_ok r" and eq: "ReorderStory i sid t r = (r', e)"
  obtains (error) err where "r' = r" "e = Some err"
  | (reordered) s k where "e = None" "t = int k" "k < length (Stories r)" "s < length (Stories r)"
      "story_ID (Stories r ! s) = sid"
      "r' = r\<lparr>Stories := move_nth s k (Stories r),
             CurrentStoryIndex := moved (int s) t (CurrentStoryIndex r)\<rparr>"
proof (cases "validateReorderStory i sid t r")
  case (Inl err)
  with eq show thesis by (intro error) (auto simp: ReorderStory_def)
next
  case (Inr si)
  then have v: "si = storyIndexByID sid r" "si \<noteq> -1" "0 \<le> t" "t < int (length (Stories r))"
    by (auto simp: validateReorderStory_def split: option.splits if_splits)
  then obtain s where s: "si = int s" "s < length (Stories r)" "story_ID (Stories r ! s) = sid"
    by (metis storyIndexByID_some)
  define k where "k = nat t"
  have k: "t = int k" "k < length (Stories r)" using v by (simp_all add: k_def nat_less_iff)
  show thesis
  proof (cases "int s = t")
    case True
    then have "move_nth s k (Stories r) = Stories r" using s k by (simp add: move_nth_def)
    moreover have "moved (int s) t (CurrentStoryIndex r) = CurrentStoryIndex r"
      using True by (auto simp: moved_def Let_def)
    ultimately show thesis
      using eq Inr s k True by (intro reordered [of k s]) (auto simp: ReorderStory_def)
  next
    case False
    have "(r', e) = (updateCurrentStoryIndex (int s) (int k) (currentStoryID r)
        (r\<lparr>Stories := move_nth s k (Stories r)\<rparr>), None)"
      using eq Inr s k False by (simp add: ReorderStory_def Let_def move_nth_def)
    also have "\<dots> = (r\<lparr>Stories := move_nth s k (Stories r),
        CurrentStoryIndex := moved (int s) (int k) (CurrentStoryIndex r)\<rparr>, None)"
      by (simp add: updateCurrentStoryIndex_moved [OF ok s(2) k(2)])
    finally show thesis using s k by (intro reordered [of k s]) auto
  qed
qed

lemma stories_ok_ReorderStory:
  assumes ok: "stories_ok r"
  shows "stories_ok (fst (ReorderStory i sid t r))"
proof -
  obtain r' e where b: "ReorderStory i sid t r = (r', e)" by (cases "ReorderStory i sid t r")
  from ok b show ?thesis
  proof (cases rule: ReorderStory_cases)
    case (reordered s k)
    have m: "mset (move_nth s k (map story_ID (Stories r))) = mset (map story_ID (Stories r))"
      using reordered by (intro mset_move_nth) simp
    have "set (move_nth s k (map story_ID (Stories r))) = set (map story_ID (Stories r))"
      using mset_eq_setD [OF m] .
    moreover have "distinct (move_nth s k (map story_ID (Stories r)))"
      using ok distinct_mset_eq [OF m] by (simp add: stories_ok_def backlog_ok_def)
    moreover have "0 \<le> CurrentStoryIndex r \<and> CurrentStoryIndex r < int (length (Stories r))"
      using ok reordered by (auto simp: stories_ok_def backlog_ok_def split: if_splits)
    then have "0 \<le> moved (int s) t (CurrentStoryIndex r) \<and>
        moved (int s) t (CurrentStoryIndex r) < int (length (Stories r))"
      using reordered by (intro moved_range) auto
    ultimately show ?thesis
      using ok reordered unfolding b fst_conv
      by (auto simp: stories_ok_def backlog_ok_def map_move_nth)
  qed (simp add: b ok)
qed

lemma stories_ok_step:
  "stories_ok r \<Longrightarrow> CurrentStoryIndex r < int (length (Stories r)) - 1 \<Longrightarrow>
   stories_ok (r\<lparr>CurrentStoryIndex := CurrentStoryIndex r + 1\<rparr>)"
  "stories_ok r \<Longrightarrow> 0 < CurrentStoryIndex r \<Longrightarrow>
   stories_ok (r\<lparr>CurrentStoryIndex := CurrentStoryIndex r - 1\<rparr>)"
  by (auto simp: stories_ok_def backlog_ok_def split: if_splits)

lemma stories_ok_rename:
  "stories_ok (r\<lparr>Stories := (Stories r)[k := (Stories r ! k)\<lparr>story_Name := n\<rparr>]\<rparr>) = stories_ok r"
proof -
  have "map story_ID ((Stories r)[k := (Stories r ! k)\<lparr>story_Name := n\<rparr>]) = map story_ID (Stories r)"
    by (cases "k < length (Stories r)")
      (simp_all add: map_update list_update_same_conv list_update_beyond)
  then show ?thesis by (simp add: stories_ok_def)
qed

section \<open>Switching the backlog on and off\<close>

text \<open>The name a room falls back to when the backlog goes.\<close>

definition leaving_name :: "room \<Rightarrow> string" where
  "leaving_name r =
     (if Stories r \<noteq> [] \<and> story_Name (Stories r ! nat (CurrentStoryIndex r)) \<noteq> ''''
      then story_Name (Stories r ! nat (CurrentStoryIndex r)) else CurrentStory r)"

lemma getCurrentStoryName_ok:
  "stories_ok r \<Longrightarrow>
   getCurrentStoryName (r\<lparr>BacklogMode := b\<rparr>) =
     Some (if Stories r = [] then '''' else story_Name (Stories r ! nat (CurrentStoryIndex r)))"
  by (auto simp: getCurrentStoryName_def storyAt_def stories_ok_def backlog_ok_def)

lemma ToggleBacklogMode_cases:
  assumes ok: "stories_ok r" and eq: "ToggleBacklogMode u i r = Some (r', e)"
  obtains (error) err where "r' = r" "e = Some err"
  | (on) "\<not> BacklogMode r" "e = None"
      "r' = (if CurrentStory r = '''' then r\<lparr>BacklogMode := True\<rparr>
             else r\<lparr>BacklogMode := True, Stories := [newStory u (CurrentStory r)],
                    CurrentStoryIndex := 0\<rparr>)"
  | (off) "BacklogMode r" "e = None"
      "r' = r\<lparr>BacklogMode := False, CurrentStory := leaving_name r, Stories := [],
             CurrentStoryIndex := 0\<rparr>"
proof (cases "FindClient r i")
  case None
  with eq show thesis by (intro error) (auto simp: ToggleBacklogMode_def)
next
  case (Some c)
  consider "\<not> IsOwner c" | "IsOwner c" "\<not> BacklogMode r" | "IsOwner c" "BacklogMode r" by blast
  then show thesis
  proof cases
    case 1
    with eq Some show thesis by (intro error) (auto simp: ToggleBacklogMode_def)
  next
    case 2
    with eq Some show thesis by (intro on) (auto simp: ToggleBacklogMode_def Let_def)
  next
    case 3
    have "\<exists>r0. r' = r0 \<and> r0 = r\<lparr>BacklogMode := False, CurrentStory := leaving_name r,
        Stories := [], CurrentStoryIndex := 0\<rparr> \<and> e = None"
      using eq Some 3
      by (cases "Stories r = []"; cases "story_Name (Stories r ! nat (CurrentStoryIndex r)) = ''''")
        (auto simp: ToggleBacklogMode_def Let_def getCurrentStoryName_ok [OF ok] leaving_name_def)
    with 3 show thesis by (intro off) auto
  qed
qed

end
