(* ===== verification/Room_Machine.thy ===== *)
theory Room_Machine
  imports Room_Presence Room_Backlog
begin

text \<open>
  A room under every operation of the aggregate, as a state machine. \<open>apply_op\<close> dispatches to
  the methods of \<open>*Room\<close> in \<open>internal/domain/entity\<close>; \<open>room_step\<close> relates a room to the one an
  operation leaves, whether it succeeded or failed; \<open>reachable\<close> are the rooms a new room becomes.
  Identifiers that \<open>uuid.NewString\<close> generates are assumed fresh and not empty.
\<close>

section \<open>Operations\<close>

datatype room_op =
    OpNewClient ClientID
  | OpRemoveClient ClientID
  | OpToggleSpectator ClientID ClientID
  | OpToggleOwner ClientID ClientID
  | OpAdminToggleOwner ClientID
  | OpUpdateClientName ClientID string
  | OpVote ClientID "Vote option"
  | OpToggleReveal ClientID
  | OpResetVoting ClientID
  | OpToggleBacklogMode string ClientID
  | OpAddStory string ClientID string
  | OpRemoveStory ClientID StoryID
  | OpSelectStory ClientID StoryID
  | OpReorderStory ClientID StoryID int
  | OpAdvanceToNextStory ClientID
  | OpPrevStory ClientID
  | OpSetCurrentStory ClientID string

text \<open>\<open>None\<close> is a panic.\<close>

fun apply_op :: "clock \<Rightarrow> room_op \<Rightarrow> room \<Rightarrow> (room \<times> go_error option) option" where
  "apply_op clk (OpNewClient i) r = Some (snd (room_NewClient i r), None)"
| "apply_op clk (OpRemoveClient i) r = Some (RemoveClient clk i r)"
| "apply_op clk (OpToggleSpectator i t) r = Some (ToggleSpectator clk i t r)"
| "apply_op clk (OpToggleOwner i t) r = Some (ToggleOwner i t r)"
| "apply_op clk (OpAdminToggleOwner t) r = Some (AdminToggleOwner t r)"
| "apply_op clk (OpUpdateClientName i n) r = Some (UpdateClientName i n r)"
| "apply_op clk (OpVote i v) r = Some (Vote clk i v r)"
| "apply_op clk (OpToggleReveal i) r = Some (ToggleReveal clk i r)"
| "apply_op clk (OpResetVoting i) r = Some (ResetVoting clk i r)"
| "apply_op clk (OpToggleBacklogMode u i) r = ToggleBacklogMode u i r"
| "apply_op clk (OpAddStory u i n) r = Some (AddStory u i n r)"
| "apply_op clk (OpRemoveStory i s) r = Some (RemoveStory clk i s r)"
| "apply_op clk (OpSelectStory i s) r = Some (SelectStory clk i s r)"
| "apply_op clk (OpReorderStory i s t) r = Some (ReorderStory i s t r)"
| "apply_op clk (OpAdvanceToNextStory i) r = Some (AdvanceToNextStory clk i r)"
| "apply_op clk (OpPrevStory i) r = Some (PrevStory clk i r)"
| "apply_op clk (OpSetCurrentStory i n) r = Some (SetCurrentStory i n r)"

text \<open>What \<open>uuid.NewString\<close> guarantees of the identifiers an operation brings.\<close>

definition fresh_story :: "room \<Rightarrow> string \<Rightarrow> bool" where
  "fresh_story r u \<longleftrightarrow> u \<noteq> '''' \<and> u \<notin> set (map story_ID (Stories r))"

fun op_fresh :: "room \<Rightarrow> room_op \<Rightarrow> bool" where
  "op_fresh r (OpNewClient i) = (i \<notin> set (map client_ID (Clients r)))"
| "op_fresh r (OpToggleBacklogMode u i) = fresh_story r u"
| "op_fresh r (OpAddStory u i n) = fresh_story r u"
| "op_fresh r _ = True"

inductive room_step :: "room \<Rightarrow> room_op \<Rightarrow> room \<Rightarrow> bool" where
  step: "op_fresh r op \<Longrightarrow> apply_op clk op r = Some (r', err) \<Longrightarrow> room_step r op r'"

inductive reachable :: "room \<Rightarrow> bool" where
  new: "reachable (NewRoomWithIDAndDeck now i (cc_New []) t)"
| op: "reachable r \<Longrightarrow> room_step r oper r' \<Longrightarrow> reachable r'"
| pull: "reachable r \<Longrightarrow> reachable (snd (PullEvents r))"
| version: "reachable r \<Longrightarrow> reachable (r\<lparr>RoomVersion := v\<rparr>)"

inductive_cases room_stepE: "room_step r op r'"
inductive_simps room_step_simps: "room_step r op r'"

section \<open>The invariant of a room\<close>

definition room_ok :: "room \<Rightarrow> bool" where
  "room_ok r \<longleftrightarrow> clients_ok (room_Deck r) (Clients r) \<and> stories_ok r \<and> round_ok r"

lemma room_okI:
  "clients_ok (deckForType (DeckType r)) (Clients r) \<Longrightarrow> stories_ok r \<Longrightarrow> round_ok r \<Longrightarrow> room_ok r"
  by (simp add: room_ok_def room_Deck_def)

lemma room_okD:
  assumes "room_ok r"
  shows "clients_ok (deckForType (DeckType r)) (Clients r)" "stories_ok r" "round_ok r"
  using assms by (simp_all add: room_ok_def room_Deck_def)

lemma room_ok_reveal [simp, intro]: "room_ok r \<Longrightarrow> room_ok (reveal clk b r)"
  by (auto intro!: room_okI dest: room_okD)

lemma room_ok_checkReveal [simp, intro]: "room_ok r \<Longrightarrow> room_ok (checkReveal clk r)"
  by (auto intro!: room_okI dest: room_okD)

lemma room_ok_clearVotes [simp, intro]: "room_ok r \<Longrightarrow> room_ok (clearVotes r)"
  by (auto intro!: room_okI dest: room_okD simp: clients_ok_clear)

lemma room_ok_recordEvent [simp, intro]: "room_ok r \<Longrightarrow> room_ok (recordEvent e r)"
  by (auto intro!: room_okI dest: room_okD simp: recordEvent_def stories_ok_def)

lemma room_ok_freshRound [simp, intro]: "room_ok r \<Longrightarrow> room_ok (freshRound clk r)"
  by (simp add: freshRound_def)

lemma room_ok_clients:
  "room_ok r \<Longrightarrow> clients_ok (deckForType (DeckType r)) cs \<Longrightarrow> room_ok (r\<lparr>Clients := cs\<rparr>)"
  by (auto intro!: room_okI dest: room_okD)

lemma room_ok_stories:
  "room_ok r \<Longrightarrow> stories_ok r' \<Longrightarrow> round_ok r' \<Longrightarrow> Clients r' = Clients r \<Longrightarrow>
   DeckType r' = DeckType r \<Longrightarrow> room_ok r'"
  by (auto intro!: room_okI dest: room_okD)

lemma room_ok_upd_client:
  "room_ok r \<Longrightarrow> clients_ok (deckForType (DeckType r)) (update_first (\<lambda>c. client_ID c = i) f (Clients r)) \<Longrightarrow>
   room_ok (upd_client i f r)"
  by (simp add: upd_client_def room_ok_clients)

section \<open>Every operation keeps it\<close>

lemma room_ok_new: "room_ok (NewRoomWithIDAndDeck now i (cc_New []) t)"
  by (rule room_okI)
    (simp_all add: NewRoomWithIDAndDeck_def NewRoomWithIDAndStartedAt_def cc_New_def clients_ok_def
      owned_def stories_ok_def backlog_ok_def round_ok_def)

lemma room_ok_NewClient:
  assumes "room_ok r" and "i \<notin> set (map client_ID (Clients r))"
  shows "room_ok (snd (room_NewClient i r))"
  using assms clients_ok_NewClient [of _ r i]
  by (subst room_NewClient_frame) (auto intro!: room_ok_clients dest: room_okD)

lemma room_ok_RemoveClient: "room_ok r \<Longrightarrow> room_ok (fst (RemoveClient clk i r))"
  by (auto simp: RemoveClient_eq intro!: room_ok_clients clients_ok_without dest: room_okD)

lemma room_ok_ToggleSpectator: "room_ok r \<Longrightarrow> room_ok (fst (ToggleSpectator clk i t r))"
  by (rule toggle_spectator.guarded_invariant [where I = room_ok])
    (auto simp: ToggleSpectator_body_eq split: option.split
      intro!: room_ok_upd_client clients_ok_respectate dest: room_okD)

lemma room_ok_flip: "room_ok r \<Longrightarrow> \<not> lastOwner t r \<Longrightarrow> room_ok (upd_client t flipOwner r)"
  using clients_ok_flip [of "deckForType (DeckType r)" r t]
  by (auto intro!: room_ok_upd_client dest: room_okD)

lemma room_ok_ToggleOwner: "room_ok r \<Longrightarrow> room_ok (fst (ToggleOwner i t r))"
  by (rule toggle_owner.guarded_invariant [where I = room_ok])
    (auto simp: ToggleOwner_body_def room_ok_flip split: option.split)

lemma room_ok_AdminToggleOwner: "room_ok r \<Longrightarrow> room_ok (fst (AdminToggleOwner t r))"
  by (auto simp: AdminToggleOwner_def room_ok_flip split: option.split)

lemma room_ok_UpdateClientName: "room_ok r \<Longrightarrow> room_ok (fst (UpdateClientName i n r))"
  by (auto simp: UpdateClientName_def split: option.split
      intro!: room_ok_upd_client clients_ok_rename dest: room_okD)

text \<open>A vote that passed the check of the deck is a card of the deck.\<close>

lemma clients_ok_vote:
  assumes "clients_ok d cs" and "\<And>v. vote = Some v \<Longrightarrow> v = '''' \<or> HasCard d v"
  shows "clients_ok d (update_first p (client_applyVote t vote) cs)"
  using assms
  by (intro clients_ok_update owned_update_first)
    (auto simp: vote_valid_def clients_ok_def)

lemma Vote_cases:
  obtains (unknown) "FindClient r i = None" "Vote clk i vote r = (r, Some (clientNotFound i r))"
  | (rejected) c v where "FindClient r i = Some c" "vote = Some v" "v \<noteq> ''''"
      "\<not> HasCard (room_Deck r) v"
      "Vote clk i vote r = (r, Some (Newf CodeValidation ''vote %q is not part of deck %s''
                              [OStr v, OStr (deck_ID (room_Deck r))]))"
  | (revealed) c where "FindClient r i = Some c" "Reveal r"
      "\<And>v. vote = Some v \<Longrightarrow> v = '''' \<or> HasCard (room_Deck r) v"
      "Vote clk i vote r = (r, None)"
  | (cleared) c where "FindClient r i = Some c" "\<not> Reveal r" "vote = None \<or> vote = Some ''''"
      "Vote clk i vote r =
         (checkReveal (\<lambda>n. clk (n + 2)) (upd_client i (client_applyVote (clk 0) vote) r), None)"
  | (cast) c v where "FindClient r i = Some c" "\<not> Reveal r" "vote = Some v" "v \<noteq> ''''"
      "HasCard (room_Deck r) v"
      "Vote clk i vote r =
         (checkReveal (\<lambda>n. clk (n + 2))
            (recordEvent (VoteCast (room_ID r) i v (UTC (clk 1)))
               (upd_client i (client_applyVote (clk 0) vote) r)), None)"
proof (cases "FindClient r i")
  case None
  then show thesis by (intro unknown) (simp_all add: Vote_def)
next
  case (Some c)
  have id: "upd_client i (\<lambda>c. c) r = r"
  proof -
    have "update_first p (\<lambda>c. c) cs = cs" for p and cs :: "client list" by (induction cs) auto
    then show ?thesis by (simp add: upd_client_def)
  qed
  note vote_defs = Vote_def Let_def Vote_IsEmpty_def room_applyVote_def Some id
  consider (empty) "vote = None \<or> vote = Some ''''" | (label) v where "vote = Some v" "v \<noteq> ''''"
    by (cases vote) auto
  then show thesis
  proof cases
    case empty
    show thesis
    proof (cases "Reveal r")
      case True
      show thesis by (rule revealed [OF Some True]) (use empty True in \<open>auto simp: vote_defs\<close>)
    next
      case False
      show thesis by (rule cleared [OF Some False]) (use empty False in \<open>auto simp: vote_defs\<close>)
    qed
  next
    case label
    show thesis
    proof (cases "HasCard (room_Deck r) v")
      case False
      show thesis by (rule rejected [OF Some label False]) (simp add: vote_defs label False)
    next
      case card: True
      show thesis
      proof (cases "Reveal r")
        case True
        show thesis by (rule revealed [OF Some True]) (simp_all add: vote_defs label card True)
      next
        case False
        show thesis by (rule cast [OF Some False label card]) (simp add: vote_defs label card False)
      qed
    qed
  qed
qed

lemma room_ok_Vote: "room_ok r \<Longrightarrow> room_ok (fst (Vote clk i vote r))"
proof -
  assume ok: "room_ok r"
  have upd: "room_ok (upd_client i (client_applyVote t vote) r)"
    if "\<And>v. vote = Some v \<Longrightarrow> v = '''' \<or> HasCard (room_Deck r) v" for t
    using ok that by (intro room_ok_upd_client clients_ok_vote) (auto dest: room_okD simp: room_Deck_def)
  show ?thesis
    by (cases rule: Vote_cases [of r i clk vote]) (use upd in \<open>auto simp: ok\<close>)
qed

lemma room_ok_ToggleReveal: "room_ok r \<Longrightarrow> room_ok (fst (ToggleReveal clk i r))"
  by (rule toggle_reveal.guarded_invariant [where I = room_ok]) simp_all

lemma room_ok_ResetVoting: "room_ok r \<Longrightarrow> room_ok (fst (ResetVoting clk i r))"
  by (rule reset_voting.guarded_invariant [where I = room_ok]) simp_all

lemma room_ok_ToggleBacklogMode:
  assumes "room_ok r" and "u \<noteq> ''''" and eq: "ToggleBacklogMode u i r = Some (r', e)"
  shows "room_ok r'"
proof (rule room_ok_stories [OF assms(1)])
  note ok = room_okD [OF assms(1)]
  show "stories_ok r'" using stories_ok_ToggleBacklogMode [OF ok(2) assms(2) eq] .
  from ok(2) eq show "round_ok r'"
    by (cases rule: ToggleBacklogMode_cases) (simp_all add: ok(3))
  from ok(2) eq show "Clients r' = Clients r"
    by (cases rule: ToggleBacklogMode_cases) simp_all
  from ok(2) eq show "DeckType r' = DeckType r"
    by (cases rule: ToggleBacklogMode_cases) simp_all
qed

lemma room_ok_AddStory:
  assumes ok: "room_ok r" and fresh: "fresh_story r u"
  shows "room_ok (fst (AddStory u i n r))"
proof (rule room_ok_stories [OF ok])
  show "stories_ok (fst (AddStory u i n r))"
    using fresh by (intro stories_ok_AddStory room_okD(2) [OF ok]) (simp_all add: fresh_story_def)
qed (use room_okD(3) [OF ok] in \<open>auto simp: AddStory_def Let_def split: option.split\<close>)

lemma RemoveStory_body_parts:
  assumes "room_ok r"
  shows "clients_ok (deckForType (DeckType r)) (Clients (fst (RemoveStory_body clk sid r)))"
    "DeckType (fst (RemoveStory_body clk sid r)) = DeckType r"
    "round_ok (fst (RemoveStory_body clk sid r))"
  using room_okD [OF assms] by (auto simp: RemoveStory_body_def Let_def)

lemma room_ok_RemoveStory: "room_ok r \<Longrightarrow> room_ok (fst (RemoveStory clk i s r))"
proof (rule remove_story.guarded_invariant [where I = room_ok])
  assume ok: "room_ok r"
  show "room_ok (fst (RemoveStory_body clk s r))"
    using RemoveStory_body_parts [OF ok, of clk s] stories_ok_RemoveStory_body [OF room_okD(2) [OF ok]]
    by (intro room_okI) auto
qed

lemma room_ok_index:
  "room_ok r \<Longrightarrow> stories_ok (r\<lparr>CurrentStoryIndex := k\<rparr>) \<Longrightarrow> room_ok (r\<lparr>CurrentStoryIndex := k\<rparr>)"
  by (rule room_ok_stories) (auto dest: room_okD)

lemma room_ok_SelectStory: "room_ok r \<Longrightarrow> room_ok (fst (SelectStory clk i s r))"
proof (rule select_story.guarded_invariant [where I = room_ok])
  assume ok: "room_ok r"
  obtain r' e where b: "SelectStory_body clk s r = (r', e)" by (cases "SelectStory_body clk s r")
  from b show "room_ok (fst (SelectStory_body clk s r))"
    by (cases rule: SelectStory_body_cases)
      (simp_all add: b ok room_ok_index stories_ok_index room_okD(2) [OF ok])
qed

lemma room_ok_ReorderStory:
  assumes ok: "room_ok r"
  shows "room_ok (fst (ReorderStory i s t r))"
proof -
  obtain r' e where b: "ReorderStory i s t r = (r', e)" by (cases "ReorderStory i s t r")
  have st: "stories_ok r'" using stories_ok_ReorderStory [OF room_okD(2) [OF ok], of i s t] b by simp
  from room_okD(2) [OF ok] b show ?thesis
  proof (cases rule: ReorderStory_cases)
    case (reordered s k)
    show ?thesis unfolding b fst_conv
      by (rule room_ok_stories [OF ok st]) (simp_all add: reordered room_okD(3) [OF ok])
  qed (simp add: b ok)
qed

lemma room_ok_AdvanceToNextStory: "room_ok r \<Longrightarrow> room_ok (fst (AdvanceToNextStory clk i r))"
  by (rule next_story.guarded_invariant [where I = room_ok])
    (auto intro!: room_ok_freshRound room_ok_index stories_ok_step dest: room_okD)

lemma room_ok_PrevStory: "room_ok r \<Longrightarrow> room_ok (fst (PrevStory clk i r))"
  by (rule prev_story.guarded_invariant [where I = room_ok])
    (auto intro!: room_ok_freshRound room_ok_index stories_ok_step dest: room_okD)

lemma room_ok_SetCurrentStory: "room_ok r \<Longrightarrow> room_ok (fst (SetCurrentStory i n r))"
  by (rule set_current_story.guarded_invariant [where I = room_ok])
    (auto intro!: room_ok_stories [of r] simp: stories_ok_rename dest: room_okD)

lemmas room_ok_ops =
  room_ok_NewClient room_ok_RemoveClient room_ok_ToggleSpectator room_ok_ToggleOwner
  room_ok_AdminToggleOwner room_ok_UpdateClientName room_ok_Vote room_ok_ToggleReveal
  room_ok_ResetVoting room_ok_AddStory room_ok_RemoveStory room_ok_SelectStory
  room_ok_ReorderStory room_ok_AdvanceToNextStory room_ok_PrevStory room_ok_SetCurrentStory

lemma apply_op_ok:
  assumes "room_ok r" and "op_fresh r op" and "apply_op clk op r = Some (r', err)"
  shows "room_ok r'"
proof (cases op)
  case (OpToggleBacklogMode u i)
  then show ?thesis using assms room_ok_ToggleBacklogMode by (auto simp: fresh_story_def)
qed (use assms room_ok_ops in \<open>auto dest!: arg_cong [of _ _ fst]\<close>)

lemma room_ok_step: "room_step r op r' \<Longrightarrow> room_ok r \<Longrightarrow> room_ok r'"
  by (elim room_stepE) (rule apply_op_ok)

lemma reachable_ok: "reachable r \<Longrightarrow> room_ok r"
proof (induction rule: reachable.induct)
  case (pull r)
  then show ?case
    by (auto simp: PullEvents_def intro!: room_okI dest: room_okD)
      (simp add: stories_ok_def room_ok_def)
next
  case (version r v)
  then show ?case
    by (auto intro!: room_okI dest: room_okD) (simp_all add: stories_ok_def round_ok_def room_ok_def)
qed (auto intro: room_ok_new room_ok_step)

section \<open>Running a sequence of operations\<close>

fun run_ops :: "clock \<Rightarrow> room_op list \<Rightarrow> room \<Rightarrow> room option" where
  "run_ops clk [] r = Some r"
| "run_ops clk (op # ops) r =
     (if op_fresh r op
      then (case apply_op clk op r of None \<Rightarrow> None | Some (r', _) \<Rightarrow> run_ops clk ops r')
      else None)"

lemma reachable_run: "run_ops clk ops r = Some r' \<Longrightarrow> reachable r \<Longrightarrow> reachable r'"
proof (induction ops arbitrary: r)
  case (Cons op ops)
  then obtain r1 e where 1: "op_fresh r op" "apply_op clk op r = Some (r1, e)" "run_ops clk ops r1 = Some r'"
    by (auto split: option.splits if_splits)
  have "reachable r1" by (rule reachable.op [OF Cons.prems(2) room_step.step [OF 1(1,2)]])
  with Cons.IH 1(3) show ?case by blast
qed simp

text \<open>A room of the numeric deck with three participants and three stories, one of them voted.\<close>

definition sample_clock :: clock where "sample_clock n = Time (1000 + int n) ''Local''"

definition sample_ops :: "room_op list" where
  "sample_ops =
     [OpNewClient ''ann'', OpNewClient ''bob'', OpNewClient ''cy'',
      OpAddStory ''s1'' ''ann'' ''login'', OpAddStory ''s2'' ''ann'' ''logout'',
      OpAddStory ''s3'' ''ann'' ''search'', OpToggleSpectator ''ann'' ''cy'',
      OpVote ''ann'' (Some ''5''), OpVote ''bob'' (Some ''8''),
      OpAdvanceToNextStory ''ann'', OpVote ''ann'' (Some ''3'')]"

definition sample_new :: room where
  "sample_new = NewRoomWithIDAndDeck (Time 7 ''Local'') ''room'' (cc_New []) DeckTypeFibonacci"

definition sample_room :: room where
  "sample_room = the (run_ops sample_clock sample_ops sample_new)"

lemma sample_run: "run_ops sample_clock sample_ops sample_new = Some sample_room"
proof -
  have "run_ops sample_clock sample_ops sample_new \<noteq> None" by code_simp
  then show ?thesis by (simp add: sample_room_def)
qed

lemma sample_room_value [code]:
  "sample_room =
   \<lparr>room_ID = ''room'', startedAt = Time 7 ''UTC'',
    Clients =
      [\<lparr>client_ID = ''ann'', client_Name = [], CurrentVote = Some ''3'', HasVoted = True,
        VotedAt = Some (Time 1000 ''UTC''), IsSpectator = False, IsOwner = True\<rparr>,
       \<lparr>client_ID = ''bob'', client_Name = [], CurrentVote = None, HasVoted = False,
        VotedAt = None, IsSpectator = False, IsOwner = False\<rparr>,
       \<lparr>client_ID = ''cy'', client_Name = [], CurrentVote = None, HasVoted = False,
        VotedAt = None, IsSpectator = True, IsOwner = False\<rparr>],
    DeckType = ''fibonacci'', CurrentStory = [], Reveal = False, Result = None,
    MostAppearingVotes = None, Consensus = [], LowestVote = None, HighestVote = None,
    VoteRange = None, VoteSpread = None, SpecialVoteCount = 0, BacklogMode = True,
    Stories =
      [\<lparr>story_ID = ''s1'', story_Name = ''login'', story_Result = Some (13 / 2),
        story_MostAppearingVotes = Some [''5'', ''8''], story_Voted = True\<rparr>,
       newStory ''s2'' ''logout'', newStory ''s3'' ''search''],
    CurrentStoryIndex = 1, RoomVersion = 0,
    events =
      [VoteCast ''room'' ''ann'' ''5'' (Time 1001 ''UTC''),
       VoteCast ''room'' ''bob'' ''8'' (Time 1001 ''UTC''),
       VotesRevealed ''room'' (Some (13 / 2)) ''Medium'' (Time 1002 ''UTC''),
       StoryEstimated ''room'' ''s1'' (Some (13 / 2)) (Time 1003 ''UTC''),
       VoteCast ''room'' ''ann'' ''3'' (Time 1001 ''UTC'')]\<rparr>"
  by code_simp

lemma reachable_sample: "reachable sample_room"
  by (rule reachable_run [OF sample_run]) (simp add: sample_new_def reachable.new)

lemma sample_ok: "room_ok sample_room"
  by (rule reachable_ok [OF reachable_sample])

section \<open>What no operation touches\<close>

definition same_identity :: "room \<Rightarrow> room \<Rightarrow> bool" where
  "same_identity r r' \<longleftrightarrow>
     (room_ID r', startedAt r', DeckType r', RoomVersion r') =
       (room_ID r, startedAt r, DeckType r, RoomVersion r) \<and> appends r r'"

lemma same_identity_refl [simp]: "same_identity r r"
  by (simp add: same_identity_def)

lemma same_identity_trans: "same_identity r r1 \<Longrightarrow> same_identity r1 r2 \<Longrightarrow> same_identity r r2"
  by (auto simp: same_identity_def intro: appends_trans)

lemma same_identity_updates [simp]:
  "same_identity r0 (r\<lparr>Clients := cs\<rparr>) = same_identity r0 r"
  "same_identity r0 (r\<lparr>Stories := ss\<rparr>) = same_identity r0 r"
  "same_identity r0 (r\<lparr>CurrentStory := n\<rparr>) = same_identity r0 r"
  "same_identity r0 (r\<lparr>CurrentStoryIndex := k\<rparr>) = same_identity r0 r"
  "same_identity r0 (r\<lparr>BacklogMode := b\<rparr>) = same_identity r0 r"
  "same_identity r0 (upd_client i f r) = same_identity r0 r"
  "same_identity r0 (clearVotes r) = same_identity r0 r"
  "same_identity r0 (freshRound clk r) = same_identity r0 r"
  by (simp_all add: same_identity_def appends_def)

lemma same_identity_reveal [simp]: "same_identity r0 r \<Longrightarrow> same_identity r0 (reveal clk b r)"
  by (erule same_identity_trans) (simp add: same_identity_def)

lemma same_identity_checkReveal [simp]: "same_identity r0 r \<Longrightarrow> same_identity r0 (checkReveal clk r)"
  by (erule same_identity_trans) (simp add: same_identity_def)

lemma same_identity_recordEvent [simp]: "same_identity r0 r \<Longrightarrow> same_identity r0 (recordEvent e r)"
  by (erule same_identity_trans) (simp add: same_identity_def recordEvent_def appends_def)

lemma op_frame:
  assumes "apply_op clk op r = Some (r', err)"
  shows "same_identity r r'"
proof (cases op)
  case (OpNewClient i)
  have "same_identity r (snd (room_NewClient i r))"
    by (subst room_NewClient_frame) simp
  with OpNewClient assms show ?thesis by simp
next
  case (OpVote i v)
  then show ?thesis using assms by (cases rule: Vote_cases [of r i clk v]) auto
next
  case (OpToggleBacklogMode u i)
  then show ?thesis
    using assms by (auto simp: ToggleBacklogMode_def Let_def split: option.splits if_splits)
next
  case (OpRemoveStory i s)
  then show ?thesis using assms
    by (auto simp: RemoveStory_def RemoveStory_body_def Let_def split: option.splits if_splits)
next
  case (OpSelectStory i s)
  then show ?thesis using assms
    by (auto simp: SelectStory_def SelectStory_body_def Let_def split: option.splits if_splits)
next
  case (OpReorderStory i s t)
  then show ?thesis using assms
    by (auto simp: ReorderStory_def updateCurrentStoryIndex_def Let_def
        split: option.splits sum.splits if_splits)
next
  case (OpToggleSpectator i t)
  then show ?thesis using assms
    by (auto simp: ToggleSpectator_def ToggleSpectator_body_eq split: option.splits if_splits)
next
  case (OpAddStory u i n)
  then show ?thesis using assms by (auto simp: AddStory_def Let_def split: option.splits if_splits)
qed (use assms in \<open>auto simp: RemoveClient_eq ToggleOwner_def ToggleOwner_body_def
  AdminToggleOwner_def UpdateClientName_def ToggleReveal_def ResetVoting_def
  AdvanceToNextStory_def PrevStory_def SetCurrentStory_def split: option.splits if_splits\<close>)

end
