(* ===== verification/Room_Properties.thy ===== *)
theory Room_Properties
  imports Room_Machine
begin

text \<open>
  The properties of the room aggregate, each with a concrete room its hypotheses hold of: the
  invariants of every reachable room, the effect of voting, revealing and resetting, the
  figures a revealed round reports, and the operations on the backlog.
\<close>

section \<open>Invariants\<close>



text \<open>C2: in every reachable room the backlog is well formed: story IDs are distinct and not
  empty, the current index points at a story whenever there is one, and so neither reading the
  current story nor switching the backlog off ever indexes out of range.\<close>

theorem reachable_backlog:
  assumes "reachable r"
  shows "distinct (map story_ID (Stories r)) \<and> '''' \<notin> set (map story_ID (Stories r))
    \<and> (Stories r \<noteq> [] \<longrightarrow> 0 \<le> CurrentStoryIndex r \<and> CurrentStoryIndex r < int (length (Stories r)))
    \<and> EffectiveCurrentStory r =
        Some (if Stories r = [] then CurrentStory r
              else story_Name (Stories r ! nat (CurrentStoryIndex r)))
    \<and> (\<forall>u i. ToggleBacklogMode u i r \<noteq> None)"
proof -
  have ok: "stories_ok r" by (rule room_okD(2) [OF reachable_ok [OF assms]])
  then have "EffectiveCurrentStory r =
      Some (if Stories r = [] then CurrentStory r
            else story_Name (Stories r ! nat (CurrentStoryIndex r)))"
    by (auto simp: stories_ok_def backlog_ok_def EffectiveCurrentStory_def storyAt_def)
  with ok ToggleBacklogMode_total [OF ok] show ?thesis
    by (auto simp: stories_ok_def backlog_ok_def)
qed

theorem reachable_backlog_witness:
  "Stories sample_room \<noteq> [] \<and> EffectiveCurrentStory sample_room = Some ''logout''
   \<and> CurrentStoryIndex sample_room < int (length (Stories sample_room))"
proof -
  have "Stories sample_room \<noteq> []"
    "story_Name (Stories sample_room ! nat (CurrentStoryIndex sample_room)) = ''logout''"
    by code_simp+
  with reachable_backlog [OF reachable_sample] show ?thesis by simp
qed

text \<open>C3: an operation that returns an error has changed nothing in the room.\<close>

theorem error_changes_nothing:
  assumes "apply_op clk op r = Some (r', Some err)"
  shows "r' = r"
proof (cases op)
  case (OpVote i v)
  with assms show ?thesis by (cases rule: Vote_cases [of r i clk v]) auto
next
  case (OpRemoveStory i s)
  with assms show ?thesis
    by (auto simp: RemoveStory_def RemoveStory_body_def Let_def split: option.splits if_splits)
next
  case (OpSelectStory i s)
  with assms show ?thesis
    by (auto simp: SelectStory_def elim: SelectStory_body_cases split: option.splits if_splits)
next
  case (OpToggleSpectator i t)
  with assms show ?thesis
    by (auto simp: ToggleSpectator_def ToggleSpectator_body_eq split: option.splits if_splits)
next
  case (OpReorderStory i s t)
  with assms show ?thesis
    by (auto simp: ReorderStory_def Let_def split: sum.splits if_splits)
next
  case (OpToggleBacklogMode u i)
  with assms show ?thesis
    by (auto simp: ToggleBacklogMode_def Let_def split: option.splits if_splits)
next
  case (OpAddStory u i n)
  with assms show ?thesis by (auto simp: AddStory_def Let_def split: option.splits if_splits)
qed (use assms in \<open>auto simp: RemoveClient_eq ToggleOwner_def ToggleOwner_body_def
  AdminToggleOwner_def UpdateClientName_def ToggleReveal_def ResetVoting_def
  AdvanceToNextStory_def PrevStory_def SetCurrentStory_def split: option.splits if_splits\<close>)

theorem error_changes_nothing_witness:
  "\<exists>r' err. apply_op sample_clock (OpVote ''ann'' (Some ''4'')) sample_room = Some (r', Some err)
    \<and> r' = sample_room"
proof -
  have "case apply_op sample_clock (OpVote ''ann'' (Some ''4'')) sample_room of
      Some (_, Some _) \<Rightarrow> True | _ \<Rightarrow> False"
    by code_simp
  then obtain r' err where
    "apply_op sample_clock (OpVote ''ann'' (Some ''4'')) sample_room = Some (r', Some err)"
    by (auto split: option.splits)
  with error_changes_nothing [OF this] show ?thesis by blast
qed

text \<open>operations do not touch a room's identity (ID, start, deck, version) and only append to
  its events.\<close>

theorem operations_keep_identity:
  assumes "apply_op clk op r = Some (r', err)"
  shows "room_ID r' = room_ID r \<and> startedAt r' = startedAt r \<and> DeckType r' = DeckType r
    \<and> RoomVersion r' = RoomVersion r \<and> (\<exists>es. events r' = events r @ es)"
proof -
  have "(room_ID r', startedAt r', DeckType r', RoomVersion r') =
      (room_ID r, startedAt r, DeckType r, RoomVersion r) \<and> appends r r'"
    using op_frame [OF assms] by (simp add: same_identity_def)
  then show ?thesis by (simp add: appends_def)
qed

theorem operations_keep_identity_witness:
  "\<exists>r' es. apply_op sample_clock (OpToggleReveal ''ann'') sample_room = Some (r', None)
    \<and> events r' = events sample_room @ es \<and> room_ID r' = ''room''"
proof -
  let ?r' = "fst (ToggleReveal sample_clock ''ann'' sample_room)"
  have "snd (ToggleReveal sample_clock ''ann'' sample_room) = None" "room_ID sample_room = ''room''"
    by code_simp+
  then have "apply_op sample_clock (OpToggleReveal ''ann'') sample_room = Some (?r', None)"
    by (simp add: prod_eq_iff)
  from operations_keep_identity [OF this] this \<open>room_ID sample_room = ''room''\<close> show ?thesis by auto
qed

section \<open>Who may do what\<close>

text \<open>The caller an operation takes its rights from, for the operations reserved to owners.\<close>

fun owner_only :: "room_op \<Rightarrow> ClientID option" where
  "owner_only (OpToggleSpectator i t) = Some i"
| "owner_only (OpToggleOwner i t) = Some i"
| "owner_only (OpToggleReveal i) = Some i"
| "owner_only (OpResetVoting i) = Some i"
| "owner_only (OpToggleBacklogMode u i) = Some i"
| "owner_only (OpAddStory u i n) = Some i"
| "owner_only (OpRemoveStory i s) = Some i"
| "owner_only (OpSelectStory i s) = Some i"
| "owner_only (OpReorderStory i s t) = Some i"
| "owner_only (OpAdvanceToNextStory i) = Some i"
| "owner_only (OpPrevStory i) = Some i"
| "owner_only (OpSetCurrentStory i n) = Some i"
| "owner_only _ = None"

text \<open>C4: an operation reserved to owners has an effect, or succeeds, only when its caller is a
  client of the room that owns it.\<close>

theorem owner_operations_need_owner:
  assumes "owner_only op = Some i" and "apply_op clk op r = Some (r', err)"
    and "r' \<noteq> r \<or> err = None"
  shows "\<exists>c. FindClient r i = Some c \<and> IsOwner c"
  using assms
proof (cases op)
  case (OpReorderStory j s t)
  with assms show ?thesis
    by (auto simp: ReorderStory_def validateReorderStory_def split: option.splits if_splits)
next
  case (OpToggleBacklogMode u j)
  with assms show ?thesis
    by (auto simp: ToggleBacklogMode_def split: option.splits if_splits)
qed (auto simp: ToggleSpectator_def ToggleOwner_def ToggleReveal_def ResetVoting_def AddStory_def
  RemoveStory_def SelectStory_def AdvanceToNextStory_def PrevStory_def SetCurrentStory_def
  split: option.splits if_splits)

theorem owner_operations_need_owner_witness:
  "\<exists>c. FindClient sample_room ''ann'' = Some c \<and> IsOwner c"
proof -
  have "snd (PrevStory sample_clock ''ann'' sample_room) = None" by code_simp
  then have "apply_op sample_clock (OpPrevStory ''ann'') sample_room =
      Some (fst (PrevStory sample_clock ''ann'' sample_room), None)"
    by (simp add: prod_eq_iff)
  from owner_operations_need_owner [OF _ this] show ?thesis by simp
qed

text \<open>taking ownership from the only owner is refused (with \<open>ErrLastOwner\<close> on the admin route,
  silently on the owner's route); from any other client it is toggled, and nobody else's is.\<close>

theorem ownership_toggles:
  "(lastOwner t r \<longrightarrow> AdminToggleOwner t r = (r, Some ErrLastOwner) \<and> ToggleOwner_body t r = (r, None))
   \<and> (\<not> lastOwner t r \<longrightarrow> FindClient r t = Some c \<longrightarrow>
        AdminToggleOwner t r = ToggleOwner_body t r
        \<and> snd (AdminToggleOwner t r) = None
        \<and> FindClient (fst (AdminToggleOwner t r)) t = Some (c\<lparr>IsOwner := \<not> IsOwner c\<rparr>)
        \<and> (\<forall>j. j \<noteq> t \<longrightarrow> FindClient (fst (AdminToggleOwner t r)) j = FindClient r j))"
proof -
  have "FindClient (upd_client t flipOwner r) t = Some (flipOwner c)" if "FindClient r t = Some c"
    using that find_update_first_same [of "\<lambda>c. client_ID c = t" "Clients r" c flipOwner]
      FindClient_Some [OF that]
    by (simp add: FindClient_find flipOwner_def)
  moreover have "FindClient (upd_client t flipOwner r) j = FindClient r j" if "j \<noteq> t" for j
    using that by (simp add: FindClient_find find_update_first_other flipOwner_def)
  ultimately show ?thesis
    by (auto simp: AdminToggleOwner_def ToggleOwner_body_def flipOwner_def)
qed

theorem ownership_toggles_witness:
  "lastOwner ''ann'' sample_room \<and> snd (AdminToggleOwner ''ann'' sample_room) = Some ErrLastOwner
   \<and> (\<exists>c. FindClient sample_room ''bob'' = Some c
        \<and> FindClient (fst (AdminToggleOwner ''bob'' sample_room)) ''bob'' = Some (c\<lparr>IsOwner := True\<rparr>))"
proof -
  have l: "lastOwner ''ann'' sample_room" "\<not> lastOwner ''bob'' sample_room" by code_simp+
  have "case FindClient sample_room ''bob'' of Some c \<Rightarrow> \<not> IsOwner c | None \<Rightarrow> False" by code_simp
  then obtain c where c: "FindClient sample_room ''bob'' = Some c" "\<not> IsOwner c"
    by (auto split: option.splits)
  show ?thesis
    using l c ownership_toggles [of "''ann''" sample_room c]
      ownership_toggles [of "''bob''" sample_room c] by auto
qed

text \<open>C29: when a client leaves, the others stay in order and as they were, except that if no owner
  is left among them the first becomes one.\<close>

theorem leaving_keeps_an_owner:
  assumes "distinct (map client_ID (Clients r))"
  shows "snd (RemoveClient clk i r) = None
    \<and> (let rest = filter (\<lambda>c. client_ID c \<noteq> i) (Clients r)
       in Clients (fst (RemoveClient clk i r)) =
          (if list_ex IsOwner rest \<or> rest = [] then rest
           else (hd rest)\<lparr>IsOwner := True\<rparr> # tl rest))"
proof -
  have head: "update_first (\<lambda>_. True) f xs = f (hd xs) # tl xs" if "xs \<noteq> []"
    for f :: "client \<Rightarrow> client" and xs
    using that by (cases xs) auto
  show ?thesis
    by (auto simp: RemoveClient_eq without_client_def Let_def filter_remove_first [OF assms] head)
qed

theorem leaving_keeps_an_owner_witness:
  "map client_ID (filter IsOwner (Clients (fst (RemoveClient sample_clock ''ann'' sample_room))))
     = [''bob'']"
proof -
  let ?rest = "filter (\<lambda>c. client_ID c \<noteq> ''ann'') (Clients sample_room)"
  have "distinct (map client_ID (Clients sample_room))" by code_simp
  from leaving_keeps_an_owner [OF this, of sample_clock "''ann''"]
  have "Clients (fst (RemoveClient sample_clock ''ann'' sample_room)) =
      (if list_ex IsOwner ?rest \<or> ?rest = [] then ?rest else (hd ?rest)\<lparr>IsOwner := True\<rparr> # tl ?rest)"
    by (simp only: Let_def)
  moreover have "\<not> list_ex IsOwner ?rest" "?rest \<noteq> []" "filter IsOwner (tl ?rest) = []"
    "client_ID (hd ?rest) = ''bob''"
    by code_simp+
  ultimately show ?thesis by simp
qed

section \<open>Voting\<close>

text \<open>C5: a vote in a hidden round for a card of the deck sets that client's vote, touches no other
  client, is recorded as an event, and reveals the round exactly when it completes the votes.\<close>

theorem vote_is_cast:
  assumes "FindClient r i = Some c" and "\<not> Reveal r" and "v \<noteq> ''''" and "HasCard (room_Deck r) v"
  shows "let r' = fst (Vote clk i (Some v) r) in
    snd (Vote clk i (Some v) r) = None
    \<and> FindClient r' i = Some (c\<lparr>CurrentVote := Some v, HasVoted := True, VotedAt := Some (UTC (clk 0))\<rparr>)
    \<and> (\<forall>j. j \<noteq> i \<longrightarrow> FindClient r' j = FindClient r j)
    \<and> (Reveal r' \<longleftrightarrow> all_voted r')
    \<and> (\<exists>es. events r' = events r @ VoteCast (room_ID r) i v (UTC (clk 1)) # es
         \<and> (\<not> Reveal r' \<longrightarrow> es = []))"
proof -
  define r1 where "r1 = recordEvent (VoteCast (room_ID r) i v (UTC (clk 1)))
    (upd_client i (client_applyVote (clk 0) (Some v)) r)"
  have eq: "Vote clk i (Some v) r = (checkReveal (\<lambda>n. clk (n + 2)) r1, None)"
    using assms by (cases rule: Vote_cases [of r i clk "Some v"]) (auto simp: r1_def)
  have cs: "Clients r1 = update_first (\<lambda>c. client_ID c = i) (client_applyVote (clk 0) (Some v)) (Clients r)"
    by (simp add: r1_def)
  have hidden: "\<not> Reveal r1" using assms by (simp add: r1_def recordEvent_def)
  have "FindClient r1 i = Some (client_applyVote (clk 0) (Some v) c)"
    using assms(1) FindClient_Some [OF assms(1)]
      find_update_first_same [of "\<lambda>c. client_ID c = i" "Clients r" c "client_applyVote (clk 0) (Some v)"]
    by (simp add: FindClient_find cs)
  moreover have "client_applyVote (clk 0) (Some v) c =
      c\<lparr>CurrentVote := Some v, HasVoted := True, VotedAt := Some (UTC (clk 0))\<rparr>"
    using assms(3) by (simp add: client_applyVote_def Vote_IsEmpty_def)
  moreover have "FindClient r1 j = FindClient r j" if "j \<noteq> i" for j
    using that by (simp add: FindClient_find cs find_update_first_other)
  moreover have "events r1 = events r @ [VoteCast (room_ID r) i v (UTC (clk 1))]"
    by (simp add: r1_def recordEvent_def)
  moreover define r2 where "r2 = checkReveal (\<lambda>n. clk (n + 2)) r1"
  obtain es where es: "events r2 = events r1 @ es"
    using appends_checkReveal [of r1 "\<lambda>n. clk (n + 2)"] by (auto simp: appends_def r2_def)
  have "\<not> Reveal r2 \<Longrightarrow> r2 = r1" by (auto simp: r2_def checkReveal_cases split: if_splits)
  with es have "\<not> Reveal r2 \<Longrightarrow> es = []" by auto
  moreover note es
  moreover have "Clients r2 = Clients r1" "Reveal r2 \<longleftrightarrow> all_voted r2"
    using hidden by (simp_all add: r2_def all_voted_def)
  moreover have "Vote clk i (Some v) r = (r2, None)" by (simp add: eq r2_def)
  ultimately show ?thesis
    by (simp add: Let_def FindClient_find)
qed

theorem vote_is_cast_witness:
  "Reveal (fst (Vote sample_clock ''bob'' (Some ''5'') sample_room))"
proof -
  have "FindClient sample_room ''bob'' \<noteq> None" by code_simp
  then obtain c where c: "FindClient sample_room ''bob'' = Some c" by auto
  have "\<not> Reveal sample_room" "HasCard (room_Deck sample_room) ''5''"
    "all_voted (fst (Vote sample_clock ''bob'' (Some ''5'') sample_room))" by code_simp+
  with vote_is_cast [OF c, of "''5''" sample_clock] show ?thesis by (simp add: Let_def)
qed

text \<open>C7: once a round is revealed its votes are final: no vote, for any card, by anyone, changes
  the room.\<close>

theorem revealed_votes_are_final:
  assumes "Reveal r"
  shows "fst (Vote clk i vote r) = r"
  using assms by (cases rule: Vote_cases [of r i clk vote]) auto

theorem revealed_votes_are_final_witness:
  "fst (Vote sample_clock ''bob'' (Some ''8'') (reveal sample_clock True sample_room))
     = reveal sample_clock True sample_room"
  by (rule revealed_votes_are_final) simp

text \<open>C6: a vote that is accepted, a departure and a change of role reveal the round as soon as
  every remaining participant has voted, and never before; none of them hides it.\<close>

theorem rounds_reveal_when_complete:
  "(snd (Vote clk i v r) = None \<longrightarrow>
      (Reveal (fst (Vote clk i v r)) \<longleftrightarrow> Reveal r \<or> all_voted (fst (Vote clk i v r))))
   \<and> (Reveal (fst (RemoveClient clk i r)) \<longleftrightarrow> Reveal r \<or> all_voted (fst (RemoveClient clk i r)))
   \<and> (snd (ToggleSpectator clk i t r) = None \<longrightarrow>
      (Reveal (fst (ToggleSpectator clk i t r)) \<longleftrightarrow>
         Reveal r \<or> all_voted (fst (ToggleSpectator clk i t r))))"
proof -
  have frame: "all_voted (checkReveal k q) = all_voted q" "all_voted (recordEvent e q) = all_voted q"
    "Reveal (recordEvent e q) = Reveal q" for k q e
    by (simp_all add: all_voted_def recordEvent_def)
  have "snd (Vote clk i v r) = None \<longrightarrow>
      (Reveal (fst (Vote clk i v r)) \<longleftrightarrow> Reveal r \<or> all_voted (fst (Vote clk i v r)))"
    by (cases rule: Vote_cases [of r i clk v]) (simp_all add: frame)
  moreover have "snd (ToggleSpectator clk i t r) = None \<longrightarrow>
      (Reveal (fst (ToggleSpectator clk i t r)) \<longleftrightarrow>
         Reveal r \<or> all_voted (fst (ToggleSpectator clk i t r)))"
    by (auto simp: ToggleSpectator_def ToggleSpectator_body_eq frame split: option.splits)
  ultimately show ?thesis by (simp add: RemoveClient_eq frame)
qed

theorem rounds_reveal_when_complete_witness:
  "Reveal (fst (RemoveClient sample_clock ''bob'' sample_room))
   \<and> \<not> Reveal (fst (Vote sample_clock ''ann'' (Some ''8'') sample_room))"
proof -
  have "all_voted (fst (RemoveClient sample_clock ''bob'' sample_room))"
    "snd (Vote sample_clock ''ann'' (Some ''8'') sample_room) = None" "\<not> Reveal sample_room"
    "\<not> all_voted (fst (Vote sample_clock ''ann'' (Some ''8'') sample_room))"
    by code_simp+
  with rounds_reveal_when_complete [of sample_clock "''bob''" None sample_room "''bob''"]
    rounds_reveal_when_complete [of sample_clock "''ann''" "Some ''8''" sample_room "''ann''"]
  show ?thesis by simp
qed

text \<open>resetting by an owner hides the round, clears every figure and every vote, and leaves the
  stories and everything else about the clients.\<close>

theorem reset_clears_the_round:
  assumes "FindClient r i = Some c" and "IsOwner c"
  shows "snd (ResetVoting clk i r) = None
    \<and> (let r' = fst (ResetVoting clk i r) in
       \<not> Reveal r' \<and> round_ok r'
       \<and> Clients r' = map (\<lambda>c. c\<lparr>CurrentVote := None, HasVoted := False, VotedAt := None\<rparr>) (Clients r)
       \<and> Stories r' = Stories r \<and> events r' = events r)"
proof -
  have "ResetVoting clk i r = (freshRound clk r, None)"
    using reset_voting.owner [OF assms] by (simp add: freshRound_def)
  moreover have "client_applyVote zero_time None = (\<lambda>c. c\<lparr>CurrentVote := None, HasVoted := False, VotedAt := None\<rparr>)"
    by (simp add: fun_eq_iff client_applyVote_def)
  ultimately show ?thesis by (simp add: Let_def)
qed

theorem reset_clears_the_round_witness:
  "\<not> Reveal (fst (ResetVoting sample_clock ''ann'' (reveal sample_clock True sample_room)))"
proof -
  have "case FindClient (reveal sample_clock True sample_room) ''ann'' of
      Some c \<Rightarrow> IsOwner c | None \<Rightarrow> False" by code_simp
  then obtain c where "FindClient (reveal sample_clock True sample_room) ''ann'' = Some c" "IsOwner c"
    by (auto split: option.splits)
  from reset_clears_the_round [OF this, of sample_clock] show ?thesis by (simp add: Let_def)
qed

section \<open>What a revealed round reports\<close>

text \<open>C8: revealing a hidden round publishes the result, the most frequent cards, the consensus and
  the special votes of the votes held, stamps the current story of the backlog with them and
  announces both; the votes stay, and revealing again changes nothing.\<close>

theorem reveal_publishes_the_round:
  assumes "\<not> Reveal r"
  shows "let r' = reveal clk True r in
    Reveal r' \<and> Clients r' = Clients r
    \<and> Result r' = round_result r \<and> MostAppearingVotes r' = Some (most_frequent r)
    \<and> (Consensus r', LowestVote r', HighestVote r', VoteRange r', VoteSpread r') =
        (let s = consensus_spec (room_Deck r) (round_votes r)
         in (vs_Consensus s, vs_LowestVote s, vs_HighestVote s, vs_VoteRange s, vs_VoteSpread s))
    \<and> SpecialVoteCount r' = int (length (specials (room_Deck r) (Clients r)))
    \<and> Stories r' = stamped_stories r \<and> events r' = events r @ reveal_events clk r
    \<and> reveal clk2 True r' = r'"
  using assms by (simp add: reveal_on revealed_room_def Let_def)

theorem reveal_publishes_the_round_witness:
  "Result (reveal sample_clock True sample_room) = Some 3
   \<and> MostAppearingVotes (reveal sample_clock True sample_room) = Some [''3'']
   \<and> events (reveal sample_clock True sample_room) = events sample_room @
       [VotesRevealed ''room'' (Some 3) ''High'' (Time 1000 ''UTC''),
        StoryEstimated ''room'' ''s2'' (Some 3) (Time 1001 ''UTC'')]"
proof -
  have "\<not> Reveal sample_room" "round_result sample_room = Some 3" "most_frequent sample_room = [''3'']"
    "reveal_events sample_clock sample_room =
       [VotesRevealed ''room'' (Some 3) ''High'' (Time 1000 ''UTC''),
        StoryEstimated ''room'' ''s2'' (Some 3) (Time 1001 ''UTC'')]"
    by code_simp+
  with reveal_publishes_the_round [of sample_room sample_clock] show ?thesis by (simp add: Let_def)
qed

text \<open>C9: on the numeric deck the result is the average of the votes, rounded once to binary32 (the
  sums themselves are exact for up to \<open>2 ^ 17\<close> votes), and lies between any bounds on the votes;
  it is absent exactly when no numbered card was played.\<close>

theorem numeric_result_is_average:
  assumes deck: "DeckType r \<noteq> DeckTypeTShirt" and size: "length (round_votes r) \<le> 2 ^ 17"
    and hidden: "\<not> Reveal r"
  shows "Result (reveal clk True r) =
      (if round_votes r = [] then None
       else Some (round32 (of_int (sum_list (numbers (round_votes r))) /
                           of_int (int (length (round_votes r))))))
    \<and> (\<forall>x a b. Result (reveal clk True r) = Some x \<longrightarrow>
         0 \<le> a \<longrightarrow> b \<le> 2 ^ 24 \<longrightarrow> (\<forall>n \<in> set (numbers (round_votes r)). a \<le> n \<and> n \<le> b) \<longrightarrow>
         of_int a \<le> x \<and> x \<le> of_int b)"
proof -
  have "room_Deck r = fibonacciDeck" using deck by (simp add: room_Deck_def deckForType_cases)
  then have cards: "set (round_votes r) \<subseteq> set (EstimateCards fibonacciDeck)"
    using round_votes_cards [of r] by simp
  have len: "length (numbers (round_votes r)) = length (round_votes r)"
    by (rule numbers_fibonacci(1) [OF cards])
  note sums = sums_exact [OF numbers_fibonacci(2) [OF cards] size[folded len]]
  have nil: "numbers (round_votes r) = [] \<longleftrightarrow> round_votes r = []"
    using len by (metis length_0_conv)
  have res: "Result (reveal clk True r) =
      (if round_votes r = [] then None
       else Some (round32 (of_int (sum_list (numbers (round_votes r))) /
                           of_int (int (length (round_votes r))))))"
    using hidden by (simp add: reveal_on revealed_room_def Let_def round_result_def nil sums fdiv32_def len)
  then show ?thesis
    using average_between [of "numbers (round_votes r)"] by (auto simp: nil len split: if_splits)
qed

theorem numeric_result_is_average_witness:
  "Result (reveal sample_clock True (fst (Vote sample_clock ''bob'' (Some ''8'')
     (fst (ToggleSpectator sample_clock ''ann'' ''cy'' sample_room))))) = Some (11 / 2)"
proof -
  let ?r = "fst (Vote sample_clock ''bob'' (Some ''8'')
    (fst (ToggleSpectator sample_clock ''ann'' ''cy'' sample_room)))"
  have "DeckType ?r \<noteq> DeckTypeTShirt" "\<not> Reveal ?r" and votes: "round_votes ?r = [''3'', ''8'']"
    and "sum_list (numbers [''3'', ''8'']) = 11" and "round32 (11 / 2) = 11 / 2"
    by code_simp+
  with numeric_result_is_average [of ?r sample_clock] show ?thesis by (simp add: votes)
qed

text \<open>a T-shirt round has no numeric result and no numeric range, whatever is voted.\<close>

theorem categorical_rounds_have_no_numbers:
  assumes "DeckType r = DeckTypeTShirt" and "\<not> Reveal r"
  shows "Result (reveal clk True r) = None \<and> VoteRange (reveal clk True r) = None"
proof -
  have deck: "room_Deck r = tShirtDeck" using assms by (simp add: room_Deck_def deckForType_cases)
  have cards: "set (round_votes r) \<subseteq> set (EstimateCards tShirtDeck)"
    using round_votes_cards [of r] by (simp add: deck)
  have "vs_VoteRange (consensus_spec tShirtDeck (round_votes r)) = None"
  proof (cases "round_votes r = []")
    case False
    have "distinct (EstimateCards tShirtDeck)" by (simp add: EstimateCards_tShirt)
    from voted_cards_extremes(1) [OF this cards False] cards
    have "Atoi (lowest tShirtDeck (round_votes r)) = None" by (intro tShirt_Atoi) auto
    then show ?thesis by (simp add: consensus_spec_def numeric_range_def unavailableSummary_def)
  qed (simp add: consensus_spec_def unavailableSummary_def)
  then show ?thesis
    using assms numbers_tShirt [OF cards]
    by (simp add: reveal_on revealed_room_def Let_def round_result_def deck)
qed

definition sample_shirts :: room where
  "sample_shirts = the (run_ops sample_clock
     [OpNewClient ''ann'', OpNewClient ''bob'', OpVote ''ann'' (Some ''M'')]
     (sample_new\<lparr>DeckType := DeckTypeTShirt\<rparr>))"

theorem categorical_rounds_have_no_numbers_witness:
  "Result (reveal sample_clock True sample_shirts) = None
   \<and> round_votes sample_shirts = [''M'']"
proof -
  have "DeckType sample_shirts = DeckTypeTShirt" "\<not> Reveal sample_shirts"
    "round_votes sample_shirts = [''M'']" by code_simp+
  with categorical_rounds_have_no_numbers [of sample_shirts sample_clock] show ?thesis by simp
qed

text \<open>the most frequent cards are the cards of the deck, in its order, with the highest number of
  votes; the order in which Go happens to visit the map of counts does not matter.\<close>

theorem most_frequent_any_order:
  assumes "mset m = mset (vm_counts (collectVotes r (room_Deck r)))"
  shows "mostAppearingVotes m (getMostVoteCount m) (room_Deck r) =
    filter (\<lambda>c. c \<in> set (round_votes r) \<and>
              (\<forall>v \<in> set (round_votes r). count_list (round_votes r) v \<le> count_list (round_votes r) c))
      (EstimateCards (room_Deck r))"
proof -
  have "(\<forall>v \<in> set (round_votes r). count_list (round_votes r) v \<le> count_list (round_votes r) c) \<longleftrightarrow>
      count_list (round_votes r) c = top_count (round_votes r)" if "c \<in> set (round_votes r)" for c
  proof -
    have "round_votes r \<noteq> []" using that by auto
    from top_count_attained [OF this] top_count_ge [of _ "round_votes r"] that
    show ?thesis by (metis order_antisym_conv)
  qed
  then show ?thesis
    unfolding collectVotes_most [OF assms] most_frequent_def
    by (intro filter_cong refl conj_cong) simp
qed

theorem most_frequent_any_order_witness:
  "mostAppearingVotes [(''8'', 1), (''3'', 1)] 1 fibonacciDeck = [''3'', ''8'']"
proof -
  let ?r = "fst (Vote sample_clock ''bob'' (Some ''8'')
    (fst (ToggleSpectator sample_clock ''ann'' ''cy'' sample_room)))"
  have c: "vm_counts (collectVotes ?r (room_Deck ?r)) = [(''3'', 1), (''8'', 1)]"
    "room_Deck ?r = fibonacciDeck" "getMostVoteCount [(''8'', 1), (''3'', 1)] = 1" by code_simp+
  then have "mset [(''8'', 1), (''3'', 1)] = mset (vm_counts (collectVotes ?r (room_Deck ?r)))"
    by (simp add: add_mset_commute)
  from most_frequent_any_order [OF this]
  have "mostAppearingVotes [(''8'', 1), (''3'', 1)] 1 fibonacciDeck =
    filter (\<lambda>c. c \<in> set (round_votes ?r) \<and>
              (\<forall>v \<in> set (round_votes ?r). count_list (round_votes ?r) v \<le> count_list (round_votes ?r) c))
      (EstimateCards fibonacciDeck)" by (simp only: c)
  also have "\<dots> = [''3'', ''8'']" by code_simp
  finally show ?thesis .
qed

text \<open>C10: the consensus computed by one pass over the votes is that of the reference definition:
  lowest and highest card in the order of the deck, their distance in cards, their numeric
  distance where both are numbers, and the level, for which two thirds of the votes on one card
  is a strong majority. It does not depend on the order of the votes.\<close>

theorem consensus_matches_reference:
  assumes "set vs \<subseteq> set (EstimateCards (deckForType t))"
  shows "calculateConsensus (deckForType t) vs = consensus_spec (deckForType t) vs
    \<and> (\<forall>ws. mset ws = mset vs \<longrightarrow>
         calculateConsensus (deckForType t) ws = calculateConsensus (deckForType t) vs)"
proof -
  note spec = calculateConsensus_spec [OF distinct_EstimateCards]
  have "consensus_spec d ws = consensus_spec d vs" if ws: "mset ws = mset vs" for d ws
  proof -
    have "set ws = set vs" "length ws = length vs" "count_list ws = count_list vs"
      using ws mset_eq_setD [OF ws] mset_eq_length [OF ws]
      by (simp_all add: fun_eq_iff count_mset [symmetric])
    moreover from this have "top_count ws = top_count vs" by (simp add: top_count_Max)
    moreover from ws have "ws = [] \<longleftrightarrow> vs = []" by auto
    ultimately show ?thesis
      by (simp add: consensus_spec_def consensus_level_def card_spread_def numeric_range_def
          lowest_def highest_def voted_cards_def)
  qed
  moreover have "set ws = set vs" if "mset ws = mset vs" for ws
    using mset_eq_setD [OF that] .
  ultimately show ?thesis using spec [of vs t] spec assms by metis
qed

theorem consensus_matches_reference_witness:
  "vs_Consensus (calculateConsensus (deckForType DeckTypeFibonacci) [''5'', ''3'', ''5'']) = ''High''
   \<and> vs_Consensus (calculateConsensus (deckForType DeckTypeFibonacci) [''5'', ''3'']) = ''Medium''"
proof -
  have "set [''5'', ''3'', ''5''] \<subseteq> set (EstimateCards (deckForType DeckTypeFibonacci))"
    "set [''5'', ''3''] \<subseteq> set (EstimateCards (deckForType DeckTypeFibonacci))"
    "vs_Consensus (consensus_spec (deckForType DeckTypeFibonacci) [''5'', ''3'', ''5'']) = ''High''"
    "vs_Consensus (consensus_spec (deckForType DeckTypeFibonacci) [''5'', ''3'']) = ''Medium''"
    by code_simp+
  with consensus_matches_reference [of "[''5'', ''3'', ''5'']" DeckTypeFibonacci]
    consensus_matches_reference [of "[''5'', ''3'']" DeckTypeFibonacci]
  show ?thesis by simp
qed

section \<open>The backlog\<close>

text \<open>an accepted reordering moves exactly the story asked for, to the index asked for, keeps the
  others in order, keeps the voting round, and the current story is still the same one.\<close>

theorem reorder_moves_one_story:
  assumes ok: "room_ok r" and success: "ReorderStory i sid t r = (r', None)"
  shows "0 \<le> t \<and> t < int (length (Stories r)) \<and> mset (Stories r') = mset (Stories r)
    \<and> story_ID (Stories r' ! nat t) = sid
    \<and> filter (\<lambda>s. story_ID s \<noteq> sid) (Stories r') = filter (\<lambda>s. story_ID s \<noteq> sid) (Stories r)
    \<and> currentStoryID r' = currentStoryID r
    \<and> r' = r\<lparr>Stories := Stories r', CurrentStoryIndex := CurrentStoryIndex r'\<rparr>"
proof -
  have st: "stories_ok r" by (rule room_okD(2) [OF ok])
  obtain s k where m: "t = int k" "k < length (Stories r)" "s < length (Stories r)"
    "story_ID (Stories r ! s) = sid" "r' = r\<lparr>Stories := move_nth s k (Stories r),
       CurrentStoryIndex := moved (int s) t (CurrentStoryIndex r)\<rparr>"
    using ReorderStory_cases [OF st success] by (metis option.distinct(1))
  have dist: "distinct (map story_ID (Stories r))"
    and i: "0 \<le> CurrentStoryIndex r" "CurrentStoryIndex r < int (length (Stories r))"
    using st m by (auto simp: stories_ok_def backlog_ok_def split: if_splits)
  define n where "n = nat (CurrentStoryIndex r)"
  have n: "n < length (Stories r)" "CurrentStoryIndex r = int n" using i by (simp_all add: n_def)
  have "moved (int s) (int k) (int n) < int (length (Stories r))"
    "0 \<le> moved (int s) (int k) (int n)"
    using moved_range [of "int s" "int (length (Stories r))" "int k" "int n"] m n by simp_all
  then have "currentStoryID r' = currentStoryID r"
    using nth_move_nth [OF m(3,2) n(1)] m n by (simp add: currentStoryID_def)
  moreover have "filter (\<lambda>x. story_ID x \<noteq> sid) (move_nth s k (Stories r)) =
      filter (\<lambda>x. story_ID x \<noteq> sid) (Stories r)"
    using filter_move_nth [OF m(3), of "\<lambda>x. story_ID x \<noteq> sid" k] m(4) by simp
  ultimately show ?thesis
    using m nth_move_target [OF m(3,2)] by (simp add: mset_move_nth)
qed

theorem reorder_moves_one_story_witness:
  "map story_ID (Stories (fst (ReorderStory ''ann'' ''s1'' 2 sample_room))) = [''s2'', ''s3'', ''s1'']
   \<and> currentStoryID (fst (ReorderStory ''ann'' ''s1'' 2 sample_room)) = ''s2''"
proof -
  have "snd (ReorderStory ''ann'' ''s1'' 2 sample_room) = None" "currentStoryID sample_room = ''s2''"
    "map story_ID (Stories (fst (ReorderStory ''ann'' ''s1'' 2 sample_room))) = [''s2'', ''s3'', ''s1'']"
    by code_simp+
  then have "ReorderStory ''ann'' ''s1'' 2 sample_room =
      (fst (ReorderStory ''ann'' ''s1'' 2 sample_room), None)" by (simp add: prod_eq_iff)
  from reorder_moves_one_story [OF sample_ok this] \<open>currentStoryID sample_room = ''s2''\<close>
    \<open>map story_ID _ = _\<close>
  show ?thesis by simp
qed

text \<open>removing a story removes it and nothing else. The current story stays current and keeps its
  round, unless it is the one removed: then the votes are cleared and the story after it (the one
  before it, for the last) is next.\<close>

theorem remove_keeps_current_story:
  assumes ok: "room_ok r" and success: "RemoveStory clk i sid r = (r', None)"
  shows "Stories r' = filter (\<lambda>s. story_ID s \<noteq> sid) (Stories r)
    \<and> (currentStoryID r \<noteq> sid \<longrightarrow> currentStoryID r' = currentStoryID r
         \<and> Clients r' = Clients r \<and> Reveal r' = Reveal r)
    \<and> (currentStoryID r = sid \<longrightarrow> \<not> Reveal r' \<and> round_ok r'
         \<and> (\<forall>c \<in> set (Clients r'). \<not> HasVoted c)
         \<and> (Stories r' \<noteq> [] \<longrightarrow> currentStoryID r' =
              story_ID (Stories r' ! min (nat (CurrentStoryIndex r)) (length (Stories r') - 1))))"
proof -
  have st: "stories_ok r" by (rule room_okD(2) [OF ok])
  have "RemoveStory_body clk sid r = (r', None)"
    using success by (auto simp: RemoveStory_def split: option.splits if_splits)
  moreover from this have "sid \<noteq> ''''" "storyIndexByID sid r \<noteq> -1"
    by (auto simp: RemoveStory_body_def Let_def split: if_splits)
  ultimately obtain n where sid: "sid \<noteq> ''''" and n: "storyIndexByID sid r = int n"
    "n < length (Stories r)" "story_ID (Stories r ! n) = sid"
    and body: "RemoveStory_body clk sid r = (r', None)"
    by (auto elim: storyIndexByID_some)
  define i where "i = nat (CurrentStoryIndex r)"
  have i: "CurrentStoryIndex r = int i" "i < length (Stories r)"
    and dist: "distinct (map story_ID (Stories r))"
    using st n by (auto simp: stories_ok_def backlog_ok_def i_def split: if_splits)
  have cur: "currentStoryID r = story_ID (Stories r ! i)" using i by (simp add: currentStoryID_def)
  have same: "currentStoryID r = sid \<longleftrightarrow> n = i"
    using dist n i unfolding cur by (metis length_map nth_eq_iff_index_eq nth_map)
  have rest: "remove_nth n (Stories r) = filter (\<lambda>s. story_ID s \<noteq> sid) (Stories r)"
    using remove_nth_filter [OF dist n(2)] n(3) by simp
  note eq = RemoveStory_body_eq [OF sid n(1,2), of clk, unfolded body Let_def]
  have "Stories r' = remove_nth n (Stories r)" using eq by (auto split: if_splits)
  moreover have "currentStoryID r' = currentStoryID r \<and> Clients r' = Clients r \<and> Reveal r' = Reveal r"
    if "n \<noteq> i"
  proof -
    define j where "j = (if n < i then i - 1 else i)"
    have "j < length (Stories r) - 1" "remove_nth n (Stories r) ! j = Stories r ! i"
      using that n i by (auto simp: j_def nth_remove_nth)
    moreover have "nat (int i - 1) = i - 1" by arith
    ultimately show ?thesis
      using eq that n i by (auto simp: cur j_def currentStoryID_def split: if_splits)
  qed
  moreover have "\<not> Reveal r' \<and> round_ok r' \<and> (\<forall>c \<in> set (Clients r'). \<not> HasVoted c)" if "n = i"
    using eq that i by auto
  moreover have "currentStoryID r' =
      story_ID (Stories r' ! min i (length (Stories r') - 1))" if "n = i" "Stories r' \<noteq> []"
  proof -
    have "Stories r' = remove_nth n (Stories r)" using eq by (auto split: if_splits)
    with that n have "length (Stories r') = length (Stories r) - 1" "length (Stories r) \<noteq> 1"
      by (auto simp: remove_nth_single)
    moreover have "nat (int (length (Stories r)) - 2) = length (Stories r) - 2" by arith
    ultimately show ?thesis
      using eq that i n by (auto simp: currentStoryID_def min_def numeral_2_eq_2 split: if_splits)
  qed
  ultimately show ?thesis unfolding same rest i_def by auto
qed

theorem remove_keeps_current_story_witness:
  "currentStoryID (fst (RemoveStory sample_clock ''ann'' ''s1'' sample_room)) = ''s2''"
proof -
  have s: "snd (RemoveStory sample_clock ''ann'' ''s1'' sample_room) = None"
    "currentStoryID sample_room = ''s2''" by code_simp+
  then have "RemoveStory sample_clock ''ann'' ''s1'' sample_room =
      (fst (RemoveStory sample_clock ''ann'' ''s1'' sample_room), None)" by (simp add: prod_eq_iff)
  from remove_keeps_current_story [OF sample_ok this] s(2) show ?thesis by simp
qed

text \<open>selecting a story succeeds only for a pending story that is not current; it becomes the
  current one, the round starts afresh, and the event says so.\<close>

theorem select_starts_fresh_round:
  assumes ok: "room_ok r" and success: "SelectStory clk i sid r = (r', None)"
  shows "currentStoryID r \<noteq> sid \<and> (\<exists>s \<in> set (Stories r). story_ID s = sid \<and> \<not> story_Voted s)
    \<and> currentStoryID r' = sid \<and> Stories r' = Stories r
    \<and> \<not> Reveal r' \<and> round_ok r' \<and> (\<forall>c \<in> set (Clients r'). \<not> HasVoted c)
    \<and> events r' = events r @ [StorySelected (room_ID r) sid (UTC (clk 0))]"
proof -
  have "SelectStory_body clk sid r = (r', None)"
    using success by (auto simp: SelectStory_def split: option.splits if_splits)
  then obtain n where n: "sid \<noteq> ''''" "storyIndexByID sid r = int n"
      "n < length (Stories r)" "story_ID (Stories r ! n) = sid"
      "\<not> story_Voted (Stories r ! n)" "int n \<noteq> CurrentStoryIndex r"
      "r' = recordEvent (StorySelected (room_ID r) sid (UTC (clk 0)))
              (freshRound clk (r\<lparr>CurrentStoryIndex := int n\<rparr>))"
    by (cases rule: SelectStory_body_cases) auto
  have "currentStoryID r \<noteq> sid"
  proof
    assume cur: "currentStoryID r = sid"
    with n(1) have i: "0 \<le> CurrentStoryIndex r" "CurrentStoryIndex r < int (length (Stories r))"
      by (auto simp: currentStoryID_def split: if_splits)
    then have "storyIndexByID sid r = CurrentStoryIndex r"
      using cur room_okD(2) [OF ok] storyIndexByID_nth [of r "nat (CurrentStoryIndex r)"]
      by (auto simp: currentStoryID_def stories_ok_def backlog_ok_def nat_less_iff split: if_splits)
    with n show False by simp
  qed
  then show ?thesis
    using n by (auto simp: recordEvent_def currentStoryID_def round_ok_frame(6))
qed

theorem select_starts_fresh_round_witness:
  "currentStoryID (fst (SelectStory sample_clock ''ann'' ''s3'' sample_room)) = ''s3''"
proof -
  have "snd (SelectStory sample_clock ''ann'' ''s3'' sample_room) = None" by code_simp
  then have "SelectStory sample_clock ''ann'' ''s3'' sample_room =
      (fst (SelectStory sample_clock ''ann'' ''s3'' sample_room), None)" by (simp add: prod_eq_iff)
  from select_starts_fresh_round [OF sample_ok this] show ?thesis by simp
qed

text \<open>switching the backlog off keeps the name of the current story as the room's story, and
  switching it on again offers one pending story of that name: the story being discussed is the
  same throughout.\<close>

theorem backlog_round_trip:
  assumes ok: "room_ok r" and mode: "BacklogMode r"
    and off: "ToggleBacklogMode u i r = Some (r1, None)"
    and again: "ToggleBacklogMode u' i r1 = Some (r2, None)"
    and named: "EffectiveCurrentStory r = Some n" "n \<noteq> ''''"
  shows "\<not> BacklogMode r1 \<and> Stories r1 = [] \<and> EffectiveCurrentStory r1 = Some n
    \<and> BacklogMode r2 \<and> Stories r2 = [newStory u' n] \<and> EffectiveCurrentStory r2 = Some n"
proof -
  have st: "stories_ok r" by (rule room_okD(2) [OF ok])
  have r1: "r1 = r\<lparr>BacklogMode := False, CurrentStory := leaving_name r, Stories := [],
      CurrentStoryIndex := 0\<rparr>"
    using st off mode by (cases rule: ToggleBacklogMode_cases) auto
  have n: "leaving_name r = n"
    using st mode named
    by (auto simp: EffectiveCurrentStory_def storyAt_def leaving_name_def stories_ok_def
        backlog_ok_def split: if_splits)
  have st1: "stories_ok r1" by (simp add: r1 stories_ok_def backlog_ok_def)
  have "r2 = r1\<lparr>BacklogMode := True, Stories := [newStory u' n], CurrentStoryIndex := 0\<rparr>"
    using st1 again by (cases rule: ToggleBacklogMode_cases) (use named n in \<open>auto simp: r1\<close>)
  then show ?thesis
    using n by (simp add: r1 EffectiveCurrentStory_def storyAt_def newStory_def)
qed

theorem backlog_round_trip_witness:
  "\<exists>r1 r2. ToggleBacklogMode ''t1'' ''ann'' sample_room = Some (r1, None)
    \<and> ToggleBacklogMode ''t2'' ''ann'' r1 = Some (r2, None)
    \<and> EffectiveCurrentStory r1 = Some ''logout'' \<and> Stories r2 = [newStory ''t2'' ''logout'']"
proof -
  define r1 where "r1 = fst (the (ToggleBacklogMode ''t1'' ''ann'' sample_room))"
  define r2 where "r2 = fst (the (ToggleBacklogMode ''t2'' ''ann'' r1))"
  have total: "x \<noteq> None \<Longrightarrow> snd (the x) = None \<Longrightarrow> x = Some (fst (the x), None)"
    for x :: "(room \<times> go_error option) option"
    by (cases x) (auto simp: prod_eq_iff)
  have 1: "ToggleBacklogMode ''t1'' ''ann'' sample_room = Some (r1, None)"
    unfolding r1_def by (rule total) code_simp+
  have 2: "ToggleBacklogMode ''t2'' ''ann'' r1 = Some (r2, None)"
    unfolding r2_def by (rule total) (unfold r1_def, code_simp+)
  have "BacklogMode sample_room" "EffectiveCurrentStory sample_room = Some ''logout''" by code_simp+
  from backlog_round_trip [OF sample_ok this(1) 1 2 this(2)] 1 2 show ?thesis by blast
qed

end
