(* ===== verification/Protocol.thy ===== *)
theory Protocol
  imports Room_Backlog
begin

text \<open>
  The wire messages of \<open>internal/protocol\<close> (\<open>types.generated.go\<close>, \<open>messages.generated.go\<close>) and
  their construction from a room, \<open>internal/application/planningpoker/usecase/dto/commands.go\<close>.
\<close>

section \<open>Message types\<close>

definition ClientCommandTypes :: "string list" where
  "ClientCommandTypes =
     [''add-story'', ''advance-story'', ''prev-story'', ''remove-story'', ''reorder-story'',
      ''reset'', ''reveal-votes'', ''select-story'', ''toggle-backlog-mode'', ''toggle-owner'',
      ''toggle-spectator'', ''update-name'', ''update-story'', ''vote'', ''vote-again'']"

definition ServerEventTypes :: "string list" where
  "ServerEventTypes =
     [''command-ack'', ''command-error'', ''kicked'', ''room-state'', ''stale-command'',
      ''update-client-id'']"

definition IsClientCommandType :: "string \<Rightarrow> bool" where
  "IsClientCommandType t \<longleftrightarrow>
     t = ''add-story'' \<or> t = ''advance-story'' \<or> t = ''prev-story'' \<or> t = ''remove-story'' \<or>
     t = ''reorder-story'' \<or> t = ''reset'' \<or> t = ''reveal-votes'' \<or> t = ''select-story'' \<or>
     t = ''toggle-backlog-mode'' \<or> t = ''toggle-owner'' \<or> t = ''toggle-spectator'' \<or>
     t = ''update-name'' \<or> t = ''update-story'' \<or> t = ''vote'' \<or> t = ''vote-again''"

definition IsServerEventType :: "string \<Rightarrow> bool" where
  "IsServerEventType t \<longleftrightarrow>
     t = ''command-ack'' \<or> t = ''command-error'' \<or> t = ''kicked'' \<or> t = ''room-state'' \<or>
     t = ''stale-command'' \<or> t = ''update-client-id''"

text \<open>The payload structs of client commands, by the fields they have.\<close>

datatype payload =
    AddStoryPayload (ap_Story: string)
  | VersionPayload (vp_Version: "64 word option")
    \<comment> \<open>\<open>AdvanceStoryPayload\<close>, \<open>PrevStoryPayload\<close>, \<open>ResetPayload\<close>, \<open>RevealVotesPayload\<close>,
      \<open>ToggleBacklogModePayload\<close>, \<open>VoteAgainPayload\<close>: one and the same struct\<close>
  | RemoveStoryPayload (sp_Version: "64 word option") (sp_StoryID: string)
  | ReorderStoryPayload (rp_Version: "64 word option") (rp_StoryID: string) (rp_TargetIndex: int)
  | SelectStoryPayload (lp_Version: "64 word option") (lp_StoryID: string)
  | ToggleOwnerPayload (op_Version: "64 word option") (op_Target: string)
  | ToggleSpectatorPayload (tp_Version: "64 word option") (tp_Target: string)
  | UpdateNamePayload (np_Username: string)
  | UpdateStoryPayload (up_Version: "64 word option") (up_Story: string)
  | VotePayload (vp_Vote: string)

text \<open>\<open>NewClientCommandPayload\<close>: the zero payload of a command type.\<close>

definition NewClientCommandPayload :: "string \<Rightarrow> payload option" where
  "NewClientCommandPayload t =
     (if t = ''add-story'' then Some (AddStoryPayload '''')
      else if t = ''advance-story'' then Some (VersionPayload None)
      else if t = ''prev-story'' then Some (VersionPayload None)
      else if t = ''remove-story'' then Some (RemoveStoryPayload None '''')
      else if t = ''reorder-story'' then Some (ReorderStoryPayload None '''' 0)
      else if t = ''reset'' then Some (VersionPayload None)
      else if t = ''reveal-votes'' then Some (VersionPayload None)
      else if t = ''select-story'' then Some (SelectStoryPayload None '''')
      else if t = ''toggle-backlog-mode'' then Some (VersionPayload None)
      else if t = ''toggle-owner'' then Some (ToggleOwnerPayload None '''')
      else if t = ''toggle-spectator'' then Some (ToggleSpectatorPayload None '''')
      else if t = ''update-name'' then Some (UpdateNamePayload '''')
      else if t = ''update-story'' then Some (UpdateStoryPayload None '''')
      else if t = ''vote'' then Some (VotePayload '''')
      else if t = ''vote-again'' then Some (VersionPayload None)
      else None)"

section \<open>Server messages\<close>

datatype CommandErrorCode =
    CommandErrorCodeValidation | CommandErrorCodeForbidden | CommandErrorCodeNotFound
  | CommandErrorCodeConflict | CommandErrorCodeStaleVersion | CommandErrorCodeInvalidPayload
  | CommandErrorCodeUnknownCommand | CommandErrorCodeInvalidCommandID
  | CommandErrorCodeCommandInProgress | CommandErrorCodeInternal

record DeckDescriptor =
  dd_Cards :: "string list"
  dd_ID :: string
  dd_Kind :: DeckKind
  dd_Name :: string

record Participant =
  pt_HasVoted :: bool
  pt_ID :: string
  pt_IsOwner :: bool
  pt_IsSpectator :: bool
  pt_Name :: string
  pt_Vote :: "string option"
  pt_VotedAt :: "time option"

record wire_story =
  ws_ID :: string
  ws_MostAppearingVotes :: "string list option"
  ws_Name :: string
  ws_Result :: "float32 option"
  ws_Voted :: bool

record RoomState =
  rs_BacklogMode :: "bool option"
  rs_Consensus :: "string option"
  rs_CurrentStory :: string
  rs_CurrentStoryIndex :: "int option"
  rs_Deck :: DeckDescriptor
  rs_HighestVote :: "string option"
  rs_LowestVote :: "string option"
  rs_MostAppearingVotes :: "string list option"
  rs_Participants :: "Participant list"
  rs_Result :: "float32 option"
  rs_Reveal :: bool
  rs_RoomVersion :: "64 word"
  rs_SpecialVoteCount :: "int option"
  rs_StartedAt :: "time option"
  rs_Stories :: "wire_story list"
  rs_VoteRange :: "int option"
  rs_VoteSpread :: "int option"

record CommandAck =
  ca_CommandID :: string
  ca_RoomVersion :: "64 word option"

record CommandError =
  ce_Code :: CommandErrorCode
  ce_CommandID :: string
  ce_Message :: message
  ce_RoomVersion :: "64 word option"

text \<open>The \<open>Type\<close> field of each message is a constant of its constructor.\<close>

datatype server_message =
    RoomStateMessage RoomState
  | UpdateClientID string
  | Kicked
  | CommandAckMessage CommandAck
  | CommandErrorMessage CommandError
  | StaleCommand "64 word"

fun message_Type :: "server_message \<Rightarrow> string" where
  "message_Type (RoomStateMessage _) = ''room-state''"
| "message_Type (UpdateClientID _) = ''update-client-id''"
| "message_Type Kicked = ''kicked''"
| "message_Type (CommandAckMessage _) = ''command-ack''"
| "message_Type (CommandErrorMessage _) = ''command-error''"
| "message_Type (StaleCommand _) = ''stale-command''"

section \<open>From a room to its state message\<close>

definition optionalConsensus :: "string \<Rightarrow> string option" where
  "optionalConsensus c = (if c = '''' then None else Some c)"

definition optionalInt :: "int \<Rightarrow> int option" where
  "optionalInt n = (if n = 0 then None else Some n)"

definition mapStories :: "story list \<Rightarrow> wire_story list" where
  "mapStories ss = map (\<lambda>s. \<lparr>ws_ID = story_ID s, ws_MostAppearingVotes = story_MostAppearingVotes s,
     ws_Name = story_Name s, ws_Result = story_Result s, ws_Voted = story_Voted s\<rparr>) ss"

definition participant :: "client \<Rightarrow> Participant" where
  "participant c = \<lparr>pt_HasVoted = HasVoted c, pt_ID = client_ID c, pt_IsOwner = IsOwner c,
     pt_IsSpectator = IsSpectator c, pt_Name = client_Name c, pt_Vote = Vote_Ptr (CurrentVote c),
     pt_VotedAt = OptionalUTCTimePtr (VotedAt c)\<rparr>"

text \<open>
  \<open>slices.SortFunc\<close> sorts the room's own slice of clients, in place: the second component is the
  collection as it is afterwards. Its order among equal names is unspecified, so the sorting
  function is a parameter of which only what the library documents is known.
\<close>

definition sorts_by_name :: "(client list \<Rightarrow> client list) \<Rightarrow> bool" where
  "sorts_by_name srt \<longleftrightarrow> (\<forall>cs. mset (srt cs) = mset cs \<and> sorted (map client_Name (srt cs)))"

definition MapToParticipants ::
  "(client list \<Rightarrow> client list) \<Rightarrow> client list \<Rightarrow> Participant list \<times> client list" where
  "MapToParticipants srt cs = (let cs' = srt cs in (map participant cs', cs'))"

text \<open>\<open>None\<close> is the panic of \<open>EffectiveCurrentStory\<close>; the room returned has its clients sorted.\<close>

definition NewRoomStateCommand ::
  "(client list \<Rightarrow> client list) \<Rightarrow> room \<Rightarrow> (server_message \<times> room) option" where
  "NewRoomStateCommand srt r =
     (case EffectiveCurrentStory r of
        None \<Rightarrow> None
      | Some currentStory \<Rightarrow>
          (let d = room_Deck r;
               (participants, sorted_clients) = MapToParticipants srt (cc_Values (Clients r))
           in Some (RoomStateMessage
             \<lparr>rs_BacklogMode = Some (BacklogMode r),
              rs_Consensus = optionalConsensus (Consensus r),
              rs_CurrentStory = currentStory,
              rs_CurrentStoryIndex = Some (CurrentStoryIndex r),
              rs_Deck = \<lparr>dd_Cards = deck_Cards d, dd_ID = deck_ID d, dd_Kind = deck_Kind d,
                         dd_Name = deck_Name d\<rparr>,
              rs_HighestVote = HighestVote r,
              rs_LowestVote = LowestVote r,
              rs_MostAppearingVotes = MostAppearingVotes r,
              rs_Participants = participants,
              rs_Result = Result r,
              rs_Reveal = Reveal r,
              rs_RoomVersion = RoomVersion_Uint64 (RoomVersion r),
              rs_SpecialVoteCount = optionalInt (SpecialVoteCount r),
              rs_StartedAt = OptionalUTCTime (room_StartedAt r),
              rs_Stories = mapStories (Stories r),
              rs_VoteRange = VoteRange r,
              rs_VoteSpread = VoteSpread r\<rparr>,
             r\<lparr>Clients := sorted_clients\<rparr>)))"

definition NewUpdateClientIDCommand :: "string \<Rightarrow> server_message" where
  "NewUpdateClientIDCommand i = UpdateClientID i"

definition NewKickNotification :: server_message where
  "NewKickNotification = Kicked"

section \<open>Lemmas\<close>

lemma IsClientCommandType_iff: "IsClientCommandType t \<longleftrightarrow> t \<in> set ClientCommandTypes"
  by (simp add: IsClientCommandType_def ClientCommandTypes_def)

lemma IsServerEventType_iff: "IsServerEventType t \<longleftrightarrow> t \<in> set ServerEventTypes"
  by (simp add: IsServerEventType_def ServerEventTypes_def)

lemma message_Type_server: "IsServerEventType (message_Type m)"
  by (cases m) (simp_all add: IsServerEventType_def)

lemma sorts_by_name_sort_key: "sorts_by_name (sort_key client_Name)"
  by (simp add: sorts_by_name_def)

lemma sorts_by_nameD:
  assumes "sorts_by_name srt"
  shows "mset (srt cs) = mset cs" "set (srt cs) = set cs" "length (srt cs) = length cs"
    "sorted (map client_Name (srt cs))"
  using assms mset_eq_setD [of "srt cs" cs] mset_eq_length [of "srt cs" cs]
  by (auto simp: sorts_by_name_def)

end
