(* ===== verification/Hub.thy ===== *)
theory Hub
  imports Protocol
begin

text \<open>
  The interfaces between the application and its infrastructure: \<open>domain.Hub\<close> and \<open>domain.Bus\<close>
  (\<open>internal/domain/hub.go\<close>, \<open>bus.go\<close>), \<open>lock.LockManager\<close>
  (\<open>internal/application/lock/lock.go\<close>) and \<open>metric.PlanningPokerMetric\<close>
  (\<open>internal/application/planningpoker/metric/metric.go\<close>).

  An interface is a record of functions over the state \<open>'w\<close> of everything behind it (the world).
  A \<open>*entity.Room\<close> is a reference, read by \<open>hDeref\<close> and written by \<open>hAssign\<close>: which calls
  hand out the same pointer and which a fresh copy is the implementation's business, and the use
  cases behave differently over the two.
\<close>

type_synonym ref = nat

text \<open>A bus is a pointer to a connection that knows the room it was opened for.\<close>

datatype bus = Bus (bus_ref: nat) (bus_RoomID: string)

record 'w hub =
  hDeref :: "ref \<Rightarrow> 'w \<Rightarrow> room"
  hAssign :: "ref \<Rightarrow> room \<Rightarrow> 'w \<Rightarrow> 'w"
  hFindClientByID :: "string \<Rightarrow> 'w \<Rightarrow> client option \<times> 'w"
  hAddClient :: "ref \<Rightarrow> ClientID \<Rightarrow> 'w \<Rightarrow> 'w"
  hRemoveClient :: "string \<Rightarrow> string \<Rightarrow> ('w, unit) call"
  hNewRoomWithDeck :: "DeckType \<Rightarrow> ('w, ref) call"
  hNewRoomWithID :: "string \<Rightarrow> ('w, ref) call"
  hLoadRoom :: "string \<Rightarrow> ('w, ref) call"
  hSaveRoom :: "ref \<Rightarrow> ('w, unit) call"
  hSaveRoomIfVersion :: "ref \<Rightarrow> 64 word option \<Rightarrow> ('w, unit) call"
  hBroadcastToRoom :: "string \<Rightarrow> server_message \<Rightarrow> ('w, unit) call"
  hGetBus :: "string \<Rightarrow> 'w \<Rightarrow> bus option"
  hAddBus :: "string \<Rightarrow> bus \<Rightarrow> ('w, unit) call"
  hRemoveBus :: "string \<Rightarrow> 'w \<Rightarrow> 'w"

record 'w bus_ops =
  bSend :: "bus \<Rightarrow> server_message \<Rightarrow> ('w, unit) call"
  bDetach :: "bus \<Rightarrow> 'w \<Rightarrow> 'w"
  bClose :: "bus \<Rightarrow> ('w, unit) call"

text \<open>\<open>ExecuteWithLock\<close> and \<open>WithLock\<close>: run a call while holding the lock of a key.\<close>

type_synonym ('w, 'a) with_lock = "string \<Rightarrow> ('w, 'a) call \<Rightarrow> ('w, 'a) call"

datatype metric_op =
    IncrementUsersTotal | IncrementActiveUsers | DecrementActiveUsers
  | IncrementActiveRoomsCounter | DecrementActiveRoomsCounter

type_synonym 'w metric = "metric_op \<Rightarrow> 'w \<Rightarrow> 'w"

section \<open>Calls\<close>

definition lift_update :: "('w \<Rightarrow> 'w) \<Rightarrow> ('w, unit) call" where
  "lift_update f = (\<lambda>w. (Inr (), f w))"

lemma lift_update_apply [simp]: "lift_update f w = (Inr (), f w)"
  by (simp add: lift_update_def)

text \<open>Running a method of the room a reference points at; a panic of the method ends the call.\<close>

definition on_room :: "'w hub \<Rightarrow> ref \<Rightarrow> (room \<Rightarrow> (room \<times> go_error option) option) \<Rightarrow> ('w, unit) call" where
  "on_room h ref f = (\<lambda>w.
     case f (hDeref h ref w) of
       None \<Rightarrow> (Inl indexOutOfRange, w)
     | Some (r', err) \<Rightarrow>
         (case err of None \<Rightarrow> (Inr (), hAssign h ref r' w) | Some e \<Rightarrow> (Inl e, hAssign h ref r' w)))"

text \<open>Building the state message of the room, which sorts its clients, and broadcasting it.\<close>

definition broadcastState ::
  "(client list \<Rightarrow> client list) \<Rightarrow> 'w hub \<Rightarrow> ref \<Rightarrow> ('w, unit) call" where
  "broadcastState srt h ref = (\<lambda>w.
     case NewRoomStateCommand srt (hDeref h ref w) of
       None \<Rightarrow> (Inl indexOutOfRange, w)
     | Some (msg, r') \<Rightarrow> hBroadcastToRoom h (room_ID r') msg (hAssign h ref r' w))"

end
