(* ===== verification/Serialization.thy ===== *)
theory Serialization
  imports Protocol
begin

text \<open>
  Rooms as JSON documents: \<open>internal/infra/boundaries/hub/redis/serialization.go\<close>, and what it
  uses of \<open>encoding/json\<close>.

  A document is the value its text denotes. A number is an integer literal, or the literal
  \<open>strconv\<close> prints for a \<open>float32\<close>, which parses back to it; a time is the string
  \<open>time.Time.MarshalJSON\<close> prints. Marshal writes the members of a struct in the order of its
  fields and leaves out the empty ones marked \<open>omitempty\<close>; Unmarshal looks members up by name (the
  last one wins), leaves missing ones at their zero value, and fails on a value of another type.
  Names are matched exactly here: the documents are those this program writes. Strings are valid
  UTF-8, which Marshal does not alter.
\<close>

section \<open>Documents\<close>

datatype json =
    JNull
  | JBool bool
  | JInt int
  | JFloat float32
  | JStr string
  | JTime time
  | JArr "json list"
  | JObj "(string \<times> json) list"

definition member :: "string \<Rightarrow> (string \<times> json) list \<Rightarrow> json option" where
  "member k kvs = map_of (rev kvs) k"

text \<open>Unmarshal of text written by others matches names up to the case of ASCII letters.\<close>

definition fold_char :: "char \<Rightarrow> char" where
  "fold_char c = (if (65::nat) \<le> of_char c \<and> of_char c \<le> (90::nat) then char_of (of_char c + (32::nat)) else c)"

definition unmarshalError :: go_error where
  "unmarshalError = New ''json: cannot unmarshal''"

text \<open>Decoding one field from the member found for it.\<close>

fun dec_string :: "json option \<Rightarrow> go_error + string" where
  "dec_string None = Inr ''''"
| "dec_string (Some JNull) = Inr ''''"
| "dec_string (Some (JStr s)) = Inr s"
| "dec_string (Some _) = Inl unmarshalError"

fun dec_bool :: "json option \<Rightarrow> go_error + bool" where
  "dec_bool None = Inr False"
| "dec_bool (Some JNull) = Inr False"
| "dec_bool (Some (JBool b)) = Inr b"
| "dec_bool (Some _) = Inl unmarshalError"

fun dec_int :: "json option \<Rightarrow> go_error + int" where
  "dec_int None = Inr 0"
| "dec_int (Some JNull) = Inr 0"
| "dec_int (Some (JInt n)) = (if - (2 ^ 63) \<le> n \<and> n < 2 ^ 63 then Inr n else Inl unmarshalError)"
| "dec_int (Some _) = Inl unmarshalError"

fun dec_uint64 :: "json option \<Rightarrow> go_error + 64 word" where
  "dec_uint64 None = Inr 0"
| "dec_uint64 (Some JNull) = Inr 0"
| "dec_uint64 (Some (JInt n)) = (if 0 \<le> n \<and> n < 2 ^ 64 then Inr (word_of_int n) else Inl unmarshalError)"
| "dec_uint64 (Some _) = Inl unmarshalError"

fun dec_float32 :: "json option \<Rightarrow> go_error + float32" where
  "dec_float32 None = Inr 0"
| "dec_float32 (Some JNull) = Inr 0"
| "dec_float32 (Some (JFloat x)) = Inr x"
| "dec_float32 (Some (JInt n)) = Inr (float32_of_int n)"
| "dec_float32 (Some _) = Inl unmarshalError"

fun dec_time :: "json option \<Rightarrow> go_error + time" where
  "dec_time None = Inr zero_time"
| "dec_time (Some JNull) = Inr zero_time"
| "dec_time (Some (JTime t)) = Inr t"
| "dec_time (Some _) = Inl unmarshalError"

text \<open>A pointer field: nil when the member is missing or null.\<close>

definition dec_ptr :: "(json option \<Rightarrow> go_error + 'a) \<Rightarrow> json option \<Rightarrow> go_error + 'a option" where
  "dec_ptr d j =
     (case j of None \<Rightarrow> Inr None | Some JNull \<Rightarrow> Inr None
      | Some v \<Rightarrow> (case d (Some v) of Inl e \<Rightarrow> Inl e | Inr x \<Rightarrow> Inr (Some x)))"

fun dec_all :: "(json option \<Rightarrow> go_error + 'a) \<Rightarrow> json list \<Rightarrow> go_error + 'a list" where
  "dec_all d [] = Inr []"
| "dec_all d (j # js) =
     (case d (Some j) of Inl e \<Rightarrow> Inl e
      | Inr x \<Rightarrow> (case dec_all d js of Inl e \<Rightarrow> Inl e | Inr xs \<Rightarrow> Inr (x # xs)))"

text \<open>A slice: nil when the member is missing or null.\<close>

fun dec_slice :: "(json option \<Rightarrow> go_error + 'a) \<Rightarrow> json option \<Rightarrow> go_error + 'a list option" where
  "dec_slice d None = Inr None"
| "dec_slice d (Some JNull) = Inr None"
| "dec_slice d (Some (JArr js)) =
     (case dec_all d js of Inl e \<Rightarrow> Inl e | Inr xs \<Rightarrow> Inr (Some xs))"
| "dec_slice d (Some _) = Inl unmarshalError"

text \<open>A struct: its fields are decoded from the members of an object; null leaves it zero.\<close>

fun dec_struct :: "((string \<times> json) list \<Rightarrow> go_error + 'a) \<Rightarrow> json option \<Rightarrow> go_error + 'a" where
  "dec_struct d None = d []"
| "dec_struct d (Some JNull) = d []"
| "dec_struct d (Some (JObj kvs)) = d kvs"
| "dec_struct d (Some _) = Inl unmarshalError"

definition bnd :: "go_error + 'a \<Rightarrow> ('a \<Rightarrow> go_error + 'b) \<Rightarrow> go_error + 'b" where
  "bnd m k = (case m of Inl e \<Rightarrow> Inl e | Inr x \<Rightarrow> k x)"

lemma bnd_simps [simp]: "bnd (Inr x) k = k x" "bnd (Inl e) k = Inl e"
  by (simp_all add: bnd_def)

text \<open>Marshalling: an optional field, and a string or integer marked \<open>omitempty\<close>.\<close>

definition enc_opt :: "string \<Rightarrow> ('a \<Rightarrow> json) \<Rightarrow> 'a option \<Rightarrow> (string \<times> json) list" where
  "enc_opt k f v = (case v of None \<Rightarrow> [] | Some x \<Rightarrow> [(k, f x)])"

definition enc_strings :: "string list option \<Rightarrow> json" where
  "enc_strings v = (case v of None \<Rightarrow> JNull | Some xs \<Rightarrow> JArr (map JStr xs))"

definition enc_nonempty :: "string \<Rightarrow> string \<Rightarrow> (string \<times> json) list" where
  "enc_nonempty k s = (if s = '''' then [] else [(k, JStr s)])"

definition enc_nonzero :: "string \<Rightarrow> int \<Rightarrow> (string \<times> json) list" where
  "enc_nonzero k n = (if n = 0 then [] else [(k, JInt n)])"

section \<open>The serialized structs\<close>

record SerializedStory =
  sst_ID :: string
  sst_Name :: string
  sst_Result :: "float32 option"
  sst_MostAppearingVotes :: "string list option"
  sst_Voted :: bool

record SerializedClient =
  sc_ID :: string
  sc_Name :: string
  sc_CurrentVote :: "string option"
  sc_HasVoted :: bool
  sc_VotedAt :: "time option"
  sc_IsSpectator :: bool
  sc_IsOwner :: bool

record SerializedRoom =
  sr_ID :: string
  sr_StartedAt :: "time option"
  sr_Clients :: "SerializedClient list"
  sr_DeckType :: DeckType
  sr_CurrentStory :: string
  sr_Reveal :: bool
  sr_Result :: "float32 option"
  sr_MostAppearingVotes :: "string list option"
  sr_Consensus :: string
  sr_LowestVote :: "string option"
  sr_HighestVote :: "string option"
  sr_VoteRange :: "int option"
  sr_VoteSpread :: "int option"
  sr_SpecialVoteCount :: int
  sr_BacklogMode :: bool
  sr_Stories :: "SerializedStory list"
  sr_CurrentStoryIndex :: int
  sr_RoomVersion :: "64 word"

text \<open>\<open>json.Marshal\<close> and \<open>json.Unmarshal\<close> of each.\<close>

definition marshal_story :: "SerializedStory \<Rightarrow> json" where
  "marshal_story s = JObj
     (enc_nonempty ''id'' (sst_ID s) @ [(''name'', JStr (sst_Name s))] @
      enc_opt ''result'' JFloat (sst_Result s) @
      [(''mostAppearingVotes'', enc_strings (sst_MostAppearingVotes s)),
       (''voted'', JBool (sst_Voted s))])"

definition unmarshal_story :: "(string \<times> json) list \<Rightarrow> go_error + SerializedStory" where
  "unmarshal_story kvs =
     bnd (dec_string (member ''id'' kvs)) (\<lambda>i.
     bnd (dec_string (member ''name'' kvs)) (\<lambda>n.
     bnd (dec_ptr dec_float32 (member ''result'' kvs)) (\<lambda>r.
     bnd (dec_slice dec_string (member ''mostAppearingVotes'' kvs)) (\<lambda>m.
     bnd (dec_bool (member ''voted'' kvs)) (\<lambda>v.
     Inr \<lparr>sst_ID = i, sst_Name = n, sst_Result = r, sst_MostAppearingVotes = m, sst_Voted = v\<rparr>)))))"

definition marshal_client :: "SerializedClient \<Rightarrow> json" where
  "marshal_client c = JObj
     ([(''id'', JStr (sc_ID c)), (''name'', JStr (sc_Name c))] @
      enc_opt ''currentVote'' JStr (sc_CurrentVote c) @
      [(''hasVoted'', JBool (sc_HasVoted c))] @
      enc_opt ''votedAt'' JTime (sc_VotedAt c) @
      [(''isSpectator'', JBool (sc_IsSpectator c)), (''isOwner'', JBool (sc_IsOwner c))])"

definition unmarshal_client :: "(string \<times> json) list \<Rightarrow> go_error + SerializedClient" where
  "unmarshal_client kvs =
     bnd (dec_string (member ''id'' kvs)) (\<lambda>i.
     bnd (dec_string (member ''name'' kvs)) (\<lambda>n.
     bnd (dec_ptr dec_string (member ''currentVote'' kvs)) (\<lambda>v.
     bnd (dec_bool (member ''hasVoted'' kvs)) (\<lambda>h.
     bnd (dec_ptr dec_time (member ''votedAt'' kvs)) (\<lambda>t.
     bnd (dec_bool (member ''isSpectator'' kvs)) (\<lambda>s.
     bnd (dec_bool (member ''isOwner'' kvs)) (\<lambda>ow.
     Inr \<lparr>sc_ID = i, sc_Name = n, sc_CurrentVote = v, sc_HasVoted = h, sc_VotedAt = t,
          sc_IsSpectator = s, sc_IsOwner = ow\<rparr>)))))))"

definition marshal_room :: "SerializedRoom \<Rightarrow> json" where
  "marshal_room r = JObj
     ([(''id'', JStr (sr_ID r))] @
      enc_opt ''startedAt'' JTime (sr_StartedAt r) @
      [(''clients'', JArr (map marshal_client (sr_Clients r)))] @
      enc_nonempty ''deckType'' (sr_DeckType r) @
      [(''currentStory'', JStr (sr_CurrentStory r)), (''reveal'', JBool (sr_Reveal r))] @
      enc_opt ''result'' JFloat (sr_Result r) @
      [(''mostAppearingVotes'', enc_strings (sr_MostAppearingVotes r))] @
      enc_nonempty ''consensus'' (sr_Consensus r) @
      enc_opt ''lowestVote'' JStr (sr_LowestVote r) @
      enc_opt ''highestVote'' JStr (sr_HighestVote r) @
      enc_opt ''voteRange'' JInt (sr_VoteRange r) @
      enc_opt ''voteSpread'' JInt (sr_VoteSpread r) @
      enc_nonzero ''specialVoteCount'' (sr_SpecialVoteCount r) @
      [(''backlogMode'', JBool (sr_BacklogMode r))] @
      (if sr_Stories r = [] then [] else [(''stories'', JArr (map marshal_story (sr_Stories r)))]) @
      [(''currentStoryIndex'', JInt (sr_CurrentStoryIndex r)),
       (''roomVersion'', JInt (uint (sr_RoomVersion r)))])"

definition unmarshal_room :: "(string \<times> json) list \<Rightarrow> go_error + SerializedRoom" where
  "unmarshal_room kvs =
     bnd (dec_string (member ''id'' kvs)) (\<lambda>i.
     bnd (dec_ptr dec_time (member ''startedAt'' kvs)) (\<lambda>st.
     bnd (dec_slice (dec_struct unmarshal_client) (member ''clients'' kvs)) (\<lambda>cs.
     bnd (dec_string (member ''deckType'' kvs)) (\<lambda>dt.
     bnd (dec_string (member ''currentStory'' kvs)) (\<lambda>cur.
     bnd (dec_bool (member ''reveal'' kvs)) (\<lambda>rev.
     bnd (dec_ptr dec_float32 (member ''result'' kvs)) (\<lambda>res.
     bnd (dec_slice dec_string (member ''mostAppearingVotes'' kvs)) (\<lambda>most.
     bnd (dec_string (member ''consensus'' kvs)) (\<lambda>con.
     bnd (dec_ptr dec_string (member ''lowestVote'' kvs)) (\<lambda>lo.
     bnd (dec_ptr dec_string (member ''highestVote'' kvs)) (\<lambda>hi.
     bnd (dec_ptr dec_int (member ''voteRange'' kvs)) (\<lambda>rng.
     bnd (dec_ptr dec_int (member ''voteSpread'' kvs)) (\<lambda>spr.
     bnd (dec_int (member ''specialVoteCount'' kvs)) (\<lambda>spc.
     bnd (dec_bool (member ''backlogMode'' kvs)) (\<lambda>bm.
     bnd (dec_slice (dec_struct unmarshal_story) (member ''stories'' kvs)) (\<lambda>ss.
     bnd (dec_int (member ''currentStoryIndex'' kvs)) (\<lambda>ix.
     bnd (dec_uint64 (member ''roomVersion'' kvs)) (\<lambda>ver.
     Inr \<lparr>sr_ID = i, sr_StartedAt = st, sr_Clients = (case cs of None \<Rightarrow> [] | Some l \<Rightarrow> l),
          sr_DeckType = dt, sr_CurrentStory = cur, sr_Reveal = rev, sr_Result = res,
          sr_MostAppearingVotes = most, sr_Consensus = con, sr_LowestVote = lo,
          sr_HighestVote = hi, sr_VoteRange = rng, sr_VoteSpread = spr,
          sr_SpecialVoteCount = spc, sr_BacklogMode = bm,
          sr_Stories = (case ss of None \<Rightarrow> [] | Some l \<Rightarrow> l), sr_CurrentStoryIndex = ix,
          sr_RoomVersion = ver\<rparr>))))))))))))))))))"

section \<open>Rooms to documents and back\<close>

text \<open>\<open>SerializedClient.Client()\<close>\<close>

definition SerializedClient_Client :: "SerializedClient \<Rightarrow> client" where
  "SerializedClient_Client sc =
     (let currentVote = (case sc_CurrentVote sc of None \<Rightarrow> None | Some v \<Rightarrow> VotePtr v)
      in \<lparr>client_ID = sc_ID sc, client_Name = sc_Name sc, CurrentVote = currentVote,
          HasVoted = sc_HasVoted sc, VotedAt = OptionalUTCTimePtr (sc_VotedAt sc),
          IsSpectator = sc_IsSpectator sc, IsOwner = sc_IsOwner sc\<rparr>)"

definition serializeStories :: "story list \<Rightarrow> SerializedStory list" where
  "serializeStories ss = map (\<lambda>s. \<lparr>sst_ID = story_ID s, sst_Name = story_Name s,
     sst_Result = story_Result s, sst_MostAppearingVotes = story_MostAppearingVotes s,
     sst_Voted = story_Voted s\<rparr>) ss"

definition serializeClient :: "client \<Rightarrow> SerializedClient" where
  "serializeClient c = \<lparr>sc_ID = client_ID c, sc_Name = client_Name c,
     sc_CurrentVote = Vote_Ptr (CurrentVote c), sc_HasVoted = HasVoted c,
     sc_VotedAt = OptionalUTCTimePtr (VotedAt c), sc_IsSpectator = IsSpectator c,
     sc_IsOwner = IsOwner c\<rparr>"

definition serialized :: "room \<Rightarrow> SerializedRoom" where
  "serialized r = \<lparr>sr_ID = room_ID r, sr_StartedAt = OptionalUTCTime (room_StartedAt r),
     sr_Clients = map serializeClient (Clients r), sr_DeckType = DeckType r,
     sr_CurrentStory = CurrentStory r, sr_Reveal = Reveal r, sr_Result = Result r,
     sr_MostAppearingVotes = MostAppearingVotes r, sr_Consensus = Consensus r,
     sr_LowestVote = LowestVote r, sr_HighestVote = HighestVote r, sr_VoteRange = VoteRange r,
     sr_VoteSpread = VoteSpread r, sr_SpecialVoteCount = SpecialVoteCount r,
     sr_BacklogMode = BacklogMode r, sr_Stories = serializeStories (Stories r),
     sr_CurrentStoryIndex = CurrentStoryIndex r,
     sr_RoomVersion = RoomVersion_Uint64 (RoomVersion r)\<rparr>"

definition SerializeRoom :: "room \<Rightarrow> json" where
  "SerializeRoom r = marshal_room (serialized r)"

fun deserializeStories_loop :: "int \<Rightarrow> SerializedStory list \<Rightarrow> go_error + story list" where
  "deserializeStories_loop i [] = Inr []"
| "deserializeStories_loop i (s # ss) =
     (if sst_ID s = '''' then Inl (Errorf ''story at index %d is missing an ID'' [OInt i] [])
      else bnd (deserializeStories_loop (i + 1) ss) (\<lambda>rest.
        Inr (\<lparr>story_ID = sst_ID s, story_Name = sst_Name s, story_Result = sst_Result s,
              story_MostAppearingVotes = sst_MostAppearingVotes s,
              story_Voted = sst_Voted s\<rparr> # rest)))"

definition deserializeStories :: "SerializedStory list \<Rightarrow> go_error + story list" where
  "deserializeStories ss = deserializeStories_loop 0 ss"

definition DeserializeRoom :: "json \<Rightarrow> collection \<Rightarrow> go_error + room" where
  "DeserializeRoom j cs =
     bnd (dec_struct unmarshal_room (Some j)) (\<lambda>s.
     bnd (deserializeStories (sr_Stories s)) (\<lambda>stories.
     (let r = NewRoomWithIDAndStartedAt (sr_ID s) cs (UTCTimeOrZero (sr_StartedAt s));
          r1 = r\<lparr>DeckType := sr_DeckType s, CurrentStory := sr_CurrentStory s,
                 Reveal := sr_Reveal s, Result := sr_Result s,
                 MostAppearingVotes := sr_MostAppearingVotes s, Consensus := sr_Consensus s,
                 LowestVote := sr_LowestVote s, HighestVote := sr_HighestVote s,
                 VoteRange := sr_VoteRange s, VoteSpread := sr_VoteSpread s,
                 SpecialVoteCount := sr_SpecialVoteCount s, BacklogMode := sr_BacklogMode s,
                 Stories := stories, CurrentStoryIndex := sr_CurrentStoryIndex s,
                 RoomVersion := sr_RoomVersion s\<rparr>
      in Inr (r1\<lparr>Clients := fold (\<lambda>sc l. cc_Add (SerializedClient_Client sc) l) (sr_Clients s)
                (Clients r1)\<rparr>))))"

section \<open>The round trip\<close>

definition orElse :: "'a option \<Rightarrow> 'a option \<Rightarrow> 'a option" where
  "orElse x y = (case x of None \<Rightarrow> y | Some v \<Rightarrow> Some v)"

lemma orElse_simps [simp]: "orElse None y = y" "orElse (Some v) y = Some v" "orElse x None = x"
  by (simp_all add: orElse_def split: option.split)

lemma member_append: "member k (xs @ ys) = orElse (member k ys) (member k xs)"
  by (simp add: member_def map_add_def orElse_def split: option.split)

lemma member_Cons:
  "member k ((k', v) # kvs) = orElse (member k kvs) (if k = k' then Some v else None)"
  by (simp add: member_def map_add_def orElse_def split: option.split)

lemma member_Nil: "member k [] = None"
  by (simp add: member_def)

lemma member_enc_opt: "member k (enc_opt k' f x) = (if k = k' then map_option f x else None)"
  by (auto simp: member_def enc_opt_def split: option.split)

lemma member_enc_nonempty:
  "member k (enc_nonempty k' v) = (if k = k' \<and> v \<noteq> '''' then Some (JStr v) else None)"
  by (simp add: member_def enc_nonempty_def)

lemma member_enc_nonzero:
  "member k (enc_nonzero k' n) = (if k = k' \<and> n \<noteq> 0 then Some (JInt n) else None)"
  by (simp add: member_def enc_nonzero_def)

lemmas member_simps =
  member_append member_Cons member_Nil member_enc_opt member_enc_nonempty member_enc_nonzero

lemma dec_all_map:
  "(\<And>x. x \<in> set xs \<Longrightarrow> d (Some (f x)) = Inr x) \<Longrightarrow> dec_all d (map f xs) = Inr xs"
  by (induction xs) auto

lemma dec_strings [simp]: "dec_slice dec_string (Some (enc_strings v)) = Inr v"
  by (cases v) (simp_all add: enc_strings_def dec_all_map)

lemma dec_ptr_opt:
  "(\<And>y. x = Some y \<Longrightarrow> d (Some (f y)) = Inr y \<and> f y \<noteq> JNull) \<Longrightarrow> dec_ptr d (map_option f x) = Inr x"
  by (cases x) (auto simp: dec_ptr_def split: json.split)

lemma dec_ptr_simps [simp]:
  "dec_ptr dec_string (map_option JStr s) = Inr s"
  "dec_ptr dec_float32 (map_option JFloat x) = Inr x"
  "dec_ptr dec_time (map_option JTime t) = Inr t"
  by (rule dec_ptr_opt; simp)+

lemma dec_nonempty [simp]: "dec_string (if s \<noteq> '''' then Some (JStr s) else None) = Inr s"
  by simp

lemma unmarshal_marshal_story [simp]:
  "dec_struct unmarshal_story (Some (marshal_story s)) = Inr s"
proof -
  have "member ''id'' kvs = (if sst_ID s \<noteq> '''' then Some (JStr (sst_ID s)) else None) \<and>
      member ''name'' kvs = Some (JStr (sst_Name s)) \<and>
      member ''result'' kvs = map_option JFloat (sst_Result s) \<and>
      member ''mostAppearingVotes'' kvs = Some (enc_strings (sst_MostAppearingVotes s)) \<and>
      member ''voted'' kvs = Some (JBool (sst_Voted s))"
    if "marshal_story s = JObj kvs" for kvs
    using that by (auto simp: marshal_story_def member_simps)
  then show ?thesis
    by (cases "marshal_story s") (auto simp: unmarshal_story_def marshal_story_def)
qed

lemma unmarshal_marshal_client [simp]:
  "dec_struct unmarshal_client (Some (marshal_client c)) = Inr c"
proof -
  have "member ''id'' kvs = Some (JStr (sc_ID c)) \<and>
      member ''name'' kvs = Some (JStr (sc_Name c)) \<and>
      member ''currentVote'' kvs = map_option JStr (sc_CurrentVote c) \<and>
      member ''hasVoted'' kvs = Some (JBool (sc_HasVoted c)) \<and>
      member ''votedAt'' kvs = map_option JTime (sc_VotedAt c) \<and>
      member ''isSpectator'' kvs = Some (JBool (sc_IsSpectator c)) \<and>
      member ''isOwner'' kvs = Some (JBool (sc_IsOwner c))"
    if "marshal_client c = JObj kvs" for kvs
    using that by (auto simp: marshal_client_def member_simps)
  then show ?thesis
    by (cases "marshal_client c") (auto simp: unmarshal_client_def marshal_client_def)
qed

text \<open>The integers of a room that Go's \<open>int\<close> can hold.\<close>

definition int64 :: "int \<Rightarrow> bool" where
  "int64 n \<longleftrightarrow> - (2 ^ 63) \<le> n \<and> n < 2 ^ 63"

definition ints_fit :: "SerializedRoom \<Rightarrow> bool" where
  "ints_fit r \<longleftrightarrow> int64 (sr_SpecialVoteCount r) \<and> int64 (sr_CurrentStoryIndex r) \<and>
     (\<forall>n. sr_VoteRange r = Some n \<longrightarrow> int64 n) \<and> (\<forall>n. sr_VoteSpread r = Some n \<longrightarrow> int64 n)"

lemma ints_fit_code [code]:
  "ints_fit r \<longleftrightarrow> int64 (sr_SpecialVoteCount r) \<and> int64 (sr_CurrentStoryIndex r) \<and>
     (case sr_VoteRange r of None \<Rightarrow> True | Some n \<Rightarrow> int64 n) \<and>
     (case sr_VoteSpread r of None \<Rightarrow> True | Some n \<Rightarrow> int64 n)"
  by (auto simp: ints_fit_def split: option.splits)

lemma dec_int_nonzero: "int64 n \<Longrightarrow> dec_int (if n \<noteq> 0 then Some (JInt n) else None) = Inr n"
  by (simp add: int64_def)

lemma dec_ptr_int: "(\<And>n. x = Some n \<Longrightarrow> int64 n) \<Longrightarrow> dec_ptr dec_int (map_option JInt x) = Inr x"
  by (rule dec_ptr_opt) (auto simp: int64_def)

lemma dec_uint64_uint [simp]: "dec_uint64 (Some (JInt (uint v))) = Inr v"
  using uint_lt2p [of v] by (simp add: word_of_int_uint)

lemma room_members:
  assumes "marshal_room r = JObj kvs"
  shows "member ''id'' kvs = Some (JStr (sr_ID r))"
    "member ''startedAt'' kvs = map_option JTime (sr_StartedAt r)"
    "member ''clients'' kvs = Some (JArr (map marshal_client (sr_Clients r)))"
    "member ''deckType'' kvs = (if sr_DeckType r \<noteq> '''' then Some (JStr (sr_DeckType r)) else None)"
    "member ''currentStory'' kvs = Some (JStr (sr_CurrentStory r))"
    "member ''reveal'' kvs = Some (JBool (sr_Reveal r))"
    "member ''result'' kvs = map_option JFloat (sr_Result r)"
    "member ''mostAppearingVotes'' kvs = Some (enc_strings (sr_MostAppearingVotes r))"
    "member ''consensus'' kvs = (if sr_Consensus r \<noteq> '''' then Some (JStr (sr_Consensus r)) else None)"
  using assms by (auto simp: marshal_room_def member_simps)

lemma room_members_more:
  assumes "marshal_room r = JObj kvs"
  shows "member ''lowestVote'' kvs = map_option JStr (sr_LowestVote r)"
    "member ''highestVote'' kvs = map_option JStr (sr_HighestVote r)"
    "member ''voteRange'' kvs = map_option JInt (sr_VoteRange r)"
    "member ''voteSpread'' kvs = map_option JInt (sr_VoteSpread r)"
    "member ''specialVoteCount'' kvs =
       (if sr_SpecialVoteCount r \<noteq> 0 then Some (JInt (sr_SpecialVoteCount r)) else None)"
    "member ''backlogMode'' kvs = Some (JBool (sr_BacklogMode r))"
    "member ''stories'' kvs =
       (if sr_Stories r = [] then None else Some (JArr (map marshal_story (sr_Stories r))))"
    "member ''currentStoryIndex'' kvs = Some (JInt (sr_CurrentStoryIndex r))"
    "member ''roomVersion'' kvs = Some (JInt (uint (sr_RoomVersion r)))"
  using assms by (auto simp: marshal_room_def member_simps)

lemma unmarshal_marshal_room:
  assumes fit: "ints_fit r"
  shows "dec_struct unmarshal_room (Some (marshal_room r)) = Inr r"
proof -
  obtain kvs where kvs: "marshal_room r = JObj kvs" by (simp add: marshal_room_def)
  note ints = fit [unfolded ints_fit_def]
  have slices: "dec_slice (dec_struct unmarshal_client) (member ''clients'' kvs) = Inr (Some (sr_Clients r))"
    "dec_slice (dec_struct unmarshal_story) (member ''stories'' kvs) =
      Inr (if sr_Stories r = [] then None else Some (sr_Stories r))"
    by (simp_all add: room_members [OF kvs] room_members_more [OF kvs] dec_all_map)
  have numbers: "dec_int (member ''specialVoteCount'' kvs) = Inr (sr_SpecialVoteCount r)"
    "dec_int (member ''currentStoryIndex'' kvs) = Inr (sr_CurrentStoryIndex r)"
    "dec_ptr dec_int (member ''voteRange'' kvs) = Inr (sr_VoteRange r)"
    "dec_ptr dec_int (member ''voteSpread'' kvs) = Inr (sr_VoteSpread r)"
    unfolding room_members_more [OF kvs]
    using ints by (auto intro!: dec_int_nonzero dec_ptr_int simp: int64_def)
  have more: "dec_string (member ''deckType'' kvs) = Inr (sr_DeckType r)"
    "dec_string (member ''consensus'' kvs) = Inr (sr_Consensus r)"
    "dec_string (member ''id'' kvs) = Inr (sr_ID r)"
    "dec_ptr dec_time (member ''startedAt'' kvs) = Inr (sr_StartedAt r)"
    "dec_string (member ''currentStory'' kvs) = Inr (sr_CurrentStory r)"
    "dec_bool (member ''reveal'' kvs) = Inr (sr_Reveal r)"
    "dec_ptr dec_float32 (member ''result'' kvs) = Inr (sr_Result r)"
    "dec_slice dec_string (member ''mostAppearingVotes'' kvs) = Inr (sr_MostAppearingVotes r)"
    unfolding room_members [OF kvs] by simp_all
  have rest: "dec_ptr dec_string (member ''lowestVote'' kvs) = Inr (sr_LowestVote r)"
    "dec_ptr dec_string (member ''highestVote'' kvs) = Inr (sr_HighestVote r)"
    "dec_bool (member ''backlogMode'' kvs) = Inr (sr_BacklogMode r)"
    "dec_uint64 (member ''roomVersion'' kvs) = Inr (sr_RoomVersion r)"
    unfolding room_members_more [OF kvs] dec_uint64_uint by simp_all
  show ?thesis
    unfolding kvs dec_struct.simps unmarshal_room_def slices numbers more rest bnd_simps by simp
qed

text \<open>What is kept of a room: all of it but its pending events, with times in UTC.\<close>

definition stored_room :: "room \<Rightarrow> room" where
  "stored_room r = r\<lparr>startedAt := UTC (startedAt r), events := [],
     Clients := map (\<lambda>c. c\<lparr>VotedAt := OptionalUTCTimePtr (VotedAt c)\<rparr>) (Clients r)\<rparr>"

definition room_storable :: "room \<Rightarrow> bool" where
  "room_storable r \<longleftrightarrow> ints_fit (serialized r) \<and> (\<forall>s \<in> set (Stories r). story_ID s \<noteq> '''')"

lemma deserializeStories_serialize:
  "(\<forall>s \<in> set ss. story_ID s \<noteq> '''') \<Longrightarrow> deserializeStories (serializeStories ss) = Inr ss"
proof -
  have "\<forall>s \<in> set ss. story_ID s \<noteq> '''' \<Longrightarrow> deserializeStories_loop i (serializeStories ss) = Inr ss" for i
    by (induction ss arbitrary: i) (auto simp: serializeStories_def)
  then show "(\<forall>s \<in> set ss. story_ID s \<noteq> '''') \<Longrightarrow> ?thesis" by (simp add: deserializeStories_def)
qed

lemma fold_add_clients:
  "fold (\<lambda>sc l. cc_Add (SerializedClient_Client sc) l) (map serializeClient cs) acc =
     acc @ map (\<lambda>c. c\<lparr>VotedAt := OptionalUTCTimePtr (VotedAt c)\<rparr>) cs"
proof (induction cs arbitrary: acc)
  case (Cons c cs)
  have "SerializedClient_Client (serializeClient c) = c\<lparr>VotedAt := OptionalUTCTimePtr (VotedAt c)\<rparr>"
    by (simp add: SerializedClient_Client_def serializeClient_def VotePtr_def split: option.split)
  then show ?case using Cons by (simp add: cc_Add_def)
qed simp

lemma Deserialize_Serialize:
  assumes "room_storable r"
  shows "DeserializeRoom (SerializeRoom r) (cc_New []) = Inr (stored_room r)"
proof -
  have ok: "ints_fit (serialized r)" "\<forall>s \<in> set (Stories r). story_ID s \<noteq> ''''"
    using assms by (auto simp: room_storable_def)
  have "sr_Stories (serialized r) = serializeStories (Stories r)"
    "sr_Clients (serialized r) = map serializeClient (Clients r)"
    by (simp_all add: serialized_def)
  then show ?thesis
    by (simp add: DeserializeRoom_def SerializeRoom_def unmarshal_marshal_room [OF ok(1)]
        deserializeStories_serialize [OF ok(2)] Let_def fold_add_clients)
      (simp add: serialized_def NewRoomWithIDAndStartedAt_def stored_room_def cc_New_def
        RoomVersion_Uint64_def room_StartedAt_def)
qed

end
