(* ===== verification/Redis_Hub.thy ===== *)
theory Redis_Hub
  imports Hub Serialization Room_Presence
begin

text \<open>
  The hub that keeps rooms in Redis: \<open>internal/infra/boundaries/hub/redis/hub.go\<close>.

  Redis is not part of the program: the record \<open>redis_client\<close> holds the commands of the
  interface \<open>RedisClient\<close> as functions on the state \<open>'s\<close> of the server, and the locale
  \<open>redis_contract\<close> states what the program relies on: commands act on a map from keys to values,
  a script runs atomically, a command that reports an error took effect entirely or not at all.
  The two Lua scripts are source code, and are translated here: a script maps the keys and values
  it sees to a reply and the values it leaves. Keys expire after 24 hours without a write; what
  expiry does is not modelled. Lua numbers are doubles printed with 14 digits: versions are exact
  below \<open>10 ^ 14\<close>.
\<close>

section \<open>Redis\<close>

datatype rvalue = RDoc json | RText string

type_synonym kv = "string \<Rightarrow> rvalue option"
type_synonym script = "kv \<Rightarrow> (go_error + int list) \<times> kv"

record 's redis_client =
  rSet :: "string \<Rightarrow> rvalue \<Rightarrow> 's \<Rightarrow> go_error option \<times> 's"
  rGet :: "string \<Rightarrow> 's \<Rightarrow> (go_error + rvalue) \<times> 's"
  rDel :: "string \<Rightarrow> 's \<Rightarrow> go_error option \<times> 's"
  rKeys :: "string \<Rightarrow> 's \<Rightarrow> (go_error + string list) \<times> 's"
  rPublish :: "string \<Rightarrow> string \<Rightarrow> server_message \<Rightarrow> 's \<Rightarrow> go_error option \<times> 's"
  rSubscribe :: "string \<Rightarrow> 's \<Rightarrow> go_error option \<times> 's"
  rCloseSub :: "string \<Rightarrow> 's \<Rightarrow> go_error option \<times> 's"
  rEval :: "script \<Rightarrow> 's \<Rightarrow> (go_error + int list) \<times> 's"

definition roomKeyPrefix :: string where "roomKeyPrefix = ''planning-poker:room:''"
definition clientKeyPrefix :: string where "clientKeyPrefix = ''planning-poker:client:''"
definition pubsubChannel :: string where "pubsubChannel = ''planning-poker:updates:''"

section \<open>The hub's state\<close>

text \<open>\<open>RedisHub\<close>, the server behind it, and the rooms allocated so far. A Go map of counters reads
  0 for a missing key, so deleting an entry is setting it to 0.\<close>

record 's redis_hub =
  rh_redis :: 's
  rh_heap :: "room list"
  rh_buses :: "string \<Rightarrow> bus option"
  rh_roomSubs :: "string \<Rightarrow> bool"
  rh_roomClientCounts :: "string \<Rightarrow> int"

definition NewRedisHub :: "'s \<Rightarrow> 's redis_hub" where
  "NewRedisHub s = \<lparr>rh_redis = s, rh_heap = [], rh_buses = (\<lambda>_. None),
     rh_roomSubs = (\<lambda>_. False), rh_roomClientCounts = (\<lambda>_. 0)\<rparr>"

definition rh_deref :: "ref \<Rightarrow> 's redis_hub \<Rightarrow> room" where
  "rh_deref ref h = rh_heap h ! ref"

definition rh_assign :: "ref \<Rightarrow> room \<Rightarrow> 's redis_hub \<Rightarrow> 's redis_hub" where
  "rh_assign ref r h = h\<lparr>rh_heap := (rh_heap h)[ref := r]\<rparr>"

definition rh_alloc :: "room \<Rightarrow> ('s redis_hub, ref) call" where
  "rh_alloc r = (\<lambda>h. (Inr (length (rh_heap h)), h\<lparr>rh_heap := rh_heap h @ [r]\<rparr>))"

section \<open>Scripts\<close>

definition luaError :: go_error where "luaError = New ''ERR script''"

text \<open>\<open>cjson.decode(stored).roomVersion\<close>, as a number; \<open>None\<close> is nil.\<close>

definition lua_roomVersion :: "rvalue \<Rightarrow> go_error + int option" where
  "lua_roomVersion v =
     (case v of
        RDoc (JObj kvs) \<Rightarrow>
          (case member ''roomVersion'' kvs of Some (JInt n) \<Rightarrow> Inr (Some n) | _ \<Rightarrow> Inr None)
      | _ \<Rightarrow> Inl luaError)"

text \<open>The substitution rewrites the digits after every \<open>"roomVersion":\<close> of the document; quotes
  inside strings are escaped, so only the member of that name is meant.\<close>

definition gsub_roomVersion :: "int \<Rightarrow> json \<Rightarrow> json" where
  "gsub_roomVersion next j =
     (case j of
        JObj kvs \<Rightarrow> JObj (map (\<lambda>(k, v).
          case v of JInt n \<Rightarrow> if k = ''roomVersion'' \<and> 0 \<le> n then (k, JInt next) else (k, v)
          | _ \<Rightarrow> (k, v)) kvs)
      | _ \<Rightarrow> j)"

definition saveRoomScript :: "string \<Rightarrow> json \<Rightarrow> script" where
  "saveRoomScript key data = (\<lambda>kv.
     case (case kv key of None \<Rightarrow> Inr (Some 0) | Some stored \<Rightarrow> lua_roomVersion stored) of
       Inl e \<Rightarrow> (Inl e, kv)
     | Inr None \<Rightarrow> (Inl luaError, kv)
     | Inr (Some version) \<Rightarrow>
         (let nxt = version + 1
          in (Inr [1, nxt], kv(key \<mapsto> RDoc (gsub_roomVersion nxt data)))))"

definition compareAndSaveRoomScript :: "string \<Rightarrow> int \<Rightarrow> json \<Rightarrow> script" where
  "compareAndSaveRoomScript key expected data = (\<lambda>kv.
     case kv key of
       None \<Rightarrow> (Inr [-1], kv)
     | Some stored \<Rightarrow>
         (case lua_roomVersion stored of
            Inl e \<Rightarrow> (Inl e, kv)
          | Inr None \<Rightarrow> (Inr [0], kv)
          | Inr (Some version) \<Rightarrow>
              if version \<noteq> expected then (Inr [0, version], kv)
              else (Inr [1], kv(key \<mapsto> RDoc data))))"

section \<open>Commands on the hub's server\<close>

definition on_redis :: "('s \<Rightarrow> 'r \<times> 's) \<Rightarrow> 's redis_hub \<Rightarrow> 'r \<times> 's redis_hub" where
  "on_redis f h = (case f (rh_redis h) of (r, s) \<Rightarrow> (r, h\<lparr>rh_redis := s\<rparr>))"

section \<open>Rooms\<close>

definition saveInitialRoom :: "'s redis_client \<Rightarrow> ref \<Rightarrow> ('s redis_hub, unit) call" where
  "saveInitialRoom R ref = (\<lambda>h.
     let room = rh_deref ref h
     in case on_redis (rSet R (roomKeyPrefix @ room_ID room) (RDoc (SerializeRoom room))) h of
          (Some e, h') \<Rightarrow> (Inl (Errorf ''failed to save room to Redis: %w'' [] [e]), h')
        | (None, h') \<Rightarrow> (Inr (), h'))"

definition rh_NewRoomFrom :: "'s redis_client \<Rightarrow> room \<Rightarrow> ('s redis_hub, ref) call" where
  "rh_NewRoomFrom R room =
     andThen (rh_alloc room) (\<lambda>ref. andThen (saveInitialRoom R ref) (\<lambda>_. ret ref))"

definition rh_NewRoom :: "'s redis_client \<Rightarrow> string \<Rightarrow> time \<Rightarrow> ('s redis_hub, ref) call" where
  "rh_NewRoom R uuid now = rh_NewRoomFrom R (NewRoom uuid now (cc_New []))"

definition rh_NewRoomWithDeck ::
  "'s redis_client \<Rightarrow> string \<Rightarrow> time \<Rightarrow> DeckType \<Rightarrow> ('s redis_hub, ref) call" where
  "rh_NewRoomWithDeck R uuid now t = rh_NewRoomFrom R (NewRoomWithDeck uuid now (cc_New []) t)"

definition rh_NewRoomWithID ::
  "'s redis_client \<Rightarrow> time \<Rightarrow> string \<Rightarrow> ('s redis_hub, ref) call" where
  "rh_NewRoomWithID R now i = rh_NewRoomFrom R (NewRoomWithID now i (cc_New []))"

text \<open>\<open>loadRoom\<close>: \<open>Get(...).Bytes()\<close> of a value that is not a document fails to unmarshal.\<close>

definition rh_loadRoom :: "'s redis_client \<Rightarrow> string \<Rightarrow> ('s redis_hub, ref) call" where
  "rh_loadRoom R i = (\<lambda>h.
     case on_redis (rGet R (roomKeyPrefix @ i)) h of
       (Inl e, h') \<Rightarrow> (Inl e, h')
     | (Inr v, h') \<Rightarrow>
         (case (case v of RDoc j \<Rightarrow> DeserializeRoom j (cc_New []) | RText _ \<Rightarrow> Inl unmarshalError) of
            Inl e \<Rightarrow> (Inl (Errorf ''failed to deserialize room: %w'' [] [e]), h')
          | Inr room \<Rightarrow> rh_alloc room h'))"

definition rh_LoadRoom :: "'s redis_client \<Rightarrow> string \<Rightarrow> ('s redis_hub, ref) call" where
  "rh_LoadRoom R i = (\<lambda>h.
     case rh_loadRoom R i h of
       (Inl e, h') \<Rightarrow>
         if errors_is RedisNil e then (Inl ErrRoomNotFound, h')
         else (Inl (Errorf ''load room %s: %w'' [OStr i] [e]), h')
     | (Inr ref, h') \<Rightarrow> (Inr ref, h'))"

definition rh_RemoveRoom :: "'s redis_client \<Rightarrow> string \<Rightarrow> 's redis_hub \<Rightarrow> 's redis_hub" where
  "rh_RemoveRoom R i h = snd (on_redis (rDel R (roomKeyPrefix @ i)) h)"

definition rh_saveRoom :: "'s redis_client \<Rightarrow> ref \<Rightarrow> ('s redis_hub, unit) call" where
  "rh_saveRoom R ref = (\<lambda>h.
     let room = rh_deref ref h; key = roomKeyPrefix @ room_ID room
     in case on_redis (rEval R (saveRoomScript key (SerializeRoom room))) h of
          (Inl e, h') \<Rightarrow> (Inl (Errorf ''failed to save room to Redis: %w'' [] [e]), h')
        | (Inr values, h') \<Rightarrow>
            if length values < 2 then (Inl (New ''unexpected save response''), h')
            else (Inr (), rh_assign ref (room\<lparr>RoomVersion := word_of_int (values ! 1)\<rparr>) h'))"

definition rh_SaveRoom :: "'s redis_client \<Rightarrow> ref \<Rightarrow> ('s redis_hub, unit) call" where
  "rh_SaveRoom R ref = rh_saveRoom R ref"

definition saveRoomConditionally ::
  "'s redis_client \<Rightarrow> ref \<Rightarrow> 64 word option \<Rightarrow> ('s redis_hub, unit) call" where
  "saveRoomConditionally R ref expectedVersion = (\<lambda>h.
     case expectedVersion of
       None \<Rightarrow> (Inl ErrStaleRoomVersion, h)
     | Some expected \<Rightarrow>
         (let room = rh_deref ref h;
              nextVersion = expected + 1;
              persistedRoom = room\<lparr>RoomVersion := nextVersion\<rparr>;
              key = roomKeyPrefix @ room_ID room
          in case on_redis (rEval R (compareAndSaveRoomScript key (uint expected)
                                       (SerializeRoom persistedRoom))) h of
               (Inl e, h') \<Rightarrow> (Inl (Errorf ''failed to conditionally save room to Redis: %w'' [] [e]), h')
             | (Inr values, h') \<Rightarrow>
                 (case values of
                    [] \<Rightarrow> (Inl (New ''unexpected conditional save response''), h')
                  | status # _ \<Rightarrow>
                      if status \<noteq> 1 then (Inl ErrStaleRoomVersion, h')
                      else (Inr (), rh_assign ref (room\<lparr>RoomVersion := nextVersion\<rparr>) h'))))"

definition rh_SaveRoomIfVersion ::
  "'s redis_client \<Rightarrow> ref \<Rightarrow> 64 word option \<Rightarrow> ('s redis_hub, unit) call" where
  "rh_SaveRoomIfVersion R ref expectedVersion = saveRoomConditionally R ref expectedVersion"

text \<open>\<open>GetRooms\<close> skips the rooms that fail to load.\<close>

fun rh_GetRooms_loop ::
  "'s redis_client \<Rightarrow> string list \<Rightarrow> ref list \<Rightarrow> 's redis_hub \<Rightarrow> ref list \<times> 's redis_hub" where
  "rh_GetRooms_loop R [] rooms h = (rooms, h)"
| "rh_GetRooms_loop R (key # ks) rooms h =
     (case rh_LoadRoom R (drop (length roomKeyPrefix) key) h of
        (Inr ref, h') \<Rightarrow> rh_GetRooms_loop R ks (rooms @ [ref]) h'
      | (Inl e, h') \<Rightarrow> rh_GetRooms_loop R ks rooms h')"

definition rh_GetRooms :: "'s redis_client \<Rightarrow> 's redis_hub \<Rightarrow> ref list \<times> 's redis_hub" where
  "rh_GetRooms R h =
     (case on_redis (rKeys R roomKeyPrefix) h of
        (Inl e, h') \<Rightarrow> ([], h')
      | (Inr ks, h') \<Rightarrow> rh_GetRooms_loop R ks [] h')"

section \<open>Clients and buses\<close>

definition rh_FindClientByID ::
  "'s redis_client \<Rightarrow> string \<Rightarrow> 's redis_hub \<Rightarrow> client option \<times> 's redis_hub" where
  "rh_FindClientByID R i h =
     (case on_redis (rGet R (clientKeyPrefix @ i)) h of
        (Inr (RText roomID), h') \<Rightarrow>
          (case rh_LoadRoom R roomID h' of
             (Inl e, h2) \<Rightarrow> (None, h2)
           | (Inr ref, h2) \<Rightarrow>
               (cc_First (cc_Filter (\<lambda>c. client_ID c = i) (Clients (rh_deref ref h2))), h2))
      | (_, h') \<Rightarrow> (None, h'))"

text \<open>\<open>AddClient\<close> returns nothing: a failure is only logged.\<close>

definition rh_AddClient ::
  "'s redis_client \<Rightarrow> ref \<Rightarrow> ClientID \<Rightarrow> 's redis_hub \<Rightarrow> 's redis_hub" where
  "rh_AddClient R ref i h =
     (case on_redis (rSet R (clientKeyPrefix @ i) (RText (room_ID (rh_deref ref h)))) h of
        (Some e, h') \<Rightarrow> h'
      | (None, h') \<Rightarrow> snd (rh_saveRoom R ref h'))"

definition rh_GetClientsOfRoom :: "string \<Rightarrow> 's redis_hub \<Rightarrow> int" where
  "rh_GetClientsOfRoom i h = rh_roomClientCounts h i"

definition rh_AddBus :: "'s redis_client \<Rightarrow> string \<Rightarrow> bus \<Rightarrow> ('s redis_hub, unit) call" where
  "rh_AddBus R clientID b = (\<lambda>h.
     let h1 = h\<lparr>rh_buses := (rh_buses h)(clientID := Some b)\<rparr>;
         roomID = bus_RoomID b
     in if roomID = '''' then (Inr (), h1)
        else
          let h2 = h1\<lparr>rh_roomClientCounts :=
                 (rh_roomClientCounts h1)(roomID := rh_roomClientCounts h1 roomID + 1)\<rparr>
          in if rh_roomSubs h2 roomID then (Inr (), h2)
             else
               (case on_redis (rSubscribe R (pubsubChannel @ roomID)) h2 of
                  (Some e, h3) \<Rightarrow>
                    (let h4 = snd (on_redis (rCloseSub R (pubsubChannel @ roomID)) h3);
                         h5 = h4\<lparr>rh_buses := (rh_buses h4)(clientID := None),
                                 rh_roomClientCounts := (rh_roomClientCounts h4)
                                   (roomID := rh_roomClientCounts h4 roomID - 1)\<rparr>
                     in (Inl (Errorf ''confirm pub/sub subscription for room %s: %w'' [OStr roomID] [e]), h5))
                | (None, h3) \<Rightarrow> (Inr (), h3\<lparr>rh_roomSubs := (rh_roomSubs h3)(roomID := True)\<rparr>)))"

definition rh_GetBus :: "string \<Rightarrow> 's redis_hub \<Rightarrow> bus option" where
  "rh_GetBus clientID h = rh_buses h clientID"

definition rh_RemoveBus :: "'s redis_client \<Rightarrow> string \<Rightarrow> 's redis_hub \<Rightarrow> 's redis_hub" where
  "rh_RemoveBus R clientID h =
     (let roomID = (case rh_buses h clientID of Some b \<Rightarrow> bus_RoomID b | None \<Rightarrow> '''');
          h1 = h\<lparr>rh_buses := (rh_buses h)(clientID := None)\<rparr>
      in if roomID = '''' then h1
         else
           let h2 = (if 0 < rh_roomClientCounts h1 roomID
                     then h1\<lparr>rh_roomClientCounts :=
                            (rh_roomClientCounts h1)(roomID := rh_roomClientCounts h1 roomID - 1)\<rparr>
                     else h1)
           in if rh_roomClientCounts h2 roomID \<noteq> 0 then h2
              else if rh_roomSubs h2 roomID
              then snd (on_redis (rCloseSub R (pubsubChannel @ roomID))
                     (h2\<lparr>rh_roomSubs := (rh_roomSubs h2)(roomID := False)\<rparr>))
              else h2)"

definition rh_RemoveClient ::
  "'s redis_client \<Rightarrow> clock \<Rightarrow> string \<Rightarrow> string \<Rightarrow> ('s redis_hub, unit) call" where
  "rh_RemoveClient R clk clientID roomID = (\<lambda>h.
     let h1 = snd (on_redis (rDel R (clientKeyPrefix @ clientID)) h);
         h2 = rh_RemoveBus R clientID h1
     in case rh_LoadRoom R roomID h2 of
          (Inl e, h3) \<Rightarrow> if errors_is RoomNotFound e then (Inr (), h3) else (Inl e, h3)
        | (Inr ref, h3) \<Rightarrow>
            (case RemoveClient clk clientID (rh_deref ref h3) of
               (r', Some e) \<Rightarrow> (Inl e, rh_assign ref r' h3)
             | (r', None) \<Rightarrow>
                 (let h4 = rh_assign ref r' h3
                  in if room_IsEmpty r' then (Inr (), rh_RemoveRoom R (room_ID r') h4)
                     else rh_saveRoom R ref h4)))"

definition rh_BroadcastToRoom ::
  "'s redis_client \<Rightarrow> string \<Rightarrow> server_message \<Rightarrow> ('s redis_hub, unit) call" where
  "rh_BroadcastToRoom R roomID msg = (\<lambda>h.
     case on_redis (rPublish R (pubsubChannel @ roomID) roomID msg) h of
       (Some e, h') \<Rightarrow> (Inl (Errorf ''failed to publish message to Redis: %w'' [] [e]), h')
     | (None, h') \<Rightarrow> (Inr (), h'))"

text \<open>What a message received on a room's channel does: every client of the stored room whose bus
  is here gets it; a failed send is logged and the others still get theirs.\<close>

fun forward_loop ::
  "(bus \<Rightarrow> server_message \<Rightarrow> ('s redis_hub, unit) call) \<Rightarrow> server_message \<Rightarrow> client list \<Rightarrow> 's redis_hub \<Rightarrow> 's redis_hub" where
  "forward_loop send msg [] h = h"
| "forward_loop send msg (c # cs) h =
     (case rh_buses h (client_ID c) of
        None \<Rightarrow> forward_loop send msg cs h
      | Some b \<Rightarrow> forward_loop send msg cs (snd (send b msg h)))"

definition forwardToLocalClients ::
  "(bus \<Rightarrow> server_message \<Rightarrow> ('s redis_hub, unit) call) \<Rightarrow> 's redis_client \<Rightarrow> string \<Rightarrow> server_message \<Rightarrow>
   's redis_hub \<Rightarrow> 's redis_hub" where
  "forwardToLocalClients send R roomID msg h =
     (case rh_LoadRoom R roomID h of
        (Inl e, h') \<Rightarrow> h'
      | (Inr ref, h') \<Rightarrow> forward_loop send msg (cc_Values (Clients (rh_deref ref h'))) h')"

text \<open>The hub as the application sees it. \<open>uuid\<close> and \<open>now\<close> are what a new room gets, \<open>clk\<close> the
  clock \<open>RemoveClient\<close> reads.\<close>

definition redis_hub_ops ::
  "'s redis_client \<Rightarrow> clock \<Rightarrow> string \<Rightarrow> time \<Rightarrow> ('s redis_hub) hub" where
  "redis_hub_ops R clk uuid now =
     \<lparr>hDeref = rh_deref, hAssign = rh_assign, hFindClientByID = rh_FindClientByID R,
      hAddClient = rh_AddClient R, hRemoveClient = rh_RemoveClient R clk,
      hNewRoomWithDeck = rh_NewRoomWithDeck R uuid now, hNewRoomWithID = rh_NewRoomWithID R now,
      hLoadRoom = rh_LoadRoom R, hSaveRoom = rh_SaveRoom R,
      hSaveRoomIfVersion = rh_SaveRoomIfVersion R, hBroadcastToRoom = rh_BroadcastToRoom R,
      hGetBus = rh_GetBus, hAddBus = rh_AddBus R, hRemoveBus = rh_RemoveBus R\<rparr>"

section \<open>What Redis promises\<close>

text \<open>
  \<open>view\<close> is the map a server state stands for. A command that succeeds had its effect; one that
  reports an error (a connection lost before or after the command ran) had it or not.
\<close>

locale redis_contract =
  fixes R :: "'s redis_client"
    and view :: "'s \<Rightarrow> kv"
  assumes get: "rGet R k s = (res, s') \<Longrightarrow> view s' = view s \<and>
      (case res of Inr v \<Rightarrow> view s k = Some v | Inl e \<Rightarrow> errors_is RedisNil e \<longrightarrow> view s k = None)"
    and set: "rSet R k v s = (err, s') \<Longrightarrow>
      view s' = (view s)(k \<mapsto> v) \<or> err \<noteq> None \<and> view s' = view s"
    and del: "rDel R k s = (err, s') \<Longrightarrow>
      view s' = (view s)(k := None) \<or> err \<noteq> None \<and> view s' = view s"
    and publish: "view (snd (rPublish R ch room msg s)) = view s"
    and subscribe: "view (snd (rSubscribe R ch s)) = view s"
    and closeSub: "view (snd (rCloseSub R ch s)) = view s"
    and eval: "rEval R f s = (rep, s') \<Longrightarrow>
      (case rep of
         Inr reply \<Rightarrow> f (view s) = (Inr reply, view s')
       | Inl e \<Rightarrow> view s' = view s \<or> view s' = snd (f (view s)))"
begin

definition stored :: "'s redis_hub \<Rightarrow> kv" where
  "stored h = view (rh_redis h)"

lemma stored_frame [simp]:
  "stored (h\<lparr>rh_heap := x\<rparr>) = stored h" "stored (h\<lparr>rh_buses := b\<rparr>) = stored h"
  "stored (h\<lparr>rh_roomSubs := u\<rparr>) = stored h" "stored (h\<lparr>rh_roomClientCounts := n\<rparr>) = stored h"
  "stored (rh_assign ref r h) = stored h"
  by (simp_all add: stored_def rh_assign_def)

text \<open>A conditional save either reports success, and then the stored version was the expected one and
  the room is stored under the next; or it reports an error, and a stale one left the store alone.\<close>

lemma conditional_save:
  assumes "saveRoomConditionally R ref (Some v) h = (res, h')"
  defines "key \<equiv> roomKeyPrefix @ room_ID (rh_deref ref h)"
    and "doc \<equiv> RDoc (SerializeRoom ((rh_deref ref h)\<lparr>RoomVersion := v + 1\<rparr>))"
  shows "(case res of
      Inr _ \<Rightarrow> (\<exists>d. stored h key = Some d \<and> lua_roomVersion d = Inr (Some (uint v)))
        \<and> stored h' = (stored h)(key \<mapsto> doc)
        \<and> h' = rh_assign ref ((rh_deref ref h)\<lparr>RoomVersion := v + 1\<rparr>) (h\<lparr>rh_redis := rh_redis h'\<rparr>)
    | Inl e \<Rightarrow> (errors_is StaleRoomVersion e \<longrightarrow> rh_heap h' = rh_heap h))
    \<and> (res = Inl ErrStaleRoomVersion \<longrightarrow> stored h' = stored h)"
proof -
  obtain r s where e: "rEval R (compareAndSaveRoomScript key (uint v)
      (SerializeRoom ((rh_deref ref h)\<lparr>RoomVersion := v + 1\<rparr>))) (rh_redis h) = (r, s)"
    by fastforce
  note law = eval [OF e]
  show ?thesis
  proof (cases r)
    case (Inl err)
    then show ?thesis
      using assms(1) e
      by (auto simp: saveRoomConditionally_def on_redis_def key_def Let_def ErrStaleRoomVersion_def
          Errorf_def)
  next
    case (Inr reply)
    with law have f: "compareAndSaveRoomScript key (uint v)
      (SerializeRoom ((rh_deref ref h)\<lparr>RoomVersion := v + 1\<rparr>)) (stored h) = (Inr reply, view s)"
      by (simp add: stored_def)
    show ?thesis
    proof (cases "reply \<noteq> [] \<and> hd reply = 1")
      case True
      then have res: "res = Inr ()" and h': "h' = rh_assign ref ((rh_deref ref h)\<lparr>RoomVersion := v + 1\<rparr>)
          (h\<lparr>rh_redis := s\<rparr>)"
        using assms(1) e Inr
        by (auto simp: saveRoomConditionally_def on_redis_def key_def Let_def split: list.splits)
      have "stored h' = view s" "rh_redis h' = s" by (simp_all add: h' stored_def rh_assign_def)
      moreover have "(\<exists>d. stored h key = Some d \<and> lua_roomVersion d = Inr (Some (uint v))) \<and>
          view s = (stored h)(key \<mapsto> doc)"
        using f True by (auto simp: compareAndSaveRoomScript_def doc_def
            split: option.splits sum.splits if_splits)
      ultimately show ?thesis using h' by (simp add: res)
    next
      case False
      then have "view s = stored h"
        using f by (auto simp: compareAndSaveRoomScript_def split: option.splits sum.splits if_splits)
      moreover have "isl res \<and> rh_heap h' = rh_heap h \<and> rh_redis h' = s"
        using assms(1) e Inr False
        by (auto simp: saveRoomConditionally_def on_redis_def key_def Let_def split: list.splits if_splits)
      ultimately show ?thesis by (cases res) (auto simp: stored_def)
    qed
  qed
qed

lemma stale_save_keeps_store:
  assumes "rh_SaveRoomIfVersion R ref v h = (Inl ErrStaleRoomVersion, h')"
  shows "stored h' = stored h"
proof (cases v)
  case None
  with assms show ?thesis by (simp add: rh_SaveRoomIfVersion_def saveRoomConditionally_def)
next
  case (Some n)
  with assms conditional_save show ?thesis by (simp add: rh_SaveRoomIfVersion_def)
qed

text \<open>With the expected version stored, a server that answers makes the save succeed.\<close>

lemma conditional_save_succeeds:
  assumes "saveRoomConditionally R ref (Some v) h = (res, h')"
    and "stored h (roomKeyPrefix @ room_ID (rh_deref ref h)) = Some d"
    and "lua_roomVersion d = Inr (Some (uint v))"
    and "\<And>f. \<not> isl (fst (rEval R f (rh_redis h)))"
  shows "res = Inr ()"
proof -
  let ?f = "compareAndSaveRoomScript (roomKeyPrefix @ room_ID (rh_deref ref h)) (uint v)
      (SerializeRoom ((rh_deref ref h)\<lparr>RoomVersion := v + 1\<rparr>))"
  obtain r s where e: "rEval R ?f (rh_redis h) = (r, s)" by fastforce
  with assms(4) [of ?f] obtain reply where r: "r = Inr reply" by (cases r) auto
  with eval [OF e] have "?f (stored h) = (Inr reply, view s)" by (simp add: stored_def)
  with assms(2,3) have "reply = [1]" by (auto simp: compareAndSaveRoomScript_def)
  with assms(1) e r show ?thesis
    by (auto simp: saveRoomConditionally_def on_redis_def Let_def)
qed

text \<open>An unconditional save that reports success has stored the room under the version after the
  stored one, and told the room.\<close>

lemma unconditional_save:
  assumes "rh_saveRoom R ref h = (Inr (), h')"
  defines "room \<equiv> rh_deref ref h"
  defines "key \<equiv> roomKeyPrefix @ room_ID room"
  shows "\<exists>version. (case stored h key of None \<Rightarrow> version = 0
        | Some d \<Rightarrow> lua_roomVersion d = Inr (Some version))
    \<and> stored h' = (stored h)(key \<mapsto> RDoc (gsub_roomVersion (version + 1) (SerializeRoom room)))
    \<and> rh_heap h' = (rh_heap h)[ref := room\<lparr>RoomVersion := word_of_int (version + 1)\<rparr>]"
proof -
  obtain r s where e: "rEval R (saveRoomScript key (SerializeRoom room)) (rh_redis h) = (r, s)"
    by fastforce
  have "r \<noteq> Inl x" for x
    using assms(1) e by (auto simp: rh_saveRoom_def on_redis_def Let_def key_def room_def)
  then obtain reply where r: "r = Inr reply" by (cases r) auto
  with eval [OF e] have f: "saveRoomScript key (SerializeRoom room) (stored h) = (Inr reply, view s)"
    by (simp add: stored_def)
  then obtain version where v: "(case stored h key of None \<Rightarrow> version = 0
      | Some d \<Rightarrow> lua_roomVersion d = Inr (Some version))" "reply = [1, version + 1]"
    "view s = (stored h)(key \<mapsto> RDoc (gsub_roomVersion (version + 1) (SerializeRoom room)))"
    by (auto simp: saveRoomScript_def Let_def split: option.splits sum.splits)
  have "h' = rh_assign ref (room\<lparr>RoomVersion := word_of_int (version + 1)\<rparr>) (h\<lparr>rh_redis := s\<rparr>)"
    using assms(1) e r v(2) by (auto simp: rh_saveRoom_def on_redis_def Let_def key_def room_def)
  then show ?thesis
    using v by (intro exI [of _ version]) (simp add: stored_def rh_assign_def)
qed

text \<open>Loading reads the store and allocates; broadcasting does not touch the store.\<close>

lemma load_keeps_store:
  assumes "rh_LoadRoom R i h = (res, h')"
  shows "stored h' = stored h"
proof -
  obtain r s where g: "rGet R (roomKeyPrefix @ i) (rh_redis h) = (r, s)" by fastforce
  have "view s = view (rh_redis h)" using get [OF g] by simp
  then show ?thesis
    using assms g
    by (auto simp: rh_LoadRoom_def rh_loadRoom_def on_redis_def rh_alloc_def stored_def
        split: sum.splits prod.splits if_splits)
qed

lemma load_allocates:
  assumes "rh_LoadRoom R i h = (Inr ref, h')"
  shows "ref = length (rh_heap h)"
    "\<exists>room. rh_heap h' = rh_heap h @ [room] \<and>
       (\<exists>j. stored h (roomKeyPrefix @ i) = Some (RDoc j) \<and> DeserializeRoom j (cc_New []) = Inr room)"
proof -
  obtain r s where g: "rGet R (roomKeyPrefix @ i) (rh_redis h) = (r, s)" by fastforce
  have "ref = length (rh_heap h) \<and> (\<exists>room. rh_heap h' = rh_heap h @ [room] \<and>
       (\<exists>j. r = Inr (RDoc j) \<and> DeserializeRoom j (cc_New []) = Inr room))"
    using assms g
    by (auto simp: rh_LoadRoom_def rh_loadRoom_def on_redis_def rh_alloc_def
        split: sum.splits prod.splits if_splits rvalue.splits)
  with get [OF g] show "ref = length (rh_heap h)"
    "\<exists>room. rh_heap h' = rh_heap h @ [room] \<and>
       (\<exists>j. stored h (roomKeyPrefix @ i) = Some (RDoc j) \<and> DeserializeRoom j (cc_New []) = Inr room)"
    by (auto simp: stored_def)
qed

lemma broadcast_keeps_store: "stored (snd (rh_BroadcastToRoom R i msg h)) = stored h"
  using publish [of "pubsubChannel @ i" i msg "rh_redis h"]
  by (auto simp: rh_BroadcastToRoom_def on_redis_def stored_def split: prod.splits option.splits)

end

section \<open>A server to run the program on\<close>

text \<open>The map of a server, the keys ever set, the messages published, and a supply of faults: each
  command takes the next one, and fails without effect when it is set.\<close>

record server =
  sv_kv :: kv
  sv_keys :: "string list"
  sv_published :: "(string \<times> server_message) list"
  sv_faults :: "bool list"

definition connectionLost :: go_error where "connectionLost = New ''connection lost''"

definition redisNil :: go_error where "redisNil = PlainError (Some RedisNil) (Msg ''redis: nil'' [])"

text \<open>Runs a command unless the next fault is set.\<close>

definition unless_fault :: "'r \<Rightarrow> (server \<Rightarrow> 'r \<times> server) \<Rightarrow> server \<Rightarrow> 'r \<times> server" where
  "unless_fault bad f s =
     (case sv_faults s of [] \<Rightarrow> f s
      | b # bs \<Rightarrow> if b then (bad, s\<lparr>sv_faults := bs\<rparr>) else f (s\<lparr>sv_faults := bs\<rparr>))"

definition sv_put :: "string \<Rightarrow> rvalue option \<Rightarrow> server \<Rightarrow> server" where
  "sv_put k v s = s\<lparr>sv_kv := (sv_kv s)(k := v), sv_keys := List.insert k (sv_keys s)\<rparr>"

definition sv_client :: "server redis_client" where
  "sv_client =
     \<lparr>rSet = (\<lambda>k v. unless_fault (Some connectionLost) (\<lambda>s. (None, sv_put k (Some v) s))),
      rGet = (\<lambda>k. unless_fault (Inl connectionLost)
                (\<lambda>s. (case sv_kv s k of None \<Rightarrow> Inl redisNil | Some v \<Rightarrow> Inr v, s))),
      rDel = (\<lambda>k. unless_fault (Some connectionLost) (\<lambda>s. (None, sv_put k None s))),
      rKeys = (\<lambda>p. unless_fault (Inl connectionLost)
                (\<lambda>s. (Inr (filter (\<lambda>k. take (length p) k = p \<and> sv_kv s k \<noteq> None) (sv_keys s)), s))),
      rPublish = (\<lambda>ch room msg. unless_fault (Some connectionLost)
                (\<lambda>s. (None, s\<lparr>sv_published := sv_published s @ [(room, msg)]\<rparr>))),
      rSubscribe = (\<lambda>ch. unless_fault (Some connectionLost) (\<lambda>s. (None, s))),
      rCloseSub = (\<lambda>ch s. (None, s)),
      rEval = (\<lambda>f. unless_fault (Inl connectionLost)
                (\<lambda>s. case f (sv_kv s) of (r, kv) \<Rightarrow> (r, s\<lparr>sv_kv := kv\<rparr>)))\<rparr>"

lemma unless_faultE:
  assumes "unless_fault bad f s = (r, s')"
  obtains (fault) fs where "r = bad" "s' = s\<lparr>sv_faults := fs\<rparr>"
  | (runs) s0 where "f s0 = (r, s')" "sv_kv s0 = sv_kv s"
  using assms
proof (cases "sv_faults s")
  case Nil
  with assms show thesis by (intro runs [of s]) (auto simp: unless_fault_def)
next
  case (Cons b bs)
  with assms show thesis
    by (cases b) (auto simp: unless_fault_def intro: fault [of bs] runs [of "s\<lparr>sv_faults := bs\<rparr>"])
qed

interpretation sv: redis_contract sv_client sv_kv
proof unfold_locales
  fix k s res s'
  assume "rGet sv_client k s = (res, s')"
  then show "sv_kv s' = sv_kv s \<and>
      (case res of Inr v \<Rightarrow> sv_kv s k = Some v | Inl e \<Rightarrow> errors_is RedisNil e \<longrightarrow> sv_kv s k = None)"
    by (auto simp: sv_client_def connectionLost_def elim!: unless_faultE split: sum.splits option.splits)
next
  fix k v s err s'
  assume "rSet sv_client k v s = (err, s')"
  then show "sv_kv s' = (sv_kv s)(k \<mapsto> v) \<or> err \<noteq> None \<and> sv_kv s' = sv_kv s"
    by (auto simp: sv_client_def sv_put_def elim!: unless_faultE)
next
  fix k s err s'
  assume "rDel sv_client k s = (err, s')"
  then show "sv_kv s' = (sv_kv s)(k := None) \<or> err \<noteq> None \<and> sv_kv s' = sv_kv s"
    by (auto simp: sv_client_def sv_put_def elim!: unless_faultE)
next
  fix ch room msg s
  show "sv_kv (snd (rPublish sv_client ch room msg s)) = sv_kv s"
    by (auto simp: sv_client_def unless_fault_def split: list.split)
next
  fix ch s
  show "sv_kv (snd (rSubscribe sv_client ch s)) = sv_kv s"
    by (auto simp: sv_client_def unless_fault_def split: list.split)
next
  fix ch s
  show "sv_kv (snd (rCloseSub sv_client ch s)) = sv_kv s"
    by (simp add: sv_client_def)
next
  fix f s rep s'
  assume "rEval sv_client f s = (rep, s')"
  then show "case rep of Inr reply \<Rightarrow> f (sv_kv s) = (Inr reply, sv_kv s')
      | Inl e \<Rightarrow> sv_kv s' = sv_kv s \<or> sv_kv s' = snd (f (sv_kv s))"
    by (auto simp: sv_client_def elim!: unless_faultE split: sum.splits prod.splits)
qed

definition new_server :: server where
  "new_server = \<lparr>sv_kv = (\<lambda>_. None), sv_keys = [], sv_published = [], sv_faults = []\<rparr>"

section \<open>Versions of documents\<close>

text \<open>What the scripts see of a document this program wrote.\<close>

lemma lua_roomVersion_stored [simp]:
  "lua_roomVersion (RDoc (SerializeRoom r)) = Inr (Some (uint (RoomVersion r)))"
proof -
  obtain kvs where "marshal_room (serialized r) = JObj kvs" by (simp add: marshal_room_def)
  from room_members_more(9) [OF this] this show ?thesis
    by (simp add: lua_roomVersion_def SerializeRoom_def serialized_def RoomVersion_Uint64_def)
qed

lemma member_gsub:
  assumes "member ''roomVersion'' kvs = Some (JInt n)" "0 \<le> n"
  shows "member ''roomVersion'' (map (\<lambda>(k, v).
      case v of JInt n \<Rightarrow> if k = ''roomVersion'' \<and> 0 \<le> n then (k, JInt next) else (k, v)
      | _ \<Rightarrow> (k, v)) kvs) = Some (JInt next)"
proof -
  have "map_of (rev kvs) ''roomVersion'' = Some (JInt n) \<Longrightarrow>
    map_of (map (\<lambda>(k, v).
      case v of JInt n \<Rightarrow> if k = ''roomVersion'' \<and> 0 \<le> n then (k, JInt next) else (k, v)
      | _ \<Rightarrow> (k, v)) (rev kvs)) ''roomVersion'' = Some (JInt next)"
    using assms(2) by (induction "rev kvs" arbitrary: kvs)
      (auto simp: rev_swap [symmetric] split: json.splits if_splits)
  with assms(1) show ?thesis by (simp add: member_def rev_map)
qed

lemma lua_roomVersion_gsub [simp]:
  "lua_roomVersion (RDoc (gsub_roomVersion next (SerializeRoom r))) = Inr (Some next)"
proof -
  obtain kvs where kvs: "marshal_room (serialized r) = JObj kvs" by (simp add: marshal_room_def)
  from member_gsub [OF room_members_more(9) [OF kvs]] kvs show ?thesis
    by (simp add: lua_roomVersion_def SerializeRoom_def gsub_roomVersion_def)
qed

end
