(* ===== verification/InMemory_Hub.thy ===== *)
theory InMemory_Hub
  imports Hub Room_Presence
begin

text \<open>
  The hub that keeps rooms in the process: \<open>internal/infra/boundaries/hub/inmemory/hub.go\<close>.

  \<open>LoadRoom\<close> hands out the pointer the hub holds, so what a use case does to a room is seen by
  everyone at once; \<open>saved\<close> keeps a copy of each room as last saved, which a failed conditional
  save puts back. The mutex around the maps and the channels of the two \<open>Wait\<close> methods, which only
  tests call, are not modelled; of a channel the hub holds, its presence is.
\<close>

section \<open>The hub's state\<close>

text \<open>\<open>im_Clients\<close>: a pointer to a client is the room it was added to and its ID. \<open>im_net\<close> is the
  state of the connections, which only the buses read and write.\<close>

record 'n im_hub =
  im_heap :: "room list"
  im_Rooms :: "string \<Rightarrow> ref option"
  im_Clients :: "string \<Rightarrow> (ref \<times> ClientID) option"
  im_Buses :: "string \<Rightarrow> bus option"
  im_saved :: "string \<Rightarrow> room option"
  im_removed :: "string \<Rightarrow> bool"
  im_removedClients :: "string \<times> string \<Rightarrow> bool"
  im_net :: 'n

definition NewHub :: "'n \<Rightarrow> 'n im_hub" where
  "NewHub n = \<lparr>im_heap = [], im_Rooms = (\<lambda>_. None), im_Clients = (\<lambda>_. None),
     im_Buses = (\<lambda>_. None), im_saved = (\<lambda>_. None), im_removed = (\<lambda>_. False),
     im_removedClients = (\<lambda>_. False), im_net = n\<rparr>"

definition im_deref :: "ref \<Rightarrow> 'n im_hub \<Rightarrow> room" where
  "im_deref ref h = im_heap h ! ref"

definition im_assign :: "ref \<Rightarrow> room \<Rightarrow> 'n im_hub \<Rightarrow> 'n im_hub" where
  "im_assign ref r h = h\<lparr>im_heap := (im_heap h)[ref := r]\<rparr>"

section \<open>Copying a room\<close>

text \<open>\<open>append([]string(nil), xs...)\<close> is nil when \<open>xs\<close> is empty.\<close>

definition clone_strings :: "string list option \<Rightarrow> string list option" where
  "clone_strings xs = (case xs of None \<Rightarrow> None | Some [] \<Rightarrow> None | Some ys \<Rightarrow> Some ys)"

definition clone_story :: "story \<Rightarrow> story" where
  "clone_story s = s\<lparr>story_Result := cloneResult (story_Result s),
     story_MostAppearingVotes := clone_strings (story_MostAppearingVotes s)\<rparr>"

text \<open>The body of the loop over the clients: \<open>clone.NewClient\<close> and the writes through its result.\<close>

definition clone_client_step :: "client \<Rightarrow> room \<Rightarrow> room" where
  "clone_client_step c clone =
     (let r1 = snd (room_NewClient (client_ID c) clone)
      in r1\<lparr>Clients := write_last (\<lambda>d. d\<lparr>client_Name := client_Name c,
           CurrentVote := (case CurrentVote c of None \<Rightarrow> CurrentVote d | Some v \<Rightarrow> VotePtr v),
           HasVoted := HasVoted c, VotedAt := OptionalUTCTimePtr (VotedAt c),
           IsSpectator := IsSpectator c, IsOwner := IsOwner c\<rparr>) (Clients r1)\<rparr>)"

definition cloneRoom :: "room \<Rightarrow> room" where
  "cloneRoom r =
     (let clone = NewRoomWithIDAndStartedAt (room_ID r) (cc_New []) (room_StartedAt r);
          clone1 = clone\<lparr>DeckType := DeckType r, CurrentStory := CurrentStory r,
            Reveal := Reveal r, Result := cloneResult (Result r),
            MostAppearingVotes := clone_strings (MostAppearingVotes r),
            Consensus := Consensus r, LowestVote := LowestVote r, HighestVote := HighestVote r,
            VoteRange := VoteRange r, VoteSpread := VoteSpread r,
            SpecialVoteCount := SpecialVoteCount r, BacklogMode := BacklogMode r,
            Stories := map clone_story (Stories r), CurrentStoryIndex := CurrentStoryIndex r,
            RoomVersion := RoomVersion r\<rparr>
      in fold clone_client_step (cc_Values (Clients r)) clone1)"

section \<open>Rooms\<close>

definition im_register :: "room \<Rightarrow> ('n im_hub, ref) call" where
  "im_register room = (\<lambda>h.
     let ref = length (im_heap h)
     in (Inr ref, h\<lparr>im_heap := im_heap h @ [room],
           im_Rooms := (im_Rooms h)(room_ID room := Some ref),
           im_saved := (im_saved h)(room_ID room := Some (cloneRoom room)),
           im_removed := (im_removed h)(room_ID room := True)\<rparr>))"

definition im_NewRoom :: "string \<Rightarrow> time \<Rightarrow> ('n im_hub, ref) call" where
  "im_NewRoom uuid now = im_register (NewRoom uuid now (cc_New []))"

definition im_NewRoomWithID :: "time \<Rightarrow> string \<Rightarrow> ('n im_hub, ref) call" where
  "im_NewRoomWithID now i = im_register (NewRoomWithID now i (cc_New []))"

definition im_NewRoomWithDeck :: "string \<Rightarrow> time \<Rightarrow> DeckType \<Rightarrow> ('n im_hub, ref) call" where
  "im_NewRoomWithDeck uuid now t = im_register (NewRoomWithDeck uuid now (cc_New []) t)"

definition im_LoadRoom :: "string \<Rightarrow> ('n im_hub, ref) call" where
  "im_LoadRoom i = (\<lambda>h.
     case im_Rooms h i of None \<Rightarrow> (Inl ErrRoomNotFound, h) | Some ref \<Rightarrow> (Inr ref, h))"

definition im_RemoveRoom :: "string \<Rightarrow> 'n im_hub \<Rightarrow> 'n im_hub" where
  "im_RemoveRoom i h = h\<lparr>im_Rooms := (im_Rooms h)(i := None),
     im_saved := (im_saved h)(i := None), im_removed := (im_removed h)(i := False)\<rparr>"

definition refreshSavedRoom :: "ref \<Rightarrow> 'n im_hub \<Rightarrow> 'n im_hub" where
  "refreshSavedRoom ref h =
     (let room = im_deref ref h
      in case im_saved h (room_ID room) of
           None \<Rightarrow> h
         | Some saved \<Rightarrow>
             (let snapshot = (cloneRoom room)\<lparr>RoomVersion := RoomVersion saved\<rparr>
              in h\<lparr>im_saved := (im_saved h)(room_ID room := Some snapshot)\<rparr>))"

definition im_SaveRoom :: "ref \<Rightarrow> ('n im_hub, unit) call" where
  "im_SaveRoom ref = (\<lambda>h.
     let room = im_deref ref h;
         nxt = (case im_saved h (room_ID room) of
                  Some saved \<Rightarrow> RoomVersion_Next (RoomVersion saved)
                | None \<Rightarrow> RoomVersion_Next (RoomVersion room));
         h1 = h\<lparr>im_saved := (im_saved h)(room_ID room := Some ((cloneRoom room)\<lparr>RoomVersion := nxt\<rparr>))\<rparr>
     in (Inr (), im_assign ref (room\<lparr>RoomVersion := nxt\<rparr>) h1))"

definition im_SaveRoomIfVersion :: "ref \<Rightarrow> 64 word option \<Rightarrow> ('n im_hub, unit) call" where
  "im_SaveRoomIfVersion ref expectedVersion = (\<lambda>h.
     let room = im_deref ref h; i = room_ID room
     in if im_Rooms h i \<noteq> Some ref then (Inl ErrStaleRoomVersion, h)
        else
          let persistedVersion = (case im_saved h i of Some saved \<Rightarrow> RoomVersion saved | None \<Rightarrow> 0)
          in if expectedVersion = None \<or> RoomVersion_Uint64 persistedVersion \<noteq> the expectedVersion
             then (Inl ErrStaleRoomVersion,
                   case im_saved h i of
                     Some saved \<Rightarrow> h\<lparr>im_heap := im_heap h @ [cloneRoom saved],
                                   im_Rooms := (im_Rooms h)(i := Some (length (im_heap h)))\<rparr>
                   | None \<Rightarrow> h)
             else
               let nxt = persistedVersion + 1;
                   h1 = h\<lparr>im_saved := (im_saved h)(i := Some ((cloneRoom room)\<lparr>RoomVersion := nxt\<rparr>))\<rparr>;
                   h2 = im_assign ref (room\<lparr>RoomVersion := nxt\<rparr>) h1
               in (Inr (), h2\<lparr>im_Rooms := (im_Rooms h2)(i := Some ref)\<rparr>))"

text \<open>\<open>GetRooms\<close>; \<open>keys\<close> are the identifiers of the rooms in the order the range over the map
  visits them.\<close>

definition im_GetRooms :: "string list \<Rightarrow> 'n im_hub \<Rightarrow> ref list \<times> 'n im_hub" where
  "im_GetRooms keys h = (List.map_filter (im_Rooms h) keys, h)"

section \<open>Clients and buses\<close>

definition im_FindClientByID :: "string \<Rightarrow> 'n im_hub \<Rightarrow> client option \<times> 'n im_hub" where
  "im_FindClientByID i h =
     (case im_Clients h i of
        None \<Rightarrow> (None, h)
      | Some (ref, c) \<Rightarrow> (FindClient (im_deref ref h) c, h))"

definition im_AddClient :: "ref \<Rightarrow> ClientID \<Rightarrow> 'n im_hub \<Rightarrow> 'n im_hub" where
  "im_AddClient ref i h =
     refreshSavedRoom ref
       (h\<lparr>im_Clients := (im_Clients h)(i := Some (ref, i)),
          im_removedClients := (im_removedClients h)((room_ID (im_deref ref h), i) := True)\<rparr>)"

definition im_AddBus :: "string \<Rightarrow> bus \<Rightarrow> ('n im_hub, unit) call" where
  "im_AddBus i b = (\<lambda>h. (Inr (), h\<lparr>im_Buses := (im_Buses h)(i := Some b)\<rparr>))"

definition im_GetBus :: "string \<Rightarrow> 'n im_hub \<Rightarrow> bus option" where
  "im_GetBus i h = im_Buses h i"

definition im_RemoveBus :: "string \<Rightarrow> 'n im_hub \<Rightarrow> 'n im_hub" where
  "im_RemoveBus i h = h\<lparr>im_Buses := (im_Buses h)(i := None)\<rparr>"

definition im_RemoveClient :: "clock \<Rightarrow> string \<Rightarrow> string \<Rightarrow> ('n im_hub, unit) call" where
  "im_RemoveClient clk clientID roomID = (\<lambda>h.
     let h1 = h\<lparr>im_Clients := (im_Clients h)(clientID := None)\<rparr>;
         h2 = im_RemoveBus clientID h1
     in case im_LoadRoom roomID h2 of
          (Inl e, h3) \<Rightarrow> if errors_is RoomNotFound e then (Inr (), h3) else (Inl e, h3)
        | (Inr ref, h3) \<Rightarrow>
            (case RemoveClient clk clientID (im_deref ref h3) of
               (r', Some e) \<Rightarrow> (Inl e, im_assign ref r' h3)
             | (r', None) \<Rightarrow>
                 (let h4 = im_assign ref r' h3;
                      h5 = (if room_IsEmpty r' then im_RemoveRoom (room_ID r') h4
                            else refreshSavedRoom ref h4)
                  in (Inr (), h5\<lparr>im_removedClients :=
                        (im_removedClients h5)((roomID, clientID) := False)\<rparr>))))"

text \<open>The loop of \<open>BroadcastToRoom\<close> stops at the first client whose bus fails.\<close>

fun im_broadcast_loop ::
  "(bus \<Rightarrow> server_message \<Rightarrow> ('n im_hub, unit) call) \<Rightarrow> server_message \<Rightarrow> client list \<Rightarrow> ('n im_hub, unit) call" where
  "im_broadcast_loop send msg [] h = (Inr (), h)"
| "im_broadcast_loop send msg (c # cs) h =
     (case im_GetBus (client_ID c) h of
        None \<Rightarrow> im_broadcast_loop send msg cs h
      | Some b \<Rightarrow>
          (case send b msg h of
             (Inl e, h') \<Rightarrow>
               (Inl (Errorf ''failed to send message to client %s: %w'' [OStr (client_ID c)] [e]), h')
           | (Inr _, h') \<Rightarrow> im_broadcast_loop send msg cs h'))"

definition im_BroadcastToRoom ::
  "(bus \<Rightarrow> server_message \<Rightarrow> ('n im_hub, unit) call) \<Rightarrow> string \<Rightarrow> server_message \<Rightarrow> ('n im_hub, unit) call" where
  "im_BroadcastToRoom send roomID msg = (\<lambda>h.
     case im_LoadRoom roomID h of
       (Inl e, h') \<Rightarrow> (Inl e, h')
     | (Inr ref, h') \<Rightarrow> im_broadcast_loop send msg (cc_Values (Clients (im_deref ref h'))) h')"

definition im_hub_ops ::
  "(bus \<Rightarrow> server_message \<Rightarrow> ('n im_hub, unit) call) \<Rightarrow> clock \<Rightarrow> string \<Rightarrow> time \<Rightarrow> ('n im_hub) hub" where
  "im_hub_ops send clk uuid now =
     \<lparr>hDeref = im_deref, hAssign = im_assign, hFindClientByID = im_FindClientByID,
      hAddClient = im_AddClient, hRemoveClient = im_RemoveClient clk,
      hNewRoomWithDeck = im_NewRoomWithDeck uuid now, hNewRoomWithID = im_NewRoomWithID now,
      hLoadRoom = im_LoadRoom, hSaveRoom = im_SaveRoom,
      hSaveRoomIfVersion = im_SaveRoomIfVersion, hBroadcastToRoom = im_BroadcastToRoom send,
      hGetBus = im_GetBus, hAddBus = im_AddBus, hRemoveBus = im_RemoveBus\<rparr>"

section \<open>Copies\<close>

text \<open>What a copy keeps: everything but pending events and the difference between an empty and a
  missing list of cards.\<close>

definition copied_room :: "room \<Rightarrow> room" where
  "copied_room r = r\<lparr>startedAt := UTC (startedAt r), events := [],
     MostAppearingVotes := clone_strings (MostAppearingVotes r),
     Stories := map clone_story (Stories r),
     Clients := map (\<lambda>c. c\<lparr>VotedAt := OptionalUTCTimePtr (VotedAt c)\<rparr>) (Clients r)\<rparr>"

lemma clone_client_step_eq:
  "clone_client_step c r =
     r\<lparr>Clients := Clients r @ [c\<lparr>VotedAt := OptionalUTCTimePtr (VotedAt c)\<rparr>]\<rparr>"
proof -
  have "CurrentVote c = None \<or> (\<exists>v. CurrentVote c = Some v)" by (cases "CurrentVote c") auto
  then show ?thesis
    unfolding clone_client_step_def Let_def
    by (subst room_NewClient_frame)
      (auto simp: room_NewClient_Clients newClient_def VotePtr_def)
qed

lemma cloneRoom_eq: "cloneRoom r = copied_room r"
proof -
  have fold: "fold clone_client_step cs q =
      q\<lparr>Clients := Clients q @ map (\<lambda>c. c\<lparr>VotedAt := OptionalUTCTimePtr (VotedAt c)\<rparr>) cs\<rparr>" for cs q
    by (induction cs arbitrary: q) (simp_all add: clone_client_step_eq)
  show ?thesis
    by (simp add: cloneRoom_def Let_def fold cc_Values_def NewRoomWithIDAndStartedAt_def
        copied_room_def cc_New_def room_StartedAt_def)
qed

lemma clone_strings_idem [simp]: "clone_strings (clone_strings xs) = clone_strings xs"
  by (simp add: clone_strings_def split: option.split list.split)

lemma copied_room_idem: "copied_room (copied_room r) = copied_room r"
  by (simp add: copied_room_def clone_story_def comp_def)

section \<open>Removing a client\<close>

lemma im_refreshSavedRoom_frame [simp]:
  "im_Rooms (refreshSavedRoom ref h) = im_Rooms h" "im_heap (refreshSavedRoom ref h) = im_heap h"
  "im_Buses (refreshSavedRoom ref h) = im_Buses h" "im_Clients (refreshSavedRoom ref h) = im_Clients h"
  "im_net (refreshSavedRoom ref h) = im_net h"
  by (simp_all add: refreshSavedRoom_def Let_def split: option.splits)

lemma RemoveClient_gone:
  assumes "distinct (map client_ID (Clients r))" "RemoveClient clk c r = (r', err)"
  shows "err = None" "room_ID r' = room_ID r" "client_ID ` set (Clients r') = client_ID ` set (Clients r) - {c}"
proof -
  have ids: "map client_ID (Clients (promoteFirst q)) = map client_ID (Clients q)" for q
    by (cases "Clients q") (simp_all add: promoteFirst_def cc_First_def)
  have rest: "client_ID ` set (cc_Remove c (Clients r)) = client_ID ` set (Clients r) - {c}"
    using filter_remove_first [OF assms(1), of c] by (auto simp: cc_Remove_def)
  have id: "room_ID (promoteFirst q) = room_ID q" for q
    by (subst promoteFirst_frame) simp
  have fields: "client_ID ` set (Clients (checkReveal clk q)) = client_ID ` set (Clients q)"
    "room_ID (checkReveal clk q) = room_ID q" for q
    by simp_all
  show "err = None" using assms(2) by (simp add: RemoveClient_def Let_def)
  show "room_ID r' = room_ID r"
    using assms(2) by (auto simp: RemoveClient_def Let_def id split: if_splits)
  show "client_ID ` set (Clients r') = client_ID ` set (Clients r) - {c}"
    using assms(2) ids rest
    by (auto simp: RemoveClient_def Let_def fields simp flip: set_map split: if_splits)
qed

text \<open>In memory, removing a client from a room that is there cannot fail, and leaves no trace.\<close>

lemma im_RemoveClient_gone:
  assumes "im_RemoveClient clk c i h = (res, h')"
    and "im_Rooms h i = Some ref" "ref < length (im_heap h)" "room_ID (im_deref ref h) = i"
    and "distinct (map client_ID (Clients (im_deref ref h)))"
  shows "res = Inr () \<and> im_Buses h' c = None \<and> im_Clients h' c = None
    \<and> (\<forall>ref'. im_Rooms h' i = Some ref' \<longrightarrow> c \<notin> client_ID ` set (Clients (im_deref ref' h')))"
proof -
  obtain r' err where rc: "RemoveClient clk c (im_deref ref h) = (r', err)" by fastforce
  note gone = RemoveClient_gone [OF assms(5) rc]
  show ?thesis
    using assms(1-4) rc gone
    by (auto simp: im_RemoveClient_def im_RemoveBus_def im_LoadRoom_def im_RemoveRoom_def Let_def
        im_deref_def im_assign_def split: if_splits)
qed

end
