(* ===== verification/Use_Cases.thy ===== *)
theory Use_Cases
  imports Hub Room_Presence
begin

text \<open>
  The use cases of \<open>internal/application/planningpoker/usecase\<close>, over any hub, lock manager, bus and
  metric. Each \<open>Execute\<close> takes the fields of its command; logging is left out. The clock
  (\<open>clk\<close>), generated identifiers (\<open>uuid\<close>) and the sorting of participants (\<open>srt\<close>) are
  arguments, as in the operations of the room.
\<close>

section \<open>Changing a room\<close>

text \<open>Load, change, save, broadcast: the body most use cases share.\<close>

definition change_room ::
  "(client list \<Rightarrow> client list) \<Rightarrow> 'w hub \<Rightarrow> string \<Rightarrow>
   (room \<Rightarrow> (room \<times> go_error option) option) \<Rightarrow> (ref \<Rightarrow> ('w, unit) call) \<Rightarrow> ('w, unit) call" where
  "change_room srt h roomID op save =
     andThen (hLoadRoom h roomID) (\<lambda>room.
     andThen (on_room h room op) (\<lambda>_.
     andThen (save room) (\<lambda>_.
     broadcastState srt h room)))"

definition Vote_Execute ::
  "clock \<Rightarrow> (client list \<Rightarrow> client list) \<Rightarrow> 'w hub \<Rightarrow> ('w, unit) with_lock \<Rightarrow>
   string \<Rightarrow> string \<Rightarrow> string option \<Rightarrow> ('w, unit) call" where
  "Vote_Execute clk srt h lock roomID senderID v =
     lock roomID
       (let vote = (case v of None \<Rightarrow> None | Some x \<Rightarrow> VotePtr x)
        in change_room srt h roomID (\<lambda>r. Some (Vote clk senderID vote r)) (hSaveRoom h))"

definition AddStory_Execute ::
  "string \<Rightarrow> (client list \<Rightarrow> client list) \<Rightarrow> 'w hub \<Rightarrow> ('w, unit) with_lock \<Rightarrow>
   string \<Rightarrow> string \<Rightarrow> string \<Rightarrow> ('w, unit) call" where
  "AddStory_Execute uuid srt h lock roomID senderID name =
     lock roomID (change_room srt h roomID (\<lambda>r. Some (AddStory uuid senderID name r)) (hSaveRoom h))"

definition Reveal_Execute ::
  "clock \<Rightarrow> (client list \<Rightarrow> client list) \<Rightarrow> 'w hub \<Rightarrow> ('w, unit) with_lock \<Rightarrow>
   string \<Rightarrow> string \<Rightarrow> 64 word option \<Rightarrow> ('w, unit) call" where
  "Reveal_Execute clk srt h lock roomID senderID expected =
     lock roomID (change_room srt h roomID (\<lambda>r. Some (ToggleReveal clk senderID r))
       (\<lambda>room. hSaveRoomIfVersion h room expected))"

definition Reset_Execute ::
  "clock \<Rightarrow> (client list \<Rightarrow> client list) \<Rightarrow> 'w hub \<Rightarrow> ('w, unit) with_lock \<Rightarrow>
   string \<Rightarrow> string \<Rightarrow> 64 word option \<Rightarrow> ('w, unit) call" where
  "Reset_Execute clk srt h lock roomID senderID expected =
     lock roomID (change_room srt h roomID (\<lambda>r. Some (ResetVoting clk senderID r))
       (\<lambda>room. hSaveRoomIfVersion h room expected))"

definition VoteAgain_Execute ::
  "clock \<Rightarrow> (client list \<Rightarrow> client list) \<Rightarrow> 'w hub \<Rightarrow> ('w, unit) with_lock \<Rightarrow>
   string \<Rightarrow> string \<Rightarrow> 64 word option \<Rightarrow> ('w, unit) call" where
  "VoteAgain_Execute clk srt h lock roomID senderID expected =
     lock roomID (change_room srt h roomID (\<lambda>r. Some (ResetVoting clk senderID r))
       (\<lambda>room. hSaveRoomIfVersion h room expected))"

definition ToggleBacklogMode_Execute ::
  "string \<Rightarrow> (client list \<Rightarrow> client list) \<Rightarrow> 'w hub \<Rightarrow> ('w, unit) with_lock \<Rightarrow>
   string \<Rightarrow> string \<Rightarrow> 64 word option \<Rightarrow> ('w, unit) call" where
  "ToggleBacklogMode_Execute uuid srt h lock roomID senderID expected =
     lock roomID (change_room srt h roomID (ToggleBacklogMode uuid senderID)
       (\<lambda>room. hSaveRoomIfVersion h room expected))"

definition RemoveStory_Execute ::
  "clock \<Rightarrow> (client list \<Rightarrow> client list) \<Rightarrow> 'w hub \<Rightarrow> ('w, unit) with_lock \<Rightarrow>
   string \<Rightarrow> string \<Rightarrow> string \<Rightarrow> 64 word option \<Rightarrow> ('w, unit) call" where
  "RemoveStory_Execute clk srt h lock roomID senderID storyID expected =
     lock roomID (change_room srt h roomID (\<lambda>r. Some (RemoveStory clk senderID storyID r))
       (\<lambda>room. hSaveRoomIfVersion h room expected))"

definition SelectStory_Execute ::
  "clock \<Rightarrow> (client list \<Rightarrow> client list) \<Rightarrow> 'w hub \<Rightarrow> ('w, unit) with_lock \<Rightarrow>
   string \<Rightarrow> string \<Rightarrow> string \<Rightarrow> 64 word option \<Rightarrow> ('w, unit) call" where
  "SelectStory_Execute clk srt h lock roomID senderID storyID expected =
     lock roomID (change_room srt h roomID (\<lambda>r. Some (SelectStory clk senderID storyID r))
       (\<lambda>room. hSaveRoomIfVersion h room expected))"

definition ReorderStory_Execute ::
  "(client list \<Rightarrow> client list) \<Rightarrow> 'w hub \<Rightarrow> ('w, unit) with_lock \<Rightarrow>
   string \<Rightarrow> string \<Rightarrow> string \<Rightarrow> int \<Rightarrow> 64 word option \<Rightarrow> ('w, unit) call" where
  "ReorderStory_Execute srt h lock roomID senderID storyID targetIndex expected =
     lock roomID (change_room srt h roomID
       (\<lambda>r. Some (ReorderStory senderID storyID targetIndex r))
       (\<lambda>room. hSaveRoomIfVersion h room expected))"

definition AdvanceStory_Execute ::
  "clock \<Rightarrow> (client list \<Rightarrow> client list) \<Rightarrow> 'w hub \<Rightarrow> ('w, unit) with_lock \<Rightarrow>
   string \<Rightarrow> string \<Rightarrow> 64 word option \<Rightarrow> ('w, unit) call" where
  "AdvanceStory_Execute clk srt h lock roomID senderID expected =
     lock roomID (change_room srt h roomID (\<lambda>r. Some (AdvanceToNextStory clk senderID r))
       (\<lambda>room. hSaveRoomIfVersion h room expected))"

definition PrevStory_Execute ::
  "clock \<Rightarrow> (client list \<Rightarrow> client list) \<Rightarrow> 'w hub \<Rightarrow> ('w, unit) with_lock \<Rightarrow>
   string \<Rightarrow> string \<Rightarrow> 64 word option \<Rightarrow> ('w, unit) call" where
  "PrevStory_Execute clk srt h lock roomID senderID expected =
     lock roomID (change_room srt h roomID (\<lambda>r. Some (PrevStory clk senderID r))
       (\<lambda>room. hSaveRoomIfVersion h room expected))"

definition UpdateStory_Execute ::
  "(client list \<Rightarrow> client list) \<Rightarrow> 'w hub \<Rightarrow> ('w, unit) with_lock \<Rightarrow>
   string \<Rightarrow> string \<Rightarrow> string \<Rightarrow> 64 word option \<Rightarrow> ('w, unit) call" where
  "UpdateStory_Execute srt h lock roomID senderID story expected =
     lock roomID (change_room srt h roomID (\<lambda>r. Some (SetCurrentStory senderID story r))
       (\<lambda>room. hSaveRoomIfVersion h room expected))"

definition ToggleOwner_Execute ::
  "(client list \<Rightarrow> client list) \<Rightarrow> 'w hub \<Rightarrow> ('w, unit) with_lock \<Rightarrow>
   string \<Rightarrow> string \<Rightarrow> string \<Rightarrow> 64 word option \<Rightarrow> ('w, unit) call" where
  "ToggleOwner_Execute srt h lock roomID senderID target expected =
     lock roomID (change_room srt h roomID (\<lambda>r. Some (ToggleOwner senderID target r))
       (\<lambda>room. hSaveRoomIfVersion h room expected))"

definition ToggleSpectator_Execute ::
  "clock \<Rightarrow> (client list \<Rightarrow> client list) \<Rightarrow> 'w hub \<Rightarrow> ('w, unit) with_lock \<Rightarrow>
   string \<Rightarrow> string \<Rightarrow> string \<Rightarrow> 64 word option \<Rightarrow> ('w, unit) call" where
  "ToggleSpectator_Execute clk srt h lock roomID senderID target expected =
     lock roomID (change_room srt h roomID (\<lambda>r. Some (ToggleSpectator clk senderID target r))
       (\<lambda>room. hSaveRoomIfVersion h room expected))"

text \<open>\<open>UpdateName\<close> is the one use case that changes a room without taking its lock.\<close>

definition UpdateName_Execute ::
  "(client list \<Rightarrow> client list) \<Rightarrow> 'w hub \<Rightarrow> string \<Rightarrow> string \<Rightarrow> string \<Rightarrow> ('w, unit) call" where
  "UpdateName_Execute srt h roomID senderID username =
     change_room srt h roomID (\<lambda>r. Some (UpdateClientName senderID username r)) (hSaveRoom h)"

text \<open>The admin route wraps the errors of loading and saving.\<close>

definition wrapping :: "string \<Rightarrow> ('w, 'a) call \<Rightarrow> ('w, 'a) call" where
  "wrapping f m = (\<lambda>w. case m w of (Inl e, w') \<Rightarrow>
     (Inl (if errors_is RuntimePanic e then e else Errorf f [] [e]), w') | (Inr x, w') \<Rightarrow> (Inr x, w'))"

definition AdminToggleOwner_Execute ::
  "(client list \<Rightarrow> client list) \<Rightarrow> 'w hub \<Rightarrow> ('w, unit) with_lock \<Rightarrow> string \<Rightarrow> string \<Rightarrow> ('w, unit) call" where
  "AdminToggleOwner_Execute srt h lock roomID target =
     lock roomID
       (andThen (wrapping ''load room: %w'' (hLoadRoom h roomID)) (\<lambda>room.
        andThen (on_room h room (\<lambda>r. Some (AdminToggleOwner target r))) (\<lambda>_.
        andThen (wrapping ''save room: %w'' (hSaveRoom h room)) (\<lambda>_.
        broadcastState srt h room))))"

section \<open>Creating rooms and clients\<close>

definition CreateClient_Execute :: "string \<Rightarrow> string" where
  "CreateClient_Execute uuid = uuid"

definition CreateRoom_Execute :: "'w hub \<Rightarrow> 'w metric \<Rightarrow> DeckType \<Rightarrow> ('w, string) call" where
  "CreateRoom_Execute h m deckType =
     (case DeckByType deckType of
        None \<Rightarrow> fail (Errorf ''unknown deck type %q'' [OStr deckType] [])
      | Some _ \<Rightarrow>
          andThen (hNewRoomWithDeck h deckType) (\<lambda>room.
            (\<lambda>w. (Inr (room_ID (hDeref h room w)), m IncrementActiveRoomsCounter w))))"

section \<open>Leaving and being removed\<close>

definition LeaveRoom_Execute ::
  "(client list \<Rightarrow> client list) \<Rightarrow> 'w hub \<Rightarrow> ('w, unit) with_lock \<Rightarrow> 'w metric \<Rightarrow>
   string \<Rightarrow> string \<Rightarrow> ('w, unit) call" where
  "LeaveRoom_Execute srt h lock m roomID senderID =
     lock roomID
       (andThen (hRemoveClient h senderID roomID) (\<lambda>_ w.
          let w1 = m DecrementActiveUsers w
          in case hLoadRoom h roomID w1 of
               (Inr room, w2) \<Rightarrow> broadcastState srt h room w2
             | (Inl e, w2) \<Rightarrow>
                 if errors_is RoomNotFound e then (Inr (), m DecrementActiveRoomsCounter w2)
                 else (Inl e, w2)))"

definition client_present :: "'w hub \<Rightarrow> ref \<Rightarrow> string \<Rightarrow> 'w \<Rightarrow> bool" where
  "client_present h room i w \<longleftrightarrow>
     cc_Count (cc_Filter (\<lambda>c. client_ID c = i) (Clients (hDeref h room w))) \<noteq> 0"

text \<open>Both remove the client through \<open>leaveRoom\<close> and then close its connection; kicking also tells
  it. Errors of the notice and of closing are logged only.\<close>

definition admin_remove ::
  "bool \<Rightarrow> 'w hub \<Rightarrow> 'w bus_ops \<Rightarrow> (string \<Rightarrow> string \<Rightarrow> ('w, unit) call) \<Rightarrow>
   string \<Rightarrow> string \<Rightarrow> ('w, unit) call" where
  "admin_remove kick h B leaveRoom roomID clientID =
     andThen (wrapping ''load room: %w'' (hLoadRoom h roomID)) (\<lambda>room w.
       if \<not> client_present h room clientID w
       then (Inl (Errorf ''client %s not found: %w'' [OStr clientID] [ErrClientNotFound]), w)
       else
         let b = hGetBus h clientID w
         in andThen (wrapping ''remove client: %w'' (leaveRoom roomID clientID)) (\<lambda>_ w1.
              case b of
                None \<Rightarrow> (Inr (), w1)
              | Some bs \<Rightarrow>
                  (let w2 = (if kick then snd (bSend B bs NewKickNotification w1) else w1);
                       w3 = bDetach B bs w2
                   in (Inr (), snd (bClose B bs w3)))) w)"

definition AdminRemoveClient_Execute ::
  "'w hub \<Rightarrow> 'w bus_ops \<Rightarrow> (string \<Rightarrow> string \<Rightarrow> ('w, unit) call) \<Rightarrow>
   string \<Rightarrow> string \<Rightarrow> ('w, unit) call" where
  "AdminRemoveClient_Execute h B leaveRoom roomID clientID =
     admin_remove False h B leaveRoom roomID clientID"

definition AdminKickClient_Execute ::
  "'w hub \<Rightarrow> 'w bus_ops \<Rightarrow> (string \<Rightarrow> string \<Rightarrow> ('w, unit) call) \<Rightarrow>
   string \<Rightarrow> string \<Rightarrow> ('w, unit) call" where
  "AdminKickClient_Execute h B leaveRoom roomID clientID =
     admin_remove True h B leaveRoom roomID clientID"

section \<open>Joining\<close>

definition loadOrCreateRoom :: "'w hub \<Rightarrow> string \<Rightarrow> ('w, ref \<times> bool) call" where
  "loadOrCreateRoom h roomID = (\<lambda>w.
     case hLoadRoom h roomID w of
       (Inr room, w1) \<Rightarrow> (Inr (room, False), w1)
     | (Inl e, w1) \<Rightarrow>
         if \<not> errors_is RoomNotFound e
         then (Inl (Errorf ''failed to load room %s: %w'' [OStr roomID] [e]), w1)
         else (case hNewRoomWithID h roomID w1 of
                 (Inl e2, w2) \<Rightarrow>
                   (Inl (Errorf ''failed to auto-create room %s: %w'' [OStr roomID] [e2]), w2)
               | (Inr room, w2) \<Rightarrow> (Inr (room, True), w2)))"

text \<open>\<open>reconnectClient\<close> and \<open>createNewClient\<close>; what is to be undone is one of the two removals
  below. The client of the output is identified by its ID in the room.\<close>

datatype rollback = RollbackReconnect | RollbackNewClient

definition run_rollback :: "'w hub \<Rightarrow> rollback \<Rightarrow> string \<Rightarrow> string \<Rightarrow> ('w, unit) call" where
  "run_rollback h rb roomID senderID =
     (case rb of
        RollbackReconnect \<Rightarrow> lift_update (hRemoveBus h senderID)
      | RollbackNewClient \<Rightarrow> hRemoveClient h senderID roomID)"

definition reconnectClient :: "'w hub \<Rightarrow> 'w bus_ops \<Rightarrow> string \<Rightarrow> bus \<Rightarrow> ('w, unit) call" where
  "reconnectClient h B senderID b = (\<lambda>w.
     let w1 = (case hGetBus h senderID w of
                 None \<Rightarrow> w
               | Some old \<Rightarrow> snd (bClose B old (bDetach B old w)))
     in case hAddBus h senderID b w1 of
          (Inl e, w2) \<Rightarrow> (Inl (Errorf ''failed to add bus for client %s: %w'' [OStr senderID] [e]), w2)
        | (Inr _, w2) \<Rightarrow> (Inr (), w2))"

definition createNewClient :: "'w hub \<Rightarrow> ref \<Rightarrow> string \<Rightarrow> bus \<Rightarrow> ('w, unit) call" where
  "createNewClient h room senderID b = (\<lambda>w.
     let w1 = hAddClient h room senderID w
     in case hAddBus h senderID b w1 of
          (Inl e, w2) \<Rightarrow> (Inl (Errorf ''failed to add bus for client %s: %w'' [OStr senderID] [e]), w2)
        | (Inr _, w2) \<Rightarrow> (Inr (), w2))"

definition joinClient ::
  "'w hub \<Rightarrow> 'w bus_ops \<Rightarrow> ref \<Rightarrow> string \<Rightarrow> bus \<Rightarrow> 'w \<Rightarrow>
   (go_error option \<times> bool \<times> rollback) \<times> 'w" where
  "joinClient h B room senderID b w =
     (case FindClient (hDeref h room w) senderID of
        Some _ \<Rightarrow>
          (case reconnectClient h B senderID b w of
             (Inl e, w1) \<Rightarrow> ((Some e, True, RollbackReconnect), w1)
           | (Inr _, w1) \<Rightarrow> ((None, True, RollbackReconnect), w1))
      | None \<Rightarrow>
          (let w0 = hAssign h room (snd (room_NewClient senderID (hDeref h room w))) w
           in case createNewClient h room senderID b w0 of
                (Inl e, w1) \<Rightarrow> ((Some e, False, RollbackNewClient), w1)
              | (Inr _, w1) \<Rightarrow> ((None, False, RollbackNewClient), w1)))"

definition notifyJoin ::
  "(client list \<Rightarrow> client list) \<Rightarrow> 'w hub \<Rightarrow> 'w bus_ops \<Rightarrow> ref \<Rightarrow> string \<Rightarrow> bus \<Rightarrow> ('w, unit) call" where
  "notifyJoin srt h B room senderID b =
     andThen (wrapping ''failed to send update client ID command: %w''
                (bSend B b (NewUpdateClientIDCommand senderID))) (\<lambda>_.
     wrapping ''failed to broadcast room state: %w'' (broadcastState srt h room))"

definition rollbackJoin :: "'w hub \<Rightarrow> rollback \<Rightarrow> string \<Rightarrow> string \<Rightarrow> go_error \<Rightarrow> 'w \<Rightarrow> go_error \<times> 'w" where
  "rollbackJoin h rb roomID senderID cause w =
     (case run_rollback h rb roomID senderID w of
        (Inl e, w1) \<Rightarrow> (Errorf ''%w: rollback join initialization: %w'' [] [cause, e], w1)
      | (Inr _, w1) \<Rightarrow> (cause, w1))"

definition recordJoinMetrics :: "'w metric \<Rightarrow> bool \<Rightarrow> bool \<Rightarrow> 'w \<Rightarrow> 'w" where
  "recordJoinMetrics m autoCreated isReconnect w =
     (let w1 = (if \<not> isReconnect
                then m IncrementActiveUsers (m IncrementUsersTotal w) else w)
      in if autoCreated then m IncrementActiveRoomsCounter w1 else w1)"

text \<open>The result is the room joined; the client is the one with the sender's ID.\<close>

definition JoinRoom_Execute ::
  "(client list \<Rightarrow> client list) \<Rightarrow> 'w hub \<Rightarrow> ('w, ref) with_lock \<Rightarrow> 'w metric \<Rightarrow> 'w bus_ops \<Rightarrow>
   string \<Rightarrow> string \<Rightarrow> bus \<Rightarrow> ('w, ref) call" where
  "JoinRoom_Execute srt h lock m B roomID senderID b =
     lock roomID
       (andThen (loadOrCreateRoom h roomID) (\<lambda>(room, autoCreated) w.
          case joinClient h B room senderID b w of
            ((Some e, isReconnect, rb), w1) \<Rightarrow>
              (case rollbackJoin h rb roomID senderID e w1 of (e', w2) \<Rightarrow> (Inl e', w2))
          | ((None, isReconnect, rb), w1) \<Rightarrow>
              (case notifyJoin srt h B room senderID b w1 of
                 (Inl e, w2) \<Rightarrow>
                   if errors_is RuntimePanic e then (Inl e, w2)
                   else (case rollbackJoin h rb roomID senderID e w2 of (e', w3) \<Rightarrow> (Inl e', w3))
               | (Inr _, w2) \<Rightarrow> (Inr room, recordJoinMetrics m autoCreated isReconnect w2))))"

section \<open>What every changing use case guarantees\<close>

text \<open>
  The contract of a save the use cases rely on: when it fails, or when the call before it failed,
  nothing is broadcast, whatever the hub.
\<close>

lemma change_room_cases:
  obtains (load) e w1 where "hLoadRoom h i w = (Inl e, w1)" "change_room srt h i op save w = (Inl e, w1)"
  | (operation) room w1 e w2 where "hLoadRoom h i w = (Inr room, w1)"
      "on_room h room op w1 = (Inl e, w2)" "change_room srt h i op save w = (Inl e, w2)"
  | (save) room w1 w2 e w3 where "hLoadRoom h i w = (Inr room, w1)"
      "on_room h room op w1 = (Inr (), w2)" "save room w2 = (Inl e, w3)"
      "change_room srt h i op save w = (Inl e, w3)"
  | (broadcast) room w1 w2 w3 where "hLoadRoom h i w = (Inr room, w1)"
      "on_room h room op w1 = (Inr (), w2)" "save room w2 = (Inr (), w3)"
      "change_room srt h i op save w = broadcastState srt h room w3"
proof (cases "hLoadRoom h i w")
  case (Pair r w1)
  show thesis
  proof (cases r)
    case (Inl e)
    with Pair show thesis by (intro load) (simp_all add: change_room_def andThen_def)
  next
    case (Inr room)
    obtain r2 w2 where 2: "on_room h room op w1 = (r2, w2)" by fastforce
    show thesis
    proof (cases r2)
      case (Inl e)
      with Pair Inr 2 show thesis by (intro operation) (simp_all add: change_room_def andThen_def)
    next
      case r2: (Inr u)
      obtain r3 w3 where 3: "save room w2 = (r3, w3)" by fastforce
      show thesis
        by (cases r3) (use Pair Inr 2 r2 3 save broadcast in \<open>simp_all add: change_room_def andThen_def\<close>)
    qed
  qed
qed

end
