(* ===== verification/Room_Store.thy ===== *)
theory Room_Store
  imports Redis_Hub InMemory_Hub Use_Cases
begin

text \<open>
  What a hub promises of rooms: a store of versioned rooms. The specification maps identifiers to
  rooms; a request loads a room, changes it and saves it, unconditionally or for an expected version.
  A locale states that a hub implements the specification step by step; it is interpreted on the
  Redis hub and on the in-memory hub, whose rooms live in quite different places: documents on the
  server here, shared pointers and saved copies there.

  Rooms are compared up to what no hub keeps: pending events, the time zone of times, and the
  difference between an empty and a missing list of cards.
\<close>

section \<open>The specification\<close>

type_synonym room_store = "string \<Rightarrow> room option"

type_synonym room_op = "room \<Rightarrow> (room \<times> go_error option) option"

datatype save_mode = SaveAlways | SaveIf "64 word option"

record request =
  rq_room :: string
  rq_op :: room_op
  rq_mode :: save_mode

definition next_version :: "room \<Rightarrow> room" where
  "next_version r = r\<lparr>RoomVersion := RoomVersion r + 1\<rparr>"

definition version_allowed :: "save_mode \<Rightarrow> room \<Rightarrow> bool" where
  "version_allowed m r = (case m of SaveAlways \<Rightarrow> True | SaveIf v \<Rightarrow> v = Some (RoomVersion r))"

definition spec_request :: "request \<Rightarrow> room_store \<Rightarrow> (go_error + unit) \<times> room_store" where
  "spec_request q s =
     (case s (rq_room q) of
        None \<Rightarrow> (Inl ErrRoomNotFound, s)
      | Some r \<Rightarrow>
          (case rq_op q r of
             None \<Rightarrow> (Inl indexOutOfRange, s)
           | Some (r', Some e) \<Rightarrow> (Inl e, s)
           | Some (r', None) \<Rightarrow>
               if version_allowed (rq_mode q) r'
               then (Inr (), s(rq_room q \<mapsto> copied_room (next_version r')))
               else (Inl ErrStaleRoomVersion, s)))"

fun spec_run :: "request list \<Rightarrow> room_store \<Rightarrow> (go_error + unit) list \<times> room_store" where
  "spec_run [] s = ([], s)"
| "spec_run (q # qs) s =
     (case spec_request q s of (res, s') \<Rightarrow> (case spec_run qs s' of (rs, s'') \<Rightarrow> (res # rs, s'')))"

section \<open>A request to a hub\<close>

text \<open>The part of \<open>change_room\<close> before the broadcast.\<close>

definition hub_save :: "'w hub \<Rightarrow> save_mode \<Rightarrow> ref \<Rightarrow> ('w, unit) call" where
  "hub_save h m = (case m of SaveAlways \<Rightarrow> hSaveRoom h | SaveIf v \<Rightarrow> (\<lambda>ref. hSaveRoomIfVersion h ref v))"

definition hub_request :: "'w hub \<Rightarrow> request \<Rightarrow> ('w, unit) call" where
  "hub_request h q =
     andThen (hLoadRoom h (rq_room q)) (\<lambda>room.
     andThen (on_room h room (rq_op q)) (\<lambda>_. hub_save h (rq_mode q) room))"

fun hub_run :: "'w hub \<Rightarrow> request list \<Rightarrow> 'w \<Rightarrow> (go_error + unit) list \<times> 'w" where
  "hub_run h [] w = ([], w)"
| "hub_run h (q # qs) w =
     (case hub_request h q w of (res, w') \<Rightarrow> (case hub_run h qs w' of (rs, w'') \<Rightarrow> (res # rs, w'')))"

lemma change_room_request:
  "change_room srt h i f (hub_save h m) = andThen (hLoadRoom h i) (\<lambda>room.
     andThen (\<lambda>w. andThen (on_room h room f) (\<lambda>_. hub_save h m room) w) (\<lambda>_. broadcastState srt h room))"
  by (simp add: change_room_def andThen_assoc [symmetric])

text \<open>What the specification needs of an operation: it does not look at what hubs do not keep, it
  keeps identifier and version, and it fails without an effect.\<close>

definition same_outcome :: "(room \<times> go_error option) option \<Rightarrow> (room \<times> go_error option) option \<Rightarrow> bool" where
  "same_outcome x y =
     (case (x, y) of
        (None, None) \<Rightarrow> True
      | (Some (r, e), Some (r', e')) \<Rightarrow> e = e' \<and> copied_room r = copied_room r'
      | _ \<Rightarrow> False)"

definition tame :: "room_op \<Rightarrow> bool" where
  "tame f \<longleftrightarrow>
     (\<forall>r q. copied_room r = copied_room q \<longrightarrow> same_outcome (f r) (f q)) \<and>
     (\<forall>r r' e. f r = Some (r', e) \<longrightarrow> room_ID r' = room_ID r \<and> RoomVersion r' = RoomVersion r \<and>
        (e \<noteq> None \<longrightarrow> copied_room r' = copied_room r))"

text \<open>The rooms a run stores fit a document, and no version reaches the end of its range.\<close>

definition store_fits :: "room_store \<Rightarrow> string \<Rightarrow> bool" where
  "store_fits s i =
     (case s i of None \<Rightarrow> True
      | Some r \<Rightarrow> room_storable r \<and> uint (RoomVersion r) < 2 ^ 64 - 1)"

fun run_fits :: "request list \<Rightarrow> room_store \<Rightarrow> bool" where
  "run_fits [] s = True"
| "run_fits (q # qs) s =
     (store_fits s (rq_room q) \<and> store_fits (snd (spec_request q s)) (rq_room q) \<and>
      run_fits qs (snd (spec_request q s)))"

section \<open>Refinement\<close>

locale implements_store =
  fixes H :: "'w hub"
    and rel :: "'w \<Rightarrow> room_store \<Rightarrow> bool"
  assumes simulates: "rel w s \<Longrightarrow> tame (rq_op q) \<Longrightarrow> store_fits s (rq_room q) \<Longrightarrow>
      store_fits (snd (spec_request q s)) (rq_room q) \<Longrightarrow> hub_request H q w = (res, w') \<Longrightarrow>
      res = fst (spec_request q s) \<and> rel w' (snd (spec_request q s))"
begin

lemma run_simulates:
  assumes "rel w s" "\<forall>q \<in> set qs. tame (rq_op q)" "run_fits qs s"
  shows "fst (hub_run H qs w) = fst (spec_run qs s) \<and> rel (snd (hub_run H qs w)) (snd (spec_run qs s))"
  using assms
proof (induction qs arbitrary: w s)
  case (Cons q qs)
  obtain res w1 where step: "hub_request H q w = (res, w1)" by fastforce
  obtain res' s1 where spec: "spec_request q s = (res', s1)" by fastforce
  have "res = res' \<and> rel w1 s1"
    using simulates [OF Cons.prems(1) _ _ _ step] Cons.prems spec by simp
  moreover have "fst (hub_run H qs w1) = fst (spec_run qs s1) \<and> rel (snd (hub_run H qs w1)) (snd (spec_run qs s1))"
    using calculation Cons.prems spec by (intro Cons.IH) auto
  ultimately show ?case by (auto simp: step spec split: prod.split)
qed simp

end

section \<open>Copies and documents\<close>

lemma copied_room_fields [simp]:
  "room_ID (copied_room r) = room_ID r" "RoomVersion (copied_room r) = RoomVersion r"
  by (simp_all add: copied_room_def)

lemma copied_room_version: "copied_room (r\<lparr>RoomVersion := v\<rparr>) = (copied_room r)\<lparr>RoomVersion := v\<rparr>"
  by (simp add: copied_room_def)

lemma copied_stored [simp]: "copied_room (stored_room r) = copied_room r"
  by (simp add: copied_room_def stored_room_def comp_def)

lemma copied_next: "copied_room r = copied_room q \<Longrightarrow> copied_room (next_version r) = copied_room (next_version q)"
proof -
  assume same: "copied_room r = copied_room q"
  then have "RoomVersion r = RoomVersion q" using copied_room_fields(2) by metis
  with same show ?thesis by (simp add: next_version_def copied_room_version)
qed

lemma storable_copied [simp]: "room_storable (copied_room r) = room_storable r"
  by (auto simp: room_storable_def copied_room_def ints_fit_def serialized_def clone_story_def)

lemma storable_version [simp]: "room_storable (r\<lparr>RoomVersion := v\<rparr>) = room_storable r"
  by (simp add: room_storable_def ints_fit_def serialized_def)

lemma storable_next [simp]: "room_storable (next_version r) = room_storable r"
  by (simp add: next_version_def)

lemma storable_same: "copied_room r = copied_room q \<Longrightarrow> room_storable r = room_storable q"
  by (metis storable_copied)

lemma tame_same:
  assumes "tame f" "copied_room r = copied_room q"
  shows "f q = None \<Longrightarrow> f r = None"
    "f q = Some (q', e) \<Longrightarrow> \<exists>r'. f r = Some (r', e) \<and> copied_room r' = copied_room q'"
proof -
  have same: "same_outcome (f r) (f q)" using assms by (auto simp: tame_def)
  show "f r = None" if "f q = None"
    using same that by (auto simp: same_outcome_def split: option.splits)
  show "\<exists>r'. f r = Some (r', e) \<and> copied_room r' = copied_room q'" if "f q = Some (q', e)"
    using same that by (cases "f r") (auto simp: same_outcome_def)
qed

lemma tame_keeps:
  assumes "tame f" "f r = Some (r', e)"
  shows "room_ID r' = room_ID r" "RoomVersion r' = RoomVersion r" "e \<noteq> None \<Longrightarrow> copied_room r' = copied_room r"
  using assms by (auto simp: tame_def)

section \<open>The in-memory hub\<close>

text \<open>The registered room and its saved copy are the room of the store.\<close>

definition mem_holds :: "'n im_hub \<Rightarrow> string \<Rightarrow> room \<Rightarrow> bool" where
  "mem_holds h i r \<longleftrightarrow> room_ID r = i \<and> copied_room r = r \<and>
     (\<exists>ref q. im_Rooms h i = Some ref \<and> ref < length (im_heap h) \<and> copied_room (im_deref ref h) = r
        \<and> im_saved h i = Some q \<and> copied_room q = r)"

definition mem_rel :: "'n im_hub \<Rightarrow> room_store \<Rightarrow> bool" where
  "mem_rel h s \<longleftrightarrow> (\<forall>i. case s i of None \<Rightarrow> im_Rooms h i = None | Some r \<Rightarrow> mem_holds h i r)"

lemma mem_relD: "mem_rel h s \<Longrightarrow> s i = None \<Longrightarrow> im_Rooms h i = None"
  "mem_rel h s \<Longrightarrow> s i = Some r \<Longrightarrow> mem_holds h i r"
  unfolding mem_rel_def by (metis option.simps(4), metis option.simps(5))

text \<open>Writing to the registered room of one identifier does not touch another's.\<close>

lemma mem_holds_assign:
  assumes "mem_holds h j r" "j \<noteq> i" "im_Rooms h i = Some ref" "room_ID (im_deref ref h) = i"
  shows "mem_holds (im_assign ref x h) j r"
proof -
  from assms(1) obtain ref' q where j: "im_Rooms h j = Some ref'" "ref' < length (im_heap h)"
    "copied_room (im_deref ref' h) = r" "im_saved h j = Some q" "copied_room q = r" "room_ID r = j" "copied_room r = r"
    by (auto simp: mem_holds_def)
  have "room_ID (im_deref ref' h) = j" using j(3,6) copied_room_fields(1) by metis
  with assms(2,4) have "ref' \<noteq> ref" by auto
  with j show ?thesis by (auto simp: mem_holds_def im_assign_def im_deref_def)
qed

lemma mem_rel_step:
  assumes rel: "mem_rel h s" and j: "\<And>j r. j \<noteq> i \<Longrightarrow> mem_holds h j r \<Longrightarrow> mem_holds h' j r"
    and none: "\<And>j. j \<noteq> i \<Longrightarrow> im_Rooms h' j = im_Rooms h j" and new: "mem_holds h' i r'"
  shows "mem_rel h' (s(i \<mapsto> r'))"
  unfolding mem_rel_def
proof
  fix j
  show "case (s(i \<mapsto> r')) j of None \<Rightarrow> im_Rooms h' j = None | Some r \<Rightarrow> mem_holds h' j r"
    using new j none mem_relD [OF rel, of j] by (cases "j = i"; cases "s j") auto
qed

lemma same_store: "s i = Some r \<Longrightarrow> s(i \<mapsto> r) = s"
  by (rule ext) simp

lemma mem_simulates:
  assumes rel: "mem_rel h s" and tame: "tame (rq_op q)"
    and run: "hub_request (im_hub_ops send clk uuid now) q h = (res, h')"
  shows "res = fst (spec_request q s) \<and> mem_rel h' (snd (spec_request q s))"
proof (cases "s (rq_room q)")
  case None
  with mem_relD [OF rel] run show ?thesis
    using rel by (simp add: hub_request_def im_hub_ops_def im_LoadRoom_def andThen_def spec_request_def)
next
  case (Some r)
  let ?i = "rq_room q" and ?H = "im_hub_ops send clk uuid now"
  from mem_relD(2) [OF rel Some] obtain ref u where r: "room_ID r = ?i" "copied_room r = r"
    "im_Rooms h ?i = Some ref" "ref < length (im_heap h)" "copied_room (im_deref ref h) = r"
    "im_saved h ?i = Some u" "copied_room u = r"
    by (auto simp: mem_holds_def)
  let ?r = "im_deref ref h"
  have id: "room_ID ?r = ?i" "RoomVersion ?r = RoomVersion r" "RoomVersion u = RoomVersion r"
    using r copied_room_fields by metis+
  have same: "copied_room ?r = copied_room r" using r by simp
  have load: "hub_request ?H q h = andThen (on_room ?H ref (rq_op q)) (\<lambda>_. hub_save ?H (rq_mode q) ref) h"
    using r by (simp add: hub_request_def im_hub_ops_def im_LoadRoom_def andThen_def)
  have others: "mem_holds (im_assign ref x h) j y" if "j \<noteq> ?i" "mem_holds h j y" for x j y
    using mem_holds_assign [OF that(2,1) r(3) id(1)] .
  have here: "mem_holds (im_assign ref x h) ?i r" if "copied_room x = r" for x
    using that r by (auto simp: mem_holds_def im_assign_def im_deref_def)
  show ?thesis
  proof (cases "rq_op q r")
    case None
    then have "rq_op q ?r = None" using tame_same(1) [OF tame same] by simp
    with load run rel None Some show ?thesis
      by (simp add: on_room_def andThen_def im_hub_ops_def spec_request_def)
  next
    case op: (Some p)
    then obtain r' e where p: "rq_op q r = Some (r', e)" by (cases p) auto
    from tame_same(2) [OF tame same p] obtain x where x: "rq_op q ?r = Some (x, e)" "copied_room x = copied_room r'"
      by blast
    note keeps = tame_keeps [OF tame x(1)]
    note keeps' = tame_keeps [OF tame p]
    show ?thesis
    proof (cases e)
      case (Some err)
      with x load run have "res = Inl err" "h' = im_assign ref x h"
        by (simp_all add: on_room_def andThen_def im_hub_ops_def)
      moreover have "mem_rel (im_assign ref x h) (s(?i \<mapsto> r))"
        using others here keeps(3) r(5) Some
        by (intro mem_rel_step [OF rel]) (auto simp: im_assign_def)
      ultimately show ?thesis
        using p Some \<open>s ?i = Some r\<close> by (simp add: spec_request_def same_store)
    next
      case None
      let ?h = "im_assign ref x h"
      have run': "hub_save ?H (rq_mode q) ref ?h = (res, h')"
        using x None load run by (simp add: on_room_def andThen_def im_hub_ops_def)
      have h: "im_deref ref ?h = x" "im_Rooms ?h = im_Rooms h" "im_saved ?h = im_saved h" "room_ID x = ?i"
        "RoomVersion x = RoomVersion r" "RoomVersion r' = RoomVersion r" "length (im_heap ?h) = length (im_heap h)"
        using r id keeps keeps' by (auto simp: im_assign_def im_deref_def)
      let ?new = "copied_room (next_version r')"
      have new: "copied_room (next_version x) = ?new" "room_ID ?new = ?i"
        using copied_next [OF x(2)] keeps'(1) r(1) by (simp_all add: next_version_def)
      have nx: "next_version x = x\<lparr>RoomVersion := RoomVersion r + 1\<rparr>" using h by (simp add: next_version_def)
      show ?thesis
      proof (cases "version_allowed (rq_mode q) r'")
        case True
        have "res = Inr () \<and> im_Rooms h' = im_Rooms h \<and> im_heap h' = (im_heap h)[ref := next_version x]
            \<and> im_saved h' = (im_saved h)(?i \<mapsto> copied_room (next_version x))"
          using run' h r(3,6) id True
          by (cases "rq_mode q") (auto simp: hub_save_def im_hub_ops_def im_SaveRoom_def im_SaveRoomIfVersion_def
              Let_def version_allowed_def RoomVersion_Next_def RoomVersion_Uint64_def cloneRoom_eq
              copied_room_version [symmetric] nx im_assign_def fun_upd_idem)
        then have h': "res = Inr ()" "im_Rooms h' = im_Rooms h" "im_heap h' = (im_heap h)[ref := next_version x]"
          "im_saved h' = (im_saved h)(?i \<mapsto> copied_room (next_version x))" by blast+
        have "mem_holds h' ?i ?new"
          using h' r new by (auto simp: mem_holds_def im_deref_def copied_room_idem)
        moreover have "mem_holds h' j y" if "j \<noteq> ?i" "mem_holds h j y" for j y
          using others [OF that, of "next_version x"] h' that(1)
          by (auto simp: mem_holds_def im_assign_def im_deref_def)
        ultimately have "mem_rel h' (s(?i \<mapsto> ?new))" using h'(2) by (intro mem_rel_step [OF rel]) auto
        with h' p None True \<open>s ?i = Some r\<close> show ?thesis by (simp add: spec_request_def)
      next
        case False
        then obtain v where v: "rq_mode q = SaveIf v" "v \<noteq> Some (RoomVersion r)"
          using h by (auto simp: version_allowed_def split: save_mode.splits)
        have "res = Inl ErrStaleRoomVersion \<and> im_saved h' = im_saved h
            \<and> im_heap h' = im_heap ?h @ [copied_room u]
            \<and> im_Rooms h' = (im_Rooms h)(?i \<mapsto> length (im_heap h))"
          using run' h r(3,6) id v
          by (cases v) (auto simp: hub_save_def im_hub_ops_def im_SaveRoomIfVersion_def Let_def
              RoomVersion_Uint64_def cloneRoom_eq)
        then have h': "res = Inl ErrStaleRoomVersion" "im_saved h' = im_saved h"
          "im_heap h' = im_heap ?h @ [copied_room u]" "im_Rooms h' = (im_Rooms h)(?i \<mapsto> length (im_heap h))"
          by blast+
        have "mem_holds h' ?i r"
          using h' h r by (auto simp: mem_holds_def im_deref_def nth_append)
        moreover have "mem_holds h' j y" if "j \<noteq> ?i" "mem_holds h j y" for j y
          using others [OF that, of x] h' that(1)
          by (auto simp: mem_holds_def im_deref_def nth_append im_assign_def)
        ultimately have "mem_rel h' (s(?i \<mapsto> r))" using h'(4) by (intro mem_rel_step [OF rel]) auto
        with h' p None False \<open>s ?i = Some r\<close> show ?thesis by (simp add: spec_request_def same_store)
      qed
    qed
  qed
qed

interpretation mem_store: implements_store "im_hub_ops send clk uuid now" mem_rel
  for send clk uuid now
  by unfold_locales (use mem_simulates in blast)+

section \<open>The Redis hub\<close>

text \<open>The server answers, and the document of a room is the room of the store. The handles given out
  before do not matter: every request loads its own.\<close>

definition redis_holds :: "kv \<Rightarrow> string \<Rightarrow> room \<Rightarrow> bool" where
  "redis_holds kv i r \<longleftrightarrow> room_ID r = i \<and> copied_room r = r \<and>
     (\<exists>q. kv (roomKeyPrefix @ i) = Some (RDoc (SerializeRoom q)) \<and> copied_room q = r)"

definition redis_rel :: "server redis_hub \<Rightarrow> room_store \<Rightarrow> bool" where
  "redis_rel h s \<longleftrightarrow> sv_faults (rh_redis h) = [] \<and>
     (\<forall>i. case s i of None \<Rightarrow> sv_kv (rh_redis h) (roomKeyPrefix @ i) = None
        | Some r \<Rightarrow> redis_holds (sv_kv (rh_redis h)) i r)"

lemma redis_relD: "redis_rel h s \<Longrightarrow> sv_faults (rh_redis h) = []"
  "redis_rel h s \<Longrightarrow> s i = None \<Longrightarrow> sv_kv (rh_redis h) (roomKeyPrefix @ i) = None"
  "redis_rel h s \<Longrightarrow> s i = Some r \<Longrightarrow> redis_holds (sv_kv (rh_redis h)) i r"
  unfolding redis_rel_def by (blast, metis option.simps(4), metis option.simps(5))

lemma redis_rel_same:
  "redis_rel h s \<Longrightarrow> sv_kv (rh_redis h') = sv_kv (rh_redis h) \<Longrightarrow> sv_faults (rh_redis h') = [] \<Longrightarrow> redis_rel h' s"
  by (simp add: redis_rel_def cong: option.case_cong)

lemma redis_rel_put:
  assumes rel: "redis_rel h s" and kv: "sv_kv (rh_redis h') = (sv_kv (rh_redis h))(roomKeyPrefix @ i \<mapsto> RDoc (SerializeRoom q))"
    and "sv_faults (rh_redis h') = []" "room_ID q = i"
  shows "redis_rel h' (s(i \<mapsto> copied_room q))"
  unfolding redis_rel_def
proof (intro conjI allI)
  fix j
  show "case (s(i \<mapsto> copied_room q)) j of None \<Rightarrow> sv_kv (rh_redis h') (roomKeyPrefix @ j) = None
      | Some r \<Rightarrow> redis_holds (sv_kv (rh_redis h')) j r"
    using assms redis_relD(2,3) [OF rel, of j]
    by (cases "j = i"; cases "s j") (auto simp: redis_holds_def copied_room_idem)
qed (use assms in simp)

text \<open>The substitution on one member.\<close>

definition gsub_member :: "int \<Rightarrow> string \<times> json \<Rightarrow> string \<times> json" where
  "gsub_member n = (\<lambda>(k, v).
     case v of JInt i \<Rightarrow> if k = ''roomVersion'' \<and> 0 \<le> i then (k, JInt n) else (k, v) | _ \<Rightarrow> (k, v))"

lemma gsub_other: "k \<noteq> ''roomVersion'' \<Longrightarrow> gsub_member n (k, v) = (k, v)"
  by (auto simp: gsub_member_def split: json.splits)

lemma gsub_others:
  "\<forall>p \<in> set kvs. fst p \<noteq> ''roomVersion'' \<Longrightarrow> map (gsub_member n) kvs = kvs"
  by (induction kvs) (auto simp: gsub_other)

lemma gsub_stored:
  assumes "uint (RoomVersion r) + 1 < 2 ^ 64"
  shows "gsub_roomVersion (uint (RoomVersion r) + 1) (SerializeRoom r) = SerializeRoom (next_version r)"
proof -
  have v: "uint (RoomVersion r + 1) = uint (RoomVersion r) + 1"
    using assms by (simp add: uint_word_ariths)
  obtain kvs where kvs: "marshal_room (serialized (r\<lparr>RoomVersion := v\<rparr>)) =
      JObj (kvs @ [(''roomVersion'', JInt (uint v))])" and others: "\<forall>p \<in> set kvs. fst p \<noteq> ''roomVersion''" for v
  proof
    let ?s = "serialized r"
    let ?kvs = "[(''id'', JStr (sr_ID ?s))] @ enc_opt ''startedAt'' JTime (sr_StartedAt ?s) @
      [(''clients'', JArr (map marshal_client (sr_Clients ?s)))] @
      enc_nonempty ''deckType'' (sr_DeckType ?s) @
      [(''currentStory'', JStr (sr_CurrentStory ?s)), (''reveal'', JBool (sr_Reveal ?s))] @
      enc_opt ''result'' JFloat (sr_Result ?s) @
      [(''mostAppearingVotes'', enc_strings (sr_MostAppearingVotes ?s))] @
      enc_nonempty ''consensus'' (sr_Consensus ?s) @
      enc_opt ''lowestVote'' JStr (sr_LowestVote ?s) @ enc_opt ''highestVote'' JStr (sr_HighestVote ?s) @
      enc_opt ''voteRange'' JInt (sr_VoteRange ?s) @ enc_opt ''voteSpread'' JInt (sr_VoteSpread ?s) @
      enc_nonzero ''specialVoteCount'' (sr_SpecialVoteCount ?s) @
      [(''backlogMode'', JBool (sr_BacklogMode ?s))] @
      (if sr_Stories ?s = [] then [] else [(''stories'', JArr (map marshal_story (sr_Stories ?s)))]) @
      [(''currentStoryIndex'', JInt (sr_CurrentStoryIndex ?s))]"
    show "marshal_room (serialized (r\<lparr>RoomVersion := v\<rparr>)) = JObj (?kvs @ [(''roomVersion'', JInt (uint v))])" for v
      by (simp add: marshal_room_def serialized_def RoomVersion_Uint64_def room_StartedAt_def)
    show "\<forall>p \<in> set ?kvs. fst p \<noteq> ''roomVersion''"
      by (auto simp: enc_opt_def enc_nonempty_def enc_nonzero_def split: option.splits if_splits)
  qed
  have "gsub_roomVersion n (JObj xs) = JObj (map (gsub_member n) xs)" for n xs
    by (simp add: gsub_roomVersion_def gsub_member_def)
  moreover have "gsub_member n (''roomVersion'', JInt (uint c)) = (''roomVersion'', JInt n)" for n and c :: "64 word"
    by (simp add: gsub_member_def)
  ultimately show ?thesis
    using kvs [of "RoomVersion r"] kvs [of "RoomVersion r + 1"] gsub_others [OF others] v
    by (simp add: SerializeRoom_def next_version_def)
qed

lemma sv_load:
  assumes "sv_faults (rh_redis h) = []"
  shows "rh_LoadRoom sv_client i h = (case sv_kv (rh_redis h) (roomKeyPrefix @ i) of
      None \<Rightarrow> (Inl ErrRoomNotFound, h)
    | Some (RDoc j) \<Rightarrow> (case DeserializeRoom j (cc_New []) of
          Inr r \<Rightarrow> rh_alloc r h
        | Inl e \<Rightarrow> rh_LoadRoom sv_client i h)
    | Some _ \<Rightarrow> rh_LoadRoom sv_client i h)"
  using assms
  by (auto simp: rh_LoadRoom_def rh_loadRoom_def on_redis_def sv_client_def unless_fault_def redisNil_def
      rh_alloc_def split: option.splits rvalue.splits sum.splits)

lemma sv_save:
  assumes "sv_faults (rh_redis h) = []" "sv_kv (rh_redis h) (roomKeyPrefix @ room_ID r) = Some (RDoc (SerializeRoom q))"
    and "rh_deref ref h = r" "RoomVersion q = RoomVersion r" "uint (RoomVersion r) + 1 < 2 ^ 64"
    and "version_allowed m r"
  shows "\<exists>h'. hub_save (redis_hub_ops sv_client clk uuid now) m ref h = (Inr (), h') \<and> sv_faults (rh_redis h') = []
    \<and> sv_kv (rh_redis h') = (sv_kv (rh_redis h))(roomKeyPrefix @ room_ID r \<mapsto> RDoc (SerializeRoom (next_version r)))"
  using assms
  by (cases m)
    (auto simp: hub_save_def redis_hub_ops_def rh_SaveRoom_def rh_saveRoom_def rh_SaveRoomIfVersion_def
      saveRoomConditionally_def on_redis_def sv_client_def unless_fault_def saveRoomScript_def
      compareAndSaveRoomScript_def Let_def rh_assign_def version_allowed_def gsub_stored next_version_def [symmetric])

lemma sv_save_stale:
  assumes "sv_faults (rh_redis h) = []" "sv_kv (rh_redis h) (roomKeyPrefix @ room_ID r) = Some (RDoc (SerializeRoom q))"
    and "rh_deref ref h = r" "RoomVersion q = RoomVersion r" "\<not> version_allowed m r"
  shows "\<exists>h'. hub_save (redis_hub_ops sv_client clk uuid now) m ref h = (Inl ErrStaleRoomVersion, h')
    \<and> sv_faults (rh_redis h') = [] \<and> sv_kv (rh_redis h') = sv_kv (rh_redis h)"
proof -
  obtain v where "m = SaveIf v" "v \<noteq> Some (RoomVersion r)"
    using assms(5) by (auto simp: version_allowed_def split: save_mode.splits)
  moreover have "uint (RoomVersion r) \<noteq> uint a" if "v = Some a" for a
    using that \<open>v \<noteq> Some (RoomVersion r)\<close> unsigned_word_eqI [of "RoomVersion r" a] by auto
  ultimately show ?thesis using assms
    by (cases v) (auto simp: hub_save_def redis_hub_ops_def rh_SaveRoomIfVersion_def
      saveRoomConditionally_def on_redis_def sv_client_def unless_fault_def
      compareAndSaveRoomScript_def Let_def)
qed

lemma redis_simulates:
  assumes rel: "redis_rel h s" and tame: "tame (rq_op q)" and fits: "store_fits s (rq_room q)"
    and run: "hub_request (redis_hub_ops sv_client clk uuid now) q h = (res, h')"
  shows "res = fst (spec_request q s) \<and> redis_rel h' (snd (spec_request q s))"
proof (cases "s (rq_room q)")
  case None
  with redis_relD(1,2) [OF rel] run sv_load [of h "rq_room q"] show ?thesis
    using rel by (simp add: hub_request_def redis_hub_ops_def andThen_def spec_request_def)
next
  case (Some r)
  let ?i = "rq_room q" and ?H = "redis_hub_ops sv_client clk uuid now"
  from redis_relD(3) [OF rel Some] obtain d where r: "room_ID r = ?i" "copied_room r = r"
    "sv_kv (rh_redis h) (roomKeyPrefix @ ?i) = Some (RDoc (SerializeRoom d))" "copied_room d = r"
    by (auto simp: redis_holds_def)
  let ?r = "stored_room d" and ?ref = "length (rh_heap h)"
  define h1 where "h1 = h\<lparr>rh_heap := rh_heap h @ [?r]\<rparr>"
  have same: "copied_room ?r = copied_room r" using r by simp
  have "room_storable d" using fits Some storable_same [of d r] r by (simp add: store_fits_def)
  then have load: "rh_LoadRoom sv_client ?i h = (Inr ?ref, h1)"
    using sv_load [OF redis_relD(1) [OF rel], of ?i] r(3) Deserialize_Serialize
    by (simp add: rh_alloc_def h1_def)
  have h1: "rh_deref ?ref h1 = ?r" "rh_redis h1 = rh_redis h" by (simp_all add: h1_def rh_deref_def)
  have id: "RoomVersion ?r = RoomVersion r" "room_ID ?r = ?i" "RoomVersion d = RoomVersion r"
    using r same copied_room_fields by metis+
  have start: "hub_request ?H q h = andThen (on_room ?H ?ref (rq_op q)) (\<lambda>_. hub_save ?H (rq_mode q) ?ref) h1"
    using load by (simp add: hub_request_def redis_hub_ops_def andThen_def)
  have ops: "hDeref ?H = rh_deref" "hAssign ?H = rh_assign" by (simp_all add: redis_hub_ops_def)
  note no_faults = redis_relD(1) [OF rel]
  show ?thesis
  proof (cases "rq_op q r")
    case None
    then have "rq_op q ?r = None" using tame_same(1) [OF tame same] by simp
    with start run None Some have "res = Inl indexOutOfRange" "h' = h1"
      by (simp_all add: on_room_def andThen_def ops h1)
    with None Some no_faults show ?thesis by (simp add: spec_request_def redis_rel_same [OF rel] h1)
  next
    case op: (Some p)
    then obtain r' e where p: "rq_op q r = Some (r', e)" by (cases p) auto
    from tame_same(2) [OF tame same p] obtain x where x: "rq_op q ?r = Some (x, e)" "copied_room x = copied_room r'"
      by blast
    note keeps = tame_keeps [OF tame x(1)]
    note keeps' = tame_keeps [OF tame p]
    let ?h = "rh_assign ?ref x h1"
    have h: "rh_deref ?ref ?h = x" "rh_redis ?h = rh_redis h"
      by (simp_all add: h1_def rh_assign_def rh_deref_def)
    show ?thesis
    proof (cases e)
      case (Some err)
      with x start run have "res = Inl err" "h' = ?h" by (simp_all add: on_room_def andThen_def ops h1)
      with p Some \<open>s ?i = Some r\<close> no_faults show ?thesis
        by (simp add: spec_request_def redis_rel_same [OF rel] h)
    next
      case None
      have run': "hub_save ?H (rq_mode q) ?ref ?h = (res, h')"
        using x None start run by (simp add: on_room_def andThen_def ops h1)
      have x': "room_ID x = ?i" "RoomVersion x = RoomVersion r" "RoomVersion r' = RoomVersion r"
        using keeps keeps' id by auto
      have doc: "sv_kv (rh_redis ?h) (roomKeyPrefix @ room_ID x) = Some (RDoc (SerializeRoom d))"
        "RoomVersion d = RoomVersion x" using h r(3) x' id by simp_all
      have allowed: "version_allowed (rq_mode q) r' = version_allowed (rq_mode q) x"
        using x' by (simp add: version_allowed_def split: save_mode.split)
      have bound: "uint (RoomVersion x) + 1 < 2 ^ 64" using fits Some x' by (simp add: store_fits_def)
      show ?thesis
      proof (cases "version_allowed (rq_mode q) r'")
        case True
        note law = sv_save [OF _ doc(1) h(1) doc(2) bound, of "rq_mode q" clk uuid now]
        from law True allowed no_faults run' h(2) have "res = Inr ()" "sv_faults (rh_redis h') = []"
          "sv_kv (rh_redis h') = (sv_kv (rh_redis h))(roomKeyPrefix @ ?i \<mapsto> RDoc (SerializeRoom (next_version x)))"
          by (auto simp: x')
        moreover from redis_rel_put [OF rel this(3,2)] x' have "redis_rel h' (s(?i \<mapsto> copied_room (next_version x)))"
          by (simp add: next_version_def)
        ultimately show ?thesis
          using p None True \<open>s ?i = Some r\<close> copied_next [OF x(2)] by (simp add: spec_request_def)
      next
        case False
        note law = sv_save_stale [OF _ doc(1) h(1) doc(2), of "rq_mode q" clk uuid now]
        from law False allowed no_faults run' h(2) have "res = Inl ErrStaleRoomVersion" "sv_faults (rh_redis h') = []" "sv_kv (rh_redis h') = sv_kv (rh_redis h)"
          by fastforce+
        with p None False \<open>s ?i = Some r\<close> show ?thesis
          by (simp add: spec_request_def redis_rel_same [OF rel])
      qed
    qed
  qed
qed

interpretation redis_store: implements_store "redis_hub_ops sv_client clk uuid now" redis_rel
  for clk uuid now
  by unfold_locales (use redis_simulates in blast)+

section \<open>Operations\<close>

lemma tameI:
  assumes "\<And>r. same_outcome (Some (f (copied_room r))) (Some (f r))"
    and "\<And>r. room_ID (fst (f r)) = room_ID r \<and> RoomVersion (fst (f r)) = RoomVersion r"
    and "\<And>r. snd (f r) \<noteq> None \<Longrightarrow> copied_room (fst (f r)) = copied_room r"
  shows "tame (\<lambda>r. Some (f r))"
proof -
  have "same_outcome (Some (f r)) (Some (f q))" if "copied_room r = copied_room q" for r q
    using assms(1) [of r] assms(1) [of q] that by (auto simp: same_outcome_def split: prod.splits)
  then show ?thesis using assms(2,3) unfolding tame_def by (metis fst_conv option.inject snd_conv)
qed

text \<open>A client and its copy.\<close>

definition copied_client :: "client \<Rightarrow> client" where
  "copied_client c = c\<lparr>VotedAt := OptionalUTCTimePtr (VotedAt c)\<rparr>"

lemma copied_client_fields [simp]:
  "client_ID (copied_client c) = client_ID c" "IsOwner (copied_client c) = IsOwner c"
  by (simp_all add: copied_client_def)

lemma Clients_copied: "Clients (copied_room r) = map copied_client (Clients r)"
  by (simp add: copied_room_def copied_client_def)

lemma find_map_same: "(\<And>x. p (g x) = p x) \<Longrightarrow> find p (map g xs) = map_option g (find p xs)"
  by (induction xs) auto

lemma FindClient_copied: "FindClient (copied_room r) i = map_option copied_client (FindClient r i)"
  by (simp add: FindClient_find Clients_copied find_map_same)

lemma copied_clients:
  "copied_room (r\<lparr>Clients := cs\<rparr>) = (copied_room r)\<lparr>Clients := map copied_client cs\<rparr>"
  by (simp add: copied_room_def copied_client_def)

lemma copied_client_idem [simp]: "copied_client (copied_client c) = copied_client c"
  by (simp add: copied_client_def)

lemma map_update_first_through:
  "(\<And>x. g (f x) = f' (g x)) \<Longrightarrow> (\<And>x. p (g x) = p x) \<Longrightarrow>
   map g (update_first p f xs) = update_first p f' (map g xs)"
  by (induction xs) auto

text \<open>Changing one client in a way that does not look at its time of voting.\<close>

lemma copied_upd_client:
  assumes "\<And>c. copied_client (f c) = f (copied_client c)"
  shows "copied_room (upd_client i f r) = upd_client i f (copied_room r)"
    "copied_room (upd_client i f (copied_room r)) = upd_client i f (copied_room r)"
proof -
  have "map copied_client (update_first (\<lambda>c. client_ID c = i) f cs) =
      update_first (\<lambda>c. client_ID c = i) f (map copied_client cs)" for cs
    using assms by (intro map_update_first_through) auto
  then show 1: "copied_room (upd_client i f q) = upd_client i f (copied_room q)" for q
    by (simp add: upd_client_def copied_clients Clients_copied)
  show "copied_room (upd_client i f (copied_room r)) = upd_client i f (copied_room r)"
    using 1 [of "copied_room r"] by (simp add: copied_room_idem)
qed

lemma flipOwner_copied: "copied_client (flipOwner c) = flipOwner (copied_client c)"
  by (simp add: flipOwner_def copied_client_def)

lemma rename_copied: "copied_client (client_UpdateName n c) = client_UpdateName n (copied_client c)"
  by (simp add: client_UpdateName_def copied_client_def)

lemmas copied_flip = copied_upd_client [where f = flipOwner, OF flipOwner_copied]
lemmas copied_rename = copied_upd_client [where f = "client_UpdateName n" for n, OF rename_copied]

lemma lastOwner_copied [simp]: "lastOwner i (copied_room r) = lastOwner i r"
  by (auto simp: lastOwner_iff Clients_copied filter_map comp_def map_eq_Cons_conv)

lemma upd_client_identity [simp]:
  "room_ID (upd_client i f r) = room_ID r" "RoomVersion (upd_client i f r) = RoomVersion r"
  by (simp_all add: upd_client_def)

text \<open>Renaming a client and toggling owners are operations the specification applies to.\<close>

lemma tame_UpdateClientName: "tame (\<lambda>r. Some (UpdateClientName i name r))"
  by (rule tameI)
    (auto simp: UpdateClientName_def FindClient_copied same_outcome_def clientNotFound_def
      copied_rename copied_room_idem split: option.splits)

lemma tame_AdminToggleOwner: "tame (\<lambda>r. Some (AdminToggleOwner i r))"
  by (rule tameI)
    (auto simp: AdminToggleOwner_def FindClient_copied same_outcome_def
      copied_flip copied_room_idem split: option.splits)

lemma tame_ToggleOwner: "tame (\<lambda>r. Some (ToggleOwner i t r))"
  by (rule tameI)
    (auto simp: ToggleOwner_def ToggleOwner_body_def FindClient_copied same_outcome_def clientNotFound_def
      targetNotFound_def forbidden_def copied_flip copied_room_idem split: option.splits)

lemmas tame_intros = tame_UpdateClientName tame_AdminToggleOwner tame_ToggleOwner

end
