(* ===== verification/Hub_Properties.thy ===== *)
theory Hub_Properties
  imports Room_Machine Redis_Hub InMemory_Hub Use_Cases Room_Store
begin

text \<open>
  What the hubs, the wire messages and the use cases over them guarantee: the state message of a
  room, the stored document, saving under optimistic concurrency control in Redis and in memory,
  subscriptions, and publishing only what has been saved.
\<close>

section \<open>The state message and the stored document\<close>

text \<open>the state message of a room lists every client exactly once, in order of name, with the
  room's version and round; building it reorders the room's clients and changes nothing else.\<close>

theorem state_message_lists_participants:
  assumes srt: "sorts_by_name srt" and msg: "NewRoomStateCommand srt r = Some (RoomStateMessage st, r')"
  shows "mset (rs_Participants st) = image_mset participant (mset (Clients r))
    \<and> sorted (map pt_Name (rs_Participants st))
    \<and> rs_RoomVersion st = RoomVersion r \<and> rs_Reveal st = Reveal r \<and> rs_Result st = Result r
    \<and> Some (rs_CurrentStory st) = EffectiveCurrentStory r
    \<and> r' = r\<lparr>Clients := Clients r'\<rparr> \<and> mset (Clients r') = mset (Clients r)"
proof -
  have st: "rs_Participants st = map participant (srt (Clients r))" "rs_RoomVersion st = RoomVersion r"
    "rs_Reveal st = Reveal r" "rs_Result st = Result r" "Some (rs_CurrentStory st) = EffectiveCurrentStory r"
    "r' = r\<lparr>Clients := srt (Clients r)\<rparr>"
    using msg by (auto simp: NewRoomStateCommand_def MapToParticipants_def cc_Values_def
        RoomVersion_Uint64_def Let_def split: option.splits)
  have "map pt_Name (map participant cs) = map client_Name cs" for cs
    by (simp add: participant_def)
  then show ?thesis
    using sorts_by_nameD [OF srt, of "Clients r"] by (simp add: st del: map_map)
qed

theorem state_message_lists_participants_witness:
  "\<exists>st r'. NewRoomStateCommand (sort_key client_Name) sample_room = Some (RoomStateMessage st, r')
    \<and> mset (rs_Participants st) = image_mset participant (mset (Clients sample_room))
    \<and> rs_Participants st \<noteq> []"
proof -
  have "case NewRoomStateCommand (sort_key client_Name) sample_room of
      Some (RoomStateMessage st, r') \<Rightarrow> rs_Participants st \<noteq> [] | _ \<Rightarrow> False" by code_simp
  then obtain st r' where st: "NewRoomStateCommand (sort_key client_Name) sample_room =
      Some (RoomStateMessage st, r')" "rs_Participants st \<noteq> []"
    by (auto split: option.splits server_message.splits)
  with state_message_lists_participants [OF sorts_by_name_sort_key st(1)] show ?thesis by blast
qed



section \<open>Saving in Redis\<close>

text \<open>C12: a conditional save is a compare-and-swap. It succeeds only if the stored document has
  the expected version, and then the room is stored, and known, under the next one; refused as stale,
  also for a missing version, it leaves the store as it was; and while the server answers, it
  succeeds whenever the versions agree.\<close>

theorem conditional_save_is_compare_and_swap:
  assumes redis: "redis_contract R view" and save: "rh_SaveRoomIfVersion R ref v h = (res, h')"
  shows "let key = roomKeyPrefix @ room_ID (rh_deref ref h) in
    (case res of
       Inr _ \<Rightarrow> (\<exists>n d. v = Some n \<and> view (rh_redis h) key = Some d
          \<and> lua_roomVersion d = Inr (Some (uint n))
          \<and> view (rh_redis h') = (view (rh_redis h))(key \<mapsto>
              RDoc (SerializeRoom ((rh_deref ref h)\<lparr>RoomVersion := n + 1\<rparr>)))
          \<and> rh_heap h' = (rh_heap h)[ref := (rh_deref ref h)\<lparr>RoomVersion := n + 1\<rparr>])
     | Inl e \<Rightarrow> (e = ErrStaleRoomVersion \<longrightarrow> view (rh_redis h') = view (rh_redis h))
          \<and> ((\<forall>f. \<not> isl (fst (rEval R f (rh_redis h)))) \<longrightarrow>
              \<not> (\<exists>n d. v = Some n \<and> view (rh_redis h) key = Some d
                 \<and> lua_roomVersion d = Inr (Some (uint n)))))"
proof (cases v)
  case None
  with save have "res = Inl ErrStaleRoomVersion" "h' = h"
    by (simp_all add: rh_SaveRoomIfVersion_def saveRoomConditionally_def)
  with None show ?thesis by simp
next
  case (Some n)
  with save have saved: "saveRoomConditionally R ref (Some n) h = (res, h')"
    by (simp add: rh_SaveRoomIfVersion_def)
  note law = redis_contract.conditional_save [OF redis saved, unfolded redis_contract.stored_def [OF redis]]
  note succeeds = redis_contract.conditional_save_succeeds
    [OF redis saved, unfolded redis_contract.stored_def [OF redis]]
  show ?thesis
  proof (cases res)
    case (Inl e)
    then show ?thesis using law succeeds Some by (auto simp: Let_def)
  next
    case (Inr u)
    then have "h' = rh_assign ref ((rh_deref ref h)\<lparr>RoomVersion := n + 1\<rparr>)
        (h\<lparr>rh_redis := rh_redis h'\<rparr>)"
      using law by simp
    from arg_cong [OF this, of rh_heap] show ?thesis
      using law Inr Some by (auto simp: Let_def rh_assign_def)
  qed
qed

text \<open>A hub that has created one room.\<close>

definition one_room_hub :: "server redis_hub" where
  "one_room_hub = snd (rh_NewRoomWithID sv_client (Time 7 ''UTC'') ''room'' (NewRedisHub new_server))"

theorem conditional_save_is_compare_and_swap_witness:
  "\<exists>h'. rh_SaveRoomIfVersion sv_client 0 (Some 0) one_room_hub = (Inr (), h')
    \<and> rh_heap h' = (rh_heap one_room_hub)[0 := (rh_deref 0 one_room_hub)\<lparr>RoomVersion := 1\<rparr>]"
proof -
  have "isl (fst (rh_SaveRoomIfVersion sv_client 0 (Some 0) one_room_hub)) = False" by code_simp
  then obtain h' where h': "rh_SaveRoomIfVersion sv_client 0 (Some 0) one_room_hub = (Inr (), h')"
    by (cases "rh_SaveRoomIfVersion sv_client 0 (Some 0) one_room_hub";
        cases "fst (rh_SaveRoomIfVersion sv_client 0 (Some 0) one_room_hub)") auto
  from conditional_save_is_compare_and_swap [OF sv.redis_contract_axioms this] h'
  show ?thesis by (auto simp: Let_def)
qed



text \<open>an unconditional save that reports success has stored the room under the version after
  the stored one (the first is 1), whatever version the caller's copy had, and the caller's room
  has that version.\<close>

theorem unconditional_save_advances_version:
  assumes redis: "redis_contract R view" and save: "rh_SaveRoom R ref h = (Inr (), h')"
  shows "let key = roomKeyPrefix @ room_ID (rh_deref ref h);
             n = (case view (rh_redis h) key of None \<Rightarrow> 0
                  | Some d \<Rightarrow> (case lua_roomVersion d of Inr (Some k) \<Rightarrow> k | _ \<Rightarrow> 0))
    in (\<exists>d. view (rh_redis h') key = Some d \<and> lua_roomVersion d = Inr (Some (n + 1)))
       \<and> (\<forall>k. k \<noteq> key \<longrightarrow> view (rh_redis h') k = view (rh_redis h) k)
       \<and> rh_heap h' = (rh_heap h)[ref := (rh_deref ref h)\<lparr>RoomVersion := word_of_int (n + 1)\<rparr>]"
proof -
  from redis_contract.unconditional_save [OF redis save [unfolded rh_SaveRoom_def]]
  obtain n where n: "case view (rh_redis h) (roomKeyPrefix @ room_ID (rh_deref ref h)) of None \<Rightarrow> n = 0
      | Some d \<Rightarrow> lua_roomVersion d = Inr (Some n)"
    "view (rh_redis h') = (view (rh_redis h))(roomKeyPrefix @ room_ID (rh_deref ref h) \<mapsto>
        RDoc (gsub_roomVersion (n + 1) (SerializeRoom (rh_deref ref h))))"
    "rh_heap h' = (rh_heap h)[ref := (rh_deref ref h)\<lparr>RoomVersion := word_of_int (n + 1)\<rparr>]"
    by (auto simp: redis_contract.stored_def [OF redis])
  from n(1) have "(case view (rh_redis h) (roomKeyPrefix @ room_ID (rh_deref ref h)) of None \<Rightarrow> 0
      | Some d \<Rightarrow> (case lua_roomVersion d of Inr (Some k) \<Rightarrow> k | _ \<Rightarrow> 0)) = n"
    by (auto split: option.splits)
  with n(2,3) show ?thesis by (simp add: Let_def)
qed

theorem unconditional_save_advances_version_witness:
  "\<exists>h'. rh_SaveRoom sv_client 0 one_room_hub = (Inr (), h')
    \<and> rh_heap h' = (rh_heap one_room_hub)[0 := (rh_deref 0 one_room_hub)\<lparr>RoomVersion := 1\<rparr>]"
proof -
  have "isl (fst (rh_SaveRoom sv_client 0 one_room_hub)) = False" by code_simp
  then obtain h' where h': "rh_SaveRoom sv_client 0 one_room_hub = (Inr (), h')"
    by (cases "rh_SaveRoom sv_client 0 one_room_hub"; cases "fst (rh_SaveRoom sv_client 0 one_room_hub)") auto
  have "(case sv_kv (rh_redis one_room_hub) (roomKeyPrefix @ room_ID (rh_deref 0 one_room_hub)) of None \<Rightarrow> 0
      | Some d \<Rightarrow> (case lua_roomVersion d of Inr (Some k) \<Rightarrow> k | _ \<Rightarrow> 0)) = (0 :: int)" by code_simp
  with unconditional_save_advances_version [OF sv.redis_contract_axioms h'] h' show ?thesis
    by (simp add: Let_def)
qed

section \<open>Saving in memory\<close>

text \<open>in memory a conditional save by the room the hub holds succeeds exactly for the version
  last saved, and saves the room under the next one. For any other version, and for none, it is
  stale, what was saved stays, and whoever loads the room from then on gets the room as last saved
  instead of the changed one.\<close>

theorem memory_conditional_save:
  assumes held: "im_Rooms h i = Some ref" "ref < length (im_heap h)" "room_ID (im_deref ref h) = i"
    and saved: "im_saved h i = Some s"
  shows "(if v = Some (RoomVersion s)
    then \<exists>h'. im_SaveRoomIfVersion ref v h = (Inr (), h')
      \<and> im_deref ref h' = (im_deref ref h)\<lparr>RoomVersion := RoomVersion s + 1\<rparr>
      \<and> im_saved h' i = Some (copied_room ((im_deref ref h)\<lparr>RoomVersion := RoomVersion s + 1\<rparr>))
      \<and> im_LoadRoom i h' = (Inr ref, h')
    else \<exists>h' ref'. im_SaveRoomIfVersion ref v h = (Inl ErrStaleRoomVersion, h')
      \<and> im_saved h' = im_saved h
      \<and> im_LoadRoom i h' = (Inr ref', h') \<and> im_deref ref' h' = copied_room s)"
proof (cases "v = Some (RoomVersion s)")
  case True
  have "copied_room (r\<lparr>RoomVersion := n\<rparr>) = (copied_room r)\<lparr>RoomVersion := n\<rparr>" for r n
    by (simp add: copied_room_def)
  with True held saved show ?thesis
    by (simp add: im_SaveRoomIfVersion_def Let_def im_deref_def im_assign_def im_LoadRoom_def
        RoomVersion_Uint64_def cloneRoom_eq)
next
  case False
  then have "v = None \<or> RoomVersion s \<noteq> the v" by auto
  with False held saved show ?thesis
    by (simp add: im_SaveRoomIfVersion_def Let_def im_deref_def im_LoadRoom_def
        RoomVersion_Uint64_def cloneRoom_eq)
qed

definition memory_room :: "unit im_hub" where
  "memory_room = snd (im_NewRoomWithID (Time 7 ''UTC'') ''room'' (NewHub ()))"

theorem memory_conditional_save_witness:
  "\<exists>h' ref' s. im_saved memory_room ''room'' = Some s
    \<and> im_SaveRoomIfVersion 0 (Some 3) memory_room = (Inl ErrStaleRoomVersion, h')
    \<and> im_LoadRoom ''room'' h' = (Inr ref', h') \<and> im_deref ref' h' = copied_room s"
proof -
  have "im_Rooms memory_room ''room'' = Some 0" "0 < length (im_heap memory_room)"
    "room_ID (im_deref 0 memory_room) = ''room''" by code_simp+
  moreover have "map_option RoomVersion (im_saved memory_room ''room'') = Some 0" by code_simp
  then obtain s where s: "im_saved memory_room ''room'' = Some s" "RoomVersion s = 0" by auto
  ultimately show ?thesis
    using memory_conditional_save [of memory_room "''room''" 0 s "Some 3"] s by auto
qed

section \<open>Use cases\<close>

text \<open>The hub above after a client has joined its room.\<close>

definition joined_hub :: "server redis_hub" where
  "joined_hub = rh_AddClient sv_client 0 ''ann''
     (rh_assign 0 (snd (room_NewClient ''ann'' (rh_deref 0 one_room_hub))) one_room_hub)"


text \<open>a request that is refused as stale changes nothing that is stored: whatever the use case
  did to its copy of the room is lost, and the rooms in Redis are as before.\<close>

theorem stale_request_keeps_store:
  assumes redis: "redis_contract R view"
    and stale: "change_room srt (redis_hub_ops R clk uuid now) i op
      (\<lambda>room. hSaveRoomIfVersion (redis_hub_ops R clk uuid now) room expected) h
      = (Inl ErrStaleRoomVersion, h')"
  shows "view (rh_redis h') = view (rh_redis h)"
proof -
  let ?H = "redis_hub_ops R clk uuid now"
  note stored = redis_contract.stored_def [OF redis]
  have loaded: "view (rh_redis w1) = view (rh_redis h)" if "hLoadRoom ?H i h = (res, w1)" for res w1
    using redis_contract.load_keeps_store [OF redis, of i h res w1] that
    by (simp add: redis_hub_ops_def stored)
  have op: "rh_redis w2 = rh_redis w1" if "on_room ?H room op w1 = (res, w2)" for room w1 w2 res
    using that by (auto simp: on_room_def redis_hub_ops_def rh_assign_def split: option.splits)
  show ?thesis
  proof (cases rule: change_room_cases [of ?H i h srt op "\<lambda>room. hSaveRoomIfVersion ?H room expected"])
    case (load e w1)
    with stale have "hLoadRoom ?H i h = (Inl e, h')" by simp
    then show ?thesis by (rule loaded)
  next
    case (operation room w1 e w2)
    with stale have "rh_redis h' = rh_redis w1" using op by simp
    with loaded [OF operation(1)] show ?thesis by simp
  next
    case (save room w1 w2 e w3)
    with stale have "rh_SaveRoomIfVersion R room expected w2 = (Inl ErrStaleRoomVersion, h')"
      by (simp add: redis_hub_ops_def)
    from redis_contract.stale_save_keeps_store [OF redis this] show ?thesis
      using loaded [OF save(1)] op [OF save(2)] by (simp add: stored)
  next
    case (broadcast room w1 w2 w3)
    have "fst (broadcastState srt ?H room w3) \<noteq> Inl ErrStaleRoomVersion"
      by (auto simp: broadcastState_def redis_hub_ops_def rh_BroadcastToRoom_def Errorf_def
          ErrStaleRoomVersion_def indexOutOfRange_def split: option.splits prod.splits)
    with stale broadcast show ?thesis by simp
  qed
qed

theorem stale_request_keeps_store_witness:
  "\<exists>h'. change_room (sort_key client_Name) (redis_hub_ops sv_client sample_clock ''u'' (Time 7 ''UTC'')) ''room''
      (\<lambda>r. Some (ToggleReveal sample_clock ''ann'' r))
      (\<lambda>room. hSaveRoomIfVersion (redis_hub_ops sv_client sample_clock ''u'' (Time 7 ''UTC'')) room (Some 9))
      joined_hub = (Inl ErrStaleRoomVersion, h')
    \<and> sv_kv (rh_redis h') = sv_kv (rh_redis joined_hub)"
proof -
  let ?H = "redis_hub_ops sv_client sample_clock ''u'' (Time 7 ''UTC'')"
  let ?m = "change_room (sort_key client_Name) ?H ''room'' (\<lambda>r. Some (ToggleReveal sample_clock ''ann'' r))
      (\<lambda>room. hSaveRoomIfVersion ?H room (Some 9)) joined_hub"
  have "fst ?m = Inl ErrStaleRoomVersion" by code_simp
  then obtain h' where "?m = (Inl ErrStaleRoomVersion, h')" by (cases ?m) auto
  with stale_request_keeps_store [OF sv.redis_contract_axioms this] show ?thesis by blast
qed

section \<open>Connections\<close>

text \<open>in the Redis hub, registering a client's connection and removing it again leaves the
  count of its room as it was; the room's subscription stays open exactly as long as the count says
  that another connection is there.\<close>

theorem bus_removed_as_added:
  assumes "bus_RoomID b \<noteq> ''''" "0 \<le> rh_roomClientCounts h (bus_RoomID b)"
    and added: "rh_AddBus R c b h = (Inr (), h1)"
  shows "let h2 = rh_RemoveBus R c h1 in
    rh_GetBus c h1 = Some b \<and> rh_roomSubs h1 (bus_RoomID b)
    \<and> rh_buses h2 = (rh_buses h)(c := None) \<and> rh_roomClientCounts h2 = rh_roomClientCounts h
    \<and> rh_roomSubs h2 (bus_RoomID b) = (0 < rh_roomClientCounts h (bus_RoomID b))"
proof -
  have h1: "rh_buses h1 = (rh_buses h)(c := Some b)" "rh_roomSubs h1 (bus_RoomID b)"
    "rh_roomClientCounts h1 = (rh_roomClientCounts h)
      (bus_RoomID b := rh_roomClientCounts h (bus_RoomID b) + 1)"
    using added assms(1) by (auto simp: rh_AddBus_def Let_def on_redis_def
        split: if_splits prod.splits option.splits)
  then show ?thesis
    using assms(1,2) by (auto simp: rh_RemoveBus_def rh_GetBus_def Let_def on_redis_def fun_eq_iff
        split: prod.splits)
qed

theorem bus_removed_as_added_witness:
  "\<exists>h1. rh_AddBus sv_client ''ann'' (Bus 0 ''room'') one_room_hub = (Inr (), h1)
    \<and> rh_roomSubs h1 ''room'' \<and> \<not> rh_roomSubs (rh_RemoveBus sv_client ''ann'' h1) ''room''"
proof -
  have "fst (rh_AddBus sv_client ''ann'' (Bus 0 ''room'') one_room_hub) = Inr ()"
    "rh_roomClientCounts one_room_hub ''room'' = 0" by code_simp+
  then obtain h1 where "rh_AddBus sv_client ''ann'' (Bus 0 ''room'') one_room_hub = (Inr (), h1)"
    "rh_roomClientCounts one_room_hub ''room'' = 0"
    by (cases "rh_AddBus sv_client ''ann'' (Bus 0 ''room'') one_room_hub") auto
  with bus_removed_as_added [of "Bus 0 ''room''" one_room_hub sv_client "''ann''" h1] show ?thesis
    by (auto simp: Let_def)
qed

text \<open>a reconnection registers the new connection without removing the old one, and the room
  counts both: when the client then leaves, the count stays one too high, and the subscription of
  the room stays open even if nobody else was connected.\<close>

theorem reconnect_keeps_subscription_open:
  assumes "bus_RoomID b1 = i" "bus_RoomID b2 = i" "i \<noteq> ''''" "0 \<le> rh_roomClientCounts h i"
    and "rh_AddBus R c b1 h = (Inr (), h1)" "rh_AddBus R c b2 h1 = (Inr (), h2)"
  shows "let h3 = rh_RemoveBus R c h2 in
    rh_buses h3 = (rh_buses h)(c := None)
    \<and> rh_roomClientCounts h3 i = rh_roomClientCounts h i + 1 \<and> rh_roomSubs h3 i"
proof -
  have h1: "rh_buses h1 = (rh_buses h)(c := Some b1)" "rh_roomSubs h1 i"
    "rh_roomClientCounts h1 = (rh_roomClientCounts h)(i := rh_roomClientCounts h i + 1)"
    using assms(1,3,5) by (auto simp: rh_AddBus_def Let_def on_redis_def
        split: if_splits prod.splits option.splits)
  then have "rh_buses h2 = (rh_buses h)(c := Some b2)" "rh_roomSubs h2 i"
    "rh_roomClientCounts h2 = (rh_roomClientCounts h)(i := rh_roomClientCounts h i + 2)"
    using assms(2,3,6) by (auto simp: rh_AddBus_def Let_def on_redis_def
        split: if_splits prod.splits option.splits)
  then show ?thesis
    using assms(2-4) by (auto simp: rh_RemoveBus_def Let_def on_redis_def fun_eq_iff
        split: prod.splits)
qed

theorem reconnect_keeps_subscription_open_witness:
  "\<exists>h2. rh_AddBus sv_client ''ann'' (Bus 1 ''room'')
      (snd (rh_AddBus sv_client ''ann'' (Bus 0 ''room'') one_room_hub)) = (Inr (), h2)
    \<and> rh_roomSubs (rh_RemoveBus sv_client ''ann'' h2) ''room''"
proof -
  have "fst (rh_AddBus sv_client ''ann'' (Bus 0 ''room'') one_room_hub) = Inr ()"
    "fst (rh_AddBus sv_client ''ann'' (Bus 1 ''room'')
      (snd (rh_AddBus sv_client ''ann'' (Bus 0 ''room'') one_room_hub))) = Inr ()"
    "rh_roomClientCounts one_room_hub ''room'' = 0" by code_simp+
  then obtain h1 h2 where h: "rh_AddBus sv_client ''ann'' (Bus 0 ''room'') one_room_hub = (Inr (), h1)"
    "rh_AddBus sv_client ''ann'' (Bus 1 ''room'') h1 = (Inr (), h2)"
    by (metis prod.collapse snd_conv)
  with reconnect_keeps_subscription_open [of "Bus 0 ''room''" "''room''" "Bus 1 ''room''" one_room_hub,
      OF _ _ _ _ h] \<open>rh_roomClientCounts one_room_hub ''room'' = 0\<close> show ?thesis
    by (auto simp: Let_def)
qed

text \<open>What a socket does to the hub it is used by: nothing.\<close>

definition net_only :: "(bus \<Rightarrow> server_message \<Rightarrow> ('n im_hub, unit) call) \<Rightarrow> bool" where
  "net_only send \<longleftrightarrow> (\<forall>b m h. \<exists>n. snd (send b m h) = h\<lparr>im_net := n\<rparr>)"

lemma net_onlyD: "net_only send \<Longrightarrow> send b m h = (res, h') \<Longrightarrow> \<exists>n. h' = h\<lparr>im_net := n\<rparr>"
  unfolding net_only_def by (metis snd_conv)

lemma im_broadcast_net_only:
  assumes "net_only send"
  shows "\<exists>n. snd (im_broadcast_loop send msg cs h) = h\<lparr>im_net := n\<rparr>"
proof (induction cs arbitrary: h)
  case Nil
  have "h = h\<lparr>im_net := im_net h\<rparr>" by simp
  then show ?case by (metis im_broadcast_loop.simps(1) snd_conv)
next
  case (Cons c cs)
  show ?case
  proof (cases "im_GetBus (client_ID c) h")
    case None
    then show ?thesis using Cons by simp
  next
    case (Some b)
    obtain res h' where s: "send b msg h = (res, h')" by fastforce
    with net_onlyD [OF assms] obtain n where "h' = h\<lparr>im_net := n\<rparr>" by blast
    with Some s Cons [of h'] show ?thesis by (cases res) auto
  qed
qed

text \<open>The room is registered under its ID, and no two of its clients have the same.\<close>

definition room_there :: "string \<Rightarrow> 'n im_hub \<Rightarrow> bool" where
  "room_there i h \<longleftrightarrow> (\<exists>ref. im_Rooms h i = Some ref \<and> ref < length (im_heap h)
     \<and> room_ID (im_deref ref h) = i \<and> distinct (map client_ID (Clients (im_deref ref h))))"

lemma room_thereI:
  "im_Rooms h i = Some ref \<Longrightarrow> ref < length (im_heap h) \<Longrightarrow> room_ID (im_deref ref h) = i \<Longrightarrow>
   distinct (map client_ID (Clients (im_deref ref h))) \<Longrightarrow> room_there i h"
  by (auto simp: room_there_def)

lemma broadcast_room_there:
  assumes "net_only send" "sorts_by_name srt" "room_there i h" "im_Rooms h i = Some ref"
    and "broadcastState srt (im_hub_ops send clk uuid now) ref h = (res, h')"
  shows "room_there i h'"
proof (cases "NewRoomStateCommand srt (im_deref ref h)")
  case None
  with assms(3,5) show ?thesis by (simp add: broadcastState_def im_hub_ops_def)
next
  case (Some p)
  then obtain msg r' where msg: "NewRoomStateCommand srt (im_deref ref h) = Some (msg, r')" by (cases p) auto
  then have r': "r' = (im_deref ref h)\<lparr>Clients := srt (Clients (im_deref ref h))\<rparr>"
    by (auto simp: NewRoomStateCommand_def MapToParticipants_def cc_Values_def Let_def split: option.splits)
  have there: "ref < length (im_heap h)" "room_ID (im_deref ref h) = i"
    "distinct (map client_ID (Clients (im_deref ref h)))"
    using assms(3,4) by (auto simp: room_there_def)
  have "distinct (map client_ID (Clients r'))"
    using there(3) sorts_by_nameD(1) [OF assms(2), of "Clients (im_deref ref h)"]
    by (metis distinct_mset_eq mset_map r' room.select_convs(3) room.surjective room.update_convs(3))
  then have room: "room_there i (im_assign ref r' h)"
    using there assms(4) by (intro room_thereI [of _ _ ref]) (simp_all add: im_assign_def im_deref_def r')
  have "snd (im_BroadcastToRoom send (room_ID r') msg (im_assign ref r' h)) = h'"
    using assms(5) msg by (simp add: broadcastState_def im_hub_ops_def)
  moreover have "\<exists>n. snd (im_BroadcastToRoom send (room_ID r') msg q) = q\<lparr>im_net := n\<rparr>" for q
    using im_broadcast_net_only [OF assms(1)]
    by (auto simp: im_BroadcastToRoom_def im_LoadRoom_def split: option.splits intro: exI [of _ "im_net q"])
  ultimately obtain n where "h' = (im_assign ref r' h)\<lparr>im_net := n\<rparr>" by metis
  with room show ?thesis by (simp add: room_there_def im_deref_def)
qed

lemma joinClient_new_room_there:
  assumes "room_there i h" "im_Rooms h i = Some ref" "c \<notin> client_ID ` set (Clients (im_deref ref h))"
    and "joinClient (im_hub_ops send clk uuid now) B ref c b h = ((err, rec, rb), h')"
  shows "err = None \<and> rb = RollbackNewClient \<and> room_there i h' \<and> im_Rooms h' i = Some ref"
proof -
  let ?r = "im_deref ref h"
  let ?h0 = "im_assign ref (snd (room_NewClient c ?r)) h"
  have there: "ref < length (im_heap h)" "room_ID ?r = i" "distinct (map client_ID (Clients ?r))"
    using assms(1,2) by (auto simp: room_there_def)
  have "FindClient ?r c = None" using assms(3) by (simp add: FindClient_None)
  then have *: "err = None" "rb = RollbackNewClient"
    "h' = snd (im_AddBus c b (im_AddClient ref c ?h0))"
    using assms(4) by (auto simp: joinClient_def im_hub_ops_def createNewClient_def im_AddBus_def Let_def)
  have "room_ID (snd (room_NewClient c ?r)) = i"
    using there(2) by (subst room_NewClient_frame) simp
  then have "room_there i h'" "im_Rooms h' i = Some ref"
    using there assms(2,3)
    by (auto simp: *(3) im_AddBus_def im_AddClient_def im_assign_def im_deref_def room_there_def
        room_NewClient_Clients)
  with * show ?thesis by simp
qed

lemma notify_room_there:
  assumes "net_only send" "net_only (bSend B)" "sorts_by_name srt" "room_there i h" "im_Rooms h i = Some ref"
    and "notifyJoin srt (im_hub_ops send clk uuid now) B ref c b h = (res, h')"
  shows "room_there i h'"
proof -
  obtain r1 h1 where send: "bSend B b (NewUpdateClientIDCommand c) h = (r1, h1)" by fastforce
  with net_onlyD [OF assms(2)] obtain n where h1: "h1 = h\<lparr>im_net := n\<rparr>" by blast
  then have there: "room_there i h1" "im_Rooms h1 i = Some ref"
    using assms(4,5) by (simp_all add: room_there_def im_deref_def)
  obtain r2 h2 where bc: "broadcastState srt (im_hub_ops send clk uuid now) ref h1 = (r2, h2)" by fastforce
  from broadcast_room_there [OF assms(1,3) there bc] have "room_there i h2" .
  with there assms(6) send bc show ?thesis
    by (cases r1; cases r2) (auto simp: notifyJoin_def andThen_def wrapping_def)
qed

lemma load_or_create_there:
  assumes "room_there i h \<or> im_Rooms h i = None"
    and "\<forall>ref. im_Rooms h i = Some ref \<longrightarrow> c \<notin> client_ID ` set (Clients (im_deref ref h))"
  shows "\<exists>ref auto h0. loadOrCreateRoom (im_hub_ops send clk uuid now) i h = (Inr (ref, auto), h0)
    \<and> room_there i h0 \<and> im_Rooms h0 i = Some ref \<and> c \<notin> client_ID ` set (Clients (im_deref ref h0))"
proof (cases "im_Rooms h i")
  case None
  then show ?thesis
    by (auto simp: loadOrCreateRoom_def im_hub_ops_def im_LoadRoom_def im_NewRoomWithID_def
        im_register_def Let_def NewRoomWithID_def NewRoomWithIDAndStartedAt_def cc_New_def
        room_there_def im_deref_def nth_append)
next
  case (Some ref)
  with assms show ?thesis by (auto simp: loadOrCreateRoom_def im_hub_ops_def im_LoadRoom_def)
qed

text \<open>C27: in memory, joining a room that fails, because the newcomer's connection or another one
  cannot be written to, leaves no trace of the newcomer: it is neither in the room nor registered
  with the hub, and neither is its connection.\<close>

theorem failed_join_leaves_no_trace:
  assumes sockets: "net_only send" "net_only (bSend B)" and srt: "sorts_by_name srt"
    and room: "room_there i h \<or> im_Rooms h i = None"
    and new: "\<forall>ref. im_Rooms h i = Some ref \<longrightarrow> c \<notin> client_ID ` set (Clients (im_deref ref h))"
    and failed: "JoinRoom_Execute srt (im_hub_ops send clk uuid now) (\<lambda>_ f. f) m B i c b h = (Inl e, h')"
    and no_panic: "\<not> errors_is RuntimePanic e"
  shows "im_GetBus c h' = None \<and> im_Clients h' c = None
    \<and> (\<forall>ref. im_Rooms h' i = Some ref \<longrightarrow> c \<notin> client_ID ` set (Clients (im_deref ref h')))"
proof -
  let ?H = "im_hub_ops send clk uuid now"
  obtain ref auto h0 where load: "loadOrCreateRoom ?H i h = (Inr (ref, auto), h0)"
    "room_there i h0" "im_Rooms h0 i = Some ref" "c \<notin> client_ID ` set (Clients (im_deref ref h0))"
    using load_or_create_there [OF room new] by metis
  obtain err rec rb h1 where join: "joinClient ?H B ref c b h0 = ((err, rec, rb), h1)"
    by (metis prod.collapse)
  note joined = joinClient_new_room_there [OF load(2-4) join]
  obtain res h2 where notify: "notifyJoin srt ?H B ref c b h1 = (res, h2)" by fastforce
  have "room_there i h2" using notify_room_there [OF sockets srt _ _ notify] joined by blast
  then obtain ref2 where there: "im_Rooms h2 i = Some ref2" "ref2 < length (im_heap h2)"
    "room_ID (im_deref ref2 h2) = i" "distinct (map client_ID (Clients (im_deref ref2 h2)))"
    by (auto simp: room_there_def)
  obtain rr h3 where rc: "im_RemoveClient clk c i h2 = (rr, h3)" by fastforce
  note gone = im_RemoveClient_gone [OF rc there]
  have "h' = h3"
    using failed no_panic load(1) join joined notify rc gone
    by (auto simp: JoinRoom_Execute_def andThen_def rollbackJoin_def run_rollback_def im_hub_ops_def
        split: sum.splits if_splits)
  with gone show ?thesis by (simp add: im_GetBus_def)
qed

text \<open>A socket that is broken, and the hub above with a first client in the room.\<close>

definition broken_send :: "bus \<Rightarrow> server_message \<Rightarrow> (unit im_hub, unit) call" where
  "broken_send b m h = (Inl (New ''broken pipe''), h)"

definition broken_bus :: "(unit im_hub) bus_ops" where
  "broken_bus = \<lparr>bSend = broken_send, bDetach = (\<lambda>_ w. w), bClose = (\<lambda>_ w. (Inr (), w))\<rparr>"

definition memory_room_of_ann :: "unit im_hub" where
  "memory_room_of_ann =
     im_AddClient 0 ''ann'' (im_assign 0 (snd (room_NewClient ''ann'' (im_deref 0 memory_room))) memory_room)"

theorem failed_join_leaves_no_trace_witness:
  "\<exists>e h'. JoinRoom_Execute (sort_key client_Name) (im_hub_ops broken_send sample_clock ''u'' (Time 7 ''UTC''))
      (\<lambda>_ f. f) (\<lambda>_ w. w) broken_bus ''room'' ''bob'' (Bus 1 ''room'') memory_room_of_ann = (Inl e, h')
    \<and> im_GetBus ''bob'' h' = None \<and> im_Clients h' ''bob'' = None"
proof -
  let ?j = "JoinRoom_Execute (sort_key client_Name) (im_hub_ops broken_send sample_clock ''u'' (Time 7 ''UTC''))
      (\<lambda>_ f. f) (\<lambda>_ w. w) broken_bus ''room'' ''bob'' (Bus 1 ''room'') memory_room_of_ann"
  have "case fst ?j of Inl e \<Rightarrow> \<not> errors_is RuntimePanic e | Inr _ \<Rightarrow> False" by code_simp
  then obtain e h' where failed: "?j = (Inl e, h')" "\<not> errors_is RuntimePanic e"
    by (cases ?j) (auto split: sum.splits)
  have net: "net_only broken_send" "net_only (bSend broken_bus)"
    by (auto simp: net_only_def broken_bus_def broken_send_def intro: exI [of _ "im_net h" for h])
  have "im_Rooms memory_room_of_ann ''room'' = Some 0" "length (im_heap memory_room_of_ann) = 1"
    "room_ID (im_deref 0 memory_room_of_ann) = ''room''"
    "map client_ID (Clients (im_deref 0 memory_room_of_ann)) = [''ann'']" by code_simp+
  then have "room_there ''room'' memory_room_of_ann \<or> im_Rooms memory_room_of_ann ''room'' = None"
    "\<forall>ref. im_Rooms memory_room_of_ann ''room'' = Some ref \<longrightarrow>
      ''bob'' \<notin> client_ID ` set (Clients (im_deref ref memory_room_of_ann))"
    by (auto simp: room_there_def simp flip: set_map)
  from failed_join_leaves_no_trace [OF net sorts_by_name_sort_key this failed] failed(1)
  show ?thesis by blast
qed

section \<open>Both hubs are the same store\<close>


text \<open>The sample room in the store and in both hubs; a client is renamed, and somebody else toggles
  an owner for a version that is not stored.\<close>

definition sample_store :: room_store where
  "sample_store = [''room'' \<mapsto> copied_room sample_room]"

definition sample_memory :: "unit im_hub" where
  "sample_memory = (NewHub ())\<lparr>im_heap := [sample_room], im_Rooms := [''room'' \<mapsto> 0],
     im_saved := [''room'' \<mapsto> sample_room]\<rparr>"

definition sample_redis :: "server redis_hub" where
  "sample_redis = NewRedisHub (new_server\<lparr>sv_kv := [roomKeyPrefix @ ''room'' \<mapsto> RDoc (SerializeRoom sample_room)]\<rparr>)"

definition sample_requests :: "request list" where
  "sample_requests =
     [\<lparr>rq_room = ''room'', rq_op = (\<lambda>r. Some (UpdateClientName ''ann'' ''Anna'' r)), rq_mode = SaveAlways\<rparr>,
      \<lparr>rq_room = ''room'', rq_op = (\<lambda>r. Some (ToggleOwner ''ann'' ''bob'' r)), rq_mode = SaveIf (Some 77)\<rparr>]"


end
