(* ===== verification/Command_Ledger.thy ===== *)
theory Command_Ledger
  imports Hub
begin

text \<open>
  The ledger of commands and its two implementations: \<open>internal/infra/bus/ledger.go\<close> and
  \<open>internal/infra/boundaries/commandledger/{inmemory,redis}/ledger.go\<close>. A command is claimed
  before it runs and its outcome stored after; a retry gets the stored outcome back.

  An outcome is the message whose encoded bytes are stored. Times are instants in nanoseconds.
\<close>

section \<open>The interface\<close>

definition ErrCommandInProgress :: go_error where
  "ErrCommandInProgress = PlainError (Some CommandInProgress) (Msg ''command in progress'' [])"

text \<open>\<open>Claim\<close> returns an error, an outcome to replay, or nothing: the caller holds the reservation.\<close>

record 'w ledger =
  lClaim :: "string \<Rightarrow> string \<Rightarrow> string \<Rightarrow> ('w, server_message option) call"
  lComplete :: "string \<Rightarrow> string \<Rightarrow> string \<Rightarrow> server_message \<Rightarrow> ('w, unit) call"

section \<open>In memory\<close>

record entry =
  en_pending :: bool
  en_payload :: "server_message option"
  en_expiresAt :: int

text \<open>The map and the two lifetimes.\<close>

record mem_ledger =
  ml_entries :: "string \<Rightarrow> entry option"
  ml_pendingTTL :: int
  ml_resultTTL :: int

definition mem_New :: "int \<Rightarrow> int \<Rightarrow> mem_ledger" where
  "mem_New pendingTTL resultTTL =
     \<lparr>ml_entries = (\<lambda>_. None), ml_pendingTTL = pendingTTL, ml_resultTTL = resultTTL\<rparr>"

definition entryKey :: "string \<Rightarrow> string \<Rightarrow> string \<Rightarrow> string" where
  "entryKey roomID clientID commandID = roomID @ '':'' @ clientID @ '':'' @ commandID"

definition mem_Claim ::
  "int \<Rightarrow> string \<Rightarrow> string \<Rightarrow> string \<Rightarrow> (mem_ledger, server_message option) call" where
  "mem_Claim now roomID clientID commandID = (\<lambda>l.
     let key = entryKey roomID clientID commandID;
         (current, l1) = (case ml_entries l key of
            None \<Rightarrow> (None, l)
          | Some c \<Rightarrow>
              if \<not> now < en_expiresAt c
              then (None, l\<lparr>ml_entries := (ml_entries l)(key := None)\<rparr>)
              else (Some c, l))
     in case current of
          Some c \<Rightarrow>
            if en_pending c then (Inl ErrCommandInProgress, l1) else (Inr (en_payload c), l1)
        | None \<Rightarrow>
            (Inr None, l1\<lparr>ml_entries := (ml_entries l1)(key := Some
               \<lparr>en_pending = True, en_payload = None, en_expiresAt = now + ml_pendingTTL l1\<rparr>)\<rparr>))"

definition mem_Complete ::
  "int \<Rightarrow> string \<Rightarrow> string \<Rightarrow> string \<Rightarrow> server_message \<Rightarrow> (mem_ledger, unit) call" where
  "mem_Complete now roomID clientID commandID outcome = (\<lambda>l.
     let key = entryKey roomID clientID commandID
     in (Inr (), l\<lparr>ml_entries := (ml_entries l)(key := Some
          \<lparr>en_pending = False, en_payload = Some outcome, en_expiresAt = now + ml_resultTTL l\<rparr>)\<rparr>))"

section \<open>In Redis\<close>

text \<open>A stored value is the pending marker or an outcome: a JSON object, never the marker's text.\<close>

datatype ledger_value = Pending | Outcome server_message

record 's ledger_redis =
  lrSetNX :: "string \<Rightarrow> ledger_value \<Rightarrow> int \<Rightarrow> ('s, bool) call"
  lrGet :: "string \<Rightarrow> ('s, ledger_value) call"
  lrSet :: "string \<Rightarrow> ledger_value \<Rightarrow> int \<Rightarrow> ('s, unit) call"

definition commandKey :: "string \<Rightarrow> string \<Rightarrow> string \<Rightarrow> string" where
  "commandKey roomID clientID commandID =
     ''planning-poker:command:'' @ roomID @ '':'' @ clientID @ '':'' @ commandID"

definition claimError :: "go_error \<Rightarrow> go_error" where
  "claimError e = Errorf ''claim command outcome: %w'' [] [e]"

text \<open>The part after the value has been read, at most twice.\<close>

definition claim_value :: "go_error + ledger_value \<Rightarrow> go_error + server_message option" where
  "claim_value v =
     (case v of Inl e \<Rightarrow> Inl (claimError e)
      | Inr Pending \<Rightarrow> Inl ErrCommandInProgress
      | Inr (Outcome m) \<Rightarrow> Inr (Some m))"

definition red_Claim ::
  "'s ledger_redis \<Rightarrow> int \<Rightarrow> string \<Rightarrow> string \<Rightarrow> string \<Rightarrow> ('s, server_message option) call" where
  "red_Claim L pendingTTL roomID clientID commandID = (\<lambda>s.
     let key = commandKey roomID clientID commandID
     in case lrSetNX L key Pending pendingTTL s of
          (Inl e, s1) \<Rightarrow> (Inl (claimError e), s1)
        | (Inr True, s1) \<Rightarrow> (Inr None, s1)
        | (Inr False, s1) \<Rightarrow>
            (case lrGet L key s1 of
               (Inl e, s2) \<Rightarrow>
                 if errors_is RedisNil e
                 then (case lrSetNX L key Pending pendingTTL s2 of
                         (Inl e2, s3) \<Rightarrow> (Inl (claimError e2), s3)
                       | (Inr True, s3) \<Rightarrow> (Inr None, s3)
                       | (Inr False, s3) \<Rightarrow>
                           (case lrGet L key s3 of (v, s4) \<Rightarrow> (claim_value v, s4)))
                 else (claim_value (Inl e), s2)
             | (Inr v, s2) \<Rightarrow> (claim_value (Inr v), s2)))"

definition red_Complete ::
  "'s ledger_redis \<Rightarrow> int \<Rightarrow> string \<Rightarrow> string \<Rightarrow> string \<Rightarrow> server_message \<Rightarrow> ('s, unit) call" where
  "red_Complete L resultTTL roomID clientID commandID outcome = (\<lambda>s.
     let key = commandKey roomID clientID commandID
     in case lrSet L key (Outcome outcome) resultTTL s of
          (Inl e, s1) \<Rightarrow> (Inl (Errorf ''complete command outcome: %w'' [] [e]), s1)
        | (Inr _, s1) \<Rightarrow> (Inr (), s1))"

section \<open>What a ledger promises\<close>

text \<open>
  \<open>entry_of l k\<close> is what the ledger holds under the key \<open>k\<close>: a reservation (\<open>None\<close>) or an outcome,
  and the instant it expires. Every call is made at an instant.
\<close>

locale command_ledger =
  fixes claim :: "int \<Rightarrow> string \<Rightarrow> string \<Rightarrow> string \<Rightarrow> ('l, server_message option) call"
    and finish :: "int \<Rightarrow> string \<Rightarrow> string \<Rightarrow> string \<Rightarrow> server_message \<Rightarrow> ('l, unit) call"
    and key :: "string \<Rightarrow> string \<Rightarrow> string \<Rightarrow> string"
    and entry_of :: "'l \<Rightarrow> string \<Rightarrow> (server_message option \<times> int) option"
    and good :: "'l \<Rightarrow> bool"
    and pendingTTL resultTTL :: int
  assumes claim_held: "good l \<Longrightarrow> entry_of l (key r c i) = Some (v, u) \<Longrightarrow> t < u \<Longrightarrow>
      claim t r c i l = (case v of None \<Rightarrow> Inl ErrCommandInProgress | Some m \<Rightarrow> Inr (Some m), l)"
    and claim_free: "good l \<Longrightarrow> (\<forall>v u. entry_of l (key r c i) = Some (v, u) \<longrightarrow> u \<le> t) \<Longrightarrow>
      \<exists>l'. claim t r c i l = (Inr None, l') \<and> good l'
        \<and> entry_of l' = (entry_of l)(key r c i := Some (None, t + pendingTTL))"
    and completes: "good l \<Longrightarrow> \<exists>l'. finish t r c i m l = (Inr (), l') \<and> good l'
        \<and> entry_of l' = (entry_of l)(key r c i := Some (Some m, t + resultTTL))"
begin

lemma claim_cases:
  assumes "good l"
  obtains (held) v u where "entry_of l (key r c i) = Some (v, u)" "t < u"
      "claim t r c i l = (case v of None \<Rightarrow> Inl ErrCommandInProgress | Some m \<Rightarrow> Inr (Some m), l)"
  | (free) l' where "claim t r c i l = (Inr None, l')" "good l'"
      "entry_of l' = (entry_of l)(key r c i := Some (None, t + pendingTTL))"
proof (cases "\<exists>v u. entry_of l (key r c i) = Some (v, u) \<and> t < u")
  case True
  then show thesis using held claim_held [OF assms] by blast
next
  case False
  then have "\<forall>v u. entry_of l (key r c i) = Some (v, u) \<longrightarrow> u \<le> t" by force
  from claim_free [OF assms this] show thesis using free by blast
qed

text \<open>A retry while the command runs is refused; a retry after it gets the stored outcome.\<close>

lemma claim_twice:
  assumes "good l" "claim t r c i l = (Inr None, l')" "t' < t + pendingTTL"
  shows "claim t' r c i l' = (Inl ErrCommandInProgress, l')"
  using assms(1)
proof (cases rule: claim_cases [of l r c i t])
  case (held v u)
  with assms(2) show ?thesis by (cases v) auto
next
  case (free m)
  with assms show ?thesis by (simp add: claim_held)
qed

lemma replay:
  assumes "good l" "finish t r c i m l = (Inr (), l')" "t' < t + resultTTL"
  shows "claim t' r c i l' = (Inr (Some m), l')"
  using completes [OF assms(1), of t r c i m] assms(2,3) by (auto simp: claim_held)

end

text \<open>A history of calls made on one ledger, and the answers to its claims.\<close>

datatype ledger_call =
    ClaimAt (call_at: int) (call_room: string) (call_client: string) (call_command: string)
  | CompleteAt (call_at: int) (call_room: string) (call_client: string) (call_command: string)
      (call_outcome: server_message)

fun ledger_run ::
  "(int \<Rightarrow> string \<Rightarrow> string \<Rightarrow> string \<Rightarrow> ('l, server_message option) call) \<Rightarrow>
   (int \<Rightarrow> string \<Rightarrow> string \<Rightarrow> string \<Rightarrow> server_message \<Rightarrow> ('l, unit) call) \<Rightarrow>
   ledger_call list \<Rightarrow> 'l \<Rightarrow> (go_error + server_message option) list" where
  "ledger_run claim finish [] l = []"
| "ledger_run claim finish (ClaimAt t r c i # es) l =
     (case claim t r c i l of (a, l') \<Rightarrow> a # ledger_run claim finish es l')"
| "ledger_run claim finish (CompleteAt t r c i m # es) l =
     (case finish t r c i m l of (a, l') \<Rightarrow>
        (case a of Inl e \<Rightarrow> Inl e | Inr _ \<Rightarrow> Inr None) # ledger_run claim finish es l')"

definition call_key :: "(string \<Rightarrow> string \<Rightarrow> string \<Rightarrow> string) \<Rightarrow> ledger_call \<Rightarrow> string" where
  "call_key key e = key (call_room e) (call_client e) (call_command e)"

fun is_claim :: "ledger_call \<Rightarrow> bool" where
  "is_claim (ClaimAt t r c i) = True"
| "is_claim (CompleteAt t r c i m) = False"

context command_ledger
begin

text \<open>As long as an entry blocks the key up to \<open>u\<close>, no claim before \<open>u\<close> reserves the command.\<close>

lemma blocked_until:
  assumes "good l" "\<exists>v x. entry_of l k = Some (v, x) \<and> u \<le> x"
    and "\<And>e. e \<in> set es \<Longrightarrow> u \<le> call_at e + pendingTTL \<and> u \<le> call_at e + resultTTL"
    and "j < length es" "is_claim (es ! j)" "call_key key (es ! j) = k" "call_at (es ! j) < u"
  shows "ledger_run claim finish es l ! j \<noteq> Inr None"
  using assms
proof (induction es arbitrary: l j)
  case (Cons e es)
  note IH = Cons.IH [OF _ _ Cons.prems(3)]
  obtain v x where blocked: "entry_of l k = Some (v, x)" "u \<le> x" using Cons.prems(2) by blast
  have bound: "u \<le> call_at e + pendingTTL" "u \<le> call_at e + resultTTL" using Cons.prems(3) [of e] by auto
  show ?case
  proof (cases e)
    case e: (ClaimAt t r c i)
    from Cons.prems(1) show ?thesis
    proof (cases rule: claim_cases [of l r c i t])
      case (held v' y)
      show ?thesis
      proof (cases j)
        case 0
        then show ?thesis using held e by (auto split: option.split)
      next
        case (Suc n)
        then show ?thesis using IH [of l n] Cons.prems blocked held e by auto
      qed
    next
      case (free l')
      have still: "\<exists>v x. entry_of l' k = Some (v, x) \<and> u \<le> x"
        using free blocked bound(1) e by auto
      show ?thesis
      proof (cases j)
        case 0
        with Cons.prems(6,7) e have "key r c i = k" "t < u" by (auto simp: call_key_def)
        with blocked have "t < x" by simp
        with claim_held [OF Cons.prems(1), of r c i v x t] blocked \<open>key r c i = k\<close> 0 e
        show ?thesis by (auto split: option.split)
      next
        case (Suc n)
        then show ?thesis using IH [of l' n] Cons.prems still free e by auto
      qed
    qed
  next
    case e: (CompleteAt t r c i m)
    obtain l' where l': "finish t r c i m l = (Inr (), l')" "good l'"
      "entry_of l' = (entry_of l)(key r c i := Some (Some m, t + resultTTL))"
      using completes [OF Cons.prems(1)] by blast
    then have still: "\<exists>v x. entry_of l' k = Some (v, x) \<and> u \<le> x"
      using blocked bound(2) e by auto
    show ?thesis
    proof (cases j)
      case 0
      with Cons.prems(5) e show ?thesis by simp
    next
      case (Suc n)
      then show ?thesis using IH [of l' n] Cons.prems still l' e by auto
    qed
  qed
qed simp

lemma run_drop:
  assumes "good l" "i \<le> length es"
  shows "\<exists>l'. good l' \<and>
    ledger_run claim finish es l = take i (ledger_run claim finish es l) @
      ledger_run claim finish (drop i es) l' \<and> length (take i (ledger_run claim finish es l)) = i"
  using assms
proof (induction es arbitrary: l i)
  case Nil
  then show ?case by auto
next
  case (Cons e es)
  show ?case
  proof (cases i)
    case 0
    with Cons.prems show ?thesis by auto
  next
    case (Suc n)
    have step: "\<exists>a l'. good l' \<and>
        ledger_run claim finish (e # es) l = a # ledger_run claim finish es l'"
    proof (cases e)
      case e: (ClaimAt t r c i)
      from Cons.prems(1) show ?thesis
        by (cases rule: claim_cases [of l r c i t]) (use Cons.prems e in auto)
    next
      case e: (CompleteAt t r c i m)
      then show ?thesis using completes [OF Cons.prems(1), of t r c i m] by auto
    qed
    then obtain a l' where s: "good l'"
      "ledger_run claim finish (e # es) l = a # ledger_run claim finish es l'" by blast
    from Cons.IH [OF s(1), of n] Cons.prems Suc s(2) show ?thesis by auto
  qed
qed

text \<open>Between two reservations of the same command at least the shorter lifetime passes.\<close>

lemma reservations_apart:
  assumes "good l" "sorted (map call_at es)" "i < j" "j < length es"
    and "is_claim (es ! i)" "ledger_run claim finish es l ! i = Inr None"
    and "is_claim (es ! j)" "ledger_run claim finish es l ! j = Inr None"
    and "call_key key (es ! i) = call_key key (es ! j)"
  shows "call_at (es ! i) + min pendingTTL resultTTL \<le> call_at (es ! j)"
proof (rule ccontr)
  assume close: "\<not> ?thesis"
  from run_drop [OF assms(1), of i es] assms(3,4) obtain l1 where
    l1: "good l1" "ledger_run claim finish es l ! (i + n) =
      ledger_run claim finish (drop i es) l1 ! n" for n
    by (metis less_or_eq_imp_le less_trans nth_append_length_plus)
  obtain t r c k where e: "es ! i = ClaimAt t r c k" using assms(5) by (cases "es ! i") auto
  have split: "drop i es = es ! i # drop (Suc i) es"
    using assms(3,4) by (simp add: Cons_nth_drop_Suc)
  have reserved: "\<exists>l2. claim t r c k l1 = (Inr None, l2) \<and> good l2 \<and>
      entry_of l2 = (entry_of l1)(key r c k := Some (None, t + pendingTTL))"
    using l1(1)
  proof (cases rule: claim_cases [of l1 r c k t])
    case (held v u)
    then show ?thesis using assms(6) l1(2) [of 0] split e by (cases v) auto
  qed blast
  then obtain l2 where l2: "claim t r c k l1 = (Inr None, l2)" "good l2"
    "entry_of l2 = (entry_of l1)(key r c k := Some (None, t + pendingTTL))" by blast
  define u where "u = t + min pendingTTL resultTTL"
  have later: "t \<le> call_at e'" if "e' \<in> set (drop (Suc i) es)" for e'
  proof -
    obtain d where d: "d < length es - Suc i" "es ! (Suc i + d) = e'"
      using \<open>e' \<in> set (drop (Suc i) es)\<close> by (auto simp: in_set_conv_nth)
    define n where "n = Suc i + d"
    with d have "n < length es" "i < n" "es ! n = e'" by auto
    with sorted_nth_mono [OF assms(2), of i n] e show ?thesis by simp
  qed
  have "ledger_run claim finish (drop (Suc i) es) l2 ! (j - Suc i) \<noteq> Inr None"
  proof (rule blocked_until [where u = u and k = "key r c k"])
    show "\<exists>v x. entry_of l2 (key r c k) = Some (v, x) \<and> u \<le> x" using l2 by (simp add: u_def)
    show "u \<le> call_at e' + pendingTTL \<and> u \<le> call_at e' + resultTTL" if "e' \<in> set (drop (Suc i) es)" for e'
      using later [OF that] by (auto simp: u_def)
  qed (use assms(3,4,7,9) close e l2 in \<open>auto simp: call_key_def u_def\<close>)
  moreover have "ledger_run claim finish es l ! j =
      ledger_run claim finish (drop (Suc i) es) l2 ! (j - Suc i)"
    using l1(2) [of "j - i"] split e l2(1) assms(3) by (simp add: nth_Cons')
  ultimately show False using assms(8) by simp
qed

end

section \<open>Both ledgers keep the promise\<close>

definition mem_entry :: "mem_ledger \<Rightarrow> string \<Rightarrow> (server_message option \<times> int) option" where
  "mem_entry l k =
     map_option (\<lambda>c. (if en_pending c then None else en_payload c, en_expiresAt c)) (ml_entries l k)"

text \<open>The lifetimes are those of the constructor, and a completed entry has its payload.\<close>

definition mem_good :: "int \<Rightarrow> int \<Rightarrow> mem_ledger \<Rightarrow> bool" where
  "mem_good p q l \<longleftrightarrow> ml_pendingTTL l = p \<and> ml_resultTTL l = q \<and>
     (\<forall>k c. ml_entries l k = Some c \<longrightarrow> en_pending c \<or> en_payload c \<noteq> None)"

lemma mem_New_good [simp]: "mem_good p q (mem_New p q)"
  by (simp add: mem_good_def mem_New_def)

interpretation mem: command_ledger mem_Claim mem_Complete entryKey mem_entry "mem_good p q" p q
  for p q
proof unfold_locales
  fix l r c i v u and t :: int
  assume "mem_good p q l" "mem_entry l (entryKey r c i) = Some (v, u)" "t < u"
  then show "mem_Claim t r c i l =
      (case v of None \<Rightarrow> Inl ErrCommandInProgress | Some m \<Rightarrow> Inr (Some m), l)"
    by (fastforce simp: mem_Claim_def mem_entry_def mem_good_def split: option.splits if_splits)
next
  fix l r c i and t :: int
  assume "mem_good p q l" "\<forall>v u. mem_entry l (entryKey r c i) = Some (v, u) \<longrightarrow> u \<le> t"
  then show "\<exists>l'. mem_Claim t r c i l = (Inr None, l') \<and> mem_good p q l'
      \<and> mem_entry l' = (mem_entry l)(entryKey r c i := Some (None, t + p))"
    by (auto simp: mem_Claim_def mem_entry_def mem_good_def Let_def fun_eq_iff split: option.splits)
next
  fix l r c i m and t :: int
  assume "mem_good p q l"
  then show "\<exists>l'. mem_Complete t r c i m l = (Inr (), l') \<and> mem_good p q l'
      \<and> mem_entry l' = (mem_entry l)(entryKey r c i := Some (Some m, t + q))"
    by (auto simp: mem_Complete_def mem_entry_def mem_good_def Let_def fun_eq_iff)
qed

text \<open>A Redis server that expires keys: \<open>ledger_server t\<close> answers at the instant \<open>t\<close>.\<close>

type_synonym ledger_store = "string \<Rightarrow> (ledger_value \<times> int) option"

definition live :: "int \<Rightarrow> ledger_store \<Rightarrow> string \<Rightarrow> ledger_value option" where
  "live t s k = (case s k of None \<Rightarrow> None | Some (v, u) \<Rightarrow> if t < u then Some v else None)"

definition ledger_server :: "int \<Rightarrow> ledger_store ledger_redis" where
  "ledger_server t =
     \<lparr>lrSetNX = (\<lambda>k v ttl s. if live t s k = None then (Inr True, s(k := Some (v, t + ttl))) else (Inr False, s)),
      lrGet = (\<lambda>k s. (case live t s k of
                 None \<Rightarrow> Inl (PlainError (Some RedisNil) (Msg ''redis: nil'' [])) | Some v \<Rightarrow> Inr v, s)),
      lrSet = (\<lambda>k v ttl s. (Inr (), s(k := Some (v, t + ttl))))\<rparr>"

fun ledger_value_outcome :: "ledger_value \<Rightarrow> server_message option" where
  "ledger_value_outcome Pending = None"
| "ledger_value_outcome (Outcome m) = Some m"

definition red_entry :: "ledger_store \<Rightarrow> string \<Rightarrow> (server_message option \<times> int) option" where
  "red_entry s k = map_option (\<lambda>(v, u). (ledger_value_outcome v, u)) (s k)"

interpretation red: command_ledger
  "\<lambda>t. red_Claim (ledger_server t) p" "\<lambda>t. red_Complete (ledger_server t) q"
  commandKey red_entry "\<lambda>_. True" p q
  for p q
proof unfold_locales
  fix l r c i v u and t :: int
  assume "red_entry l (commandKey r c i) = Some (v, u)" "t < u"
  then obtain x where "l (commandKey r c i) = Some (x, u)" "v = ledger_value_outcome x" "t < u"
    by (auto simp: red_entry_def)
  then show "red_Claim (ledger_server t) p r c i l =
      (case v of None \<Rightarrow> Inl ErrCommandInProgress | Some m \<Rightarrow> Inr (Some m), l)"
    by (cases x) (simp_all add: red_Claim_def ledger_server_def live_def claim_value_def)
next
  fix l r c i and t :: int
  assume "\<forall>v u. red_entry l (commandKey r c i) = Some (v, u) \<longrightarrow> u \<le> t"
  then have "live t l (commandKey r c i) = None"
    by (auto simp: red_entry_def live_def split: option.split)
  then show "\<exists>l'. red_Claim (ledger_server t) p r c i l = (Inr None, l') \<and> True
      \<and> red_entry l' = (red_entry l)(commandKey r c i := Some (None, t + p))"
    by (auto simp: red_Claim_def ledger_server_def red_entry_def)
next
  fix l r c i m and t :: int
  show "\<exists>l'. red_Complete (ledger_server t) q r c i m l = (Inr (), l') \<and> True
      \<and> red_entry l' = (red_entry l)(commandKey r c i := Some (Some m, t + q))"
    by (auto simp: red_Complete_def ledger_server_def red_entry_def)
qed

section \<open>Keys\<close>

text \<open>Identifiers without a colon make different keys.\<close>

lemma colon_split:
  "CHR '':'' \<notin> set a \<Longrightarrow> CHR '':'' \<notin> set a' \<Longrightarrow>
   a @ CHR '':'' # b = a' @ CHR '':'' # b' \<longleftrightarrow> a = a' \<and> b = b'"
proof (induction a arbitrary: a')
  case Nil
  then show ?case by (cases a') auto
next
  case (Cons x a)
  then show ?case by (cases a') auto
qed

lemma entryKey_inj:
  assumes "CHR '':'' \<notin> set r" "CHR '':'' \<notin> set c" "CHR '':'' \<notin> set r'" "CHR '':'' \<notin> set c'"
  shows "entryKey r c i = entryKey r' c' i' \<longleftrightarrow> r = r' \<and> c = c' \<and> i = i'"
  using assms by (simp add: entryKey_def colon_split)

end
