(* ===== verification/Commands.thy ===== *)
theory Commands
  imports Serialization Command_Ledger Use_Cases
begin

text \<open>
  From client messages to use cases: the frames of \<open>internal/infra/bus/command.go\<close>, and of
  \<open>websocketbus.go\<close> the decoding of payloads (\<open>decodePayload\<close>, \<open>withPayload\<close>,
  \<open>withExpectedRoomVersion\<close>) and the dispatch table \<open>mapUsecases\<close>, over the use cases of
  \<open>usecase/facade.go\<close>.
\<close>

section \<open>Frames\<close>

definition ErrInvalidPayload :: go_error where
  "ErrInvalidPayload = PlainError (Some InvalidPayload) (Msg ''invalid payload'' [])"

definition domainCodeToWireCode :: "Code \<Rightarrow> CommandErrorCode option" where
  "domainCodeToWireCode c =
     (case c of
        CodeValidation \<Rightarrow> Some CommandErrorCodeValidation
      | CodeForbidden \<Rightarrow> Some CommandErrorCodeForbidden
      | CodeNotFound \<Rightarrow> Some CommandErrorCodeNotFound
      | CodeConflict \<Rightarrow> Some CommandErrorCodeConflict
      | CodeStaleVersion \<Rightarrow> Some CommandErrorCodeStaleVersion
      | CodeOther _ \<Rightarrow> None)"

definition newCommandAck :: "string \<Rightarrow> 64 word option \<Rightarrow> CommandAck" where
  "newCommandAck commandID roomVersion = \<lparr>ca_CommandID = commandID, ca_RoomVersion = roomVersion\<rparr>"

definition newCommandError ::
  "string \<Rightarrow> CommandErrorCode \<Rightarrow> message \<Rightarrow> 64 word option \<Rightarrow> CommandError" where
  "newCommandError commandID code msg roomVersion =
     \<lparr>ce_Code = code, ce_CommandID = commandID, ce_Message = msg, ce_RoomVersion = roomVersion\<rparr>"

definition commandErrorFor :: "string \<Rightarrow> go_error \<Rightarrow> CommandError" where
  "commandErrorFor commandID err =
     (if errors_is InvalidPayload err
      then newCommandError commandID CommandErrorCodeInvalidPayload (Msg ''invalid payload'' []) None
      else case errors_as err of
             None \<Rightarrow> newCommandError commandID CommandErrorCodeInternal (Msg ''internal error'' []) None
           | Some (code, msg) \<Rightarrow>
               (case domainCodeToWireCode code of
                  None \<Rightarrow> newCommandError commandID CommandErrorCodeInternal (Msg ''internal error'' []) None
                | Some wire \<Rightarrow> newCommandError commandID wire msg None))"

section \<open>Payloads\<close>

text \<open>
  \<open>ReadJSON\<close> decodes the payload into \<open>any\<close>: an object becomes a Go map (the last of equal keys
  wins), a number a \<open>float64\<close>. Marshalling it again sorts the keys; integers up to \<open>2 ^ 53\<close> come
  out as they went in, larger ones as the digits \<open>big\<close> gives for the rounded value. A number is
  \<open>JInt\<close> when its value is an integer. Unmarshal then matches keys up to the case of ASCII letters.
\<close>

definition any_number :: "(int \<Rightarrow> int) \<Rightarrow> json \<Rightarrow> json" where
  "any_number big j = (case j of JInt n \<Rightarrow> if \<bar>n\<bar> \<le> 2 ^ 53 then j else JInt (big n) | _ \<Rightarrow> j)"

definition any_members :: "(int \<Rightarrow> int) \<Rightarrow> (string \<times> json) list \<Rightarrow> (string \<times> json) list" where
  "any_members big kvs =
     sort_key fst (map (\<lambda>k. (k, any_number big (the (member k kvs)))) (remdups (map fst kvs)))"

definition field :: "string \<Rightarrow> (string \<times> json) list \<Rightarrow> json option" where
  "field k kvs = member (map fold_char k) (map (\<lambda>(k', v). (map fold_char k', v)) kvs)"

text \<open>\<open>decodePayload\<close> into a struct; a payload that is missing is null.\<close>

definition decodePayload ::
  "(int \<Rightarrow> int) \<Rightarrow> ((string \<times> json) list \<Rightarrow> go_error + 'a) \<Rightarrow> json \<Rightarrow> go_error + 'a" where
  "decodePayload big d payload = dec_struct (\<lambda>kvs. d (any_members big kvs)) (Some payload)"

definition withPayload ::
  "(int \<Rightarrow> int) \<Rightarrow> ((string \<times> json) list \<Rightarrow> go_error + 'a) \<Rightarrow> json \<Rightarrow> ('a \<Rightarrow> ('w, unit) call) \<Rightarrow>
   ('w, unit) call" where
  "withPayload big d payload execute =
     (case decodePayload big d payload of Inl _ \<Rightarrow> fail ErrInvalidPayload | Inr x \<Rightarrow> execute x)"

definition version_field :: "(string \<times> json) list \<Rightarrow> go_error + 64 word option" where
  "version_field kvs = dec_ptr dec_uint64 (field ''expectedRoomVersion'' kvs)"

text \<open>The version, and whether there is one.\<close>

definition expectedRoomVersion :: "(int \<Rightarrow> int) \<Rightarrow> json \<Rightarrow> go_error + 64 word option \<times> bool" where
  "expectedRoomVersion big payload =
     (case decodePayload big version_field payload of
        Inl _ \<Rightarrow> Inl ErrInvalidPayload
      | Inr None \<Rightarrow> Inr (None, False)
      | Inr (Some v) \<Rightarrow> Inr (Some v, True))"

definition withExpectedRoomVersion ::
  "(int \<Rightarrow> int) \<Rightarrow> json \<Rightarrow> (64 word option \<Rightarrow> ('w, unit) call) \<Rightarrow> ('w, unit) call" where
  "withExpectedRoomVersion big payload execute =
     (case expectedRoomVersion big payload of
        Inl e \<Rightarrow> fail e
      | Inr (expected, _) \<Rightarrow> execute expected)"

text \<open>The payload structs.\<close>

definition dec_UpdateName :: "(string \<times> json) list \<Rightarrow> go_error + string" where
  "dec_UpdateName kvs = dec_string (field ''username'' kvs)"

definition dec_Vote :: "(string \<times> json) list \<Rightarrow> go_error + string" where
  "dec_Vote kvs = dec_string (field ''vote'' kvs)"

definition dec_AddStory :: "(string \<times> json) list \<Rightarrow> go_error + string" where
  "dec_AddStory kvs = dec_string (field ''story'' kvs)"

definition dec_versioned ::
  "string \<Rightarrow> (string \<times> json) list \<Rightarrow> go_error + 64 word option \<times> string" where
  "dec_versioned k kvs =
     bnd (version_field kvs) (\<lambda>v. bnd (dec_string (field k kvs)) (\<lambda>s. Inr (v, s)))"

definition dec_ReorderStory :: "(string \<times> json) list \<Rightarrow> go_error + 64 word option \<times> string \<times> int" where
  "dec_ReorderStory kvs =
     bnd (version_field kvs) (\<lambda>v.
     bnd (dec_string (field ''storyId'' kvs)) (\<lambda>s.
     bnd (dec_int (field ''targetIndex'' kvs)) (\<lambda>i. Inr (v, s, i))))"

section \<open>The use cases and their dispatch\<close>

text \<open>\<open>UseCasesFacade\<close>, the use cases a connection calls: room, sender, and what the command adds.\<close>

record 'w facade =
  ucUpdateName :: "string \<Rightarrow> string \<Rightarrow> string \<Rightarrow> ('w, unit) call"
  ucVote :: "string \<Rightarrow> string \<Rightarrow> string option \<Rightarrow> ('w, unit) call"
  ucReveal :: "string \<Rightarrow> string \<Rightarrow> 64 word option \<Rightarrow> ('w, unit) call"
  ucReset :: "string \<Rightarrow> string \<Rightarrow> 64 word option \<Rightarrow> ('w, unit) call"
  ucToggleSpectator :: "string \<Rightarrow> string \<Rightarrow> string \<Rightarrow> 64 word option \<Rightarrow> ('w, unit) call"
  ucToggleOwner :: "string \<Rightarrow> string \<Rightarrow> string \<Rightarrow> 64 word option \<Rightarrow> ('w, unit) call"
  ucUpdateStory :: "string \<Rightarrow> string \<Rightarrow> string \<Rightarrow> 64 word option \<Rightarrow> ('w, unit) call"
  ucVoteAgain :: "string \<Rightarrow> string \<Rightarrow> 64 word option \<Rightarrow> ('w, unit) call"
  ucLeaveRoom :: "string \<Rightarrow> string \<Rightarrow> ('w, unit) call"
  ucToggleBacklogMode :: "string \<Rightarrow> string \<Rightarrow> 64 word option \<Rightarrow> ('w, unit) call"
  ucAddStory :: "string \<Rightarrow> string \<Rightarrow> string \<Rightarrow> ('w, unit) call"
  ucRemoveStory :: "string \<Rightarrow> string \<Rightarrow> string \<Rightarrow> 64 word option \<Rightarrow> ('w, unit) call"
  ucAdvanceStory :: "string \<Rightarrow> string \<Rightarrow> 64 word option \<Rightarrow> ('w, unit) call"
  ucPrevStory :: "string \<Rightarrow> string \<Rightarrow> 64 word option \<Rightarrow> ('w, unit) call"
  ucSelectStory :: "string \<Rightarrow> string \<Rightarrow> string \<Rightarrow> 64 word option \<Rightarrow> ('w, unit) call"
  ucReorderStory :: "string \<Rightarrow> string \<Rightarrow> string \<Rightarrow> int \<Rightarrow> 64 word option \<Rightarrow> ('w, unit) call"

definition mapUsecases ::
  "(int \<Rightarrow> int) \<Rightarrow> 'w facade \<Rightarrow> string \<Rightarrow> string \<Rightarrow> string \<Rightarrow> (json \<Rightarrow> ('w, unit) call) option" where
  "mapUsecases big U clientID roomID t =
     (if t = ''update-name'' then
        Some (\<lambda>p. withPayload big dec_UpdateName p (\<lambda>username. ucUpdateName U roomID clientID username))
      else if t = ''vote'' then
        Some (\<lambda>p. withPayload big dec_Vote p (\<lambda>v. ucVote U roomID clientID (Some v)))
      else if t = ''reset'' then
        Some (\<lambda>p. withExpectedRoomVersion big p (ucReset U roomID clientID))
      else if t = ''reveal-votes'' then
        Some (\<lambda>p. withExpectedRoomVersion big p (ucReveal U roomID clientID))
      else if t = ''toggle-spectator'' then
        Some (\<lambda>p. withPayload big (dec_versioned ''targetClientId'') p
          (\<lambda>(v, target). ucToggleSpectator U roomID clientID target v))
      else if t = ''toggle-owner'' then
        Some (\<lambda>p. withPayload big (dec_versioned ''targetClientId'') p
          (\<lambda>(v, target). ucToggleOwner U roomID clientID target v))
      else if t = ''update-story'' then
        Some (\<lambda>p. withPayload big (dec_versioned ''story'') p
          (\<lambda>(v, story). ucUpdateStory U roomID clientID story v))
      else if t = ''vote-again'' then
        Some (\<lambda>p. withExpectedRoomVersion big p (ucVoteAgain U roomID clientID))
      else if t = ''toggle-backlog-mode'' then
        Some (\<lambda>p. withExpectedRoomVersion big p (ucToggleBacklogMode U roomID clientID))
      else if t = ''add-story'' then
        Some (\<lambda>p. withPayload big dec_AddStory p (\<lambda>story. ucAddStory U roomID clientID story))
      else if t = ''remove-story'' then
        Some (\<lambda>p. withPayload big (dec_versioned ''storyId'') p
          (\<lambda>(v, storyID). ucRemoveStory U roomID clientID storyID v))
      else if t = ''advance-story'' then
        Some (\<lambda>p. withExpectedRoomVersion big p (ucAdvanceStory U roomID clientID))
      else if t = ''prev-story'' then
        Some (\<lambda>p. withExpectedRoomVersion big p (ucPrevStory U roomID clientID))
      else if t = ''select-story'' then
        Some (\<lambda>p. withPayload big (dec_versioned ''storyId'') p
          (\<lambda>(v, storyID). ucSelectStory U roomID clientID storyID v))
      else if t = ''reorder-story'' then
        Some (\<lambda>p. withPayload big dec_ReorderStory p
          (\<lambda>(v, storyID, target). ucReorderStory U roomID clientID storyID target v))
      else None)"

text \<open>The facade the program builds, over one hub, lock manager and metric.\<close>

definition use_cases ::
  "clock \<Rightarrow> string \<Rightarrow> (client list \<Rightarrow> client list) \<Rightarrow> 'w hub \<Rightarrow> ('w, unit) with_lock \<Rightarrow> 'w metric \<Rightarrow> 'w facade" where
  "use_cases clk uuid srt h lock m =
     \<lparr>ucUpdateName = UpdateName_Execute srt h,
      ucVote = Vote_Execute clk srt h lock,
      ucReveal = Reveal_Execute clk srt h lock,
      ucReset = Reset_Execute clk srt h lock,
      ucToggleSpectator = ToggleSpectator_Execute clk srt h lock,
      ucToggleOwner = ToggleOwner_Execute srt h lock,
      ucUpdateStory = UpdateStory_Execute srt h lock,
      ucVoteAgain = VoteAgain_Execute clk srt h lock,
      ucLeaveRoom = LeaveRoom_Execute srt h lock m,
      ucToggleBacklogMode = ToggleBacklogMode_Execute uuid srt h lock,
      ucAddStory = AddStory_Execute uuid srt h lock,
      ucRemoveStory = RemoveStory_Execute clk srt h lock,
      ucAdvanceStory = AdvanceStory_Execute clk srt h lock,
      ucPrevStory = PrevStory_Execute clk srt h lock,
      ucSelectStory = SelectStory_Execute clk srt h lock,
      ucReorderStory = ReorderStory_Execute srt h lock\<rparr>"

section \<open>Lemmas\<close>

lemma mapUsecases_dom: "mapUsecases big U c r t \<noteq> None \<longleftrightarrow> IsClientCommandType t"
  by (simp add: mapUsecases_def IsClientCommandType_def)

lemma withPayload_cases:
  obtains (bad) "withPayload big d p f = fail ErrInvalidPayload"
  | (good) x where "decodePayload big d p = Inr x" "withPayload big d p f = f x"
  by (cases "decodePayload big d p") (auto simp: withPayload_def)

lemma withExpectedRoomVersion_cases:
  obtains (bad) "withExpectedRoomVersion big p f = fail ErrInvalidPayload"
  | (good) v where "withExpectedRoomVersion big p f = f v"
proof (cases "decodePayload big version_field p")
  case (Inl e)
  then show thesis by (intro bad) (simp add: withExpectedRoomVersion_def expectedRoomVersion_def)
next
  case (Inr v)
  then show thesis
    by (cases v; intro good [of v])
      (simp_all add: withExpectedRoomVersion_def expectedRoomVersion_def)
qed

lemma errors_is_ErrInvalidPayload [simp]: "errors_is s ErrInvalidPayload \<longleftrightarrow> s = InvalidPayload"
  by (auto simp: ErrInvalidPayload_def)

end
