(* ===== verification/Websocket_Bus.thy ===== *)
theory Websocket_Bus
  imports Commands
begin

text \<open>
  A client's connection: \<open>internal/infra/bus/websocketbus.go\<close>. The world \<open>'w\<close> holds the
  connections; the environment gives access to the fields of one, to its socket, and to the hub, use
  cases and ledger it was built with. A call is a function of the whole world here; the goroutines of
  a connection, its deadlines and the pinger are in theory \<open>Connection\<close>. A panic passes through every call, without the code after it.
\<close>

section \<open>The environment\<close>

text \<open>\<open>closed\<close>, \<open>skipCleanup\<close>, and whether \<open>closeOnce\<close> has run (which also closes \<open>done\<close>).\<close>

record ws_flags =
  ws_closed :: bool
  ws_skipCleanup :: bool
  ws_closeOnce :: bool

text \<open>A received message.\<close>

record WebSocketMessage =
  wm_Type :: string
  wm_CommandID :: string
  wm_Payload :: json

text \<open>The parameters: the socket's writes and close, and \<open>uuid.Parse\<close> followed by \<open>String\<close>.\<close>

record 'w socket =
  wsFlags :: "bus \<Rightarrow> 'w \<Rightarrow> ws_flags"
  wsSetFlags :: "bus \<Rightarrow> ws_flags \<Rightarrow> 'w \<Rightarrow> 'w"
  wsID :: "bus \<Rightarrow> string"
  wsWrite :: "bus \<Rightarrow> server_message \<Rightarrow> ('w, unit) call"
  wsCloseConn :: "bus \<Rightarrow> 'w \<Rightarrow> go_error option \<times> 'w"

record 'w ws_env = "'w socket" +
  wsHub :: "'w hub"
  wsUsecases :: "'w facade"
  wsLedger :: "'w ledger option"
  wsParseUUID :: "string \<Rightarrow> string option"
  wsBig :: "int \<Rightarrow> int"

definition new_flags :: ws_flags where
  "new_flags = \<lparr>ws_closed = False, ws_skipCleanup = False, ws_closeOnce = False\<rparr>"

section \<open>Closing and sending\<close>

definition ws_Detach :: "('w, 'z) socket_scheme \<Rightarrow> bus \<Rightarrow> 'w \<Rightarrow> 'w" where
  "ws_Detach E b w = wsSetFlags E b ((wsFlags E b w)\<lparr>ws_skipCleanup := True\<rparr>) w"

definition ws_leaveRoom :: "'w ws_env \<Rightarrow> bus \<Rightarrow> ('w, unit) call" where
  "ws_leaveRoom E b = ucLeaveRoom (wsUsecases E) (bus_RoomID b) (wsID E b)"

text \<open>\<open>errors.Join\<close> of two errors, nil when both are.\<close>

definition errors_Join :: "go_error option \<Rightarrow> go_error option \<Rightarrow> go_error option" where
  "errors_Join e1 e2 =
     (case (e1, e2) of
        (None, None) \<Rightarrow> None
      | (Some a, None) \<Rightarrow> Some (JoinError [a])
      | (None, Some b) \<Rightarrow> Some (JoinError [b])
      | (Some a, Some b) \<Rightarrow> Some (JoinError [a, b]))"

definition ws_Close :: "'w ws_env \<Rightarrow> bus \<Rightarrow> ('w, unit) call" where
  "ws_Close E b = (\<lambda>w.
     if ws_closeOnce (wsFlags E b w) then (Inr (), w)
     else
       let w1 = wsSetFlags E b ((wsFlags E b w)\<lparr>ws_closed := True, ws_closeOnce := True\<rparr>) w;
           (left, w2) = (if ws_skipCleanup (wsFlags E b w1) then (Inr (), w1) else ws_leaveRoom E b w1);
           err = (case left of Inl e \<Rightarrow> Some e | Inr _ \<Rightarrow> None)
       in if (case err of Some e \<Rightarrow> errors_is RuntimePanic e | None \<Rightarrow> False) then (left, w2)
          else
            let (err2, w3) = wsCloseConn E b w2
            in (case errors_Join err err2 of None \<Rightarrow> (Inr (), w3) | Some e \<Rightarrow> (Inl e, w3)))"

definition ws_Send :: "('w, 'z) socket_scheme \<Rightarrow> bus \<Rightarrow> server_message \<Rightarrow> ('w, unit) call" where
  "ws_Send E b msg = (\<lambda>w.
     if ws_closed (wsFlags E b w) then (Inl (New ''connection closed''), w) else wsWrite E b msg w)"

text \<open>\<open>sendRaw\<close> writes bytes that encode \<open>msg\<close>.\<close>

definition ws_sendRaw :: "('w, 'z) socket_scheme \<Rightarrow> bus \<Rightarrow> server_message \<Rightarrow> ('w, unit) call" where
  "ws_sendRaw E b msg = (\<lambda>w.
     if ws_closed (wsFlags E b w) then (Inl (New ''connection closed''), w) else wsWrite E b msg w)"

text \<open>\<open>_ = c.Send(...)\<close>.\<close>

definition ignoring :: "('w, unit) call \<Rightarrow> 'w \<Rightarrow> 'w" where
  "ignoring m w = snd (m w)"

section \<open>Answering a command\<close>

definition ws_roomVersion :: "'w ws_env \<Rightarrow> bus \<Rightarrow> ('w, 64 word) call" where
  "ws_roomVersion E b =
     andThen (hLoadRoom (wsHub E) (bus_RoomID b)) (\<lambda>room w.
       (Inr (RoomVersion_Uint64 (RoomVersion (hDeref (wsHub E) room w))), w))"

text \<open>Frames always marshal; an error of the ledger is logged.\<close>

definition ws_finishCommand ::
  "'w ws_env \<Rightarrow> 'w ledger \<Rightarrow> bus \<Rightarrow> string \<Rightarrow> server_message \<Rightarrow> 'w \<Rightarrow> 'w" where
  "ws_finishCommand E L b commandID frame w =
     ignoring (ws_sendRaw E b frame)
       (snd (lComplete L (bus_RoomID b) (wsID E b) commandID frame w))"

definition ws_finishError ::
  "'w ws_env \<Rightarrow> 'w ledger \<Rightarrow> bus \<Rightarrow> string \<Rightarrow> go_error \<Rightarrow> 'w \<Rightarrow> 'w" where
  "ws_finishError E L b commandID err w =
     (let frame = commandErrorFor commandID err;
          (frame', w1) =
            (if ce_Code frame = CommandErrorCodeStaleVersion
             then (case ws_roomVersion E b w of
                     (Inl _, w1) \<Rightarrow> (frame, w1)
                   | (Inr version, w1) \<Rightarrow> (frame\<lparr>ce_RoomVersion := Some version\<rparr>, w1))
             else (frame, w))
      in ws_finishCommand E L b commandID (CommandErrorMessage frame') w1)"

definition ws_finishAck :: "'w ws_env \<Rightarrow> 'w ledger \<Rightarrow> bus \<Rightarrow> string \<Rightarrow> 'w \<Rightarrow> 'w" where
  "ws_finishAck E L b commandID w =
     (let frame = newCommandAck commandID None;
          (frame', w1) =
            (case ws_roomVersion E b w of
               (Inl _, w1) \<Rightarrow> (frame, w1)
             | (Inr version, w1) \<Rightarrow> (frame\<lparr>ca_RoomVersion := Some version\<rparr>, w1))
      in ws_finishCommand E L b commandID (CommandAckMessage frame') w1)"

definition internalError :: "string \<Rightarrow> server_message" where
  "internalError commandID = CommandErrorMessage
     (newCommandError commandID CommandErrorCodeInternal (Msg ''internal error'' []) None)"

definition ws_handleClaimError :: "'w ws_env \<Rightarrow> bus \<Rightarrow> string \<Rightarrow> go_error \<Rightarrow> 'w \<Rightarrow> 'w" where
  "ws_handleClaimError E b commandID err w =
     (if errors_is CommandInProgress err
      then ignoring (ws_Send E b (CommandErrorMessage (newCommandError commandID
             CommandErrorCodeCommandInProgress (Msg ''command is already being processed'' []) None))) w
      else ignoring (ws_Send E b (internalError commandID)) w)"

section \<open>Processing a message\<close>

definition ws_processUnknown :: "'w ws_env \<Rightarrow> bus \<Rightarrow> WebSocketMessage \<Rightarrow> 'w \<Rightarrow> 'w" where
  "ws_processUnknown E b msg w =
     (if wm_CommandID msg \<noteq> ''''
      then ignoring (ws_Send E b (CommandErrorMessage (newCommandError (wm_CommandID msg)
             CommandErrorCodeUnknownCommand (Msg ''unknown command type'' []) None))) w
      else w)"

text \<open>The result is an error when the use case panics.\<close>

definition ws_processCommand ::
  "'w ws_env \<Rightarrow> bus \<Rightarrow> (json \<Rightarrow> ('w, unit) call) \<Rightarrow> WebSocketMessage \<Rightarrow> ('w, unit) call" where
  "ws_processCommand E b usecaseCall msg = (\<lambda>w.
     case wsParseUUID E (wm_CommandID msg) of
       None \<Rightarrow> (Inr (), ignoring (ws_Send E b (CommandErrorMessage (newCommandError (wm_CommandID msg)
                 CommandErrorCodeInvalidCommandID (Msg ''commandId must be a UUID'' []) None))) w)
     | Some commandID \<Rightarrow>
         (case wsLedger E of
            None \<Rightarrow> (Inr (), ignoring (ws_Send E b (internalError commandID)) w)
          | Some L \<Rightarrow>
              (case lClaim L (bus_RoomID b) (wsID E b) commandID w of
                 (Inl err, w1) \<Rightarrow> (Inr (), ws_handleClaimError E b commandID err w1)
               | (Inr (Some outcome), w1) \<Rightarrow> (Inr (), ignoring (ws_sendRaw E b outcome) w1)
               | (Inr None, w1) \<Rightarrow>
                   (case usecaseCall (wm_Payload msg) w1 of
                      (Inl err, w2) \<Rightarrow>
                        if errors_is RuntimePanic err then (Inl err, w2)
                        else (Inr (), ws_finishError E L b commandID err w2)
                    | (Inr _, w2) \<Rightarrow> (Inr (), ws_finishAck E L b commandID w2)))))"

definition ws_processLegacy ::
  "'w ws_env \<Rightarrow> bus \<Rightarrow> (json \<Rightarrow> ('w, unit) call) \<Rightarrow> WebSocketMessage \<Rightarrow> ('w, unit) call" where
  "ws_processLegacy E b usecaseCall msg = (\<lambda>w.
     case usecaseCall (wm_Payload msg) w of
       (Inl err, w1) \<Rightarrow>
         if errors_is RuntimePanic err then (Inl err, w1)
         else if errors_is StaleRoomVersion err
         then (case ws_roomVersion E b w1 of
                 (Inl _, w2) \<Rightarrow> (Inr (), ignoring (ws_Send E b (StaleCommand 0)) w2)
               | (Inr version, w2) \<Rightarrow> (Inr (), ignoring (ws_Send E b (StaleCommand version)) w2))
         else (Inr (), w1)
     | (Inr _, w1) \<Rightarrow> (Inr (), w1))"

definition ws_process :: "'w ws_env \<Rightarrow> bus \<Rightarrow> WebSocketMessage \<Rightarrow> ('w, unit) call" where
  "ws_process E b msg =
     (case mapUsecases (wsBig E) (wsUsecases E) (wsID E b) (bus_RoomID b) (wm_Type msg) of
        None \<Rightarrow> (\<lambda>w. (Inr (), ws_processUnknown E b msg w))
      | Some usecaseCall \<Rightarrow>
          if wm_CommandID msg = '''' then ws_processLegacy E b usecaseCall msg
          else ws_processCommand E b usecaseCall msg)"

text \<open>\<open>Listen\<close>, on the messages that arrive before the socket fails; the deferred close runs after
  a panic too.\<close>

fun ws_listen_loop :: "'w ws_env \<Rightarrow> bus \<Rightarrow> WebSocketMessage list \<Rightarrow> ('w, unit) call" where
  "ws_listen_loop E b [] = ret ()"
| "ws_listen_loop E b (msg # ms) = andThen (ws_process E b msg) (\<lambda>_. ws_listen_loop E b ms)"

definition ws_Listen :: "'w ws_env \<Rightarrow> bus \<Rightarrow> WebSocketMessage list \<Rightarrow> ('w, unit) call" where
  "ws_Listen E b msgs = (\<lambda>w.
     case ws_listen_loop E b msgs w of (res, w1) \<Rightarrow> (res, snd (ws_Close E b w1)))"

text \<open>A connection as the hub and the use cases see it.\<close>

definition ws_bus_ops :: "'w ws_env \<Rightarrow> 'w bus_ops" where
  "ws_bus_ops E = \<lparr>bSend = ws_Send E, bDetach = ws_Detach E, bClose = ws_Close E\<rparr>"

section \<open>What one message does\<close>

text \<open>The claim decides whether the use case runs.\<close>

lemma ws_processCommand_cases:
  obtains (not_uuid) "wsParseUUID E (wm_CommandID msg) = None"
  | (no_ledger) i where "wsParseUUID E (wm_CommandID msg) = Some i" "wsLedger E = None"
  | (refused) i L e w1 where "wsParseUUID E (wm_CommandID msg) = Some i" "wsLedger E = Some L"
      "lClaim L (bus_RoomID b) (wsID E b) i w = (Inl e, w1)"
      "ws_processCommand E b f msg w = (Inr (), ws_handleClaimError E b i e w1)"
  | (replayed) i L m w1 where "wsParseUUID E (wm_CommandID msg) = Some i" "wsLedger E = Some L"
      "lClaim L (bus_RoomID b) (wsID E b) i w = (Inr (Some m), w1)"
      "ws_processCommand E b f msg w = (Inr (), ignoring (ws_sendRaw E b m) w1)"
  | (executed) i L w1 where "wsParseUUID E (wm_CommandID msg) = Some i" "wsLedger E = Some L"
      "lClaim L (bus_RoomID b) (wsID E b) i w = (Inr None, w1)"
proof (cases "wsParseUUID E (wm_CommandID msg)")
  case None
  then show thesis by (rule not_uuid)
next
  case parsed: (Some i)
  show thesis
  proof (cases "wsLedger E")
    case None
    with parsed show thesis by (rule no_ledger)
  next
    case ledger: (Some L)
    obtain r w1 where claim: "lClaim L (bus_RoomID b) (wsID E b) i w = (r, w1)" by fastforce
    show thesis
    proof (cases r)
      case (Inl e)
      with parsed ledger claim show thesis by (intro refused) (simp_all add: ws_processCommand_def)
    next
      case (Inr a)
      with parsed ledger claim replayed executed show thesis
        by (cases a) (simp_all add: ws_processCommand_def)
    qed
  qed
qed

lemma ws_Close_once:
  assumes "ws_closeOnce (wsFlags E b w)"
  shows "ws_Close E b w = (Inr (), w)"
  using assms by (simp add: ws_Close_def)

end
