(* ===== verification/Locks.thy ===== *)
theory Locks
  imports Hub
begin

text \<open>
  The two lock managers: \<open>internal/infra/lock/inmemory.go\<close> and \<open>redis.go\<close>. Each is modelled
  twice: as the sequential code of one caller, and as a step relation over all goroutines (or
  processes) that use the manager, for mutual exclusion.
\<close>

section \<open>In memory\<close>

text \<open>
  \<open>InMemoryLockManager\<close>: \<open>locks\<close> maps a key to its mutex; a mutex is held by a goroutine or
  free. A goroutine calls \<open>WithLock\<close> with a key, gets the key's mutex by one atomic
  \<open>LoadOrStore\<close> of a new one, waits for it, runs its function and unlocks.
\<close>

type_synonym goroutine = nat
type_synonym mutex = nat

datatype im_pc = Outside | Calling string | GotLock string mutex | Inside string mutex

record im_locks =
  il_locks :: "string \<Rightarrow> mutex option"
  il_held :: "mutex \<Rightarrow> goroutine option"
  il_next :: mutex
  il_pc :: "goroutine \<Rightarrow> im_pc"

definition NewInMemoryLockManager :: im_locks where
  "NewInMemoryLockManager =
     \<lparr>il_locks = (\<lambda>_. None), il_held = (\<lambda>_. None), il_next = 0, il_pc = (\<lambda>_. Outside)\<rparr>"

text \<open>\<open>getLock\<close> allocates a mutex, and returns the stored one if there is one.\<close>

definition getLock :: "string \<Rightarrow> im_locks \<Rightarrow> mutex \<times> im_locks" where
  "getLock key s =
     (let lock = il_next s; s1 = s\<lparr>il_next := Suc lock\<rparr>
      in case il_locks s1 key of
           Some actual \<Rightarrow> (actual, s1)
         | None \<Rightarrow> (lock, s1\<lparr>il_locks := (il_locks s1)(key := Some lock)\<rparr>))"

definition set_pc :: "goroutine \<Rightarrow> im_pc \<Rightarrow> im_locks \<Rightarrow> im_locks" where
  "set_pc g pc s = s\<lparr>il_pc := (il_pc s)(g := pc)\<rparr>"

inductive im_step :: "im_locks \<Rightarrow> im_locks \<Rightarrow> bool" where
  call: "il_pc s g = Outside \<Longrightarrow> im_step s (set_pc g (Calling key) s)"
| get: "il_pc s g = Calling key \<Longrightarrow> getLock key s = (m, s') \<Longrightarrow> im_step s (set_pc g (GotLock key m) s')"
| lock: "il_pc s g = GotLock key m \<Longrightarrow> il_held s m = None \<Longrightarrow>
    im_step s (set_pc g (Inside key m) (s\<lparr>il_held := (il_held s)(m := Some g)\<rparr>))"
| unlock: "il_pc s g = Inside key m \<Longrightarrow>
    im_step s (set_pc g Outside (s\<lparr>il_held := (il_held s)(m := None)\<rparr>))"

inductive im_reachable :: "im_locks \<Rightarrow> bool" where
  start: "im_reachable NewInMemoryLockManager"
| step: "im_reachable s \<Longrightarrow> im_step s s' \<Longrightarrow> im_reachable s'"

text \<open>Mutexes are shared by goroutines with the same key only, and held by who is inside.\<close>

definition im_inv :: "im_locks \<Rightarrow> bool" where
  "im_inv s \<longleftrightarrow>
     (\<forall>g key m. il_pc s g = GotLock key m \<or> il_pc s g = Inside key m \<longrightarrow> il_locks s key = Some m) \<and>
     (\<forall>g m. il_held s m = Some g \<longleftrightarrow> (\<exists>key. il_pc s g = Inside key m)) \<and>
     (\<forall>key m. il_locks s key = Some m \<longrightarrow> m < il_next s) \<and>
     (\<forall>key key' m. il_locks s key = Some m \<and> il_locks s key' = Some m \<longrightarrow> key = key')"

lemma im_invD:
  assumes "im_inv s"
  shows "il_pc s g = GotLock key m \<Longrightarrow> il_locks s key = Some m"
    "il_pc s g = Inside key m \<Longrightarrow> il_locks s key = Some m"
    "il_pc s g = Inside key m \<Longrightarrow> il_held s m = Some g"
    "il_held s m = Some g \<Longrightarrow> \<exists>key. il_pc s g = Inside key m"
    "il_locks s key = Some m \<Longrightarrow> m < il_next s"
    "il_locks s key = Some m \<Longrightarrow> il_locks s key' = Some m \<Longrightarrow> key = key'"
  using assms unfolding im_inv_def by blast+

lemma im_invI:
  assumes "\<And>g key m. il_pc s g = GotLock key m \<Longrightarrow> il_locks s key = Some m"
    "\<And>g key m. il_pc s g = Inside key m \<Longrightarrow> il_locks s key = Some m"
    "\<And>g key m. il_pc s g = Inside key m \<Longrightarrow> il_held s m = Some g"
    "\<And>g m. il_held s m = Some g \<Longrightarrow> \<exists>key. il_pc s g = Inside key m"
    "\<And>key m. il_locks s key = Some m \<Longrightarrow> m < il_next s"
    "\<And>key key' m. il_locks s key = Some m \<Longrightarrow> il_locks s key' = Some m \<Longrightarrow> key = key'"
  shows "im_inv s"
  using assms unfolding im_inv_def by blast

lemma im_inv_get:
  assumes inv: "im_inv s" and pc: "il_pc s g = Calling key" and "getLock key s = (m, s')"
  shows "im_inv (set_pc g (GotLock key m) s')"
proof (cases "il_locks s key")
  case None
  then have m: "m = il_next s"
    "s' = s\<lparr>il_next := Suc (il_next s), il_locks := (il_locks s)(key := Some (il_next s))\<rparr>"
    using assms(3) by (auto simp: getLock_def Let_def)
  note D = im_invD [OF inv]
  have fresh: "il_locks s k \<noteq> Some (il_next s)" for k using D(5) by blast
  have "il_held s m' \<noteq> Some g" for m' using D(4) [of m' g] pc by auto
  show ?thesis
    by (rule im_invI) (use D pc None fresh \<open>\<And>m'. il_held s m' \<noteq> Some g\<close> in
      \<open>auto simp: m set_pc_def less_SucI split: if_splits\<close>)
next
  case (Some actual)
  then have m: "m = actual" "s' = s\<lparr>il_next := Suc (il_next s)\<rparr>"
    using assms(3) by (auto simp: getLock_def Let_def)
  note D = im_invD [OF inv]
  have "il_held s m' \<noteq> Some g" for m' using D(4) [of m' g] pc by auto
  then show ?thesis
    by (intro im_invI) (use D pc Some in \<open>auto simp: m set_pc_def less_SucI split: if_splits\<close>)
qed

lemma im_inv_step: "im_step s s' \<Longrightarrow> im_inv s \<Longrightarrow> im_inv s'"
proof (induction rule: im_step.induct)
  case (call s g key)
  note D = im_invD [OF call.prems]
  have "il_held s m' \<noteq> Some g" for m' using D(4) [of m' g] call.hyps by auto
  then show ?case by (intro im_invI) (use D call.hyps in \<open>auto simp: set_pc_def split: if_splits\<close>)
next
  case (get s g key m s')
  then show ?case by (intro im_inv_get)
next
  case (lock s g key m)
  note D = im_invD [OF lock.prems]
  have none: "il_held s m' \<noteq> Some g" for m' using D(4) [of m' g] lock.hyps by auto
  show ?case
  proof (rule im_invI)
    fix g' k m'
    let ?s = "set_pc g (Inside key m) (s\<lparr>il_held := (il_held s)(m := Some g)\<rparr>)"
    show "il_held ?s m' = Some g'" if "il_pc ?s g' = Inside k m'"
    proof (cases "g' = g")
      case True
      with that show ?thesis by (simp add: set_pc_def)
    next
      case False
      with that have "il_held s m' = Some g'" using D(3) by (simp add: set_pc_def)
      with lock.hyps show ?thesis by (auto simp: set_pc_def)
    qed
  qed (use D lock.hyps none in \<open>auto simp: set_pc_def split: if_splits\<close>)
next
  case (unlock s g key m)
  note D = im_invD [OF unlock.prems]
  have held: "il_held s m = Some g" using D(3) unlock.hyps .
  show ?case
  proof (rule im_invI)
    fix g' k m'
    let ?s = "set_pc g Outside (s\<lparr>il_held := (il_held s)(m := None)\<rparr>)"
    show "il_held ?s m' = Some g'" if "il_pc ?s g' = Inside k m'"
    proof -
      have "g' \<noteq> g" and "il_held s m' = Some g'"
        using that D(3) by (auto simp: set_pc_def split: if_splits)
      with held show ?thesis by (auto simp: set_pc_def)
    qed
    show "\<exists>key. il_pc ?s g' = Inside key m'" if "il_held ?s m' = Some g'"
    proof -
      have h: "il_held s m' = Some g'" "m' \<noteq> m" using that by (auto simp: set_pc_def split: if_splits)
      then obtain key' where "il_pc s g' = Inside key' m'" using D(4) by blast
      with h unlock.hyps show ?thesis by (auto simp: set_pc_def)
    qed
  qed (use D in \<open>auto simp: set_pc_def split: if_splits\<close>)
qed

lemma im_reachable_inv: "im_reachable s \<Longrightarrow> im_inv s"
proof (induction rule: im_reachable.induct)
  case start
  then show ?case by (simp add: im_inv_def NewInMemoryLockManager_def)
qed (rule im_inv_step)

text \<open>
  The sequential meaning of \<open>ExecuteWithLock\<close> and \<open>WithLock\<close> for a goroutine no other competes
  with: \<open>held\<close> tells which keys' mutexes are locked. A Go mutex is not reentrant: locking a held
  one again never returns, which is marked like a panic, as nothing runs after it. The deferred
  unlock runs when the function panics, not when it is blocked.
\<close>

definition blocksForever :: go_error where
  "blocksForever = PlainError (Some RuntimePanic) (Msg ''blocks forever'' [])"

definition im_WithLock ::
  "(string \<Rightarrow> 'w \<Rightarrow> bool) \<Rightarrow> (string \<Rightarrow> bool \<Rightarrow> 'w \<Rightarrow> 'w) \<Rightarrow> ('w, 'a) with_lock" where
  "im_WithLock held set_held key fn = (\<lambda>w.
     if held key w then (Inl blocksForever, w)
     else case fn (set_held key True w) of (res, w') \<Rightarrow>
       (res, if (case res of Inl e \<Rightarrow> e = blocksForever | Inr _ \<Rightarrow> False) then w'
             else set_held key False w'))"

section \<open>In Redis: the code of one caller\<close>

definition lockKeyPrefix :: string where "lockKeyPrefix = ''planning-poker:lock:''"
definition defaultLockTimeout :: int where "defaultLockTimeout = 10 * 10 ^ 9"
definition defaultRetryDelay :: int where "defaultRetryDelay = 50 * 10 ^ 6"
definition defaultMaxRetries :: nat where "defaultMaxRetries = 100"

text \<open>
  The client's commands over the state \<open>'w\<close> of the world; \<open>lkWait\<close> sleeps for a delay, or returns
  the error of a context that ended meanwhile.
\<close>

record 'w lock_client =
  lkSetNX :: "string \<Rightarrow> string \<Rightarrow> int \<Rightarrow> ('w, bool) call"
  lkGet :: "string \<Rightarrow> 'w \<Rightarrow> string option"
  lkDel :: "string \<Rightarrow> 'w \<Rightarrow> 'w"
  lkEval :: "('w \<Rightarrow> int \<times> 'w) \<Rightarrow> ('w, int) call"
  lkWait :: "int \<Rightarrow> ('w, unit) call"

record lock_config =
  lk_timeout :: int
  lk_retryDelay :: int
  lk_maxRetries :: nat

definition NewRedisLockManager :: lock_config where
  "NewRedisLockManager = \<lparr>lk_timeout = defaultLockTimeout, lk_retryDelay = defaultRetryDelay,
     lk_maxRetries = defaultMaxRetries\<rparr>"

definition SetRetry :: "nat \<Rightarrow> int \<Rightarrow> lock_config \<Rightarrow> lock_config" where
  "SetRetry maxRetries retryDelay c = c\<lparr>lk_maxRetries := maxRetries, lk_retryDelay := retryDelay\<rparr>"

definition SetLockTimeout :: "int \<Rightarrow> lock_config \<Rightarrow> lock_config" where
  "SetLockTimeout timeout c = c\<lparr>lk_timeout := timeout\<rparr>"

fun acquire_loop ::
  "'w lock_client \<Rightarrow> lock_config \<Rightarrow> string \<Rightarrow> string \<Rightarrow> nat \<Rightarrow> ('w, string) call" where
  "acquire_loop L c key lockValue 0 = fail (Errorf
     ''failed to acquire lock for key '%s' after %d retries'' [OStr key, OInt (int (lk_maxRetries c))] [])"
| "acquire_loop L c key lockValue (Suc n) = (\<lambda>w.
     case lkSetNX L (lockKeyPrefix @ key) lockValue (lk_timeout c) w of
       (Inl e, w1) \<Rightarrow> (Inl (Errorf ''failed to acquire lock: %w'' [] [e]), w1)
     | (Inr True, w1) \<Rightarrow> (Inr lockValue, w1)
     | (Inr False, w1) \<Rightarrow>
         (case lkWait L (lk_retryDelay c) w1 of
            (Inl e, w2) \<Rightarrow> (Inl e, w2)
          | (Inr _, w2) \<Rightarrow> acquire_loop L c key lockValue n w2))"

text \<open>\<open>lockValue\<close> is the decimal text of the clock.\<close>

definition acquireLock ::
  "'w lock_client \<Rightarrow> lock_config \<Rightarrow> string \<Rightarrow> string \<Rightarrow> ('w, string) call" where
  "acquireLock L c lockValue key = acquire_loop L c key lockValue (lk_maxRetries c)"

definition release_script :: "'w lock_client \<Rightarrow> string \<Rightarrow> string \<Rightarrow> 'w \<Rightarrow> int \<times> 'w" where
  "release_script L lockKey lockValue w =
     (if lkGet L lockKey w = Some lockValue then (1, lkDel L lockKey w) else (0, w))"

definition releaseLock ::
  "'w lock_client \<Rightarrow> string \<Rightarrow> string \<Rightarrow> ('w, unit) call" where
  "releaseLock L key lockValue = (\<lambda>w.
     case lkEval L (release_script L (lockKeyPrefix @ key) lockValue) w of
       (Inl e, w1) \<Rightarrow> (Inl (Errorf ''failed to release lock: %w'' [] [e]), w1)
     | (Inr result, w1) \<Rightarrow> (Inr (), w1))"

text \<open>\<open>WithLock\<close>, and \<open>ExecuteWithLock\<close> for a function without a result. The deferred release
  runs whatever the function returns, and its error is logged.\<close>

definition red_WithLock ::
  "'w lock_client \<Rightarrow> lock_config \<Rightarrow> string \<Rightarrow> ('w, 'a) with_lock" where
  "red_WithLock L c lockValue key fn = (\<lambda>w.
     case acquireLock L c lockValue key w of
       (Inl e, w1) \<Rightarrow> (Inl e, w1)
     | (Inr token, w1) \<Rightarrow>
         (case fn w1 of (res, w2) \<Rightarrow> (res, snd (releaseLock L key token w2))))"

definition red_ExecuteWithLock ::
  "'w lock_client \<Rightarrow> lock_config \<Rightarrow> string \<Rightarrow> ('w, unit) with_lock" where
  "red_ExecuteWithLock L c lockValue key fn = red_WithLock L c lockValue key fn"

lemma acquire_loop_cases:
  assumes "acquire_loop L c key v n w = (res, w')"
  shows "(\<exists>e. res = Inl e) \<or>
    res = Inr v \<and> (\<exists>w0. lkSetNX L (lockKeyPrefix @ key) v (lk_timeout c) w0 = (Inr True, w'))"
  using assms
proof (induction n arbitrary: w)
  case (Suc n)
  then show ?case by (auto split: prod.splits sum.splits bool.splits)
qed auto

section \<open>In Redis: many processes\<close>

text \<open>
  The server holds a value and the instant it expires. A process that is inside remembers its value
  (the clock when it called) and the instant it acquired. \<open>window\<close> bounds the time from the call
  to the successful attempt: the retries times their delay, and what the attempts take.
\<close>

datatype rl_pc = RlOutside | RlInside string int int

record redis_locks =
  rl_now :: int
  rl_store :: "string \<Rightarrow> (int \<times> int) option"
  rl_pc :: "nat \<Rightarrow> rl_pc"

definition rl_live :: "redis_locks \<Rightarrow> string \<Rightarrow> int option" where
  "rl_live s k = (case rl_store s k of None \<Rightarrow> None | Some (v, u) \<Rightarrow> if rl_now s < u then Some v else None)"

inductive rl_step :: "int \<Rightarrow> int \<Rightarrow> redis_locks \<Rightarrow> redis_locks \<Rightarrow> bool" for timeout window where
  tick: "0 \<le> d \<Longrightarrow> rl_step timeout window s (s\<lparr>rl_now := rl_now s + d\<rparr>)"
| acquire: "rl_pc s p = RlOutside \<Longrightarrow> token \<le> rl_now s \<Longrightarrow> rl_now s \<le> token + window \<Longrightarrow>
    rl_live s key = None \<Longrightarrow>
    rl_step timeout window s (s\<lparr>rl_store := (rl_store s)(key := Some (token, rl_now s + timeout)),
      rl_pc := (rl_pc s)(p := RlInside key token (rl_now s))\<rparr>)"
| release: "rl_pc s p = RlInside key token a \<Longrightarrow>
    rl_step timeout window s
      (s\<lparr>rl_store := (if rl_live s key = Some token then (rl_store s)(key := None) else rl_store s),
         rl_pc := (rl_pc s)(p := RlOutside)\<rparr>)"

inductive rl_reachable :: "int \<Rightarrow> int \<Rightarrow> redis_locks \<Rightarrow> bool" for timeout window where
  start: "rl_reachable timeout window
    \<lparr>rl_now = t, rl_store = (\<lambda>_. None), rl_pc = (\<lambda>_. RlOutside)\<rparr>"
| step: "rl_reachable timeout window s \<Longrightarrow> rl_step timeout window s s' \<Longrightarrow> rl_reachable timeout window s'"

text \<open>A process whose lease has not run out owns the stored value; two processes inside for one key
  acquired at least a lease apart.\<close>

definition rl_inv :: "int \<Rightarrow> int \<Rightarrow> redis_locks \<Rightarrow> bool" where
  "rl_inv timeout window s \<longleftrightarrow>
     (\<forall>p key token a. rl_pc s p = RlInside key token a \<longrightarrow>
        token \<le> a \<and> a \<le> token + window \<and> a \<le> rl_now s \<and>
        (rl_now s < a + timeout \<longrightarrow> rl_store s key = Some (token, a + timeout))) \<and>
     (\<forall>p q key t a t' a'. p \<noteq> q \<and> rl_pc s p = RlInside key t a \<and> rl_pc s q = RlInside key t' a' \<longrightarrow>
        a + timeout \<le> a' \<or> a' + timeout \<le> a)"

lemma rl_inv_acquire:
  assumes inv: "rl_inv timeout window s" and free: "rl_live s key = None"
    and "token \<le> rl_now s" "rl_now s \<le> token + window"
  shows "rl_inv timeout window (s\<lparr>rl_store := (rl_store s)(key := Some (token, rl_now s + timeout)),
      rl_pc := (rl_pc s)(p := RlInside key token (rl_now s))\<rparr>)"
proof -
  have expired: "a + timeout \<le> rl_now s" if "rl_pc s q = RlInside key t a" for q t a
  proof (rule ccontr)
    assume "\<not> a + timeout \<le> rl_now s"
    with inv that have "rl_store s key = Some (t, a + timeout)" "rl_now s < a + timeout"
      by (auto simp: rl_inv_def)
    with free show False by (simp add: rl_live_def)
  qed
  show ?thesis
    unfolding rl_inv_def
  proof (intro conjI allI impI)
    fix q key' t a
    let ?s = "s\<lparr>rl_store := (rl_store s)(key := Some (token, rl_now s + timeout)),
      rl_pc := (rl_pc s)(p := RlInside key token (rl_now s))\<rparr>"
    assume pc: "rl_pc ?s q = RlInside key' t a"
    show "t \<le> a" "a \<le> t + window" "a \<le> rl_now ?s"
      using pc inv assms(3,4) by (auto simp: rl_inv_def split: if_splits)
    show "rl_store ?s key' = Some (t, a + timeout)" if "rl_now ?s < a + timeout"
      using pc inv that expired [of q t a] by (auto simp: rl_inv_def split: if_splits)
  next
    fix q q' k t a t' a'
    assume "q \<noteq> q' \<and>
      rl_pc (s\<lparr>rl_store := (rl_store s)(key := Some (token, rl_now s + timeout)),
        rl_pc := (rl_pc s)(p := RlInside key token (rl_now s))\<rparr>) q = RlInside k t a \<and>
      rl_pc (s\<lparr>rl_store := (rl_store s)(key := Some (token, rl_now s + timeout)),
        rl_pc := (rl_pc s)(p := RlInside key token (rl_now s))\<rparr>) q' = RlInside k t' a'"
    then show "a + timeout \<le> a' \<or> a' + timeout \<le> a"
      using inv expired by (fastforce simp: rl_inv_def split: if_splits)
  qed
qed

lemma rl_inv_release:
  assumes inv: "rl_inv timeout window s" and pc: "rl_pc s p = RlInside key token a"
    and "window < timeout"
  shows "rl_inv timeout window
      (s\<lparr>rl_store := (if rl_live s key = Some token then (rl_store s)(key := None) else rl_store s),
         rl_pc := (rl_pc s)(p := RlOutside)\<rparr>)"
proof -
  have other: "token' \<noteq> token"
    if q: "rl_pc s q = RlInside key token' a'" "q \<noteq> p" for q token' a'
  proof
    assume "token' = token"
    moreover have "token \<le> a" "a \<le> token + window" "token' \<le> a'" "a' \<le> token' + window"
      "a + timeout \<le> a' \<or> a' + timeout \<le> a"
      using inv pc q unfolding rl_inv_def by blast+
    ultimately show False using \<open>window < timeout\<close> by linarith
  qed
  have keeps: "rl_live s key \<noteq> Some token"
    if "rl_pc s q = RlInside key token' a'" "q \<noteq> p" "rl_now s < a' + timeout" for q token' a'
    using inv that other [OF that(1,2)] by (auto simp: rl_inv_def rl_live_def)
  show ?thesis
  proof (cases "rl_live s key = Some token")
    case True
    with keeps inv show ?thesis by (auto simp: rl_inv_def)
  next
    case False
    with inv show ?thesis by (auto simp: rl_inv_def)
  qed
qed

lemma rl_inv_step:
  "rl_step timeout window s s' \<Longrightarrow> window < timeout \<Longrightarrow> rl_inv timeout window s \<Longrightarrow>
   rl_inv timeout window s'"
proof (induction rule: rl_step.induct)
  case (tick d s)
  then show ?case by (fastforce simp: rl_inv_def)
next
  case (acquire s p token key)
  then show ?case by (intro rl_inv_acquire)
next
  case (release s p key token a)
  then show ?case by (intro rl_inv_release)
qed

lemma rl_reachable_inv:
  "rl_reachable timeout window s \<Longrightarrow> window < timeout \<Longrightarrow> rl_inv timeout window s"
proof (induction rule: rl_reachable.induct)
  case (start t)
  then show ?case by (simp add: rl_inv_def)
next
  case (step s s')
  then show ?case using rl_inv_step by blast
qed

end
