(* ===== verification/Metric.thy ===== *)
theory Metric
  imports Hub
begin

text \<open>
  The counters of users and rooms:
  \<open>internal/application/planningpoker/metric/metric.go\<close>. The totals are atomic 64-bit integers
  shared by all goroutines; what is told to the meter is the list of counter names and amounts. The
  second half runs \<open>decrementIfPositive\<close> of many goroutines at once, one atomic access at a time.
\<close>

unbundle bit_operations_syntax

section \<open>The counters\<close>

definition PlanningPokerActiveUsersMetric :: string where
  "PlanningPokerActiveUsersMetric = ''planning_poker_active_users''"
definition PlanningPokerUsersTotalMetric :: string where
  "PlanningPokerUsersTotalMetric = ''planning_poker_users_total''"
definition PlanningPokerActiveRoomsMetric :: string where
  "PlanningPokerActiveRoomsMetric = ''planning_poker_active_rooms''"

text \<open>A meter is what has been reported to it, \<open>None\<close> the meter that does nothing; errors of the
  meter are ignored by every caller.\<close>

record poker_metric =
  pm_meter :: "(string \<times> int) list option"
  pm_activeUsers :: "64 word"
  pm_activeRooms :: "64 word"

definition NewPlanningPokerMetric :: poker_metric where
  "NewPlanningPokerMetric = \<lparr>pm_meter = None, pm_activeUsers = 0, pm_activeRooms = 0\<rparr>"

text \<open>\<open>None\<close> is a nil meter, directly or inside the interface.\<close>

definition NewPlanningPokerMetricWithMeter :: "(string \<times> int) list option \<Rightarrow> poker_metric" where
  "NewPlanningPokerMetricWithMeter meter =
     (case meter of
        None \<Rightarrow> NewPlanningPokerMetric
      | Some _ \<Rightarrow> \<lparr>pm_meter = meter, pm_activeUsers = 0, pm_activeRooms = 0\<rparr>)"

definition AddCounter :: "string \<Rightarrow> int \<Rightarrow> poker_metric \<Rightarrow> poker_metric" where
  "AddCounter name v m = m\<lparr>pm_meter := map_option (\<lambda>xs. xs @ [(name, v)]) (pm_meter m)\<rparr>"

text \<open>Undisturbed, the first compare-and-swap of the loop succeeds.\<close>

definition decrementIfPositive :: "64 word \<Rightarrow> bool \<times> 64 word" where
  "decrementIfPositive c = (if sint c \<le> 0 then (False, c) else (True, c - 1))"

definition pm_IncrementActiveUsers :: "poker_metric \<Rightarrow> poker_metric" where
  "pm_IncrementActiveUsers m =
     AddCounter PlanningPokerActiveUsersMetric 1 (m\<lparr>pm_activeUsers := pm_activeUsers m + 1\<rparr>)"

definition pm_DecrementActiveUsers :: "poker_metric \<Rightarrow> poker_metric" where
  "pm_DecrementActiveUsers m =
     (case decrementIfPositive (pm_activeUsers m) of
        (False, _) \<Rightarrow> m
      | (True, c) \<Rightarrow> AddCounter PlanningPokerActiveUsersMetric (-1) (m\<lparr>pm_activeUsers := c\<rparr>))"

definition pm_IncrementUsersTotal :: "poker_metric \<Rightarrow> poker_metric" where
  "pm_IncrementUsersTotal m = AddCounter PlanningPokerUsersTotalMetric 1 m"

definition pm_IncrementActiveRoomsCounter :: "poker_metric \<Rightarrow> poker_metric" where
  "pm_IncrementActiveRoomsCounter m =
     AddCounter PlanningPokerActiveRoomsMetric 1 (m\<lparr>pm_activeRooms := pm_activeRooms m + 1\<rparr>)"

definition pm_DecrementActiveRoomsCounter :: "poker_metric \<Rightarrow> poker_metric" where
  "pm_DecrementActiveRoomsCounter m =
     (case decrementIfPositive (pm_activeRooms m) of
        (False, _) \<Rightarrow> m
      | (True, c) \<Rightarrow> AddCounter PlanningPokerActiveRoomsMetric (-1) (m\<lparr>pm_activeRooms := c\<rparr>))"

fun poker_metric_ops :: "poker_metric metric" where
  "poker_metric_ops IncrementUsersTotal m = pm_IncrementUsersTotal m"
| "poker_metric_ops IncrementActiveUsers m = pm_IncrementActiveUsers m"
| "poker_metric_ops DecrementActiveUsers m = pm_DecrementActiveUsers m"
| "poker_metric_ops IncrementActiveRoomsCounter m = pm_IncrementActiveRoomsCounter m"
| "poker_metric_ops DecrementActiveRoomsCounter m = pm_DecrementActiveRoomsCounter m"

section \<open>Signed 64-bit counting\<close>

lemma sint_range64: "- (2 ^ 63) \<le> sint (c :: 64 word)" "sint (c :: 64 word) < 2 ^ 63"
  using sint_greater_eq [of c] sint_less [of c] by simp_all

lemma sint_of_int64: "- (2 ^ 63) \<le> n \<Longrightarrow> n < 2 ^ 63 \<Longrightarrow> sint (word_of_int n :: 64 word) = n"
  by (simp add: sint_sbintrunc' signed_take_bit_int_eq_self)

lemma sint_inc64: "sint c + 1 < 2 ^ 63 \<Longrightarrow> sint (c + 1 :: 64 word) = sint c + 1"
  using sint_of_int64 [of "sint c + 1"] sint_range64 [of c] by simp

lemma sint_dec64: "- (2 ^ 63) \<le> sint c - 1 \<Longrightarrow> sint (c - 1 :: 64 word) = sint c - 1"
  using sint_of_int64 [of "sint c - 1"] sint_range64 [of c] by simp

section \<open>Decrementing from many goroutines\<close>

text \<open>Where a goroutine is in \<open>decrementIfPositive\<close>.\<close>

datatype dec_pc = AtLoad | AtSwap "64 word" | Returned bool

text \<open>The counter, the goroutines that have called, and the increments made so far.\<close>

record counter_state =
  cs_value :: "64 word"
  cs_calls :: "dec_pc list"
  cs_increments :: nat

inductive counter_step :: "counter_state \<Rightarrow> counter_state \<Rightarrow> bool" where
  increment: "counter_step s (s\<lparr>cs_value := cs_value s + 1, cs_increments := Suc (cs_increments s)\<rparr>)"
| call: "counter_step s (s\<lparr>cs_calls := cs_calls s @ [AtLoad]\<rparr>)"
| load_zero: "i < length (cs_calls s) \<Longrightarrow> cs_calls s ! i = AtLoad \<Longrightarrow> sint (cs_value s) \<le> 0 \<Longrightarrow>
    counter_step s (s\<lparr>cs_calls := (cs_calls s)[i := Returned False]\<rparr>)"
| load: "i < length (cs_calls s) \<Longrightarrow> cs_calls s ! i = AtLoad \<Longrightarrow> 0 < sint (cs_value s) \<Longrightarrow>
    counter_step s (s\<lparr>cs_calls := (cs_calls s)[i := AtSwap (cs_value s)]\<rparr>)"
| swap: "i < length (cs_calls s) \<Longrightarrow> cs_calls s ! i = AtSwap v \<Longrightarrow> cs_value s = v \<Longrightarrow>
    counter_step s (s\<lparr>cs_value := v - 1, cs_calls := (cs_calls s)[i := Returned True]\<rparr>)"
| swap_fails: "i < length (cs_calls s) \<Longrightarrow> cs_calls s ! i = AtSwap v \<Longrightarrow> cs_value s \<noteq> v \<Longrightarrow>
    counter_step s (s\<lparr>cs_calls := (cs_calls s)[i := AtLoad]\<rparr>)"

inductive counter_reachable :: "counter_state \<Rightarrow> bool" where
  start: "counter_reachable \<lparr>cs_value = 0, cs_calls = [], cs_increments = 0\<rparr>"
| step: "counter_reachable s \<Longrightarrow> counter_step s s' \<Longrightarrow> counter_reachable s'"

definition decremented :: "counter_state \<Rightarrow> nat" where
  "decremented s = length (filter (\<lambda>p. p = Returned True) (cs_calls s))"

definition counter_inv :: "counter_state \<Rightarrow> bool" where
  "counter_inv s \<longleftrightarrow>
     0 \<le> sint (cs_value s) \<and> sint (cs_value s) = int (cs_increments s) - int (decremented s) \<and>
     (\<forall>v. AtSwap v \<in> set (cs_calls s) \<longrightarrow> 0 < sint v)"

lemma decremented_update:
  assumes "i < length ps" "ps ! i \<noteq> Returned True"
  shows "length (filter (\<lambda>p. p = Returned True) (ps[i := q])) =
    length (filter (\<lambda>p. p = Returned True) ps) + (if q = Returned True then 1 else 0)"
  using assms
proof (induction ps arbitrary: i)
  case (Cons p ps)
  then show ?case by (cases i) auto
qed simp

lemma counter_inv_step:
  assumes "counter_step s s'" "counter_inv s" "cs_increments s' < 2 ^ 63"
  shows "counter_inv s'"
  using assms
proof (cases rule: counter_step.cases)
  case increment
  have "sint (cs_value s) \<le> int (cs_increments s)" using assms(2) by (simp add: counter_inv_def)
  moreover have "int (cs_increments s) + 1 < 2 ^ 63" using assms(3) increment by simp
  ultimately have "sint (cs_value s + 1) = sint (cs_value s) + 1" by (intro sint_inc64) linarith
  then show ?thesis using assms(2) increment by (simp add: counter_inv_def decremented_def)
next
  case call
  then show ?thesis using assms(2) by (auto simp: counter_inv_def decremented_def)
next
  case (load_zero i)
  then show ?thesis using assms(2) decremented_update [of i "cs_calls s"]
    by (auto simp: counter_inv_def decremented_def dest: set_update_subset_insert [THEN subsetD])
next
  case (load i)
  then show ?thesis using assms(2) decremented_update [of i "cs_calls s"]
    by (auto simp: counter_inv_def decremented_def dest: set_update_subset_insert [THEN subsetD])
next
  case (swap i v)
  have "AtSwap v \<in> set (cs_calls s)" using swap nth_mem [of i "cs_calls s"] by simp
  then have "0 < sint v" using assms(2) by (simp add: counter_inv_def)
  moreover then have "sint (v - 1) = sint v - 1" by (intro sint_dec64) simp
  ultimately show ?thesis using assms(2) swap decremented_update [of i "cs_calls s"]
    by (auto simp: counter_inv_def decremented_def dest: set_update_subset_insert [THEN subsetD])
next
  case (swap_fails i v)
  then show ?thesis using assms(2) decremented_update [of i "cs_calls s"]
    by (auto simp: counter_inv_def decremented_def dest: set_update_subset_insert [THEN subsetD])
qed

lemma increments_grow: "counter_step s s' \<Longrightarrow> cs_increments s \<le> cs_increments s'"
  by (cases rule: counter_step.cases) auto

lemma counter_reachable_inv:
  "counter_reachable s \<Longrightarrow> cs_increments s < 2 ^ 63 \<Longrightarrow> counter_inv s"
proof (induction rule: counter_reachable.induct)
  case start
  then show ?case by (simp add: counter_inv_def decremented_def)
next
  case (step s s')
  then show ?case using increments_grow [of s s'] counter_inv_step [of s s'] by linarith
qed

section \<open>Counting in sequence\<close>

text \<open>What a meter has been told of a counter.\<close>

definition reported :: "string \<Rightarrow> poker_metric \<Rightarrow> int" where
  "reported name m =
     sum_list (map snd (filter (\<lambda>e. fst e = name) (case pm_meter m of None \<Rightarrow> [] | Some xs \<Rightarrow> xs)))"

definition metric_agrees :: "poker_metric \<Rightarrow> bool" where
  "metric_agrees m \<longleftrightarrow> pm_meter m \<noteq> None \<and>
     0 \<le> sint (pm_activeUsers m) \<and> 0 \<le> sint (pm_activeRooms m) \<and>
     reported PlanningPokerActiveUsersMetric m = sint (pm_activeUsers m) \<and>
     reported PlanningPokerActiveRoomsMetric m = sint (pm_activeRooms m)"

lemmas metric_names =
  PlanningPokerActiveUsersMetric_def PlanningPokerUsersTotalMetric_def PlanningPokerActiveRoomsMetric_def

lemma reported_AddCounter [simp]:
  "pm_meter m \<noteq> None \<Longrightarrow>
   reported name (AddCounter name' v m) = reported name m + (if name' = name then v else 0)"
  by (auto simp: reported_def AddCounter_def)

lemma AddCounter_frame [simp]:
  "pm_activeUsers (AddCounter n v m) = pm_activeUsers m"
  "pm_activeRooms (AddCounter n v m) = pm_activeRooms m"
  "pm_meter (AddCounter n v m) = None \<longleftrightarrow> pm_meter m = None"
  "(\<exists>y. pm_meter (AddCounter n v m) = Some y) \<longleftrightarrow> (\<exists>y. pm_meter m = Some y)"
  by (simp_all add: AddCounter_def)

lemma reported_frame [simp]:
  "reported n (m\<lparr>pm_activeUsers := c\<rparr>) = reported n m"
  "reported n (m\<lparr>pm_activeRooms := c\<rparr>) = reported n m"
  by (simp_all add: reported_def)

lemma metric_agrees_step:
  assumes "metric_agrees m" "sint (pm_activeUsers m) < 2 ^ 63 - 1" "sint (pm_activeRooms m) < 2 ^ 63 - 1"
  shows "metric_agrees (poker_metric_ops o1 m)"
proof (cases o1)
  case DecrementActiveUsers
  then show ?thesis using assms
    by (auto simp: metric_agrees_def pm_DecrementActiveUsers_def decrementIfPositive_def
        sint_dec64 metric_names)
next
  case DecrementActiveRoomsCounter
  then show ?thesis using assms
    by (auto simp: metric_agrees_def pm_DecrementActiveRoomsCounter_def decrementIfPositive_def
        sint_dec64 metric_names)
qed (use assms in \<open>auto simp: metric_agrees_def pm_IncrementUsersTotal_def pm_IncrementActiveUsers_def
       pm_IncrementActiveRoomsCounter_def sint_inc64 metric_names\<close>)

lemma metric_step_bound:
  assumes "metric_agrees m" "sint (pm_activeUsers m) \<le> n" "sint (pm_activeRooms m) \<le> n"
    and "n + 1 < 2 ^ 63"
  shows "sint (pm_activeUsers (poker_metric_ops o1 m)) \<le> n + 1"
    "sint (pm_activeRooms (poker_metric_ops o1 m)) \<le> n + 1"
  using assms
  by (cases o1; auto simp: metric_agrees_def pm_IncrementUsersTotal_def pm_IncrementActiveUsers_def
      pm_DecrementActiveUsers_def pm_DecrementActiveRoomsCounter_def decrementIfPositive_def
      pm_IncrementActiveRoomsCounter_def sint_inc64 sint_dec64)+

lemma metric_run:
  assumes "metric_agrees m" "sint (pm_activeUsers m) \<le> n" "sint (pm_activeRooms m) \<le> n"
    and "n + int (length ops) < 2 ^ 63"
  shows "metric_agrees (fold poker_metric_ops ops m)"
  using assms
proof (induction ops arbitrary: m n)
  case (Cons o1 ops)
  have "metric_agrees (poker_metric_ops o1 m)"
    using Cons.prems by (intro metric_agrees_step) auto
  moreover note metric_step_bound [OF Cons.prems(1-3), of o1]
  ultimately show ?case using Cons.IH [of "poker_metric_ops o1 m" "n + 1"] Cons.prems(4) by simp
qed simp

section \<open>The loop ends\<close>

text \<open>A step of a goroutine that has called: no new call and no increment interferes.\<close>

definition settle :: "counter_state \<Rightarrow> counter_state \<Rightarrow> bool" where
  "settle s s' \<longleftrightarrow> counter_step s s' \<and> length (cs_calls s') = length (cs_calls s)
     \<and> cs_increments s' = cs_increments s"

text \<open>How far a goroutine is from its next swap, while the counter stays as it is; a goroutine
  that has returned counts nothing, one that has not, one more than any distance.\<close>

fun distance :: "64 word \<Rightarrow> dec_pc \<Rightarrow> nat" where
  "distance c AtLoad = 1"
| "distance c (AtSwap v) = (if v = c then 0 else 2)"
| "distance c (Returned b) = 0"

definition pending :: "counter_state \<Rightarrow> nat" where
  "pending s = length (filter (\<lambda>p. \<forall>b. p \<noteq> Returned b) (cs_calls s))"

definition distances :: "64 word \<Rightarrow> dec_pc list \<Rightarrow> nat" where
  "distances c ps = sum_list (map (distance c) ps)"

definition work :: "counter_state \<Rightarrow> nat" where
  "work s = pending s * (2 * length (cs_calls s) + 1) + distances (cs_value s) (cs_calls s)"

lemma distances_update:
  "i < length ps \<Longrightarrow> distances c (ps[i := q]) + distance c (ps ! i) = distances c ps + distance c q"
  unfolding distances_def
  by (induction ps arbitrary: i) (auto simp: nth_Cons split: nat.splits)

lemma distances_bound: "distances c ps \<le> 2 * length ps"
proof (induction ps)
  case (Cons p ps)
  have "distance c p \<le> 2" by (cases p) auto
  with Cons show ?case by (simp add: distances_def)
qed (simp add: distances_def)

lemma pending_update:
  assumes "i < length ps" "\<forall>b. ps ! i \<noteq> Returned b"
  shows "length (filter (\<lambda>p. \<forall>b. p \<noteq> Returned b) (ps[i := q])) + (if \<exists>b. q = Returned b then 1 else 0) =
    length (filter (\<lambda>p. \<forall>b. p \<noteq> Returned b) ps)"
  using assms
proof (induction ps arbitrary: i)
  case (Cons p ps)
  then show ?case by (cases i) auto
qed simp

lemma returned_work:
  assumes "i < length (cs_calls s)" "\<forall>b. cs_calls s ! i \<noteq> Returned b"
  shows "work (s\<lparr>cs_value := c, cs_calls := (cs_calls s)[i := Returned b]\<rparr>) < work s"
proof -
  let ?n = "2 * length (cs_calls s) + 1"
  have p: "pending s = Suc (pending (s\<lparr>cs_value := c, cs_calls := (cs_calls s)[i := Returned b]\<rparr>))"
    using pending_update [OF assms, of "Returned b"] by (simp add: pending_def)
  have "distances c ((cs_calls s)[i := Returned b]) < ?n"
    using distances_bound [of c "(cs_calls s)[i := Returned b]"] by simp
  then show ?thesis unfolding work_def p by simp
qed

lemma settle_work: "settle s s' \<Longrightarrow> work s' < work s"
  unfolding settle_def
proof (elim conjE, erule counter_step.cases)
  fix t i
  assume "s = t" "s' = t\<lparr>cs_calls := (cs_calls t)[i := Returned False]\<rparr>" "i < length (cs_calls t)"
    "cs_calls t ! i = AtLoad"
  then show ?thesis using returned_work [of i t, where c = "cs_value t" and b = False] by simp
next
  fix t i v
  assume "s = t" "s' = t\<lparr>cs_value := v - 1, cs_calls := (cs_calls t)[i := Returned True]\<rparr>"
    "i < length (cs_calls t)" "cs_calls t ! i = AtSwap v"
  then show ?thesis using returned_work [of i t, where c = "v - 1" and b = True] by simp
next
  fix t i
  assume t: "s = t" "s' = t\<lparr>cs_calls := (cs_calls t)[i := AtSwap (cs_value t)]\<rparr>" "i < length (cs_calls t)"
    "cs_calls t ! i = AtLoad"
  then show ?thesis
    using pending_update [of i "cs_calls t" "AtSwap (cs_value t)"]
      distances_update [OF t(3), of "cs_value t" "AtSwap (cs_value t)"]
    by (simp add: work_def pending_def)
next
  fix t i v
  assume t: "s = t" "s' = t\<lparr>cs_calls := (cs_calls t)[i := AtLoad]\<rparr>" "i < length (cs_calls t)"
    "cs_calls t ! i = AtSwap v" "cs_value t \<noteq> v"
  then show ?thesis
    using pending_update [of i "cs_calls t" AtLoad] distances_update [OF t(3), of "cs_value t" AtLoad]
    by (auto simp: work_def pending_def)
qed auto

lemma settle_enabled:
  assumes "i < length (cs_calls s)" "\<forall>b. cs_calls s ! i \<noteq> Returned b"
  shows "\<exists>s'. settle s s'"
proof (cases "cs_calls s ! i")
  case AtLoad
  with assms show ?thesis
    by (cases "sint (cs_value s) \<le> 0")
      (fastforce simp: settle_def intro: counter_step.load_zero counter_step.load)+
next
  case (AtSwap v)
  with assms show ?thesis
    by (cases "cs_value s = v")
      (fastforce simp: settle_def intro: counter_step.swap counter_step.swap_fails)+
qed (use assms in simp)

lemma settle_run: "(settle ^^ k) s s' \<Longrightarrow> k + work s' \<le> work s"
proof (induction k arbitrary: s')
  case (Suc k)
  then obtain t where "(settle ^^ k) s t" "settle t s'" by auto
  then show ?case using Suc.IH [of t] settle_work [of t s'] by linarith
qed simp

end
