(* ===== verification/System.thy ===== *)
theory System
  imports Websocket_Bus InMemory_Hub Locks Metric Room_Machine
begin

text \<open>
  The program put together without Redis, the way \<open>internal/setup/container.go\<close> does for tests
  (\<open>NewContainerWithInfra\<close>): the in-memory hub, lock manager and ledger, the counters, the use
  cases and the connections of the clients, over one world. It is what the properties of single
  components are run on.

  The world is the hub, with everything else in its \<open>im_net\<close>. A socket records the frames written
  to it, and fails every write once it is broken; \<open>uuid.Parse\<close> accepts the identifiers listed.
\<close>

record net =
  net_flags :: "nat \<Rightarrow> ws_flags"
  net_broken :: "nat \<Rightarrow> bool"
  net_sent :: "(nat \<times> server_message) list"
  net_ledger :: mem_ledger
  net_metric :: poker_metric
  net_locked :: "string \<Rightarrow> bool"
  net_now :: int

type_synonym world = "net im_hub"

text \<open>\<open>CommandPendingTTL\<close> and \<open>CommandResultTTL\<close>: 30 seconds and 5 minutes.\<close>

definition CommandPendingTTL :: int where "CommandPendingTTL = 30 * 10 ^ 9"
definition CommandResultTTL :: int where "CommandResultTTL = 5 * 60 * 10 ^ 9"

definition new_net :: "int \<Rightarrow> net" where
  "new_net now =
     \<lparr>net_flags = (\<lambda>_. new_flags), net_broken = (\<lambda>_. False), net_sent = [],
      net_ledger = mem_New CommandPendingTTL CommandResultTTL,
      net_metric = NewPlanningPokerMetricWithMeter (Some []), net_locked = (\<lambda>_. False), net_now = now\<rparr>"

definition new_world :: "int \<Rightarrow> world" where
  "new_world now = NewHub (new_net now)"

definition on_net :: "(net \<Rightarrow> net) \<Rightarrow> world \<Rightarrow> world" where
  "on_net f w = w\<lparr>im_net := f (im_net w)\<rparr>"

section \<open>Sockets\<close>

definition net_write :: "bus \<Rightarrow> server_message \<Rightarrow> (world, unit) call" where
  "net_write b msg = (\<lambda>w.
     if net_broken (im_net w) (bus_ref b) then (Inl (New ''broken pipe''), w)
     else (Inr (), on_net (\<lambda>n. n\<lparr>net_sent := net_sent n @ [(bus_ref b, msg)]\<rparr>) w))"

text \<open>The client of a connection; connections are numbered.\<close>

definition net_socket :: "(nat \<Rightarrow> string) \<Rightarrow> world socket" where
  "net_socket ids =
     \<lparr>wsFlags = (\<lambda>b w. net_flags (im_net w) (bus_ref b)),
      wsSetFlags = (\<lambda>b fl. on_net (\<lambda>n. n\<lparr>net_flags := (net_flags n)(bus_ref b := fl)\<rparr>)),
      wsID = (\<lambda>b. ids (bus_ref b)),
      wsWrite = net_write,
      wsCloseConn = (\<lambda>b w. (None, w))\<rparr>"

section \<open>The infrastructure and the use cases\<close>

definition sys_hub :: "(nat \<Rightarrow> string) \<Rightarrow> clock \<Rightarrow> string \<Rightarrow> world hub" where
  "sys_hub ids clk uuid = im_hub_ops (ws_Send (net_socket ids)) clk uuid (clk 0)"

definition sys_lock :: "(world, 'a) with_lock" where
  "sys_lock = im_WithLock (\<lambda>key w. net_locked (im_net w) key)
     (\<lambda>key v. on_net (\<lambda>n. n\<lparr>net_locked := (net_locked n)(key := v)\<rparr>))"

definition sys_metric :: "world metric" where
  "sys_metric m = on_net (\<lambda>n. n\<lparr>net_metric := poker_metric_ops m (net_metric n)\<rparr>)"

definition sys_ledger :: "world ledger" where
  "sys_ledger =
     \<lparr>lClaim = (\<lambda>r c i w. case mem_Claim (net_now (im_net w)) r c i (net_ledger (im_net w)) of
        (res, l) \<Rightarrow> (res, on_net (\<lambda>n. n\<lparr>net_ledger := l\<rparr>) w)),
      lComplete = (\<lambda>r c i m w. case mem_Complete (net_now (im_net w)) r c i m (net_ledger (im_net w)) of
        (res, l) \<Rightarrow> (res, on_net (\<lambda>n. n\<lparr>net_ledger := l\<rparr>) w))\<rparr>"

definition sys_facade :: "(nat \<Rightarrow> string) \<Rightarrow> clock \<Rightarrow> string \<Rightarrow> world facade" where
  "sys_facade ids clk uuid =
     use_cases clk uuid (sort_key client_Name) (sys_hub ids clk uuid) sys_lock sys_metric"

definition sys_env :: "(nat \<Rightarrow> string) \<Rightarrow> clock \<Rightarrow> string \<Rightarrow> string list \<Rightarrow> world ws_env" where
  "sys_env ids clk uuid uuids = socket.extend (net_socket ids)
     \<lparr>wsHub = sys_hub ids clk uuid, wsUsecases = sys_facade ids clk uuid, wsLedger = Some sys_ledger,
      wsParseUUID = (\<lambda>s. if s \<in> set uuids then Some s else None), wsBig = id\<rparr>"

definition sys_join ::
  "(nat \<Rightarrow> string) \<Rightarrow> clock \<Rightarrow> string \<Rightarrow> string list \<Rightarrow> string \<Rightarrow> nat \<Rightarrow> (world, ref) call" where
  "sys_join ids clk uuid uuids roomID conn =
     JoinRoom_Execute (sort_key client_Name) (sys_hub ids clk uuid) sys_lock sys_metric
       (ws_bus_ops (sys_env ids clk uuid uuids)) roomID (ids conn) (Bus conn roomID)"

section \<open>What the use cases leave alone\<close>

text \<open>\<open>keeps f m\<close>: the call \<open>m\<close> does not change what \<open>f\<close> sees of the state.\<close>

definition keeps :: "('w \<Rightarrow> 'v) \<Rightarrow> ('w, 'a) call \<Rightarrow> bool" where
  "keeps f m \<longleftrightarrow> (\<forall>w. f (snd (m w)) = f w)"

named_theorems keeps_intros \<open>calls that leave the core of the world alone\<close>

lemma keepsI: "(\<And>w res w'. m w = (res, w') \<Longrightarrow> f w' = f w) \<Longrightarrow> keeps f m"
  unfolding keeps_def by (metis prod.collapse)

lemma keepsD: "keeps f m \<Longrightarrow> m w = (res, w') \<Longrightarrow> f w' = f w"
  unfolding keeps_def by (metis snd_conv)

lemma keeps_andThen [keeps_intros]:
  "keeps f m \<Longrightarrow> (\<And>a. keeps f (k a)) \<Longrightarrow> keeps f (andThen m k)"
  unfolding keeps_def by (metis andThen_cases snd_conv)

lemma keeps_fail [keeps_intros]: "keeps f (fail e)"
  by (simp add: keeps_def)

lemma keeps_lift_update: "(\<And>w. f (g w) = f w) \<Longrightarrow> keeps f (lift_update g)"
  by (simp add: keeps_def)

text \<open>The core: connections, clock and ledger, which only connections touch.\<close>

definition core :: "world \<Rightarrow> (nat \<Rightarrow> ws_flags) \<times> (nat \<Rightarrow> bool) \<times> mem_ledger \<times> int" where
  "core w = (net_flags (im_net w), net_broken (im_net w), net_ledger (im_net w), net_now (im_net w))"

lemma core_net: "im_net w' = im_net w \<Longrightarrow> core w' = core w"
  by (simp add: core_def)

lemma keeps_send [keeps_intros]: "keeps core (ws_Send (net_socket ids) b msg)"
  by (rule keepsI) (auto simp: ws_Send_def net_socket_def net_write_def on_net_def core_def split: if_splits)

lemma keeps_broadcast_loop: "keeps core (im_broadcast_loop (ws_Send (net_socket ids)) msg cs)"
proof (induction cs)
  case Nil
  then show ?case by (simp add: keeps_def)
next
  case (Cons c cs)
  show ?case
  proof (rule keepsI)
    fix w res w'
    assume run: "im_broadcast_loop (ws_Send (net_socket ids)) msg (c # cs) w = (res, w')"
    show "core w' = core w"
    proof (cases "im_GetBus (client_ID c) w")
      case None
      with run keepsD [OF Cons] show ?thesis by simp
    next
      case (Some b)
      obtain r1 w1 where send: "ws_Send (net_socket ids) b msg w = (r1, w1)" by fastforce
      from run Some send keepsD [OF keeps_send send] keepsD [OF Cons]
      show ?thesis by (cases r1) auto
    qed
  qed
qed

lemma keeps_load [keeps_intros]: "keeps core (hLoadRoom (sys_hub ids clk uuid) i)"
  by (rule keepsI, rule core_net)
    (auto simp: sys_hub_def im_hub_ops_def im_LoadRoom_def split: option.splits)

lemma keeps_save [keeps_intros]: "keeps core (hSaveRoom (sys_hub ids clk uuid) ref)"
  by (rule keepsI, rule core_net)
    (auto simp: sys_hub_def im_hub_ops_def im_SaveRoom_def im_assign_def Let_def)

lemma keeps_save_if [keeps_intros]: "keeps core (hSaveRoomIfVersion (sys_hub ids clk uuid) ref v)"
  by (rule keepsI, rule core_net)
    (auto simp: sys_hub_def im_hub_ops_def im_SaveRoomIfVersion_def im_assign_def Let_def
      split: option.splits if_splits)

lemma keeps_remove [keeps_intros]: "keeps core (hRemoveClient (sys_hub ids clk uuid) c i)"
  by (rule keepsI, rule core_net)
    (auto simp: sys_hub_def im_hub_ops_def im_RemoveClient_def im_RemoveBus_def im_LoadRoom_def
      im_assign_def im_RemoveRoom_def Let_def split: option.splits if_splits prod.splits)

lemma keeps_broadcast [keeps_intros]: "keeps core (hBroadcastToRoom (sys_hub ids clk uuid) i msg)"
proof (rule keepsI)
  fix w res w'
  assume "hBroadcastToRoom (sys_hub ids clk uuid) i msg w = (res, w')"
  then show "core w' = core w"
    using keepsD [OF keeps_broadcast_loop]
    by (auto simp: sys_hub_def im_hub_ops_def im_BroadcastToRoom_def im_LoadRoom_def split: option.splits)
qed

lemma core_assign [simp]: "core (hAssign (sys_hub ids clk uuid) ref r w) = core w"
  by (simp add: sys_hub_def im_hub_ops_def im_assign_def core_def)

lemma keeps_on_room [keeps_intros]: "keeps core (on_room (sys_hub ids clk uuid) ref op)"
  by (rule keepsI) (auto simp: on_room_def split: option.splits)

lemma keeps_broadcastState [keeps_intros]: "keeps core (broadcastState srt (sys_hub ids clk uuid) ref)"
proof (rule keepsI)
  fix w res w'
  assume "broadcastState srt (sys_hub ids clk uuid) ref w = (res, w')"
  then show "core w' = core w"
    using keepsD [OF keeps_broadcast] by (fastforce simp: broadcastState_def split: option.splits)
qed

lemma keeps_change_room [keeps_intros]:
  "(\<And>ref. keeps core (save ref)) \<Longrightarrow> keeps core (change_room srt (sys_hub ids clk uuid) i op save)"
  unfolding change_room_def by (intro keeps_intros)

lemma core_metric [simp]: "core (sys_metric m w) = core w"
  by (simp add: sys_metric_def on_net_def core_def)

lemma keeps_lock [keeps_intros]: "keeps core fn \<Longrightarrow> keeps core (sys_lock key fn)"
proof (rule keepsI)
  fix w res w'
  assume fn: "keeps core fn" and run: "sys_lock key fn w = (res, w')"
  have set: "core (on_net (\<lambda>n. n\<lparr>net_locked := q n\<rparr>) u) = core u" for q u
    by (simp add: on_net_def core_def)
  obtain r1 w1 where 1: "fn (on_net (\<lambda>n. n\<lparr>net_locked := (net_locked n)(key := True)\<rparr>) w) = (r1, w1)"
    by fastforce
  from keepsD [OF fn 1] have "core w1 = core w" by (simp add: set)
  with run 1 show "core w' = core w"
    by (auto simp: sys_lock_def im_WithLock_def set split: if_splits)
qed

lemma keeps_leave [keeps_intros]:
  "keeps core (LeaveRoom_Execute srt (sys_hub ids clk uuid) sys_lock sys_metric i c)"
  unfolding LeaveRoom_Execute_def
proof (intro keeps_intros)
  fix a
  show "keeps core (\<lambda>w. let w1 = sys_metric DecrementActiveUsers w
      in case hLoadRoom (sys_hub ids clk uuid) i w1 of
           (Inr room, w2) \<Rightarrow> broadcastState srt (sys_hub ids clk uuid) room w2
         | (Inl e, w2) \<Rightarrow> if errors_is RoomNotFound e then (Inr (), sys_metric DecrementActiveRoomsCounter w2)
             else (Inl e, w2))"
  proof (rule keepsI)
    fix w res w'
    assume run: "(let w1 = sys_metric DecrementActiveUsers w
      in case hLoadRoom (sys_hub ids clk uuid) i w1 of
           (Inr room, w2) \<Rightarrow> broadcastState srt (sys_hub ids clk uuid) room w2
         | (Inl e, w2) \<Rightarrow> if errors_is RoomNotFound e then (Inr (), sys_metric DecrementActiveRoomsCounter w2)
             else (Inl e, w2)) = (res, w')"
    obtain r2 w2 where load: "hLoadRoom (sys_hub ids clk uuid) i (sys_metric DecrementActiveUsers w) = (r2, w2)"
      by fastforce
    from keepsD [OF keeps_load load] have "core w2 = core w" by simp
    with run load keepsD [OF keeps_broadcastState] show "core w' = core w"
      by (cases r2) (auto simp: Let_def split: if_splits)
  qed
qed

text \<open>Every command of a client leaves the core alone.\<close>

lemma keeps_withPayload [keeps_intros]:
  "(\<And>x. keeps g (f x)) \<Longrightarrow> keeps g (withPayload big d p f)"
  by (cases rule: withPayload_cases [of big d p f]) (simp_all add: keeps_fail)

lemma keeps_withExpectedRoomVersion [keeps_intros]:
  "(\<And>v. keeps g (f v)) \<Longrightarrow> keeps g (withExpectedRoomVersion big p f)"
  by (cases rule: withExpectedRoomVersion_cases [of big p f]) (simp_all add: keeps_fail)

lemma keeps_prod [keeps_intros]: "(\<And>a b. keeps g (f a b)) \<Longrightarrow> keeps g (case x of (a, b) \<Rightarrow> f a b)"
  by (cases x) simp

lemmas use_case_defs =
  UpdateName_Execute_def Vote_Execute_def Reveal_Execute_def Reset_Execute_def
  ToggleSpectator_Execute_def ToggleOwner_Execute_def UpdateStory_Execute_def VoteAgain_Execute_def
  ToggleBacklogMode_Execute_def AddStory_Execute_def RemoveStory_Execute_def AdvanceStory_Execute_def
  PrevStory_Execute_def SelectStory_Execute_def ReorderStory_Execute_def

lemma keeps_command:
  assumes "mapUsecases big (sys_facade ids clk uuid) c i t = Some f"
  shows "keeps core (f p)"
  using assms
  by (auto simp: mapUsecases_def sys_facade_def use_cases_def use_case_defs Let_def
      intro!: keeps_intros split: if_splits)

section \<open>Answers\<close>

lemma fst_eqD_pair: "fst p = a \<Longrightarrow> p = (a, snd p)"
  by (cases p) simp

lemma sys_env_fields [simp]:
  "wsFlags (sys_env ids clk uuid uuids) = wsFlags (net_socket ids)"
  "wsSetFlags (sys_env ids clk uuid uuids) = wsSetFlags (net_socket ids)"
  "wsID (sys_env ids clk uuid uuids) = (\<lambda>b. ids (bus_ref b))"
  "wsWrite (sys_env ids clk uuid uuids) = net_write"
  "wsCloseConn (sys_env ids clk uuid uuids) = (\<lambda>b w. (None, w))"
  "wsHub (sys_env ids clk uuid uuids) = sys_hub ids clk uuid"
  "wsUsecases (sys_env ids clk uuid uuids) = sys_facade ids clk uuid"
  "wsLedger (sys_env ids clk uuid uuids) = Some sys_ledger"
  "wsParseUUID (sys_env ids clk uuid uuids) s = (if s \<in> set uuids then Some s else None)"
  "wsBig (sys_env ids clk uuid uuids) = id"
  by (simp_all add: sys_env_def socket.defs net_socket_def)

lemma sys_sendRaw [simp]: "ws_sendRaw (sys_env ids clk uuid uuids) = ws_sendRaw (net_socket ids)"
  by (simp add: ws_sendRaw_def fun_eq_iff net_socket_def)

lemma core_sendRaw [simp]: "core (ignoring (ws_sendRaw (net_socket ids) b msg) w) = core w"
proof -
  have "ws_sendRaw (net_socket ids) b msg = ws_Send (net_socket ids) b msg"
    by (simp add: ws_sendRaw_def ws_Send_def)
  then show ?thesis using keeps_send by (simp add: keeps_def ignoring_def)
qed

lemma keeps_roomVersion: "keeps core (ws_roomVersion (sys_env ids clk uuid uuids) b)"
  unfolding ws_roomVersion_def sys_env_fields
  by (intro keeps_intros) (simp add: keeps_def)

text \<open>However a command ends, an answer is stored and then sent, and nothing else of the core
  changes.\<close>

lemma finish_answers:
  "\<exists>answer w0. core w0 = core w \<and> ws_finishAck (sys_env ids clk uuid uuids) sys_ledger b i w =
     ws_finishCommand (sys_env ids clk uuid uuids) sys_ledger b i answer w0" (is ?ack)
  "\<exists>answer w0. core w0 = core w \<and> ws_finishError (sys_env ids clk uuid uuids) sys_ledger b i err w =
     ws_finishCommand (sys_env ids clk uuid uuids) sys_ledger b i answer w0" (is ?error)
proof -
  obtain res w1 where v: "ws_roomVersion (sys_env ids clk uuid uuids) b w = (res, w1)" by fastforce
  with keepsD [OF keeps_roomVersion] have w1: "core w1 = core w" by blast
  show ?ack using v w1 by (cases res) (auto simp: ws_finishAck_def Let_def)
  show ?error
  proof (cases "ce_Code (commandErrorFor i err) = CommandErrorCodeStaleVersion")
    case True
    with v w1 show ?thesis by (cases res) (auto simp: ws_finishError_def Let_def)
  next
    case False
    then show ?thesis by (auto simp: ws_finishError_def Let_def)
  qed
qed

lemma finishCommand_stores:
  assumes "mem_good p q (net_ledger (im_net w))"
    and "w1 = ws_finishCommand (sys_env ids clk uuid uuids) sys_ledger b i answer w"
  shows "mem_good p q (net_ledger (im_net w1)) \<and> net_now (im_net w1) = net_now (im_net w)
    \<and> mem_entry (net_ledger (im_net w1)) (entryKey (bus_RoomID b) (ids (bus_ref b)) i) =
        Some (Some answer, net_now (im_net w) + q)
    \<and> (\<exists>w0. w1 = ignoring (ws_sendRaw (net_socket ids) b answer) w0)"
proof -
  obtain l where l: "mem_Complete (net_now (im_net w)) (bus_RoomID b) (ids (bus_ref b)) i answer
      (net_ledger (im_net w)) = (Inr (), l)" "mem_good p q l"
    "mem_entry l = (mem_entry (net_ledger (im_net w)))
      (entryKey (bus_RoomID b) (ids (bus_ref b)) i := Some (Some answer, net_now (im_net w) + q))"
    using mem.completes [OF assms(1)] by blast
  let ?w0 = "on_net (\<lambda>n. n\<lparr>net_ledger := l\<rparr>) w"
  have w1: "w1 = ignoring (ws_sendRaw (net_socket ids) b answer) ?w0"
    using assms(2) l(1) by (simp add: ws_finishCommand_def sys_ledger_def)
  then have "core w1 = core ?w0" by simp
  then have "net_ledger (im_net w1) = l" "net_now (im_net w1) = net_now (im_net w)"
    by (simp_all add: core_def on_net_def)
  with l w1 show ?thesis by auto
qed

text \<open>A command that gets the reservation is answered and its answer stored.\<close>

lemma first_answer:
  assumes f: "mapUsecases id (sys_facade ids clk uuid) (ids (bus_ref b)) (bus_RoomID b) t = Some f"
    and i: "i \<in> set uuids" "wm_CommandID msg = i"
    and good: "mem_good p q (net_ledger (im_net w))"
    and fresh: "\<forall>v u. mem_entry (net_ledger (im_net w)) (entryKey (bus_RoomID b) (ids (bus_ref b)) i) =
        Some (v, u) \<longrightarrow> u \<le> net_now (im_net w)"
    and run: "ws_processCommand (sys_env ids clk uuid uuids) b f msg w = (Inr (), w1)"
  shows "\<exists>answer w0. w1 = ignoring (ws_sendRaw (net_socket ids) b answer) w0
    \<and> mem_good p q (net_ledger (im_net w1)) \<and> net_now (im_net w1) = net_now (im_net w)
    \<and> mem_entry (net_ledger (im_net w1)) (entryKey (bus_RoomID b) (ids (bus_ref b)) i) =
        Some (Some answer, net_now (im_net w) + q)"
proof -
  obtain l where l: "mem_Claim (net_now (im_net w)) (bus_RoomID b) (ids (bus_ref b)) i
      (net_ledger (im_net w)) = (Inr None, l)" "mem_good p q l"
    using mem.claim_free [OF good fresh] by blast
  let ?w0 = "on_net (\<lambda>n. n\<lparr>net_ledger := l\<rparr>) w"
  obtain res w2 where u: "f (wm_Payload msg) ?w0 = (res, w2)" by fastforce
  with keepsD [OF keeps_command [OF f]] have "core w2 = core ?w0" by blast
  then have w2: "mem_good p q (net_ledger (im_net w2))" "net_now (im_net w2) = net_now (im_net w)"
    using l(2) by (simp_all add: core_def on_net_def)
  let ?E = "sys_env ids clk uuid uuids"
  have "w1 = ws_finishAck ?E sys_ledger b i w2 \<or> (\<exists>e. w1 = ws_finishError ?E sys_ledger b i e w2)"
    using run i l(1) u
    by (cases res) (auto simp: ws_processCommand_def sys_ledger_def split: if_splits)
  then obtain answer w3 where w3: "core w3 = core w2" "w1 = ws_finishCommand ?E sys_ledger b i answer w3"
    using finish_answers [of w2 ids clk uuid uuids b i] by metis
  then have "mem_good p q (net_ledger (im_net w3))" "net_now (im_net w3) = net_now (im_net w)"
    using w2 by (simp_all add: core_def)
  with finishCommand_stores [OF this(1) w3(2)] show ?thesis by auto
qed

section \<open>A session\<close>

text \<open>A hub that holds the sample room, whose client \<open>ann\<close> is connected and votes by a command.\<close>

definition demo_ids :: "nat \<Rightarrow> string" where
  "demo_ids n = (if n = 0 then ''ann'' else ''bob'')"

definition demo_env :: "world ws_env" where
  "demo_env = sys_env demo_ids sample_clock ''story-1'' [''c1'', ''c2'']"

definition demo_vote :: WebSocketMessage where
  "demo_vote = \<lparr>wm_Type = ''vote'', wm_CommandID = ''c1'', wm_Payload = JObj [(''vote'', JStr ''5'')]\<rparr>"

definition demo_joined :: world where
  "demo_joined = (new_world 5)\<lparr>im_heap := [sample_room], im_Rooms := [''room'' \<mapsto> 0],
     im_Clients := [''ann'' \<mapsto> (0, ''ann'')], im_Buses := [''ann'' \<mapsto> Bus 0 ''room''],
     im_saved := [''room'' \<mapsto> sample_room]\<rparr>"

definition demo_voted :: world where
  "demo_voted = snd (ws_process demo_env (Bus 0 ''room'') demo_vote demo_joined)"

end
