(* ===== verification/System_Properties.thy ===== *)
theory System_Properties
  imports System
begin

text \<open>
  What connections, ledgers, locks and counters guarantee: commands that run once, answers that can be
  replayed, errors that are safe to send, connections that close once, and exclusion.
\<close>

section \<open>Commands run once\<close>


definition demo_calls :: "ledger_call list" where
  "demo_calls = [ClaimAt 0 ''r'' ''a'' ''c'', ClaimAt 3 ''r'' ''a'' ''c'', CompleteAt 4 ''r'' ''a'' ''c'' Kicked,
     ClaimAt 8 ''r'' ''a'' ''c'', ClaimAt 40 ''r'' ''a'' ''c'']"




section \<open>Dispatch and errors\<close>

text \<open>the dispatch table of a connection, the generated list of client commands, its test and
  the generated payload constructors name the same fifteen commands; no message of the server has
  the type of a command.\<close>

theorem dispatch_matches_protocol:
  "(mapUsecases big U c r t \<noteq> None) = (t \<in> set ClientCommandTypes)
   \<and> IsClientCommandType t = (t \<in> set ClientCommandTypes)
   \<and> (NewClientCommandPayload t \<noteq> None) = (t \<in> set ClientCommandTypes)
   \<and> distinct ClientCommandTypes \<and> length ClientCommandTypes = 15
   \<and> message_Type m \<in> set ServerEventTypes \<and> message_Type m \<notin> set ClientCommandTypes"
proof -
  have "(NewClientCommandPayload t \<noteq> None) = IsClientCommandType t"
    by (simp add: NewClientCommandPayload_def IsClientCommandType_def)
  moreover have "message_Type m \<notin> set ClientCommandTypes"
    by (cases m) (simp_all add: ClientCommandTypes_def)
  moreover have "distinct ClientCommandTypes" "length ClientCommandTypes = 15"
    by (simp_all add: ClientCommandTypes_def)
  ultimately show ?thesis
    using mapUsecases_dom [of big U c r t] message_Type_server [of m]
    by (simp add: IsClientCommandType_iff IsServerEventType_iff)
qed


section \<open>Connections\<close>

text \<open>closing a connection is final: afterwards it is closed, closing it again does nothing and
  returns no error, and nothing can be sent through it. A connection that was detached first closes
  without its client leaving the room: apart from its flags nothing changes.\<close>

theorem close_is_final:
  assumes closed: "ws_closeOnce (wsFlags (sys_env ids clk uuid uuids) b w) \<longrightarrow>
      ws_closed (wsFlags (sys_env ids clk uuid uuids) b w)"
    and close: "ws_Close (sys_env ids clk uuid uuids) b w = (res, w1)"
  shows "ws_closed (wsFlags (sys_env ids clk uuid uuids) b w1)
    \<and> ws_Close (sys_env ids clk uuid uuids) b w1 = (Inr (), w1)
    \<and> ws_Send (sys_env ids clk uuid uuids) b msg w1 = (Inl (New ''connection closed''), w1)
    \<and> (ws_skipCleanup (wsFlags (sys_env ids clk uuid uuids) b w) \<longrightarrow>
        res = Inr () \<and> (\<exists>fl. w1 = wsSetFlags (sys_env ids clk uuid uuids) b fl w))"
proof (cases "ws_closeOnce (wsFlags (sys_env ids clk uuid uuids) b w)")
  case True
  have w1: "w1 = w" "res = Inr ()" using close ws_Close_once [OF True] by simp_all
  have "w = wsSetFlags (sys_env ids clk uuid uuids) b (wsFlags (sys_env ids clk uuid uuids) b w) w"
    by (simp add: net_socket_def on_net_def)
  with w1 True closed ws_Close_once [OF True] show ?thesis by (auto simp: ws_Send_def)
next
  case False
  let ?E = "sys_env ids clk uuid uuids"
  let ?fl = "(wsFlags ?E b w)\<lparr>ws_closed := True, ws_closeOnce := True\<rparr>"
  let ?w0 = "wsSetFlags ?E b ?fl w"
  have set: "wsFlags ?E b ?w0 = ?fl" by (simp add: net_socket_def on_net_def)
  have flags: "wsFlags ?E b w1 = ?fl \<and> (ws_skipCleanup ?fl \<longrightarrow> res = Inr () \<and> w1 = ?w0)"
  proof (cases "ws_skipCleanup ?fl")
    case True
    then have "res = Inr () \<and> w1 = ?w0"
      using close False set by (simp add: ws_Close_def Let_def errors_Join_def)
    with set show ?thesis by simp
  next
    case skip: False
    obtain left w2 where leave: "ws_leaveRoom ?E b ?w0 = (left, w2)" by fastforce
    have "core w2 = core ?w0"
      using keepsD [OF keeps_leave] leave by (simp add: ws_leaveRoom_def sys_facade_def use_cases_def)
    then have "wsFlags ?E b w2 = ?fl" using set by (simp add: core_def net_socket_def)
    moreover have "w1 = w2"
      using close False set skip leave
      by (auto simp: ws_Close_def Let_def split: if_splits option.splits)
    ultimately show ?thesis using skip by simp
  qed
  then have "ws_Close ?E b w1 = (Inr (), w1)" by (intro ws_Close_once) simp
  with flags show ?thesis by (auto simp: ws_Send_def)
qed

theorem close_is_final_witness:
  "\<exists>res w1. ws_Close demo_env (Bus 0 ''room'') demo_joined = (res, w1)
    \<and> ws_Close demo_env (Bus 0 ''room'') w1 = (Inr (), w1)
    \<and> ws_Send demo_env (Bus 0 ''room'') Kicked w1 = (Inl (New ''connection closed''), w1)"
proof -
  obtain res w1 where close: "ws_Close demo_env (Bus 0 ''room'') demo_joined = (res, w1)" by fastforce
  have "\<not> ws_closeOnce (wsFlags (sys_env demo_ids sample_clock ''story-1'' [''c1'', ''c2'']) (Bus 0 ''room'') demo_joined)"
    by (simp add: demo_joined_def new_world_def new_net_def NewHub_def net_socket_def new_flags_def)
  with close_is_final [OF _ close [unfolded demo_env_def]] close show ?thesis
    by (auto simp: demo_env_def)
qed

section \<open>Exclusion and counting\<close>

text \<open>C18: with the in-memory lock manager no two goroutines are inside the function of the same key
  at the same time, and functions of different keys do not wait for one another: the mutex of a key
  that nobody is inside of is free.\<close>

theorem memory_lock_excludes:
  assumes "im_reachable s"
  shows "(il_pc s g = Inside key m \<and> il_pc s g' = Inside key m' \<longrightarrow> g = g')
    \<and> (il_pc s g = GotLock key m \<and> (\<forall>g' m'. il_pc s g' \<noteq> Inside key m') \<longrightarrow> il_held s m = None)"
proof -
  note D = im_invD [OF im_reachable_inv [OF assms]]
  have "g = g'" if "il_pc s g = Inside key m" "il_pc s g' = Inside key m'"
  proof -
    have "m = m'" using D(2) [OF that(1)] D(2) [OF that(2)] by simp
    with D(3) [OF that(1)] D(3) [OF that(2)] show ?thesis by simp
  qed
  moreover have "il_held s m = None"
    if got: "il_pc s g = GotLock key m" and free: "\<forall>g' m'. il_pc s g' \<noteq> Inside key m'"
  proof (cases "il_held s m")
    case (Some g')
    then obtain key' where inside: "il_pc s g' = Inside key' m" using D(4) by blast
    have "key' = key" using D(1) [OF got] D(2) [OF inside] D(6) by blast
    with inside free show ?thesis by blast
  qed
  ultimately show ?thesis by blast
qed

theorem memory_lock_excludes_witness:
  "\<exists>s. im_reachable s \<and> il_pc s 1 = Inside ''room'' 0 \<and> il_pc s 2 \<noteq> Inside ''room'' 0"
proof -
  define s1 where "s1 = set_pc 1 (Calling ''room'') NewInMemoryLockManager"
  define s2 where "s2 = set_pc 1 (GotLock ''room'' 0) (snd (getLock ''room'' s1))"
  define s3 where "s3 = set_pc 1 (Inside ''room'' 0) (s2\<lparr>il_held := (il_held s2)(0 := Some 1)\<rparr>)"
  have "im_reachable s1" unfolding s1_def
    by (rule im_reachable.step [OF im_reachable.start im_step.call]) (simp add: NewInMemoryLockManager_def)
  moreover have "im_step s1 s2" unfolding s2_def
    by (rule im_step.get) (simp_all add: s1_def set_pc_def getLock_def NewInMemoryLockManager_def Let_def)
  moreover have "im_step s2 s3" unfolding s3_def
    by (rule im_step.lock) (simp_all add: s2_def s1_def set_pc_def getLock_def NewInMemoryLockManager_def Let_def)
  ultimately have s3: "im_reachable s3" by (blast intro: im_reachable.step)
  have pc: "il_pc s3 1 = Inside ''room'' 0" by (simp add: s3_def set_pc_def)
  have "il_pc s3 2 \<noteq> Inside ''room'' 0"
  proof
    assume "il_pc s3 2 = Inside ''room'' 0"
    with memory_lock_excludes [OF s3, of 1 "''room''" 0 2 0] pc show False by simp
  qed
  with s3 pc show ?thesis by blast
qed

text \<open>C17: with the Redis lock, if every acquisition is within \<open>window\<close> of the clock reading it
  uses as its value, and the window is shorter than the lease, then no two processes are inside the
  function of the same key with leases that have not run out, although values can be equal. The
  defaults leave a window of five seconds, the retries times their delay, under a lease of ten.\<close>

theorem redis_lock_excludes:
  assumes "rl_reachable timeout window s" "window < timeout"
    and "rl_pc s p = RlInside key token a" "rl_now s < a + timeout"
    and "rl_pc s q = RlInside key token' a'" "rl_now s < a' + timeout"
  shows "p = q"
proof (rule ccontr)
  assume "p \<noteq> q"
  note inv = rl_reachable_inv [OF assms(1,2), unfolded rl_inv_def]
  from inv \<open>p \<noteq> q\<close> assms(3,5) have "a + timeout \<le> a' \<or> a' + timeout \<le> a" by blast
  moreover from inv assms(3,5) have "a \<le> rl_now s" "a' \<le> rl_now s" by blast+
  ultimately show False using assms(4,6) by linarith
qed

theorem redis_lock_excludes_witness:
  "\<exists>s. rl_reachable defaultLockTimeout (int defaultMaxRetries * defaultRetryDelay) s
    \<and> rl_pc s 1 = RlInside ''room'' 5 7 \<and> (\<forall>a t. rl_pc s 2 = RlInside ''room'' t a \<longrightarrow> a + defaultLockTimeout \<le> 7)"
proof -
  let ?T = "defaultLockTimeout" and ?W = "int defaultMaxRetries * defaultRetryDelay"
  have window: "?W < ?T" by (simp add: defaultMaxRetries_def defaultRetryDelay_def defaultLockTimeout_def)
  define s0 where "s0 = \<lparr>rl_now = 7, rl_store = (\<lambda>_. None), rl_pc = (\<lambda>_. RlOutside)\<rparr>"
  define s1 where "s1 = s0\<lparr>rl_store := (rl_store s0)(''room'' := Some (5, rl_now s0 + ?T)),
      rl_pc := (rl_pc s0)(1 := RlInside ''room'' 5 (rl_now s0))\<rparr>"
  have "rl_reachable ?T ?W s0" unfolding s0_def by (rule rl_reachable.start)
  moreover have "rl_step ?T ?W s0 s1" unfolding s1_def
    by (rule rl_step.acquire)
      (simp_all add: s0_def rl_live_def defaultMaxRetries_def defaultRetryDelay_def)
  ultimately have s1: "rl_reachable ?T ?W s1" by (rule rl_reachable.step)
  have pc: "rl_pc s1 1 = RlInside ''room'' 5 7" and now: "rl_now s1 = 7" "0 < ?T"
    by (simp_all add: s1_def s0_def defaultLockTimeout_def)
  have "a + ?T \<le> 7" if "rl_pc s1 2 = RlInside ''room'' t a" for a t
  proof (rule ccontr)
    assume "\<not> a + ?T \<le> 7"
    with redis_lock_excludes [OF s1 window pc _ that] now show False by simp
  qed
  with s1 pc show ?thesis by blast
qed

text \<open>C26: however the goroutines that count users interleave, the counter is never negative, and is
  the number of increments less the number of calls that reported a decrement: no decrement is lost
  or counted twice, as long as there are fewer than \<open>2 ^ 63\<close> increments.\<close>

theorem counter_never_negative:
  assumes "counter_reachable s" "cs_increments s < 2 ^ 63"
  shows "0 \<le> sint (cs_value s) \<and> sint (cs_value s) = int (cs_increments s) - int (decremented s)"
  using counter_reachable_inv [OF assms] by (simp add: counter_inv_def)

theorem counter_never_negative_witness:
  "\<exists>s. counter_reachable s \<and> cs_calls s = [AtLoad] \<and> sint (cs_value s) = int (cs_increments s)"
proof -
  let ?s = "\<lparr>cs_value = 0, cs_calls = [], cs_increments = 0\<rparr>\<lparr>cs_calls := [] @ [AtLoad]\<rparr>"
  have s: "counter_reachable ?s"
    using counter_reachable.step [OF counter_reachable.start counter_step.call] by simp
  have "cs_increments ?s < 2 ^ 63" by simp
  from counter_never_negative [OF s this] s show ?thesis
    by (intro exI [of _ ?s]) (simp add: decremented_def)
qed

text \<open>C20: once no new call and no increment interferes, the goroutines inside
  \<open>decrementIfPositive\<close> all return, whatever the order of their steps: no run is longer than a bound
  quadratic in their number, and a run that cannot go on has left no goroutine in the loop.\<close>

theorem decrement_loops_end:
  assumes "(settle ^^ k) s s'"
  shows "k \<le> pending s * (2 * length (cs_calls s) + 1) + 2 * length (cs_calls s)
    \<and> ((\<nexists>s''. settle s' s'') \<longrightarrow> (\<forall>p \<in> set (cs_calls s'). \<exists>b. p = Returned b))"
proof -
  have "k \<le> work s" using settle_run [OF assms] by simp
  moreover have "work s \<le> pending s * (2 * length (cs_calls s) + 1) + 2 * length (cs_calls s)"
    using distances_bound [of "cs_value s" "cs_calls s"] by (simp add: work_def)
  moreover have "\<exists>b. p = Returned b" if "\<nexists>s''. settle s' s''" "p \<in> set (cs_calls s')" for p
    using settle_enabled [of _ s'] that by (metis in_set_conv_nth)
  ultimately show ?thesis by fastforce
qed

theorem decrement_loops_end_witness:
  "\<exists>s'. (settle ^^ 2) \<lparr>cs_value = 1, cs_calls = [AtLoad], cs_increments = 1\<rparr> s' \<and> cs_calls s' = [Returned True]
    \<and> (2::nat) \<le> 5"
proof -
  let ?s = "\<lparr>cs_value = 1, cs_calls = [AtLoad], cs_increments = 1\<rparr>"
  let ?t = "?s\<lparr>cs_calls := [AtSwap 1]\<rparr>" and ?u = "?s\<lparr>cs_value := 0, cs_calls := [Returned True]\<rparr>"
  have 1: "settle ?s ?t" using counter_step.load [of 0 ?s] by (simp add: settle_def)
  have 2: "settle ?t ?u" using counter_step.swap [of 0 ?t 1] by (simp add: settle_def)
  have run: "(settle ^^ 2) ?s ?u" using 1 2 by (auto simp: numeral_2_eq_2)
  from decrement_loops_end [OF run] have "(2::nat) \<le> 5" by (simp add: pending_def)
  with run show ?thesis by (intro exI [of _ ?u]) simp
qed



end
