(* ===== verification/Http.thy ===== *)
theory Http
  imports "HOL-Library.AList" Serialization Use_Cases
begin

text \<open>
  The HTTP boundary: the handlers of \<open>internal/infra/boundaries/http\<close>, the admin middleware, and
  the routes \<open>setup/container.go\<close> and \<open>setup/api.go\<close> put together.

  A handler takes a request and the world and gives the response. A request is what the handlers
  read of it: a header, a variable of the path, a query parameter (each empty when missing), and the
  first JSON value of the body, \<open>None\<close> when there is none. A panic of what a handler calls passes
  through it, as an error that \<open>errors_is RuntimePanic\<close>. Routing itself, the upgrade of a
  connection and the rendering of errors and durations are the libraries'.
\<close>

section \<open>Requests and responses\<close>

record http_request =
  rq_Header :: "string \<Rightarrow> string"
  rq_Vars :: "string \<Rightarrow> string"
  rq_Query :: "string \<Rightarrow> string"
  rq_Body :: "json option"

datatype http_body = EmptyBody | JsonBody json | TextBody string

record http_response =
  rp_Status :: nat
  rp_ContentType :: string
  rp_Body :: http_body

type_synonym 'w handler = "http_request \<Rightarrow> ('w, http_response) call"

definition StatusSwitchingProtocols :: nat where "StatusSwitchingProtocols = 101"
definition StatusOK :: nat where "StatusOK = 200"
definition StatusCreated :: nat where "StatusCreated = 201"
definition StatusNoContent :: nat where "StatusNoContent = 204"
definition StatusBadRequest :: nat where "StatusBadRequest = 400"
definition StatusUnauthorized :: nat where "StatusUnauthorized = 401"
definition StatusNotFound :: nat where "StatusNotFound = 404"
definition StatusInternalServerError :: nat where "StatusInternalServerError = 500"
definition StatusServiceUnavailable :: nat where "StatusServiceUnavailable = 503"

lemmas status_defs =
  StatusSwitchingProtocols_def StatusOK_def StatusCreated_def StatusNoContent_def StatusBadRequest_def
  StatusUnauthorized_def StatusNotFound_def StatusInternalServerError_def StatusServiceUnavailable_def

text \<open>\<open>json.go\<close>. A value that does not encode is \<open>None\<close>.\<close>

definition SendJsonError :: "nat \<Rightarrow> string \<Rightarrow> http_response" where
  "SendJsonError statusCode err =
     \<lparr>rp_Status = statusCode, rp_ContentType = ''application/json'',
      rp_Body = JsonBody (JObj [(''error'', JStr err)])\<rparr>"

definition SendJsonErrorMsg :: "nat \<Rightarrow> string \<Rightarrow> http_response" where
  "SendJsonErrorMsg statusCode msg = SendJsonError statusCode msg"

definition SendJsonResponse :: "nat \<Rightarrow> json option \<Rightarrow> http_response" where
  "SendJsonResponse statusCode res =
     (case res of
        None \<Rightarrow> SendJsonErrorMsg StatusInternalServerError ''failed to encode JSON response''
      | Some body \<Rightarrow>
          \<lparr>rp_Status = statusCode, rp_ContentType = ''application/json'',
           rp_Body = (if statusCode = StatusNoContent then EmptyBody else JsonBody body)\<rparr>)"

lemma SendJsonErrorMsg_Status [simp]: "rp_Status (SendJsonErrorMsg c m) = c"
  by (simp add: SendJsonErrorMsg_def SendJsonError_def)

lemma SendJsonResponse_Status [simp]: "rp_Status (SendJsonResponse c (Some j)) = c"
  by (simp add: SendJsonResponse_def)

text \<open>Plain text, and \<open>http.Error\<close> of the standard library.\<close>

definition text_response :: "nat \<Rightarrow> string \<Rightarrow> string \<Rightarrow> http_response" where
  "text_response statusCode contentType body =
     \<lparr>rp_Status = statusCode, rp_ContentType = contentType, rp_Body = TextBody body\<rparr>"

definition http_Error :: "string \<Rightarrow> nat \<Rightarrow> http_response" where
  "http_Error msg statusCode = text_response statusCode ''text/plain; charset=utf-8'' (msg @ [CHR 0x0A])"

section \<open>The admin middleware\<close>

definition TrimPrefix :: "string \<Rightarrow> string \<Rightarrow> string" where
  "TrimPrefix s prefix = (if take (length prefix) s = prefix then drop (length prefix) s else s)"

definition AdminMiddleware_Handle :: "string \<Rightarrow> 'w handler \<Rightarrow> 'w handler" where
  "AdminMiddleware_Handle apiKey nxt rq =
     (let authorization = rq_Header rq ''Authorization'';
          key = TrimPrefix authorization ''Bearer ''
      in if key \<noteq> apiKey
         then ret (http_Error ''Unauthorized'' StatusUnauthorized)
         else nxt rq)"

section \<open>What the handlers work with\<close>

text \<open>A health check: its name, and the check.\<close>

record HealthStatus =
  hs_Status :: string
  hs_Message :: string
  hs_Details :: "(string \<times> json) list"

record 'w checker =
  ck_Name :: string
  ck_Check :: "'w \<Rightarrow> HealthStatus \<times> 'w"

text \<open>
  The fields of the API structs: the hub, the use cases, the bus factory, and of the websocket
  library the upgrade (a connection, or the response it has sent), the control message and the close.
\<close>

record 'w http_env =
  heHub :: "'w hub"
  heGetRooms :: "'w \<Rightarrow> ref list \<times> 'w"
  heCreateRoom :: "DeckType \<Rightarrow> ('w, string) call"
  heCreateClient :: "('w, string) call"
  heJoinRoom :: "string \<Rightarrow> string \<Rightarrow> bus \<Rightarrow> ('w, ref) call"
  heAdminRemoveClient :: "string \<Rightarrow> string \<Rightarrow> ('w, unit) call"
  heAdminKickClient :: "string \<Rightarrow> string \<Rightarrow> ('w, unit) call"
  heAdminToggleOwner :: "string \<Rightarrow> string \<Rightarrow> ('w, unit) call"
  heNewBus :: "string \<Rightarrow> string \<Rightarrow> nat \<Rightarrow> bus"
  heListen :: "bus \<Rightarrow> ('w, unit) call"
  heUpgrade :: "http_request \<Rightarrow> 'w \<Rightarrow> (http_response + nat) \<times> 'w"
  heWriteControl :: "nat \<Rightarrow> string \<Rightarrow> 'w \<Rightarrow> 'w"
  heCloseConn :: "nat \<Rightarrow> 'w \<Rightarrow> 'w"
  heCheckers :: "'w checker list"
  heNow :: int

text \<open>The end of a handler: an error that is a panic stays one.\<close>

definition respond ::
  "('w, 'a) call \<Rightarrow> (go_error \<Rightarrow> http_response) \<Rightarrow> ('a \<Rightarrow> 'w \<Rightarrow> http_response) \<Rightarrow> ('w, http_response) call" where
  "respond m on_error on_result = (\<lambda>w.
     case m w of
       (Inr a, w') \<Rightarrow> (Inr (on_result a w'), w')
     | (Inl e, w') \<Rightarrow> if errors_is RuntimePanic e then (Inl e, w') else (Inr (on_error e), w'))"

lemma respond_simps [simp]:
  "m w = (Inr a, w') \<Longrightarrow> respond m f g w = (Inr (g a w'), w')"
  "m w = (Inl e, w') \<Longrightarrow> errors_is RuntimePanic e \<Longrightarrow> respond m f g w = (Inl e, w')"
  "m w = (Inl e, w') \<Longrightarrow> \<not> errors_is RuntimePanic e \<Longrightarrow> respond m f g w = (Inr (f e), w')"
  by (simp_all add: respond_def)

lemma respond_world [simp]: "snd (respond m f g w) = snd (m w)"
  by (simp add: respond_def split: prod.splits sum.splits)

section \<open>Creating and looking up rooms\<close>

text \<open>Decoding \<open>CreateRoomRequest\<close>: keys match up to the case of letters, null leaves the field.\<close>

fun dec_deckType :: "(string \<times> json) list \<Rightarrow> string \<Rightarrow> go_error + string" where
  "dec_deckType [] current = Inr current"
| "dec_deckType ((k, v) # kvs) current =
     (if map fold_char k = ''decktype'' then
        (case v of JNull \<Rightarrow> dec_deckType kvs current
         | JStr s \<Rightarrow> dec_deckType kvs s
         | _ \<Rightarrow> Inl unmarshalError)
      else dec_deckType kvs current)"

definition Decode_CreateRoomRequest :: "json option \<Rightarrow> go_error + string" where
  "Decode_CreateRoomRequest body =
     (case body of None \<Rightarrow> Inl (New ''EOF'') | Some j \<Rightarrow> dec_struct (\<lambda>kvs. dec_deckType kvs '''') (Some j))"

definition CreateRoomAPI_Handle :: "'w http_env \<Rightarrow> 'w handler" where
  "CreateRoomAPI_Handle E rq =
     (case Decode_CreateRoomRequest (rq_Body rq) of
        Inl _ \<Rightarrow> ret (SendJsonErrorMsg StatusBadRequest ''Invalid request body'')
      | Inr deckType \<Rightarrow>
          if deckType = '''' then ret (SendJsonErrorMsg StatusBadRequest ''Deck type is required'')
          else if DeckByType deckType = None
          then ret (SendJsonErrorMsg StatusBadRequest ''Unknown deck type'')
          else respond (heCreateRoom E deckType)
                 (\<lambda>_. SendJsonErrorMsg StatusInternalServerError ''Failed to create room'')
                 (\<lambda>roomID _. SendJsonResponse StatusCreated (Some (JObj [(''roomId'', JStr roomID)]))))"

definition load_error :: "go_error \<Rightarrow> http_response" where
  "load_error e =
     (if errors_is RoomNotFound e then SendJsonErrorMsg StatusNotFound ''Room not found''
      else SendJsonErrorMsg StatusInternalServerError ''Failed to load room'')"

definition GetRoomAPI_Handle :: "'w http_env \<Rightarrow> 'w handler" where
  "GetRoomAPI_Handle E rq =
     (let roomID = rq_Vars rq ''roomID''
      in if roomID = '''' then ret (SendJsonErrorMsg StatusBadRequest ''Room ID is required'')
         else respond (hLoadRoom (heHub E) roomID) load_error
                (\<lambda>_ _. SendJsonResponse StatusOK (Some (JObj [(''roomId'', JStr roomID)]))))"

section \<open>The state of rooms\<close>

definition mapClients :: "client list \<Rightarrow> json" where
  "mapClients clients = JArr (map (\<lambda>c. JObj
     [(''id'', JStr (client_ID c)), (''name'', JStr (client_Name c)),
      (''is_spectator'', JBool (IsSpectator c)), (''is_owner'', JBool (IsOwner c))])
     (cc_Values clients))"

definition mapRoom :: "room \<Rightarrow> json" where
  "mapRoom r = JObj [(''id'', JStr (room_ID r)), (''clients'', mapClients (Clients r))]"

definition mapRooms :: "room list \<Rightarrow> json" where
  "mapRooms rooms = JArr (map mapRoom rooms)"

definition GetAllRoomsStateAPI_execute :: "'w http_env \<Rightarrow> 'w handler" where
  "GetAllRoomsStateAPI_execute E rq = (\<lambda>w.
     case heGetRooms E w of (rooms, w') \<Rightarrow>
       (Inr (SendJsonResponse StatusOK (Some (mapRooms (map (\<lambda>ref. hDeref (heHub E) ref w') rooms)))), w'))"

definition GetRoomStateAPI_execute :: "'w http_env \<Rightarrow> 'w handler" where
  "GetRoomStateAPI_execute E rq =
     (let roomID = rq_Vars rq ''roomID''
      in if roomID = '''' then ret (SendJsonErrorMsg StatusBadRequest ''Room ID is required'')
         else respond (hLoadRoom (heHub E) roomID) load_error
                (\<lambda>room w. SendJsonResponse StatusOK (Some (mapRoom (hDeref (heHub E) room w)))))"

definition kind_name :: "DeckKind \<Rightarrow> string" where
  "kind_name k = (case k of DeckKindNumeric \<Rightarrow> ''numeric'' | DeckKindCategorical \<Rightarrow> ''categorical'')"

definition mapDecks :: "deck list \<Rightarrow> json" where
  "mapDecks ds = JArr (map (\<lambda>d. JObj
     [(''id'', JStr (deck_ID d)), (''name'', JStr (deck_Name d)), (''kind'', JStr (kind_name (deck_Kind d))),
      (''cards'', JArr (map JStr (deck_Cards d)))]) ds)"

definition GetDecksAPI_Handle :: "'w handler" where
  "GetDecksAPI_Handle rq = ret (SendJsonResponse StatusOK (Some (JObj [(''decks'', mapDecks Decks)])))"

section \<open>Administration\<close>

text \<open>The three handlers check their path variables in the same way.\<close>

definition with_room_and_client ::
  "http_request \<Rightarrow> (string \<Rightarrow> string \<Rightarrow> ('w, http_response) call) \<Rightarrow> ('w, http_response) call" where
  "with_room_and_client rq k =
     (let roomID = rq_Vars rq ''roomID''; clientID = rq_Vars rq ''clientID''
      in if roomID = '''' then ret (SendJsonErrorMsg StatusBadRequest ''Room ID is required'')
         else if clientID = '''' then ret (SendJsonErrorMsg StatusBadRequest ''Client ID is required'')
         else k roomID clientID)"

definition admin_error :: "string \<Rightarrow> go_error \<Rightarrow> http_response" where
  "admin_error other e =
     (if errors_is RoomNotFound e then SendJsonErrorMsg StatusNotFound ''Room not found''
      else if errors_is ClientNotFound e then SendJsonErrorMsg StatusNotFound ''Client not found''
      else SendJsonErrorMsg StatusInternalServerError other)"

definition status_response :: "string \<Rightarrow> http_response" where
  "status_response s = SendJsonResponse StatusOK (Some (JObj [(''status'', JStr s)]))"

definition DisconnectClientAPI_execute :: "'w http_env \<Rightarrow> 'w handler" where
  "DisconnectClientAPI_execute E rq = with_room_and_client rq (\<lambda>roomID clientID.
     respond (heAdminRemoveClient E roomID clientID) (admin_error ''Failed to disconnect client'')
       (\<lambda>_ _. status_response ''disconnected''))"

definition KickClientAPI_execute :: "'w http_env \<Rightarrow> 'w handler" where
  "KickClientAPI_execute E rq = with_room_and_client rq (\<lambda>roomID clientID.
     respond (heAdminKickClient E roomID clientID) (admin_error ''Failed to kick client'')
       (\<lambda>_ _. status_response ''kicked''))"

definition ToggleOwnerAPI_execute :: "'w http_env \<Rightarrow> 'w handler" where
  "ToggleOwnerAPI_execute E rq = with_room_and_client rq (\<lambda>roomID clientID.
     respond (heAdminToggleOwner E roomID clientID)
       (\<lambda>e. if errors_is LastOwner e
            then SendJsonErrorMsg StatusBadRequest ''Cannot remove the last owner''
            else admin_error ''Failed to toggle owner'' e)
       (\<lambda>_ _. status_response ''owner-toggled''))"

section \<open>Health\<close>

definition HealthStatusPass :: string where "HealthStatusPass = ''ok''"
definition HealthStatusFail :: string where "HealthStatusFail = ''fail''"
definition HealthStatusWarn :: string where "HealthStatusWarn = ''warn''"

lemmas health_defs = HealthStatusPass_def HealthStatusFail_def HealthStatusWarn_def

record HealthcheckResponse =
  hr_Status :: string
  hr_Timestamp :: int
  hr_Checks :: "(string \<times> HealthStatus) list"
  hr_Summary :: counts

text \<open>\<open>m[k]\<close>, zero when missing.\<close>

definition count_of :: "string \<Rightarrow> counts \<Rightarrow> int" where
  "count_of k m = (case map_of m k of None \<Rightarrow> 0 | Some n \<Rightarrow> n)"

text \<open>The loop over the checkers; \<open>checks\<close> is a Go map, so the last of equal names stays.\<close>

fun check_loop ::
  "'w checker list \<Rightarrow> (string \<times> HealthStatus) list \<Rightarrow> counts \<Rightarrow> 'w \<Rightarrow>
   ((string \<times> HealthStatus) list \<times> counts) \<times> 'w" where
  "check_loop [] checks summary w = ((checks, summary), w)"
| "check_loop (c # cs) checks summary w =
     (case ck_Check c w of (status, w') \<Rightarrow>
        check_loop cs (AList.update (ck_Name c) status checks) (incr (hs_Status status) summary) w')"

definition performHealthChecks :: "'w http_env \<Rightarrow> 'w \<Rightarrow> HealthcheckResponse \<times> 'w" where
  "performHealthChecks E w =
     (case check_loop (heCheckers E) []
             [(HealthStatusPass, 0), (HealthStatusFail, 0), (HealthStatusWarn, 0)] w of
        ((checks, summary), w') \<Rightarrow>
          (let overallStatus =
                 (if 0 < count_of HealthStatusFail summary then HealthStatusFail
                  else if 0 < count_of HealthStatusWarn summary then HealthStatusWarn
                  else HealthStatusPass)
           in (\<lparr>hr_Status = overallStatus, hr_Timestamp = heNow E, hr_Checks = checks,
                hr_Summary = summary\<rparr>, w')))"

text \<open>Go marshals a map with its keys in order.\<close>

definition enc_map :: "('a \<Rightarrow> json) \<Rightarrow> (string \<times> 'a) list \<Rightarrow> json" where
  "enc_map f m = JObj (map (\<lambda>(k, v). (k, f v)) (sort_key fst m))"

definition marshal_health :: "HealthStatus \<Rightarrow> json" where
  "marshal_health s = JObj
     ([(''status'', JStr (hs_Status s))] @ enc_nonempty ''message'' (hs_Message s) @
      (if hs_Details s = [] then [] else [(''details'', enc_map id (hs_Details s))]))"

definition marshal_healthcheck :: "HealthcheckResponse \<Rightarrow> json" where
  "marshal_healthcheck r = JObj
     [(''status'', JStr (hr_Status r)), (''timestamp'', JInt (hr_Timestamp r)),
      (''checks'', enc_map marshal_health (hr_Checks r)), (''summary'', enc_map JInt (hr_Summary r))]"

definition HealthcheckAPI_Handle :: "'w http_env \<Rightarrow> 'w handler" where
  "HealthcheckAPI_Handle E rq = (\<lambda>w.
     case performHealthChecks E w of (response, w') \<Rightarrow>
       (let statusCode = (if hr_Status response = HealthStatusFail then StatusServiceUnavailable
                          else StatusOK)
        in (Inr (SendJsonResponse statusCode (Some (marshal_healthcheck response))), w')))"

text \<open>
  \<open>RedisHealthChecker\<close>: the ping and how long it took in nanoseconds are arguments, and how the
  libraries print an error and a duration.
\<close>

definition RedisHealthChecker_Check ::
  "('w \<Rightarrow> (go_error option \<times> int) \<times> 'w) \<Rightarrow> (go_error \<Rightarrow> string) \<Rightarrow> (int \<Rightarrow> string) \<Rightarrow>
   'w \<Rightarrow> HealthStatus \<times> 'w" where
  "RedisHealthChecker_Check ping err_text dur_text w =
     (case ping w of ((err, duration), w') \<Rightarrow>
        (case err of
           Some e \<Rightarrow>
             (\<lparr>hs_Status = HealthStatusFail, hs_Message = ''Redis connection failed: '' @ err_text e,
               hs_Details = [(''response_time_ms'', JInt (duration div 10 ^ 6)),
                             (''error'', JStr (err_text e))]\<rparr>, w')
         | None \<Rightarrow>
             (let slow = 100 * 10 ^ 6 < duration
              in (\<lparr>hs_Status = (if slow then HealthStatusWarn else HealthStatusPass),
                   hs_Message = (if slow then ''Redis connection successful but slow ('' @ dur_text duration @ '')''
                                 else ''Redis connection successful''),
                   hs_Details = [(''response_time_ms'', JInt (duration div 10 ^ 6))]\<rparr>, w'))))"

section \<open>Opening a connection\<close>

definition SendErrorWebsocket :: "'w http_env \<Rightarrow> nat \<Rightarrow> string \<Rightarrow> 'w \<Rightarrow> 'w" where
  "SendErrorWebsocket E ws msg w = heCloseConn E ws (heWriteControl E ws msg w)"

definition switched :: http_response where
  "switched = \<lparr>rp_Status = StatusSwitchingProtocols, rp_ContentType = '''', rp_Body = EmptyBody\<rparr>"

text \<open>After the upgrade the response has been sent: what fails later is told on the connection.\<close>

definition ws_client_id :: "'w http_env \<Rightarrow> http_request \<Rightarrow> ('w, string) call" where
  "ws_client_id E rq =
     (let clientID = rq_Query rq ''clientId''
      in if clientID = '''' then heCreateClient E else ret clientID)"

definition WebsocketAPI_Handle :: "'w http_env \<Rightarrow> 'w handler" where
  "WebsocketAPI_Handle E rq = (\<lambda>w.
     let roomID = rq_Vars rq ''roomID''
     in if roomID = '''' then (Inr (SendJsonErrorMsg StatusBadRequest ''Room ID is required''), w)
        else case heUpgrade E rq w of
          (Inl response, w1) \<Rightarrow> (Inr response, w1)
        | (Inr ws, w1) \<Rightarrow>
            (case ws_client_id E rq w1 of
               (Inl e, w2) \<Rightarrow>
                 if errors_is RuntimePanic e then (Inl e, w2)
                 else (Inr switched, SendErrorWebsocket E ws ''Error creating client'' w2)
             | (Inr clientID, w2) \<Rightarrow>
                 (let wsBus = heNewBus E clientID roomID ws
                  in case heJoinRoom E roomID clientID wsBus w2 of
                       (Inl e, w3) \<Rightarrow>
                         if errors_is RuntimePanic e then (Inl e, w3)
                         else (Inr switched, SendErrorWebsocket E ws (''Error joining room '' @ roomID) w3)
                     | (Inr _, w3) \<Rightarrow>
                         (case heListen E wsBus w3 of
                            (Inl e, w4) \<Rightarrow> (Inl e, w4)
                          | (Inr _, w4) \<Rightarrow> (Inr switched, w4)))))"

section \<open>The documentation of the routes\<close>

text \<open>\<open>swagger.go\<close>: the embedded files and the page are texts the build supplies.\<close>

definition serve_embedded :: "(string \<Rightarrow> string option) \<Rightarrow> string \<Rightarrow> string \<Rightarrow> http_response" where
  "serve_embedded files name contentType =
     (case files name of
        None \<Rightarrow> http_Error ''Failed to load OpenAPI spec'' StatusInternalServerError
      | Some content \<Rightarrow> text_response StatusOK contentType content)"

definition SwaggerAPI_Handle :: "(string \<Rightarrow> string option) \<Rightarrow> string \<Rightarrow> 'w handler" where
  "SwaggerAPI_Handle files page rq =
     (let rest = rq_Vars rq ''rest''
      in if rest \<in> {'''', ''/''} then ret (text_response StatusOK ''text/html; charset=utf-8'' page)
         else if rest = ''swagger.yaml''
         then ret (serve_embedded files ''swagger/swagger.yaml'' ''application/x-yaml'')
         else if rest = ''swagger.json''
         then ret (serve_embedded files ''swagger/swagger.json'' ''application/json'')
         else ret (http_Error ''404 page not found'' StatusNotFound))"

section \<open>Routes\<close>

text \<open>An \<open>API\<close>; an empty list of methods admits every method.\<close>

record 'w api =
  Endpoint :: string
  Methods :: "string list"
  Handle :: "'w handler"

definition newAPIContainer ::
  "'w http_env \<Rightarrow> string \<Rightarrow> string \<Rightarrow> (string \<Rightarrow> string option) \<Rightarrow> string \<Rightarrow> 'w api list" where
  "newAPIContainer E apiKey environment files page =
     (let admin = AdminMiddleware_Handle apiKey
      in [\<lparr>Endpoint = ''/planning/{roomID}/ws'', Methods = [], Handle = WebsocketAPI_Handle E\<rparr>,
          \<lparr>Endpoint = ''/planning/rooms'', Methods = [''POST''], Handle = CreateRoomAPI_Handle E\<rparr>,
          \<lparr>Endpoint = ''/planning/decks'', Methods = [''GET''], Handle = GetDecksAPI_Handle\<rparr>,
          \<lparr>Endpoint = ''/planning/room/{roomID}'', Methods = [''GET''], Handle = GetRoomAPI_Handle E\<rparr>,
          \<lparr>Endpoint = ''/health'', Methods = [''GET'', ''HEAD''], Handle = HealthcheckAPI_Handle E\<rparr>,
          \<lparr>Endpoint = ''/admin/rooms'', Methods = [''GET''],
            Handle = admin (GetAllRoomsStateAPI_execute E)\<rparr>,
          \<lparr>Endpoint = ''/admin/rooms/{roomID}'', Methods = [''GET''],
            Handle = admin (GetRoomStateAPI_execute E)\<rparr>,
          \<lparr>Endpoint = ''/admin/rooms/{roomID}/client/{clientID}'', Methods = [''DELETE'', ''OPTIONS''],
            Handle = admin (DisconnectClientAPI_execute E)\<rparr>,
          \<lparr>Endpoint = ''/admin/rooms/{roomID}/client/{clientID}/kick'', Methods = [''POST'', ''OPTIONS''],
            Handle = admin (KickClientAPI_execute E)\<rparr>,
          \<lparr>Endpoint = ''/admin/rooms/{roomID}/client/{clientID}/owner'', Methods = [''POST'', ''OPTIONS''],
            Handle = admin (ToggleOwnerAPI_execute E)\<rparr>]
         @ (if environment \<noteq> ''production''
            then [\<lparr>Endpoint = ''/swagger/{rest:.*}'', Methods = [''GET''],
                   Handle = SwaggerAPI_Handle files page\<rparr>]
            else []))"

text \<open>\<open>ConfigureAPIs\<close>: the routes in order; a route is an endpoint, the methods it admits (any when
  there are none) and a handler.\<close>

fun ConfigureAPIs :: "'w api list \<Rightarrow> (string \<times> string list option \<times> 'w handler) list" where
  "ConfigureAPIs [] = []"
| "ConfigureAPIs (a # as) =
     (Endpoint a, if 0 < length (Methods a) then Some (Methods a) else None, Handle a) # ConfigureAPIs as"

end
