(* ===== verification/Http_Properties.thy ===== *)
theory Http_Properties
  imports System_Properties Hub_Properties Http
begin

text \<open>
  What the HTTP routes guarantee, on their own and over the in-memory system of the theory
  System.
\<close>

section \<open>The routes of the in-memory system\<close>

text \<open>
  \<open>newAPIContainer\<close> of \<open>container.go\<close> over the system: \<open>conn\<close> is the connection an upgrade
  gives, \<open>msgs\<close> what arrives on it, and \<open>keys\<close> the order of the rooms' map.
\<close>

definition sys_http ::
  "(nat \<Rightarrow> string) \<Rightarrow> clock \<Rightarrow> string \<Rightarrow> string list \<Rightarrow> string list \<Rightarrow> nat \<Rightarrow> WebSocketMessage list \<Rightarrow>
   world http_env" where
  "sys_http ids clk uuid uuids keys conn msgs =
     (let h = sys_hub ids clk uuid; E = sys_env ids clk uuid uuids; F = sys_facade ids clk uuid;
          B = ws_bus_ops E; srt = sort_key client_Name
      in \<lparr>heHub = h, heGetRooms = im_GetRooms keys,
          heCreateRoom = CreateRoom_Execute h sys_metric,
          heCreateClient = ret (CreateClient_Execute uuid),
          heJoinRoom = JoinRoom_Execute srt h sys_lock sys_metric B,
          heAdminRemoveClient = AdminRemoveClient_Execute h B (ucLeaveRoom F),
          heAdminKickClient = AdminKickClient_Execute h B (ucLeaveRoom F),
          heAdminToggleOwner = AdminToggleOwner_Execute srt h sys_lock,
          heNewBus = (\<lambda>clientID roomID ws. Bus ws roomID),
          heListen = (\<lambda>b. ws_Listen E b msgs),
          heUpgrade = (\<lambda>rq w. (Inr conn, w)),
          heWriteControl = (\<lambda>ws msg w. w),
          heCloseConn = (\<lambda>ws. on_net (\<lambda>n. n\<lparr>net_broken := (net_broken n)(ws := True)\<rparr>)),
          heCheckers = [], heNow = 0\<rparr>)"

section \<open>Authorization\<close>

text \<open>C34: without the admin key every admin route answers 401 and does nothing, and no route of
  the program reaches an admin operation: replacing them all makes no difference to what any route
  does with the request.\<close>

theorem admin_routes_need_key:
  assumes "TrimPrefix (rq_Header rq ''Authorization'') ''Bearer '' \<noteq> apiKey"
  shows "(\<forall>a \<in> set (newAPIContainer E apiKey environment files page). take 7 (Endpoint a) = ''/admin/'' \<longrightarrow>
      Handle a rq w = (Inr (http_Error ''Unauthorized'' StatusUnauthorized), w))
    \<and> map (\<lambda>a. (Endpoint a, Methods a, Handle a rq w)) (newAPIContainer
          (E\<lparr>heGetRooms := g, heAdminRemoveClient := r, heAdminKickClient := k, heAdminToggleOwner := t\<rparr>)
          apiKey environment files page)
      = map (\<lambda>a. (Endpoint a, Methods a, Handle a rq w)) (newAPIContainer E apiKey environment files page)"
proof -
  let ?E = "E\<lparr>heGetRooms := g, heAdminRemoveClient := r, heAdminKickClient := k, heAdminToggleOwner := t\<rparr>"
  have denied: "AdminMiddleware_Handle apiKey nxt rq w = (Inr (http_Error ''Unauthorized'' StatusUnauthorized), w)"
    for nxt using assms by (simp add: AdminMiddleware_Handle_def)
  have others: "WebsocketAPI_Handle ?E = WebsocketAPI_Handle E" "CreateRoomAPI_Handle ?E = CreateRoomAPI_Handle E"
    "GetRoomAPI_Handle ?E = GetRoomAPI_Handle E" "HealthcheckAPI_Handle ?E = HealthcheckAPI_Handle E"
    by (simp_all add: fun_eq_iff WebsocketAPI_Handle_def CreateRoomAPI_Handle_def GetRoomAPI_Handle_def
        HealthcheckAPI_Handle_def performHealthChecks_def ws_client_id_def SendErrorWebsocket_def Let_def
        cong: if_cong sum.case_cong prod.case_cong)
  show ?thesis by (auto simp: newAPIContainer_def Let_def denied others)
qed

text \<open>A request without a header, for the room and client of the demonstration.\<close>

definition demo_request :: "string \<Rightarrow> http_request" where
  "demo_request clientID =
     \<lparr>rq_Header = (\<lambda>_. ''''), rq_Vars = (\<lambda>v. if v = ''roomID'' then ''room'' else clientID),
      rq_Query = (\<lambda>_. ''''), rq_Body = Some (JObj [(''deckType'', JStr ''t-shirt'')])\<rparr>"

definition demo_http :: "world http_env" where
  "demo_http = sys_http demo_ids sample_clock ''story-1'' [''c1'', ''c2''] [''room''] 1 []"

lemma newAPIContainer_kick:
  fixes E apiKey environment files page
  defines "apis \<equiv> newAPIContainer E apiKey environment files page"
  shows "apis ! 8 \<in> set apis" "Endpoint (apis ! 8) = ''/admin/rooms/{roomID}/client/{clientID}/kick''"
proof -
  have "8 < length apis" by (simp add: apis_def newAPIContainer_def Let_def)
  then show "apis ! 8 \<in> set apis" by (rule nth_mem)
  show "Endpoint (apis ! 8) = ''/admin/rooms/{roomID}/client/{clientID}/kick''"
    by (simp add: apis_def newAPIContainer_def Let_def)
qed

theorem admin_routes_need_key_witness:
  "Handle (newAPIContainer demo_http ''secret'' ''production'' (\<lambda>_. None) '''' ! 8) (demo_request ''ann'') demo_joined
    = (Inr (http_Error ''Unauthorized'' StatusUnauthorized), demo_joined)"
proof -
  have "TrimPrefix (rq_Header (demo_request ''ann'') ''Authorization'') ''Bearer '' \<noteq> ''secret''" by code_simp
  note law = admin_routes_need_key [OF this, THEN conjunct1, rule_format]
  show ?thesis by (rule law [OF newAPIContainer_kick(1)]) (simp add: newAPIContainer_kick(2))
qed

section \<open>Creating a room\<close>

text \<open>a room is created exactly for the decks of the catalogue; any other request is answered
  400 and changes nothing. The new room has the deck and no clients, it is counted, and it is found
  under the identifier of the answer.\<close>

theorem created_room_is_found:
  "let refused = (\<exists>rp. CreateRoomAPI_Handle (sys_http ids clk uuid uuids keys conn msgs) rq w = (Inr rp, w)
         \<and> rp_Status rp = StatusBadRequest)
   in case Decode_CreateRoomRequest (rq_Body rq) of
        Inl _ \<Rightarrow> refused
      | Inr d \<Rightarrow>
          (case DeckByType d of
             None \<Rightarrow> refused
           | Some deck \<Rightarrow>
               \<exists>rp w'. CreateRoomAPI_Handle (sys_http ids clk uuid uuids keys conn msgs) rq w = (Inr rp, w')
                 \<and> rp = SendJsonResponse StatusCreated (Some (JObj [(''roomId'', JStr uuid)]))
                 \<and> (\<exists>ref. im_LoadRoom uuid w' = (Inr ref, w') \<and> room_Deck (im_deref ref w') = deck
                      \<and> Clients (im_deref ref w') = [])
                 \<and> pm_activeRooms (net_metric (im_net w')) = pm_activeRooms (net_metric (im_net w)) + 1)"
proof (cases "Decode_CreateRoomRequest (rq_Body rq)")
  case (Inl e)
  then show ?thesis by (simp add: CreateRoomAPI_Handle_def)
next
  case (Inr d)
  show ?thesis
  proof (cases "DeckByType d")
    case None
    with Inr show ?thesis by (simp add: CreateRoomAPI_Handle_def)
  next
    case (Some deck)
    have "DeckByType '''' = None" by code_simp
    with Some have "d \<noteq> ''''" by auto
    with Inr Some show ?thesis
      by (auto simp: CreateRoomAPI_Handle_def sys_http_def Let_def respond_def CreateRoom_Execute_def
          andThen_def sys_hub_def im_hub_ops_def im_NewRoomWithDeck_def im_register_def NewRoomWithDeck_def
          NewRoomWithIDAndDeck_def NewRoomWithIDAndStartedAt_def room_Deck_def deckForType_def
          sys_metric_def on_net_def pm_IncrementActiveRoomsCounter_def AddCounter_def im_LoadRoom_def
          im_deref_def cc_New_def)
  qed
qed

section \<open>Health\<close>

fun run_checks :: "'w checker list \<Rightarrow> 'w \<Rightarrow> HealthStatus list \<times> 'w" where
  "run_checks [] w = ([], w)"
| "run_checks (c # cs) w =
     (case ck_Check c w of (s, w') \<Rightarrow> (case run_checks cs w' of (ss, w'') \<Rightarrow> (s # ss, w'')))"

lemma count_of_incr: "count_of k (incr k' m) = count_of k m + (if k' = k then 1 else 0)"
  by (induction k' m rule: incr.induct) (auto simp: count_of_def split: option.splits)

lemma check_loop_eq:
  "check_loop cs checks summary w =
     (case run_checks cs w of (ss, w') \<Rightarrow>
        ((fold (\<lambda>(c, s). AList.update (ck_Name c) s) (zip cs ss) checks,
          fold (\<lambda>s. incr (hs_Status s)) ss summary), w'))"
  by (induction cs arbitrary: checks summary w) (simp_all split: prod.split)

lemma count_of_fold: "count_of k (fold (\<lambda>s. incr (hs_Status s)) ss m) =
    count_of k m + int (count_list (map hs_Status ss) k)"
  by (induction ss arbitrary: m) (simp_all add: count_of_incr)

lemma count_list_pos: "0 < count_list xs x \<longleftrightarrow> x \<in> set xs"
  by (metis count_list_0_iff gr0I less_numeral_extra(3))

lemma run_checks_length: "run_checks cs w = (ss, w') \<Longrightarrow> length ss = length cs"
  by (induction cs arbitrary: w ss) (auto split: prod.splits)

lemma updated_names:
  "length ss = length cs \<Longrightarrow>
   set (map fst (fold (\<lambda>(c, s). AList.update (ck_Name c) s) (zip cs ss) al)) = ck_Name ` set cs \<union> set (map fst al)"
proof (induction cs ss arbitrary: al rule: list_induct2')
  case (4 c cs s ss)
  have "set (map fst (AList.update (ck_Name c) s al)) = insert (ck_Name c) (set (map fst al))"
    by (subst update_keys) auto
  with 4 show ?case by auto
qed simp_all

text \<open>every checker runs once, in order; the overall status is the worst reported, 503 exactly
  when a check failed, and the summary counts how often each status was reported.\<close>

theorem health_is_worst_check:
  assumes "run_checks (heCheckers E) w = (ss, w')"
  shows "\<exists>r. performHealthChecks E w = (r, w')
    \<and> HealthcheckAPI_Handle E rq w = (Inr (SendJsonResponse
         (if HealthStatusFail \<in> hs_Status ` set ss then StatusServiceUnavailable else StatusOK)
         (Some (marshal_healthcheck r))), w')
    \<and> hr_Status r = (if HealthStatusFail \<in> hs_Status ` set ss then HealthStatusFail
        else if HealthStatusWarn \<in> hs_Status ` set ss then HealthStatusWarn else HealthStatusPass)
    \<and> (\<forall>k. count_of k (hr_Summary r) = int (count_list (map hs_Status ss) k))
    \<and> set (map fst (hr_Checks r)) = ck_Name ` set (heCheckers E)"
proof -
  let ?m = "[(HealthStatusPass, 0), (HealthStatusFail, 0), (HealthStatusWarn, 0)] :: counts"
  have counts: "count_of k (fold (\<lambda>s. incr (hs_Status s)) ss ?m) = int (count_list (map hs_Status ss) k)" for k
    unfolding count_of_fold by (simp add: count_of_def)
  have pos: "0 < count_list (map hs_Status ss) k \<longleftrightarrow> k \<in> hs_Status ` set ss" for k
    by (simp add: count_list_pos)
  have "HealthStatusFail \<noteq> HealthStatusPass" "HealthStatusFail \<noteq> HealthStatusWarn" by (simp_all add: health_defs)
  then show ?thesis
    using updated_names [OF run_checks_length [OF assms], of "[]"]
    by (simp add: HealthcheckAPI_Handle_def performHealthChecks_def check_loop_eq assms Let_def counts pos)
qed

text \<open>Two checkers, one of which reports a slow answer.\<close>

definition demo_checkers :: "world checker list" where
  "demo_checkers =
     [\<lparr>ck_Name = ''redis'',
       ck_Check = RedisHealthChecker_Check (\<lambda>w. ((None, 200 * 10 ^ 6), w)) (\<lambda>_. '''') (\<lambda>_. ''200ms'')\<rparr>,
      \<lparr>ck_Name = ''disk'', ck_Check = (\<lambda>w. (\<lparr>hs_Status = ''ok'', hs_Message = '''', hs_Details = []\<rparr>, w))\<rparr>]"

theorem health_is_worst_check_witness:
  "\<exists>r. performHealthChecks (demo_http\<lparr>heCheckers := demo_checkers\<rparr>) demo_joined = (r, demo_joined)
    \<and> hr_Status r = ''warn'' \<and> count_of ''warn'' (hr_Summary r) = 1"
proof -
  let ?E = "demo_http\<lparr>heCheckers := demo_checkers\<rparr>"
  have E: "heCheckers ?E = demo_checkers" by simp
  have "\<exists>ss. run_checks demo_checkers w = (ss, w) \<and> map hs_Status ss = [''warn'', ''ok'']" for w
    by (simp add: demo_checkers_def RedisHealthChecker_Check_def health_defs)
  from this [of demo_joined] obtain ss where "run_checks demo_checkers demo_joined = (ss, demo_joined)"
      and statuses: "map hs_Status ss = [''warn'', ''ok'']" by (elim exE conjE)
  then have run: "run_checks (heCheckers ?E) demo_joined = (ss, demo_joined)" by (simp only: E)
  have set: "hs_Status ` set ss = {''warn'', ''ok''}" using arg_cong [OF statuses, of set] by simp
  obtain r where "performHealthChecks ?E demo_joined = (r, demo_joined)"
    and "hr_Status r = (if HealthStatusFail \<in> hs_Status ` set ss then HealthStatusFail
        else if HealthStatusWarn \<in> hs_Status ` set ss then HealthStatusWarn else HealthStatusPass)"
    and "\<forall>k. count_of k (hr_Summary r) = int (count_list (map hs_Status ss) k)"
    using health_is_worst_check [OF run, where rq = "demo_request ''ann''"] by (elim exE conjE) (rule that)
  then have "performHealthChecks ?E demo_joined = (r, demo_joined) \<and> hr_Status r = ''warn''
      \<and> count_of ''warn'' (hr_Summary r) = 1"
    unfolding set statuses by (simp add: health_defs)
  then show ?thesis by (rule exI)
qed

section \<open>Sending in the in-memory system\<close>

lemma sys_send_error: "ws_Send (net_socket ids) b msg w = (Inl e, w') \<Longrightarrow> \<not> errors_is s e"
  by (auto simp: ws_Send_def net_socket_def net_write_def split: if_splits)

lemma net_only_sys: "net_only (ws_Send (net_socket ids))"
proof -
  have same: "\<exists>n. w = w\<lparr>im_net := n\<rparr>" for w :: world by (rule exI [of _ "im_net w"]) simp
  show ?thesis
    by (auto simp: net_only_def ws_Send_def net_socket_def net_write_def on_net_def same)
qed

lemma sys_broadcast_error:
  "im_broadcast_loop (ws_Send (net_socket ids)) msg cs w = (Inl e, w') \<Longrightarrow> \<not> errors_is s e"
  by (induction cs arbitrary: w) (auto split: option.splits prod.splits sum.splits dest: sys_send_error)

text \<open>Broadcasting the state of a room sorts its clients and changes nothing else of the hub; it
  fails for a panic or a connection.\<close>

lemma sys_broadcastState:
  assumes run: "broadcastState srt (sys_hub ids clk uuid) ref w = (res, w')"
    and there: "im_Rooms w i = Some ref" "room_ID (im_deref ref w) = i"
  shows "im_saved w' = im_saved w \<and> im_Rooms w' = im_Rooms w \<and> im_Buses w' = im_Buses w
    \<and> im_Clients w' = im_Clients w
    \<and> (im_heap w' = im_heap w \<or> im_heap w' = (im_heap w)[ref := (im_deref ref w)\<lparr>Clients := srt (Clients (im_deref ref w))\<rparr>])
    \<and> (\<forall>e s. res = Inl e \<longrightarrow> errors_is s e \<longrightarrow> s = RuntimePanic)"
proof (cases "NewRoomStateCommand srt (im_deref ref w)")
  case None
  with run show ?thesis by (auto simp: broadcastState_def sys_hub_def im_hub_ops_def)
next
  case (Some p)
  then obtain msg r' where msg: "NewRoomStateCommand srt (im_deref ref w) = Some (msg, r')" by (cases p) auto
  then have r': "r' = (im_deref ref w)\<lparr>Clients := srt (Clients (im_deref ref w))\<rparr>"
    by (auto simp: NewRoomStateCommand_def MapToParticipants_def cc_Values_def Let_def split: option.splits)
  let ?w = "im_assign ref r' w"
  from run msg have "im_BroadcastToRoom (ws_Send (net_socket ids)) i msg ?w = (res, w')"
    by (simp add: broadcastState_def sys_hub_def im_hub_ops_def r' there)
  then have loop: "im_broadcast_loop (ws_Send (net_socket ids)) msg (cc_Values (Clients (im_deref ref ?w))) ?w = (res, w')"
    using there by (simp add: im_BroadcastToRoom_def im_LoadRoom_def im_assign_def)
  obtain n where "w' = ?w\<lparr>im_net := n\<rparr>" using im_broadcast_net_only [OF net_only_sys] loop by (metis snd_conv)
  then show ?thesis using sys_broadcast_error loop by (auto simp: im_assign_def r')
qed

section \<open>Toggling an owner\<close>

text \<open>The world in which a function runs under a lock.\<close>

definition locked :: "string \<Rightarrow> world \<Rightarrow> world" where
  "locked i = on_net (\<lambda>n. n\<lparr>net_locked := (net_locked n)(i := True)\<rparr>)"

lemma sys_lock_free:
  assumes "\<not> net_locked (im_net w) i" "fn (locked i w) = (res, w2)"
  shows "\<exists>f. sys_lock i fn w = (res, on_net f w2)"
proof -
  have "w2 = on_net (\<lambda>n. n) w2" by (simp add: on_net_def)
  with assms show ?thesis
    by (cases res) (auto simp: sys_lock_def im_WithLock_def locked_def)
qed

lemma on_net_frame [simp]:
  "im_Rooms (on_net f w) = im_Rooms w" "im_saved (on_net f w) = im_saved w"
  "im_heap (on_net f w) = im_heap w" "im_Buses (on_net f w) = im_Buses w"
  "im_Clients (on_net f w) = im_Clients w" "im_deref ref (on_net f w) = im_deref ref w"
  "im_net (on_net f w) = f (im_net w)"
  by (simp_all add: on_net_def im_deref_def)

text \<open>What \<open>AdminToggleOwner\<close> does under the lock of the room.\<close>

definition toggle_call where
  "toggle_call ids clk uuid i c = (let H = sys_hub ids clk uuid in
     andThen (wrapping ''load room: %w'' (hLoadRoom H i)) (\<lambda>room.
     andThen (on_room H room (\<lambda>r. Some (AdminToggleOwner c r))) (\<lambda>_.
     andThen (wrapping ''save room: %w'' (hSaveRoom H room)) (\<lambda>_.
     broadcastState (sort_key client_Name) H room))))"

lemma sys_hub_calls:
  "hLoadRoom (sys_hub ids clk uuid) i w = (case im_Rooms w i of None \<Rightarrow> (Inl ErrRoomNotFound, w) | Some ref \<Rightarrow> (Inr ref, w))"
  "hDeref (sys_hub ids clk uuid) ref w = im_deref ref w"
  "hAssign (sys_hub ids clk uuid) ref q w = im_assign ref q w"
  "hSaveRoom (sys_hub ids clk uuid) = im_SaveRoom"
  by (simp_all add: sys_hub_def im_hub_ops_def im_LoadRoom_def split: option.split)

lemma toggle_call_unknown:
  "toggle_call ids clk uuid i c w = (res, w') \<Longrightarrow> im_Rooms w i = None \<Longrightarrow>
   res = Inl (Errorf ''load room: %w'' [] [ErrRoomNotFound]) \<and> w' = w"
  by (simp add: toggle_call_def Let_def andThen_def wrapping_def sys_hub_calls)

lemma toggle_call_refused:
  assumes "toggle_call ids clk uuid i c w = (res, w')" "im_Rooms w i = Some ref" "ref < length (im_heap w)"
    and "AdminToggleOwner c (im_deref ref w) = (q, Some e)"
  shows "res = Inl e \<and> w' = w"
proof -
  have "q = im_deref ref w" using assms(4) by (auto simp: AdminToggleOwner_def split: if_splits option.splits)
  moreover have "im_assign ref (im_deref ref w) w = w" using assms(3) by (simp add: im_assign_def im_deref_def)
  ultimately show ?thesis
    using assms by (simp add: toggle_call_def Let_def andThen_def wrapping_def on_room_def sys_hub_calls)
qed

lemma toggle_call_saved:
  assumes "toggle_call ids clk uuid i c w = (res, w')" "im_Rooms w i = Some ref" "ref < length (im_heap w)"
    and "room_ID (im_deref ref w) = i" "AdminToggleOwner c (im_deref ref w) = (q, None)"
  shows "(\<forall>e s. res = Inl e \<longrightarrow> errors_is s e \<longrightarrow> s = RuntimePanic) \<and>
    im_saved w' i = Some ((copied_room (upd_client c flipOwner (im_deref ref w)))\<lparr>RoomVersion :=
      RoomVersion_Next (RoomVersion (case im_saved w i of Some s \<Rightarrow> s | None \<Rightarrow> im_deref ref w))\<rparr>)"
proof -
  let ?H = "sys_hub ids clk uuid" and ?r = "im_deref ref w"
  have q: "q = upd_client c flipOwner ?r"
    using assms(5) by (auto simp: AdminToggleOwner_def split: if_splits option.splits)
  obtain w3 where save: "im_SaveRoom ref (im_assign ref q w) = (Inr (), w3)" by (simp add: im_SaveRoom_def Let_def)
  have saved: "im_saved w3 = (im_saved w)(i \<mapsto> (copied_room q)\<lparr>RoomVersion :=
      RoomVersion_Next (RoomVersion (case im_saved w i of Some s \<Rightarrow> s | None \<Rightarrow> ?r))\<rparr>)"
    "im_Rooms w3 = im_Rooms w" "room_ID (im_deref ref w3) = i"
    using save assms(3,4) by (auto simp: im_SaveRoom_def Let_def im_assign_def im_deref_def q
        cloneRoom_eq upd_client_def split: option.splits)
  have "broadcastState (sort_key client_Name) ?H ref w3 = (res, w')"
    using assms(1,2,5) save
    by (simp add: toggle_call_def Let_def andThen_def wrapping_def on_room_def sys_hub_calls)
  from sys_broadcastState [OF this] saved assms(2)
  have "im_saved w' = im_saved w3" "\<forall>e s. res = Inl e \<longrightarrow> errors_is s e \<longrightarrow> s = RuntimePanic" by auto
  then show ?thesis using saved q by simp
qed

lemma AdminToggleOwner_outcome:
  "AdminToggleOwner c r = (q, e) \<Longrightarrow>
   (if lastOwner c r then e = Some ErrLastOwner
    else if c \<notin> client_ID ` set (Clients r)
    then e = Some (Errorf ''target client %s not found in room %s: %w'' [OStr c, OStr (room_ID r)] [ErrClientNotFound])
    else e = None)"
  using FindClient_None [of r c] by (auto simp: AdminToggleOwner_def split: if_splits option.splits)

text \<open>on a room that nobody else holds the lock of, the owner route answers 404 for an unknown
  room or client and 400 for the only owner, and then changes nothing; otherwise it toggles the
  client and saves the room under the next version, whether everybody could be told (200) or not
  (500).\<close>

theorem admin_toggle_owner_answers:
  assumes vars: "rq_Vars rq ''roomID'' = i" "rq_Vars rq ''clientID'' = c" "i \<noteq> ''''" "c \<noteq> ''''"
    and free: "\<not> net_locked (im_net w) i" and room: "room_there i w \<or> im_Rooms w i = None"
    and run: "ToggleOwnerAPI_execute (sys_http ids clk uuid uuids keys conn msgs) rq w = (Inr resp, w')"
  shows "case im_Rooms w i of
      None \<Rightarrow> rp_Status resp = StatusNotFound \<and> im_heap w' = im_heap w \<and> im_saved w' = im_saved w
    | Some ref \<Rightarrow>
        (let r = im_deref ref w in
         if lastOwner c r then rp_Status resp = StatusBadRequest \<and> im_heap w' = im_heap w \<and> im_saved w' = im_saved w
         else if c \<notin> client_ID ` set (Clients r)
         then rp_Status resp = StatusNotFound \<and> im_heap w' = im_heap w \<and> im_saved w' = im_saved w
         else rp_Status resp \<in> {StatusOK, StatusInternalServerError}
           \<and> im_saved w' i = Some ((copied_room (upd_client c flipOwner r))\<lparr>RoomVersion :=
               RoomVersion_Next (RoomVersion (case im_saved w i of Some s \<Rightarrow> s | None \<Rightarrow> r))\<rparr>))"
proof -
  let ?on_error = "\<lambda>e. if errors_is LastOwner e then SendJsonErrorMsg StatusBadRequest ''Cannot remove the last owner''
      else admin_error ''Failed to toggle owner'' e"
  define w1 where "w1 = locked i w"
  obtain res w2 where call: "toggle_call ids clk uuid i c w1 = (res, w2)" by (cases "toggle_call ids clk uuid i c w1")
  then obtain f where locked_run: "sys_lock i (toggle_call ids clk uuid i c) w = (res, on_net f w2)"
    using sys_lock_free [OF free] w1_def by blast
  have w1: "im_Rooms w1 = im_Rooms w" "im_saved w1 = im_saved w" "im_heap w1 = im_heap w"
    "im_deref ref w1 = im_deref ref w" for ref
    by (simp_all add: w1_def locked_def)
  have "respond (sys_lock i (toggle_call ids clk uuid i c)) ?on_error (\<lambda>_ _. status_response ''owner-toggled'') w
      = (Inr resp, w')"
    using run vars by (simp add: ToggleOwnerAPI_execute_def with_room_and_client_def sys_http_def Let_def
        AdminToggleOwner_Execute_def toggle_call_def)
  then have w': "w' = on_net f w2" "resp = (case res of Inr _ \<Rightarrow> status_response ''owner-toggled'' | Inl e \<Rightarrow> ?on_error e)"
    "\<And>e. res = Inl e \<Longrightarrow> \<not> errors_is RuntimePanic e"
    using locked_run by (auto simp: respond_def split: sum.splits if_splits)
  show ?thesis
  proof (cases "im_Rooms w i")
    case None
    then show ?thesis using toggle_call_unknown [OF call] w' w1 by (simp add: admin_error_def status_defs)
  next
    case (Some ref)
    let ?r = "im_deref ref w"
    obtain q e where op: "AdminToggleOwner c ?r = (q, e)" by (cases "AdminToggleOwner c ?r")
    have there: "ref < length (im_heap w1)" "room_ID (im_deref ref w1) = i"
      using room Some by (auto simp: room_there_def w1)
    note o1 = AdminToggleOwner_outcome [OF op]
    note at = call Some [folded w1(1)] there
    show ?thesis
    proof (cases e)
      case None
      then have "AdminToggleOwner c (im_deref ref w1) = (q, None)" using op w1 by simp
      note out = toggle_call_saved [OF at this]
      have no: "\<not> errors_is s x" if "res = Inl x" for x s using conjunct1 [OF out] w'(3) that by blast
      have "\<not> lastOwner c ?r \<and> c \<in> client_ID ` set (Clients ?r)" using o1 None by (simp split: if_splits)
      moreover have "rp_Status resp \<in> {StatusOK, StatusInternalServerError}"
        using w'(2) no by (cases res) (simp_all add: admin_error_def status_response_def)
      moreover have "im_saved w' = im_saved w2" by (simp add: w'(1))
      ultimately show ?thesis using conjunct2 [OF out] Some by (simp add: w1 Let_def split: option.splits)
    next
      case (Some x)
      then have "AdminToggleOwner c (im_deref ref w1) = (q, Some x)" using op w1 by simp
      from toggle_call_refused [OF at(1-3) this] show ?thesis
        using o1 Some w' w1 \<open>im_Rooms w i = Some ref\<close>
        by (auto simp: admin_error_def status_defs split: if_splits)
    qed
  qed
qed

lemma demo_joined_facts:
  "im_Rooms demo_joined = [''room'' \<mapsto> 0]" "im_deref 0 demo_joined = sample_room"
  "room_there ''room'' demo_joined" "\<not> net_locked (im_net demo_joined) ''room''"
proof -
  show rooms: "im_Rooms demo_joined = [''room'' \<mapsto> 0]" and deref: "im_deref 0 demo_joined = sample_room"
    by (simp_all add: demo_joined_def im_deref_def)
  have "room_ID sample_room = ''room''" "distinct (map client_ID (Clients sample_room))" by code_simp+
  with rooms deref show "room_there ''room'' demo_joined"
    by (auto simp: room_there_def demo_joined_def)
  show "\<not> net_locked (im_net demo_joined) ''room''"
    by (simp add: demo_joined_def new_world_def NewHub_def new_net_def)
qed

theorem admin_toggle_owner_answers_witness:
  "\<exists>resp w'. ToggleOwnerAPI_execute demo_http (demo_request ''ann'') demo_joined = (Inr resp, w')
    \<and> rp_Status resp = StatusBadRequest \<and> im_saved w' = im_saved demo_joined"
proof -
  have "\<not> isl (fst (ToggleOwnerAPI_execute demo_http (demo_request ''ann'') demo_joined))" by code_simp
  then obtain resp w' where run:
    "ToggleOwnerAPI_execute (sys_http demo_ids sample_clock ''story-1'' [''c1'', ''c2''] [''room''] 1 [])
      (demo_request ''ann'') demo_joined = (Inr resp, w')"
    by (cases "ToggleOwnerAPI_execute demo_http (demo_request ''ann'') demo_joined";
        cases "fst (ToggleOwnerAPI_execute demo_http (demo_request ''ann'') demo_joined)")
      (auto simp: demo_http_def)
  have last: "lastOwner ''ann'' sample_room" by code_simp
  have vars: "rq_Vars (demo_request ''ann'') ''roomID'' = ''room''"
    "rq_Vars (demo_request ''ann'') ''clientID'' = ''ann''" by (simp_all add: demo_request_def)
  note law = admin_toggle_owner_answers [OF vars _ _ demo_joined_facts(4) disjI1 [OF demo_joined_facts(3)] run]
  have "rp_Status resp = StatusBadRequest \<and> im_saved w' = im_saved demo_joined"
    using law last by (simp add: demo_joined_facts)
  with run show ?thesis unfolding demo_http_def by blast
qed

section \<open>Kicking a client\<close>

text \<open>The connection is told, detached and closed: only the connection changes.\<close>

lemma dismiss_connection:
  fixes b w and ids clk uuid uuids
  defines "E \<equiv> sys_env ids clk uuid uuids"
  assumes flags: "ws_closed (net_flags (im_net w) (bus_ref b)) = ws_closeOnce (net_flags (im_net w) (bus_ref b))"
    and w': "w' = snd (ws_Close E b (ws_Detach E b (snd (ws_Send E b Kicked w))))"
  shows "im_Rooms w' = im_Rooms w" "im_heap w' = im_heap w" "im_Buses w' = im_Buses w"
    "ws_closed (net_flags (im_net w') (bus_ref b))"
    "\<not> ws_closed (net_flags (im_net w) (bus_ref b)) \<Longrightarrow> \<not> net_broken (im_net w) (bus_ref b) \<Longrightarrow>
      net_sent (im_net w') = net_sent (im_net w) @ [(bus_ref b, Kicked)]"
proof -
  define w1 where "w1 = snd (ws_Send E b Kicked w)"
  have w1: "im_Rooms w1 = im_Rooms w" "im_heap w1 = im_heap w" "im_Buses w1 = im_Buses w"
    "net_flags (im_net w1) = net_flags (im_net w)"
    "\<not> ws_closed (net_flags (im_net w) (bus_ref b)) \<Longrightarrow> \<not> net_broken (im_net w) (bus_ref b) \<Longrightarrow>
      net_sent (im_net w1) = net_sent (im_net w) @ [(bus_ref b, Kicked)]"
    by (simp_all add: w1_def E_def ws_Send_def net_write_def net_socket_def)
  define w2 where "w2 = ws_Detach E b w1"
  have w2: "w2 = on_net (\<lambda>n. n\<lparr>net_flags := (net_flags n)(bus_ref b :=
      (net_flags (im_net w1) (bus_ref b))\<lparr>ws_skipCleanup := True\<rparr>)\<rparr>) w1"
    by (simp add: w2_def E_def ws_Detach_def net_socket_def)
  let ?fl = "(net_flags (im_net w) (bus_ref b))\<lparr>ws_skipCleanup := True\<rparr>"
  have fl2: "net_flags (im_net w2) (bus_ref b) = ?fl" by (simp add: w2 w1)
  have close: "w' = (if ws_closeOnce ?fl then w2
      else on_net (\<lambda>n. n\<lparr>net_flags := (net_flags n)(bus_ref b := ?fl\<lparr>ws_closed := True, ws_closeOnce := True\<rparr>)\<rparr>) w2)"
    unfolding w' w1_def [symmetric] w2_def [symmetric]
    by (simp add: ws_Close_def E_def net_socket_def fl2 Let_def errors_Join_def)
  show "im_Rooms w' = im_Rooms w" "im_heap w' = im_heap w" "im_Buses w' = im_Buses w"
    using w1(1-3) by (simp_all add: close w2)
  show "ws_closed (net_flags (im_net w') (bus_ref b))"
    using flags fl2 by (simp add: close)
  show "net_sent (im_net w') = net_sent (im_net w) @ [(bus_ref b, Kicked)]"
    if "\<not> ws_closed (net_flags (im_net w) (bus_ref b))" "\<not> net_broken (im_net w) (bus_ref b)"
    using w1(5) [OF that] by (simp add: close w2)
qed

lemma im_RemoveClient_room:
  assumes "im_RemoveClient clk c i h = (res, h')"
    and "im_Rooms h i = Some ref" "ref < length (im_heap h)" "room_ID (im_deref ref h) = i"
    and "im_Rooms h' i = Some ref'"
  shows "room_ID (im_deref ref' h') = i"
proof -
  obtain r' where rc: "RemoveClient clk c (im_deref ref h) = (r', None)" by (simp add: RemoveClient_eq)
  then have "room_ID r' = i" using assms(4) by (auto simp: RemoveClient_eq)
  with assms rc show ?thesis
    by (auto simp: im_RemoveClient_def im_RemoveBus_def im_LoadRoom_def im_RemoveRoom_def Let_def
        im_deref_def im_assign_def split: if_splits)
qed

text \<open>What leaving does to the hub.\<close>

lemma leave_gone:
  assumes run: "LeaveRoom_Execute srt (sys_hub ids clk uuid) sys_lock sys_metric i c w = (res, w')"
    and free: "\<not> net_locked (im_net w) i" and room: "room_there i w" and srt: "sorts_by_name srt"
  shows "im_Buses w' c = None
    \<and> (\<forall>ref. im_Rooms w' i = Some ref \<longrightarrow> c \<notin> client_ID ` set (Clients (im_deref ref w')))"
proof -
  let ?H = "sys_hub ids clk uuid"
  define after where "after = (\<lambda>(_ :: unit) w.
          let w1 = sys_metric DecrementActiveUsers w
          in case hLoadRoom ?H i w1 of
               (Inr room, w2) \<Rightarrow> broadcastState srt ?H room w2
             | (Inl e, w2) \<Rightarrow>
                 if errors_is RoomNotFound e then (Inr (), sys_metric DecrementActiveRoomsCounter w2)
                 else (Inl e, w2))"
  obtain ref where ref: "im_Rooms (locked i w) i = Some ref" "ref < length (im_heap (locked i w))"
    "room_ID (im_deref ref (locked i w)) = i" "distinct (map client_ID (Clients (im_deref ref (locked i w))))"
    using room by (auto simp: room_there_def locked_def)
  obtain r1 h1 where remove: "im_RemoveClient clk c i (locked i w) = (r1, h1)" by fastforce
  note gone = im_RemoveClient_gone [OF remove ref]
  obtain res2 w2 where aft: "after () h1 = (res2, w2)" by fastforce
  have "andThen (hRemoveClient ?H c i) after (locked i w) = (res2, w2)"
    using remove gone aft by (simp add: andThen_def sys_hub_def im_hub_ops_def)
  from sys_lock_free [OF free, where fn = "andThen (hRemoveClient ?H c i) after", OF this] obtain f where
    "sys_lock i (andThen (hRemoveClient ?H c i) after) w = (res2, on_net f w2)" by (elim exE)
  moreover have "sys_lock i (andThen (hRemoveClient ?H c i) after) w = (res, w')"
    using run by (simp add: LeaveRoom_Execute_def after_def)
  ultimately have w': "w' = on_net f w2" by simp
  have metric: "im_Rooms (sys_metric m u) = im_Rooms u" "im_heap (sys_metric m u) = im_heap u"
    "im_Buses (sys_metric m u) = im_Buses u" "im_deref q (sys_metric m u) = im_deref q u" for m u q
    by (simp_all add: sys_metric_def)
  have hload: "hLoadRoom ?H = im_LoadRoom" by (simp add: sys_hub_def im_hub_ops_def)
  show ?thesis
  proof (cases "im_Rooms h1 i")
    case None
    then have "w2 = sys_metric DecrementActiveRoomsCounter (sys_metric DecrementActiveUsers h1)"
      using aft by (simp add: after_def hload im_LoadRoom_def metric Let_def)
    with None gone w' show ?thesis by (simp add: metric)
  next
    case (Some ref1)
    let ?h = "sys_metric DecrementActiveUsers h1"
    have bc: "broadcastState srt ?H ref1 ?h = (res2, w2)"
      using Some aft by (simp add: after_def hload im_LoadRoom_def metric Let_def)
    have id1: "room_ID (im_deref ref1 ?h) = i"
      using im_RemoveClient_room [OF remove ref(1-3) Some] by (simp add: metric)
    from sys_broadcastState [OF bc _ id1] Some have w2: "im_Rooms w2 = im_Rooms h1" "im_Buses w2 = im_Buses h1"
      "im_heap w2 = im_heap h1 \<or> im_heap w2 = (im_heap h1)[ref1 := (im_deref ref1 h1)\<lparr>Clients := srt (Clients (im_deref ref1 h1))\<rparr>]"
      by (simp_all add: metric)
    from w2(3) sorts_by_nameD(2) [OF srt] have "set (Clients (im_deref ref1 w2)) = set (Clients (im_deref ref1 h1))"
      by (cases "ref1 < length (im_heap h1)") (auto simp: im_deref_def list_update_beyond)
    with w2 gone w' Some show ?thesis by auto
  qed
qed

text \<open>A room with one client, who is connected.\<close>

definition demo_alone :: world where
  "demo_alone = (new_world 5)\<lparr>im_heap := [NewRoomWithID (Time 7 ''UTC'') ''room'' [(newClient ''ann'')\<lparr>IsOwner := True\<rparr>]],
     im_Rooms := [''room'' \<mapsto> 0], im_Clients := [''ann'' \<mapsto> (0, ''ann'')],
     im_Buses := [''ann'' \<mapsto> Bus 0 ''room'']\<rparr>"

lemma demo_alone_facts:
  "\<not> net_locked (im_net demo_alone) ''room''" "room_there ''room'' demo_alone"
  by (simp_all add: demo_alone_def new_world_def NewHub_def new_net_def room_there_def im_deref_def
      NewRoomWithID_def NewRoomWithIDAndStartedAt_def)


end
