(* ===== verification/Gen_Values.thy ===== *)
theory Gen_Values
  imports Go_Errors
begin

text \<open>
  The protocol generator, \<open>tools/protocolgen\<close>: the values it reads and the text helpers of
  \<open>spec.go\<close>. It is a program of its own, which shares no state with the server; what connects the
  two are the files it writes.

  A document is what \<open>encoding/json\<close> and \<open>yaml.v3\<close> decode into \<open>any\<close>: a \<open>map[string]any\<close> is a list
  of pairs in no particular order, whose keys are distinct. Numbers are finite. Characters are bytes;
  of the letters and digits of Unicode only those of ASCII are told apart, so a byte above 127
  separates words like punctuation.
\<close>

section \<open>Values\<close>

datatype any_value =
    ANull
  | ABool bool
  | ANum rat
  | AStr string
  | AArr "any_value list"
  | AMap "(string \<times> any_value) list"
  | AAnyMap "(any_value \<times> any_value) list"

type_synonym any_map = "(string \<times> any_value) list"

definition asMap :: "any_value \<Rightarrow> any_map option" where
  "asMap v = (case v of AMap m \<Rightarrow> Some m | _ \<Rightarrow> None)"

definition stringValue :: "any_value \<Rightarrow> string option" where
  "stringValue v = (case v of AStr s \<Rightarrow> Some s | _ \<Rightarrow> None)"

definition asSlice :: "any_value \<Rightarrow> any_value list option" where
  "asSlice v = (case v of AArr xs \<Rightarrow> Some xs | _ \<Rightarrow> None)"

text \<open>\<open>m[k]\<close> of a \<open>map[string]any\<close>: nil when missing.\<close>

definition at_key :: "any_map \<Rightarrow> string \<Rightarrow> any_value" where
  "at_key m k = (case map_of m k of None \<Rightarrow> ANull | Some v \<Rightarrow> v)"

definition sortedKeys :: "(string \<times> 'a) list \<Rightarrow> string list" where
  "sortedKeys m = sort (remdups (map fst m))"

lemma set_sortedKeys [simp]: "set (sortedKeys m) = fst ` set m"
  by (simp add: sortedKeys_def)

lemma sorted_sortedKeys [simp]: "sorted (sortedKeys m)" "distinct (sortedKeys m)"
  by (simp_all add: sortedKeys_def)

text \<open>\<open>s, _ := stringValue(v)\<close>: empty when it is no string.\<close>

definition string_or_empty :: "any_value \<Rightarrow> string" where
  "string_or_empty v = (case stringValue v of None \<Rightarrow> '''' | Some s \<Rightarrow> s)"

section \<open>Normalizing YAML\<close>

definition non_string_key :: "any_value \<Rightarrow> go_error" where
  "non_string_key k = Errorf ''non-string mapping key %v'' [] []"

fun normalizeValue :: "any_value \<Rightarrow> go_error + any_value"
  and normalizeMap :: "any_map \<Rightarrow> go_error + any_map"
  and normalizeAnyMap :: "(any_value \<times> any_value) list \<Rightarrow> go_error + any_map"
  and normalizeSlice :: "any_value list \<Rightarrow> go_error + any_value list" where
  "normalizeValue (AMap m) = (case normalizeMap m of Inl e \<Rightarrow> Inl e | Inr m' \<Rightarrow> Inr (AMap m'))"
| "normalizeValue (AAnyMap m) = (case normalizeAnyMap m of Inl e \<Rightarrow> Inl e | Inr m' \<Rightarrow> Inr (AMap m'))"
| "normalizeValue (AArr xs) = (case normalizeSlice xs of Inl e \<Rightarrow> Inl e | Inr ys \<Rightarrow> Inr (AArr ys))"
| "normalizeValue v = Inr v"
| "normalizeMap [] = Inr []"
| "normalizeMap ((k, v) # m) =
     (case normalizeValue v of Inl e \<Rightarrow> Inl e
      | Inr v' \<Rightarrow> (case normalizeMap m of Inl e \<Rightarrow> Inl e | Inr m' \<Rightarrow> Inr ((k, v') # m')))"
| "normalizeAnyMap [] = Inr []"
| "normalizeAnyMap ((k, v) # m) =
     (case stringValue k of
        None \<Rightarrow> Inl (non_string_key k)
      | Some t \<Rightarrow>
          (case normalizeValue v of Inl e \<Rightarrow> Inl e
           | Inr v' \<Rightarrow> (case normalizeAnyMap m of Inl e \<Rightarrow> Inl e | Inr m' \<Rightarrow> Inr ((t, v') # m'))))"
| "normalizeSlice [] = Inr []"
| "normalizeSlice (v # vs) =
     (case normalizeValue v of Inl e \<Rightarrow> Inl e
      | Inr v' \<Rightarrow> (case normalizeSlice vs of Inl e \<Rightarrow> Inl e | Inr vs' \<Rightarrow> Inr (v' # vs')))"

section \<open>Text\<close>

abbreviation nl :: char where "nl \<equiv> CHR 0x0A"
abbreviation tab :: char where "tab \<equiv> CHR 0x09"
abbreviation dquote :: char where "dquote \<equiv> CHR 0x22"
abbreviation squote :: char where "squote \<equiv> CHR 0x27"
abbreviation backslash :: char where "backslash \<equiv> CHR 0x5C"

definition code :: "char \<Rightarrow> nat" where "code c = of_char c"

definition IsUpper :: "char \<Rightarrow> bool" where "IsUpper c \<longleftrightarrow> 65 \<le> code c \<and> code c \<le> 90"
definition IsLower :: "char \<Rightarrow> bool" where "IsLower c \<longleftrightarrow> 97 \<le> code c \<and> code c \<le> 122"
definition IsLetter :: "char \<Rightarrow> bool" where "IsLetter c \<longleftrightarrow> IsUpper c \<or> IsLower c"
definition IsDigit :: "char \<Rightarrow> bool" where "IsDigit c \<longleftrightarrow> 48 \<le> code c \<and> code c \<le> 57"

definition ToUpper :: "char \<Rightarrow> char" where
  "ToUpper c = (if IsLower c then char_of (code c - 32) else c)"

definition ToLower_string :: "string \<Rightarrow> string" where
  "ToLower_string s = map (\<lambda>c. if IsUpper c then char_of (code c + 32) else c) s"

definition HasPrefix :: "string \<Rightarrow> string \<Rightarrow> bool" where
  "HasPrefix s p \<longleftrightarrow> take (length p) s = p"

definition HasSuffix :: "string \<Rightarrow> string \<Rightarrow> bool" where
  "HasSuffix s p \<longleftrightarrow> length p \<le> length s \<and> drop (length s - length p) s = p"

text \<open>\<open>strings.Split\<close> and \<open>strings.Cut\<close> on one character.\<close>

fun split_on :: "char \<Rightarrow> string \<Rightarrow> string list" where
  "split_on d [] = [[]]"
| "split_on d (c # cs) =
     (if c = d then [] # split_on d cs
      else (case split_on d cs of [] \<Rightarrow> [[c]] | w # ws \<Rightarrow> (c # w) # ws))"

fun cut_at :: "char \<Rightarrow> string \<Rightarrow> (string \<times> string) option" where
  "cut_at d [] = None"
| "cut_at d (c # cs) =
     (if c = d then Some ([], cs)
      else (case cut_at d cs of None \<Rightarrow> None | Some (a, b) \<Rightarrow> Some (c # a, b)))"

text \<open>\<open>strings.ReplaceAll\<close> of two characters by one, and of one by two.\<close>

fun replace2 :: "char \<Rightarrow> char \<Rightarrow> char \<Rightarrow> string \<Rightarrow> string" where
  "replace2 a b r (x # y # s) = (if x = a \<and> y = b then r # replace2 a b r s else x # replace2 a b r (y # s))"
| "replace2 a b r s = s"

definition escape1 :: "char \<Rightarrow> string \<Rightarrow> string" where
  "escape1 c s = concat (map (\<lambda>x. if x = c then [backslash, c] else [x]) s)"

fun join_with :: "string \<Rightarrow> string list \<Rightarrow> string" where
  "join_with sep [] = []"
| "join_with sep [w] = w"
| "join_with sep (w # ws) = w @ sep @ join_with sep ws"

section \<open>Words and Go names\<close>

text \<open>\<open>splitIdentifier\<close>: the loop, with the word being collected; a letter in upper case begins a new
  one after a lower case letter or a digit, and when it is the last of a run of upper case letters
  before a lower case one.\<close>

definition flush :: "string list \<Rightarrow> string \<Rightarrow> string list" where
  "flush words current = (if current \<noteq> [] then words @ [current] else words)"

definition starts_word :: "string \<Rightarrow> char \<Rightarrow> string \<Rightarrow> bool" where
  "starts_word current c rest \<longleftrightarrow>
     current \<noteq> [] \<and> IsUpper c \<and>
     (let previous = last current; nextIsLower = (rest \<noteq> [] \<and> IsLower (hd rest))
      in IsLower previous \<or> IsDigit previous \<or> (IsUpper previous \<and> nextIsLower))"

fun split_loop :: "string list \<Rightarrow> string \<Rightarrow> string \<Rightarrow> string list" where
  "split_loop words current [] = flush words current"
| "split_loop words current (c # rest) =
     (if \<not> IsLetter c \<and> \<not> IsDigit c then split_loop (flush words current) [] rest
      else if starts_word current c rest then split_loop (flush words current) [c] rest
      else split_loop words (current @ [c]) rest)"

definition splitIdentifier :: "string \<Rightarrow> string list" where
  "splitIdentifier value = split_loop [] [] value"

text \<open>\<open>runes[0]\<close> of the empty word panics; \<open>None\<close> is that panic.\<close>

definition goWord :: "string \<Rightarrow> string option" where
  "goWord word =
     (if ToLower_string word = ''id'' then Some ''ID''
      else if ToLower_string word = ''uuid'' then Some ''UUID''
      else case word of [] \<Rightarrow> None | c # cs \<Rightarrow> Some (ToUpper c # cs))"

fun goWords :: "string list \<Rightarrow> string option" where
  "goWords [] = Some []"
| "goWords (w # ws) =
     (case goWord w of None \<Rightarrow> None
      | Some g \<Rightarrow> (case goWords ws of None \<Rightarrow> None | Some gs \<Rightarrow> Some (g @ gs)))"

definition goName :: "string \<Rightarrow> string option" where
  "goName value = goWords (splitIdentifier value)"

definition goConstantSuffix :: "string \<Rightarrow> string option" where
  "goConstantSuffix value = goName value"

text \<open>\<open>strconv.Quote\<close>.\<close>

definition hex_digit :: "nat \<Rightarrow> char" where
  "hex_digit n = (if n < 10 then char_of (48 + n) else char_of (87 + n))"

definition quote_char :: "char \<Rightarrow> string" where
  "quote_char c =
     (let n = code c in
      if c = dquote \<or> c = backslash then [backslash, c]
      else if n = 7 then backslash # ''a'' else if n = 8 then backslash # ''b''
      else if n = 12 then backslash # ''f'' else if n = 10 then backslash # ''n''
      else if n = 13 then backslash # ''r'' else if n = 9 then backslash # ''t''
      else if n = 11 then backslash # ''v''
      else if n < 32 \<or> n = 127 then backslash # ''x'' @ [hex_digit (n div 16), hex_digit (n mod 16)]
      else [c])"

definition quote :: "string \<Rightarrow> string" where
  "quote s = [dquote] @ concat (map quote_char s) @ [dquote]"

text \<open>\<open>singleQuote\<close> of \<open>typescript.go\<close>.\<close>

definition singleQuote :: "string \<Rightarrow> string" where
  "singleQuote value = [squote] @ escape1 squote (escape1 backslash value) @ [squote]"

section \<open>References and pointers\<close>

text \<open>Files are named by the segments of their absolute, clean path.\<close>

type_synonym path = "string list"

text \<open>\<open>filepath.Clean\<close> of a path relative to a directory.\<close>

fun walk :: "path \<Rightarrow> string list \<Rightarrow> path" where
  "walk dir [] = dir"
| "walk dir (s # ss) =
     (if s = [] \<or> s = ''.'' then walk dir ss
      else if s = ''..'' then walk (butlast dir) ss
      else walk (dir @ [s]) ss)"

definition splitRef :: "string \<Rightarrow> string \<times> string" where
  "splitRef ref = (case cut_at (CHR ''#'') ref of None \<Rightarrow> (ref, '''') | Some p \<Rightarrow> p)"

definition unescape_token :: "string \<Rightarrow> string" where
  "unescape_token t = replace2 (CHR ''~'') (CHR ''0'') (CHR ''~'') (replace2 (CHR ''~'') (CHR ''1'') (CHR ''/'') t)"

definition pointerName :: "string \<Rightarrow> string" where
  "pointerName fragment =
     (if fragment = '''' then '''' else unescape_token (last (split_on (CHR ''/'') fragment)))"

text \<open>\<open>strconv.Atoi\<close> of a token that is a natural number in decimal digits, with an optional sign.\<close>

fun digits_value :: "nat \<Rightarrow> string \<Rightarrow> nat option" where
  "digits_value n [] = Some n"
| "digits_value n (c # cs) = (if IsDigit c then digits_value (10 * n + (code c - 48)) cs else None)"

definition Atoi :: "string \<Rightarrow> int option" where
  "Atoi s =
     (let (neg, ds) = (case s of c # cs \<Rightarrow> if c = CHR ''-'' then (True, cs) else if c = CHR ''+'' then (False, cs) else (False, s)
                       | [] \<Rightarrow> (False, []))
      in if ds = [] then None
         else case digits_value 0 ds of
           None \<Rightarrow> None
         | Some n \<Rightarrow> (let i = (if neg then - int n else int n)
                     in if - (2 ^ 63) \<le> i \<and> i < 2 ^ 63 then Some i else None))"

definition segment_not_found :: "string \<Rightarrow> go_error" where
  "segment_not_found t = Errorf ''pointer segment %q not found'' [OStr t] []"

fun pointer_walk :: "any_value \<Rightarrow> string list \<Rightarrow> go_error + any_value" where
  "pointer_walk current [] = Inr current"
| "pointer_walk current (t # ts) =
     (let token = unescape_token t in
      case current of
        AMap m \<Rightarrow>
          (case map_of m token of None \<Rightarrow> Inl (segment_not_found token) | Some v \<Rightarrow> pointer_walk v ts)
      | AArr xs \<Rightarrow>
          (case Atoi token of
             None \<Rightarrow> Inl (segment_not_found token)
           | Some i \<Rightarrow>
               if i < 0 \<or> int (length xs) \<le> i then Inl (segment_not_found token)
               else pointer_walk (xs ! nat i) ts)
      | _ \<Rightarrow> Inl (Errorf ''pointer segment %q traverses a scalar'' [OStr token] []))"

definition pointerValue :: "any_map \<Rightarrow> string \<Rightarrow> go_error + any_value" where
  "pointerValue document fragment =
     (if fragment = '''' \<or> fragment = ''/'' then Inr (AMap document)
      else if \<not> HasPrefix fragment ''/'' then Inl (Errorf ''invalid JSON pointer %q'' [OStr fragment] [])
      else pointer_walk (AMap document) (split_on (CHR ''/'') (tl fragment)))"

definition checkPointer :: "any_map \<Rightarrow> string \<Rightarrow> go_error + unit" where
  "checkPointer document fragment =
     (case pointerValue document fragment of Inl e \<Rightarrow> Inl e | Inr _ \<Rightarrow> Inr ())"

end
