(* ===== verification/Gen_Schema.thy ===== *)
theory Gen_Schema
  imports Gen_Values
begin

text \<open>
  The schema loader of \<open>tools/protocolgen/spec.go\<close>: the \<open>$defs\<close> of the files under
  \<open>protocol/schemas\<close> are registered by name and then parsed, each once, following references.

  \<open>os.ReadFile\<close> and \<open>json.Unmarshal\<close> into a \<open>map[string]any\<close> are functions the loader holds; the
  files do not change while the generator runs, so a file is read as often as it is asked for and
  the cache \<open>docs\<close> makes no difference. \<open>parsed\<close> is the state the parser threads, with the latest entry first;
  \<open>parsing\<close>, which every call leaves as it found it, is an argument: the names being parsed.
\<close>

section \<open>Schemas\<close>

datatype SchemaKind =
    KindRef | KindObject | KindString | KindInteger | KindNumber | KindBoolean | KindArray

record schema_meta =
  mt_Kind :: SchemaKind
  mt_Nullable :: bool
  mt_Enum :: "string list"
  mt_Const :: string
  mt_Format :: string
  mt_GoType :: string
  mt_Minimum :: "rat option"
  mt_Maximum :: "rat option"

text \<open>\<open>Schema\<close> is its scalar fields, \<open>Properties\<close>, \<open>Items\<close> and \<open>RefName\<close>.\<close>

datatype schema =
    Schema (sch_meta: schema_meta) (sch_Properties: "property list") (sch_Items: "schema option")
      (sch_RefName: string)
  and property = Property (prop_Name: string) (prop_Schema: schema) (prop_Required: bool)

definition new_meta :: "SchemaKind \<Rightarrow> bool \<Rightarrow> schema_meta" where
  "new_meta kind nullable =
     \<lparr>mt_Kind = kind, mt_Nullable = nullable, mt_Enum = [], mt_Const = '''', mt_Format = '''',
      mt_GoType = '''', mt_Minimum = None, mt_Maximum = None\<rparr>"

definition sch_Kind :: "schema \<Rightarrow> SchemaKind" where "sch_Kind s = mt_Kind (sch_meta s)"
definition sch_Nullable :: "schema \<Rightarrow> bool" where "sch_Nullable s = mt_Nullable (sch_meta s)"
definition sch_Enum :: "schema \<Rightarrow> string list" where "sch_Enum s = mt_Enum (sch_meta s)"
definition sch_Const :: "schema \<Rightarrow> string" where "sch_Const s = mt_Const (sch_meta s)"
definition sch_Format :: "schema \<Rightarrow> string" where "sch_Format s = mt_Format (sch_meta s)"
definition sch_GoType :: "schema \<Rightarrow> string" where "sch_GoType s = mt_GoType (sch_meta s)"
definition sch_Minimum :: "schema \<Rightarrow> rat option" where "sch_Minimum s = mt_Minimum (sch_meta s)"

lemmas sch_fields =
  sch_Kind_def sch_Nullable_def sch_Enum_def sch_Const_def sch_Format_def sch_GoType_def sch_Minimum_def

text \<open>\<open>(*Schema).Property\<close>: the first of the name.\<close>

definition Schema_Property :: "schema \<Rightarrow> string \<Rightarrow> property option" where
  "Schema_Property s name = find (\<lambda>p. prop_Name p = name) (sch_Properties s)"

definition ref_schema :: "string \<Rightarrow> schema" where
  "ref_schema name = Schema (new_meta KindRef False) [] None name"

section \<open>Kinds\<close>

definition schemaKindName :: "string \<Rightarrow> go_error + SchemaKind" where
  "schemaKindName name =
     (if name = ''object'' then Inr KindObject
      else if name = ''string'' then Inr KindString
      else if name = ''integer'' then Inr KindInteger
      else if name = ''number'' then Inr KindNumber
      else if name = ''boolean'' then Inr KindBoolean
      else if name = ''array'' then Inr KindArray
      else Inl (Errorf ''unsupported type %q'' [OStr name] []))"

fun kind_list_loop :: "any_value list \<Rightarrow> SchemaKind option \<Rightarrow> bool \<Rightarrow> go_error + SchemaKind option \<times> bool" where
  "kind_list_loop [] kind nullable = Inr (kind, nullable)"
| "kind_list_loop (entry # entries) kind nullable =
     (case stringValue entry of
        None \<Rightarrow> Inl (New ''type entries must be strings'')
      | Some name \<Rightarrow>
          if name = ''null'' then kind_list_loop entries kind True
          else if kind \<noteq> None then Inl (New ''only one non-null type is supported'')
          else (case schemaKindName name of
                  Inl e \<Rightarrow> Inl e
                | Inr parsed \<Rightarrow> kind_list_loop entries (Some parsed) nullable))"

definition schemaKindFromList :: "any_value list \<Rightarrow> go_error + SchemaKind \<times> bool" where
  "schemaKindFromList values =
     (case kind_list_loop values None False of
        Inl e \<Rightarrow> Inl e
      | Inr (None, _) \<Rightarrow> Inl (New ''type must contain a non-null entry'')
      | Inr (Some kind, nullable) \<Rightarrow> Inr (kind, nullable))"

definition schemaKindWithoutType :: "any_map \<Rightarrow> go_error + SchemaKind \<times> bool" where
  "schemaKindWithoutType raw =
     (if at_key raw ''enum'' \<noteq> ANull \<or> at_key raw ''const'' \<noteq> ANull then Inr (KindString, False)
      else Inl (New ''missing type''))"

definition schemaKind :: "any_map \<Rightarrow> go_error + SchemaKind \<times> bool" where
  "schemaKind raw =
     (case map_of raw ''type'' of
        None \<Rightarrow> schemaKindWithoutType raw
      | Some (AStr value) \<Rightarrow>
          (case schemaKindName value of Inl e \<Rightarrow> Inl e | Inr kind \<Rightarrow> Inr (kind, False))
      | Some (AArr values) \<Rightarrow> schemaKindFromList values
      | Some _ \<Rightarrow> Inl (New ''type must be a string or an array of strings''))"

section \<open>Keywords and metadata\<close>

definition unsupportedKeywords :: "string list" where
  "unsupportedKeywords =
     [''minLength'', ''maxLength'', ''pattern'', ''minItems'', ''maxItems'', ''uniqueItems'',
      ''multipleOf'', ''exclusiveMinimum'', ''exclusiveMaximum'', ''minProperties'', ''maxProperties'',
      ''additionalProperties'', ''patternProperties'', ''allOf'', ''anyOf'', ''oneOf'', ''not'', ''if'',
      ''then'', ''else'', ''contains'', ''propertyNames'', ''dependentRequired'', ''dependentSchemas'']"

fun reject_loop :: "string list \<Rightarrow> any_map \<Rightarrow> go_error + unit" where
  "reject_loop [] raw = Inr ()"
| "reject_loop (keyword # ks) raw =
     (if map_of raw keyword \<noteq> None
      then Inl (Errorf ''unsupported JSON Schema keyword %q'' [OStr keyword] [])
      else reject_loop ks raw)"

definition rejectUnsupportedKeywords :: "any_map \<Rightarrow> go_error + unit" where
  "rejectUnsupportedKeywords raw = reject_loop unsupportedKeywords raw"

fun enum_loop :: "any_value list \<Rightarrow> string list \<Rightarrow> go_error + string list" where
  "enum_loop [] seen = Inr seen"
| "enum_loop (value # vs) seen =
     (case stringValue value of
        None \<Rightarrow> Inl (New ''enum values must be strings'')
      | Some t \<Rightarrow>
          if t \<in> set seen then Inl (Errorf ''duplicate enum value %q'' [OStr t] [])
          else enum_loop vs (seen @ [t]))"

definition kind_text :: "SchemaKind \<Rightarrow> string" where
  "kind_text k =
     (case k of KindRef \<Rightarrow> ''ref'' | KindObject \<Rightarrow> ''object'' | KindString \<Rightarrow> ''string''
      | KindInteger \<Rightarrow> ''integer'' | KindNumber \<Rightarrow> ''number'' | KindBoolean \<Rightarrow> ''boolean'' | KindArray \<Rightarrow> ''array'')"

definition applyEnum :: "any_value \<Rightarrow> schema_meta \<Rightarrow> go_error + schema_meta" where
  "applyEnum rawEnum m =
     (case asSlice rawEnum of
        None \<Rightarrow> Inl (New ''enum must be an array'')
      | Some values \<Rightarrow>
          if mt_Kind m \<noteq> KindString
          then Inl (Errorf ''enum requires a string type, got %q'' [OStr (kind_text (mt_Kind m))] [])
          else (case enum_loop values (mt_Enum m) of
                  Inl e \<Rightarrow> Inl e
                | Inr es \<Rightarrow> if es = [] then Inl (New ''enum must not be empty'') else Inr (m\<lparr>mt_Enum := es\<rparr>)))"

definition applyConst :: "any_value \<Rightarrow> schema_meta \<Rightarrow> go_error + schema_meta" where
  "applyConst rawConst m =
     (case stringValue rawConst of
        None \<Rightarrow> Inl (New ''const must be a string'')
      | Some t \<Rightarrow>
          if mt_Kind m \<noteq> KindString
          then Inl (Errorf ''const requires a string type, got %q'' [OStr (kind_text (mt_Kind m))] [])
          else Inr (m\<lparr>mt_Const := t\<rparr>))"

definition applyNumericConstraint :: "string \<Rightarrow> any_map \<Rightarrow> go_error + rat option" where
  "applyNumericConstraint keyword raw =
     (case map_of raw keyword of
        None \<Rightarrow> Inr None
      | Some (ANum x) \<Rightarrow> Inr (Some x)
      | Some _ \<Rightarrow> Inl (Errorf ''%s must be a number'' [OStr keyword] []))"

text \<open>One \<open>if raw, ok := raw[k]; ok\<close> of \<open>applySchemaMetadata\<close>, and sequencing.\<close>

definition if_key ::
  "string \<Rightarrow> any_map \<Rightarrow> (any_value \<Rightarrow> schema_meta \<Rightarrow> go_error + schema_meta) \<Rightarrow> schema_meta \<Rightarrow> go_error + schema_meta" where
  "if_key k raw f m = (case map_of raw k of None \<Rightarrow> Inr m | Some v \<Rightarrow> f v m)"

definition thenE :: "go_error + 'a \<Rightarrow> ('a \<Rightarrow> go_error + 'b) \<Rightarrow> go_error + 'b" where
  "thenE m k = (case m of Inl e \<Rightarrow> Inl e | Inr x \<Rightarrow> k x)"

lemma thenE_simps [simp]: "thenE (Inl e) k = Inl e" "thenE (Inr x) k = k x"
  by (simp_all add: thenE_def)

lemma thenE_Inr [simp]: "thenE m k = Inr y \<longleftrightarrow> (\<exists>x. m = Inr x \<and> k x = Inr y)"
  by (cases m) simp_all

definition applyFormat :: "any_value \<Rightarrow> schema_meta \<Rightarrow> go_error + schema_meta" where
  "applyFormat v m =
     (case stringValue v of None \<Rightarrow> Inl (New ''format must be a string'') | Some t \<Rightarrow> Inr (m\<lparr>mt_Format := t\<rparr>))"

definition applyGoType :: "any_value \<Rightarrow> schema_meta \<Rightarrow> go_error + schema_meta" where
  "applyGoType v m =
     (case stringValue v of None \<Rightarrow> Inl (New ''x-go-type must be a string'') | Some t \<Rightarrow> Inr (m\<lparr>mt_GoType := t\<rparr>))"

definition applySchemaMetadata :: "any_map \<Rightarrow> schema_meta \<Rightarrow> go_error + schema_meta" where
  "applySchemaMetadata raw m =
     thenE (if_key ''enum'' raw applyEnum m) (\<lambda>m1.
     thenE (if_key ''const'' raw applyConst m1) (\<lambda>m2.
     thenE (if_key ''format'' raw applyFormat m2) (\<lambda>m3.
     thenE (if_key ''x-go-type'' raw applyGoType m3) (\<lambda>m4.
     thenE (applyNumericConstraint ''minimum'' raw) (\<lambda>lo.
     thenE (applyNumericConstraint ''maximum'' raw) (\<lambda>hi.
     Inr (m4\<lparr>mt_Minimum := lo, mt_Maximum := hi\<rparr>)))))))"

definition validateNumericConstraints :: "schema_meta \<Rightarrow> go_error + unit" where
  "validateNumericConstraints m =
     (if mt_Maximum m \<noteq> None
      then Inl (New ''maximum is not supported: no Go type enforces an upper bound'')
      else case mt_Minimum m of
        None \<Rightarrow> Inr ()
      | Some x \<Rightarrow>
          if mt_Kind m \<noteq> KindInteger
          then Inl (Errorf ''minimum is only supported on integer fields, got type %q''
                     [OStr (kind_text (mt_Kind m))] [])
          else if mt_GoType m \<noteq> ''uint64''
          then Inl (Errorf ''minimum requires x-go-type uint64, got %q'' [OStr (mt_GoType m)] [])
          else if x \<noteq> 0
          then Inl (Errorf ''minimum %s is not supported: uint64 only enforces a zero lower bound'' [] [])
          else Inr ())"

text \<open>What \<open>parseSchema\<close> does before it looks at properties and items.\<close>

definition schema_head :: "any_map \<Rightarrow> go_error + schema_meta" where
  "schema_head raw =
     thenE (rejectUnsupportedKeywords raw) (\<lambda>_.
     thenE (schemaKind raw) (\<lambda>(kind, nullable).
     thenE (applySchemaMetadata raw (new_meta kind nullable)) (\<lambda>m.
     thenE (validateNumericConstraints m) (\<lambda>_. Inr m))))"

fun required_loop :: "any_value list \<Rightarrow> go_error + string list" where
  "required_loop [] = Inr []"
| "required_loop (v # vs) =
     (case stringValue v of
        None \<Rightarrow> Inl (New ''required entries must be strings'')
      | Some name \<Rightarrow> (case required_loop vs of Inl e \<Rightarrow> Inl e | Inr ns \<Rightarrow> Inr (name # ns)))"

definition requiredNames :: "any_map \<Rightarrow> go_error + string list" where
  "requiredNames raw =
     (case map_of raw ''required'' of
        None \<Rightarrow> Inr []
      | Some v \<Rightarrow> (case asSlice v of None \<Rightarrow> Inl (New ''required must be an array'') | Some vs \<Rightarrow> required_loop vs))"

text \<open>The checks of \<open>parseObjectProperties\<close>: the properties in the order of their names, and the
  required names. Which of several undeclared names the error names is left to the map; here it is
  the first listed.\<close>

definition object_shape :: "any_map \<Rightarrow> go_error + (string \<times> any_value) list \<times> string list" where
  "object_shape raw =
     (case map_of raw ''properties'' of
        None \<Rightarrow> Inr ([], [])
      | Some v \<Rightarrow>
          (case asMap v of
             None \<Rightarrow> Inl (New ''properties must be an object'')
           | Some properties \<Rightarrow>
               thenE (requiredNames raw) (\<lambda>required.
                 case find (\<lambda>name. map_of properties name = None) required of
                   Some name \<Rightarrow> Inl (Errorf ''required property %q is not declared'' [OStr name] [])
                 | None \<Rightarrow> Inr (map (\<lambda>k. (k, at_key properties k)) (sortedKeys properties), required))))"

definition array_items :: "any_map \<Rightarrow> go_error + any_map" where
  "array_items raw =
     (case map_of raw ''items'' of
        None \<Rightarrow> Inl (New ''array items are required'')
      | Some v \<Rightarrow> (case asMap v of None \<Rightarrow> Inl (New ''array items must be an object'') | Some items \<Rightarrow> Inr items))"

section \<open>The loader\<close>

record rawDefinition =
  rd_name :: string
  rd_file :: path
  rd_relFile :: string
  rd_raw :: any_map

record schemaLoader =
  ld_root :: path
  ld_ReadFile :: "path \<Rightarrow> go_error + string"
  ld_Unmarshal :: "string \<Rightarrow> go_error + any_map"
  ld_defs :: "(string \<times> rawDefinition) list"

text \<open>\<open>filepath.Rel\<close> between clean absolute paths.\<close>

fun rel_path :: "path \<Rightarrow> path \<Rightarrow> path" where
  "rel_path (a # as) (b # bs) = (if a = b then rel_path as bs else map (\<lambda>_. ''..'') (a # as) @ b # bs)"
| "rel_path as bs = map (\<lambda>_. ''..'') as @ bs"

definition relPath :: "schemaLoader \<Rightarrow> path \<Rightarrow> string" where
  "relPath L file = join_with ''/'' (rel_path (ld_root L) file)"

definition loadDoc :: "schemaLoader \<Rightarrow> path \<Rightarrow> go_error + any_map" where
  "loadDoc L file =
     (case ld_ReadFile L file of
        Inl e \<Rightarrow> Inl (Errorf ''read schema %s: %w'' [OStr (relPath L file)] [e])
      | Inr raw \<Rightarrow>
          (case ld_Unmarshal L raw of
             Inl e \<Rightarrow> Inl (Errorf ''parse schema %s: %w'' [OStr (relPath L file)] [e])
           | Inr document \<Rightarrow> Inr document))"

definition resolveRef :: "schemaLoader \<Rightarrow> path \<Rightarrow> string \<Rightarrow> go_error + path \<times> string" where
  "resolveRef L baseFile ref =
     (let (filePart, fragment) = splitRef ref;
          targetFile =
            (if filePart = '''' then baseFile
             else if HasPrefix filePart ''/'' then walk [] (split_on (CHR ''/'') filePart)
             else walk (butlast baseFile) (split_on (CHR ''/'') filePart))
      in case loadDoc L targetFile of
           Inl e \<Rightarrow> Inl (Errorf ''resolve $ref %q: %w'' [OStr ref] [e])
         | Inr document \<Rightarrow>
             (case checkPointer document fragment of
                Inl e \<Rightarrow> Inl (Errorf ''resolve $ref %q in %s: %w'' [OStr ref, OStr (relPath L targetFile)] [e])
              | Inr _ \<Rightarrow> Inr (targetFile, fragment)))"

text \<open>\<open>parseRefSchema\<close> up to the parsing of its target: the name of a definition that lives where the
  reference points.\<close>

definition ref_target :: "schemaLoader \<Rightarrow> any_value \<Rightarrow> path \<Rightarrow> go_error + string" where
  "ref_target L rawRef file =
     (case stringValue rawRef of
        None \<Rightarrow> Inl (New ''$ref must be a string'')
      | Some ref \<Rightarrow>
          thenE (resolveRef L file ref) (\<lambda>(targetFile, fragment).
            let refName = pointerName fragment in
            case map_of (ld_defs L) refName of
              None \<Rightarrow> Inl (Errorf ''$ref %q does not point at a known $defs entry'' [OStr ref] [])
            | Some definition' \<Rightarrow>
                if targetFile \<noteq> rd_file definition'
                then Inl (Errorf ''$ref %q resolves to %s but $defs.%s lives in %s''
                       [OStr ref, OStr (relPath L targetFile), OStr refName, OStr (rd_relFile definition')] [])
                else Inr refName))"

type_synonym parsed = "(string \<times> schema) list"

section \<open>Parsing\<close>

lemma size_any_AMap: "(k, v) \<in> set m \<Longrightarrow> size v < size (AMap m)"
  by (induction m) auto

lemma size_at_key: "size (at_key m k) < size (AMap m)"
proof (cases "map_of m k")
  case None
  then show ?thesis by (simp add: at_key_def)
next
  case (Some v)
  have "size v < size (AMap m)" by (rule size_any_AMap [OF map_of_SomeD [OF Some]])
  then show ?thesis using Some by (simp add: at_key_def)
qed

definition values_bound :: "(string \<times> any_value) list \<Rightarrow> nat" where
  "values_bound ps = foldr (\<lambda>p n. max (Suc (size (snd p))) n) ps 0"

lemma values_bound_simps [simp]:
  "values_bound [] = 0" "values_bound (p # ps) = max (Suc (size (snd p))) (values_bound ps)"
  by (simp_all add: values_bound_def)

lemma values_bound_le: "(\<forall>p \<in> set ps. size (snd p) < n) \<Longrightarrow> values_bound ps \<le> n"
  by (induction ps) auto

lemma array_items_size: "array_items raw = Inr items \<Longrightarrow> size (AMap items) < size (AMap raw)"
  by (auto simp: array_items_def asMap_def split: option.splits any_value.splits
      dest!: map_of_SomeD size_any_AMap)

lemma object_shape_bound:
  "object_shape raw = Inr (ps, required) \<Longrightarrow> values_bound ps < size (AMap raw)"
proof -
  assume *: "object_shape raw = Inr (ps, required)"
  show ?thesis
  proof (cases "map_of raw ''properties''")
    case None
    then show ?thesis using * by (simp add: object_shape_def)
  next
    case (Some v)
    then obtain m where m: "v = AMap m" "ps = map (\<lambda>k. (k, at_key m k)) (sortedKeys m)"
      using * by (auto simp: object_shape_def asMap_def split: any_value.splits option.splits)
    have "size (AMap m) < size (AMap raw)"
      using Some m size_any_AMap map_of_SomeD by metis
    moreover have "values_bound ps \<le> size (AMap m)"
      by (rule values_bound_le) (auto simp: m(2) size_at_key simp del: any_value.size)
    ultimately show ?thesis by linarith
  qed
qed

text \<open>\<open>parseDefinition\<close>, \<open>parseSchema\<close> with its reference, properties and items, and the loop of
  \<open>parseObjectProperties\<close> over \<open>parseObjectProperty\<close>.\<close>

definition unparsed :: "schemaLoader \<Rightarrow> string list \<Rightarrow> nat" where
  "unparsed L parsing = card (dom (map_of (ld_defs L)) - set parsing)"

lemma unparsed_less:
  "map_of (ld_defs L) name = Some d \<Longrightarrow> name \<notin> set parsing \<Longrightarrow> unparsed L (name # parsing) < unparsed L parsing"
  unfolding unparsed_def by (rule psubset_card_mono) (auto simp: finite_dom_map_of)

function (sequential) parseDefinition :: "schemaLoader \<Rightarrow> string list \<Rightarrow> string \<Rightarrow> parsed \<Rightarrow> go_error + schema \<times> parsed"
  and parseSchema :: "schemaLoader \<Rightarrow> string list \<Rightarrow> any_map \<Rightarrow> path \<Rightarrow> parsed \<Rightarrow> go_error + schema \<times> parsed"
  and parseProperties ::
    "schemaLoader \<Rightarrow> string list \<Rightarrow> (string \<times> any_value) list \<Rightarrow> string list \<Rightarrow> path \<Rightarrow> parsed
       \<Rightarrow> go_error + property list \<times> parsed" where
  "parseDefinition L parsing name p =
     (case map_of p name of
        Some s \<Rightarrow> Inr (s, p)
      | None \<Rightarrow>
          (case map_of (ld_defs L) name of
             None \<Rightarrow> Inl (Errorf ''unknown $defs %q'' [OStr name] [])
           | Some d \<Rightarrow>
               if name \<in> set parsing then Inl (Errorf ''circular $ref at %q'' [OStr name] [])
               else (case parseSchema L (name # parsing) (rd_raw d) (rd_file d) p of
                       Inl e \<Rightarrow> Inl (Errorf ''%s: $defs.%s: %w'' [OStr (rd_relFile d), OStr name] [e])
                     | Inr (s, p') \<Rightarrow> Inr (s, (name, s) # p'))))"
| "parseSchema L parsing raw file p =
     (case map_of raw ''$ref'' of
        Some rawRef \<Rightarrow>
          (case ref_target L rawRef file of
             Inl e \<Rightarrow> Inl e
           | Inr refName \<Rightarrow>
               (case parseDefinition L parsing refName p of
                  Inl e \<Rightarrow> Inl e
                | Inr (_, p') \<Rightarrow> Inr (ref_schema refName, p')))
      | None \<Rightarrow>
          (case schema_head raw of
             Inl e \<Rightarrow> Inl e
           | Inr m \<Rightarrow>
               (case mt_Kind m of
                  KindObject \<Rightarrow>
                    (case object_shape raw of
                       Inl e \<Rightarrow> Inl e
                     | Inr (ps, required) \<Rightarrow>
                         (case parseProperties L parsing ps required file p of
                            Inl e \<Rightarrow> Inl e
                          | Inr (qs, p') \<Rightarrow> Inr (Schema m qs None '''', p')))
                | KindArray \<Rightarrow>
                    (case array_items raw of
                       Inl e \<Rightarrow> Inl e
                     | Inr items \<Rightarrow>
                         (case parseSchema L parsing items file p of
                            Inl e \<Rightarrow> Inl (Errorf ''array items: %w'' [] [e])
                          | Inr (s, p') \<Rightarrow> Inr (Schema m [] (Some s) '''', p')))
                | _ \<Rightarrow> Inr (Schema m [] None '''', p))))"
| "parseProperties L parsing [] required file p = Inr ([], p)"
| "parseProperties L parsing ((name, value) # ps) required file p =
     (case value of
        AMap propertyRaw \<Rightarrow>
          (case parseSchema L parsing propertyRaw file p of
             Inl e \<Rightarrow> Inl (Errorf ''property %q: %w'' [OStr name] [e])
           | Inr (s, p') \<Rightarrow>
               (case parseProperties L parsing ps required file p' of
                  Inl e \<Rightarrow> Inl e
                | Inr (qs, p'') \<Rightarrow> Inr (Property name s (name \<in> set required) # qs, p'')))
      | _ \<Rightarrow> Inl (Errorf ''property %q must be an object'' [OStr name] []))"
  by pat_completeness auto

termination
proof (relation "inv_image (less_than <*lex*> less_than <*lex*> less_than)
    (\<lambda>x. case x of
       Inl (L, parsing, name, p) \<Rightarrow> (unparsed L parsing, 0, 0)
     | Inr (Inl (L, parsing, raw, file, p)) \<Rightarrow> (unparsed L parsing, size (AMap raw), 0)
     | Inr (Inr (L, parsing, ps, required, file, p)) \<Rightarrow> (unparsed L parsing, values_bound ps, length ps))",
    goal_cases)
qed (auto simp: unparsed_less object_shape_bound array_items_size simp del: any_value.size,
     auto simp: less_max_iff_disj)

declare parseDefinition.simps [simp del] parseSchema.simps [simp del] parseProperties.simps [simp del]

section \<open>Loading\<close>

definition registerDefinition :: "path \<Rightarrow> string \<Rightarrow> any_value \<Rightarrow> schemaLoader \<Rightarrow> go_error + schemaLoader" where
  "registerDefinition file name value L =
     (case asMap value of
        None \<Rightarrow> Inl (Errorf ''%s: $defs.%s is not an object'' [OStr (relPath L file), OStr name] [])
      | Some raw \<Rightarrow>
          (case map_of (ld_defs L) name of
             Some existing \<Rightarrow>
               Inl (Errorf ''duplicate $defs %q in %s and %s''
                 [OStr name, OStr (rd_relFile existing), OStr (relPath L file)] [])
           | None \<Rightarrow>
               Inr (L\<lparr>ld_defs := (name, \<lparr>rd_name = name, rd_file = file, rd_relFile = relPath L file,
                                        rd_raw = raw\<rparr>) # ld_defs L\<rparr>)))"

fun register_loop :: "path \<Rightarrow> any_map \<Rightarrow> string list \<Rightarrow> schemaLoader \<Rightarrow> go_error + schemaLoader" where
  "register_loop file defsRaw [] L = Inr L"
| "register_loop file defsRaw (name # names) L =
     (case registerDefinition file name (at_key defsRaw name) L of
        Inl e \<Rightarrow> Inl e | Inr L' \<Rightarrow> register_loop file defsRaw names L')"

definition loadDefinitionsFrom :: "path \<Rightarrow> schemaLoader \<Rightarrow> go_error + schemaLoader" where
  "loadDefinitionsFrom file L =
     (case loadDoc L file of
        Inl e \<Rightarrow> Inl e
      | Inr document \<Rightarrow>
          (case asMap (at_key document ''$defs'') of
             None \<Rightarrow> Inl (Errorf ''%s: missing $defs object'' [OStr (relPath L file)] [])
           | Some defsRaw \<Rightarrow> register_loop file defsRaw (sortedKeys defsRaw) L))"

fun loadDefinitions :: "path list \<Rightarrow> schemaLoader \<Rightarrow> go_error + schemaLoader" where
  "loadDefinitions [] L = Inr L"
| "loadDefinitions (file # files) L =
     (case loadDefinitionsFrom file L of Inl e \<Rightarrow> Inl e | Inr L' \<Rightarrow> loadDefinitions files L')"

definition ld_definitionNames :: "schemaLoader \<Rightarrow> string list" where
  "ld_definitionNames L = sortedKeys (ld_defs L)"

fun parse_loop :: "schemaLoader \<Rightarrow> string list \<Rightarrow> parsed \<Rightarrow> go_error + parsed" where
  "parse_loop L [] p = Inr p"
| "parse_loop L (name # names) p =
     (case parseDefinition L [] name p of Inl e \<Rightarrow> Inl e | Inr (_, p') \<Rightarrow> parse_loop L names p')"

definition parseDefinitions :: "schemaLoader \<Rightarrow> go_error + parsed" where
  "parseDefinitions L = parse_loop L (ld_definitionNames L) []"

definition schemaDirectory :: path where "schemaDirectory = [''protocol'', ''schemas'']"

text \<open>\<open>os.ReadDir\<close> gives the names in the directory, each with whether it is a directory.\<close>

definition schemaFiles :: "(go_error + (string \<times> bool) list) \<Rightarrow> path \<Rightarrow> go_error + path list" where
  "schemaFiles entries directory =
     (case entries of
        Inl e \<Rightarrow> Inl (Errorf ''read schema directory: %w'' [] [e])
      | Inr es \<Rightarrow>
          let names = sort (map fst (filter (\<lambda>(n, isDir). \<not> (isDir \<or> \<not> HasSuffix n ''.schema.json'')) es))
          in if names = [] then Inl (New ''no *.schema.json files in protocol/schemas'')
             else Inr (map (\<lambda>n. directory @ [n]) names))"

definition newSchemaLoader ::
  "(path \<Rightarrow> go_error + (string \<times> bool) list) \<Rightarrow> (path \<Rightarrow> go_error + string)
     \<Rightarrow> (string \<Rightarrow> go_error + any_map) \<Rightarrow> path \<Rightarrow> go_error + schemaLoader \<times> parsed" where
  "newSchemaLoader ReadDir ReadFile Unmarshal dir =
     thenE (schemaFiles (ReadDir (dir @ schemaDirectory)) (dir @ schemaDirectory)) (\<lambda>files.
     thenE (loadDefinitions files \<lparr>ld_root = dir, ld_ReadFile = ReadFile, ld_Unmarshal = Unmarshal, ld_defs = []\<rparr>) (\<lambda>L.
     thenE (parseDefinitions L) (\<lambda>p. Inr (L, p))))"

section \<open>What parsing leaves behind\<close>

text \<open>The names a schema refers to.\<close>

fun refs :: "schema \<Rightarrow> string set" and prop_refs :: "property \<Rightarrow> string set" where
  "refs (Schema m ps it r) =
     (if mt_Kind m = KindRef then {r} else {}) \<union> (\<Union>p \<in> set ps. prop_refs p) \<union>
     (case it of None \<Rightarrow> {} | Some s \<Rightarrow> refs s)"
| "prop_refs (Property n s q) = refs s"

text \<open>Every reference leads to a definition that was parsed before, and no name is parsed twice.\<close>

abbreviation names :: "(string \<times> 'a) list \<Rightarrow> string set" where "names p \<equiv> fst ` set p"

fun well_founded :: "parsed \<Rightarrow> bool" where
  "well_founded [] = True"
| "well_founded ((n, s) # p) = (n \<notin> names p \<and> refs s \<subseteq> names p \<and> well_founded p)"

lemma refs_ref_schema [simp]: "refs (ref_schema n) = {n}"
  by (simp add: ref_schema_def new_meta_def)

lemma map_of_None_names: "map_of p n = None \<longleftrightarrow> n \<notin> names p"
  by (simp add: map_of_eq_None_iff)

definition extends :: "schemaLoader \<Rightarrow> string list \<Rightarrow> parsed \<Rightarrow> parsed \<Rightarrow> bool" where
  "extends L parsing p p' \<longleftrightarrow>
     (\<exists>q. p' = q @ p \<and> names q \<subseteq> names (ld_defs L) - set parsing) \<and> (well_founded p \<longrightarrow> well_founded p')"

lemma extends_refl [simp]: "extends L parsing p p"
  by (simp add: extends_def)

lemma extends_trans: "extends L parsing p p' \<Longrightarrow> extends L parsing p' p'' \<Longrightarrow> extends L parsing p p''"
  unfolding extends_def by (elim conjE exE) auto

lemma extends_names: "extends L parsing p p' \<Longrightarrow> names p \<subseteq> names p'"
  by (auto simp: extends_def)

lemma extends_push:
  assumes "extends L (n # parsing) p p'" "refs s \<subseteq> names p'" "n \<notin> names p" "n \<notin> set parsing" "n \<in> names (ld_defs L)"
  shows "extends L parsing p ((n, s) # p')"
proof -
  obtain q where q: "p' = q @ p" "names q \<subseteq> names (ld_defs L) - set (n # parsing)"
    using assms(1) unfolding extends_def by blast
  have "n \<notin> names p'" using q assms(3) by auto
  then have "well_founded p \<longrightarrow> well_founded ((n, s) # p')"
    using assms(1,2) by (simp add: extends_def)
  moreover have "(n, s) # p' = ((n, s) # q) @ p" using q by simp
  moreover have "names ((n, s) # q) \<subseteq> names (ld_defs L) - set parsing" using q(2) assms(4,5) by auto
  ultimately show ?thesis unfolding extends_def by blast
qed

lemma schemaKindName_not_ref: "schemaKindName n = Inr k \<Longrightarrow> k \<noteq> KindRef"
  by (auto simp: schemaKindName_def split: if_splits)

lemma kind_list_not_ref:
  "kind_list_loop es k nu = Inr (k', nu') \<Longrightarrow> k \<noteq> Some KindRef \<Longrightarrow> k' \<noteq> Some KindRef"
proof (induction es k nu rule: kind_list_loop.induct)
  case (1 k nu)
  then show ?case by simp
next
  case (2 e es k nu)
  then show ?case
    by (auto split: option.splits if_splits sum.splits dest: schemaKindName_not_ref)
qed

lemma schemaKind_not_ref: "schemaKind raw = Inr (k, nu) \<Longrightarrow> k \<noteq> KindRef"
  by (auto simp: schemaKind_def schemaKindWithoutType_def schemaKindFromList_def
      split: option.splits any_value.splits sum.splits if_splits
      dest: schemaKindName_not_ref kind_list_not_ref)

lemma if_key_kind:
  "if_key k raw f m = Inr m' \<Longrightarrow> (\<And>v m m'. f v m = Inr m' \<Longrightarrow> mt_Kind m' = mt_Kind m) \<Longrightarrow> mt_Kind m' = mt_Kind m"
  by (auto simp: if_key_def split: option.splits)

lemma apply_kind:
  "applyEnum v m = Inr m' \<Longrightarrow> mt_Kind m' = mt_Kind m"
  "applyConst v m = Inr m' \<Longrightarrow> mt_Kind m' = mt_Kind m"
  "applyFormat v m = Inr m' \<Longrightarrow> mt_Kind m' = mt_Kind m"
  "applyGoType v m = Inr m' \<Longrightarrow> mt_Kind m' = mt_Kind m"
  by (auto simp: applyEnum_def applyConst_def applyFormat_def applyGoType_def
      split: option.splits sum.splits if_splits)

lemma applySchemaMetadata_kind: "applySchemaMetadata raw m = Inr m' \<Longrightarrow> mt_Kind m' = mt_Kind m"
  unfolding applySchemaMetadata_def thenE_Inr
  by (elim exE conjE)
    (drule if_key_kind [where f = applyEnum, OF _ apply_kind(1)]
       if_key_kind [where f = applyConst, OF _ apply_kind(2)]
       if_key_kind [where f = applyFormat, OF _ apply_kind(3)]
       if_key_kind [where f = applyGoType, OF _ apply_kind(4)]; auto)+

lemma schema_head_kind: "schema_head raw = Inr m \<Longrightarrow> mt_Kind m \<noteq> KindRef"
  by (auto simp: schema_head_def new_meta_def dest!: applySchemaMetadata_kind schemaKind_not_ref)

lemma parseSchema_array:
  "map_of raw ''$ref'' = None \<Longrightarrow> schema_head raw = Inr m \<Longrightarrow> mt_Kind m = KindArray \<Longrightarrow>
   parseSchema L parsing raw fl p =
     (case array_items raw of
        Inl e \<Rightarrow> Inl e
      | Inr items \<Rightarrow>
          (case parseSchema L parsing items fl p of
             Inl e \<Rightarrow> Inl (Errorf ''array items: %w'' [] [e])
           | Inr (s, p') \<Rightarrow> Inr (Schema m [] (Some s) '''', p')))"
  by (subst parseSchema.simps) simp

lemma parseSchema_scalar:
  "map_of raw ''$ref'' = None \<Longrightarrow> schema_head raw = Inr m \<Longrightarrow> mt_Kind m \<noteq> KindObject \<Longrightarrow>
   mt_Kind m \<noteq> KindArray \<Longrightarrow> parseSchema L parsing raw fl p = Inr (Schema m [] None '''', p)"
  by (subst parseSchema.simps) (simp split: SchemaKind.split)

lemma parse_extends:
  "parseDefinition L parsing name p = Inr (s, p') \<Longrightarrow>
     extends L parsing p p' \<and> map_of p' name = Some s"
  "parseSchema L parsing raw fl p = Inr (s, p') \<Longrightarrow> extends L parsing p p' \<and> refs s \<subseteq> names p'"
  "parseProperties L parsing ps required fl p = Inr (qs, p') \<Longrightarrow>
     extends L parsing p p' \<and> (\<Union>q \<in> set qs. prop_refs q) \<subseteq> names p'"
proof (induction L parsing name p and L parsing raw fl p and L parsing ps required fl p
    arbitrary: s p' and s p' and qs p'
    rule: parseDefinition_parseSchema_parseProperties.induct)
  case (1 L parsing name p)
  show ?case
  proof (cases "map_of p name")
    case (Some x)
    then show ?thesis using 1(2) by (simp add: parseDefinition.simps)
  next
    case None
    then obtain d p1 where d: "map_of (ld_defs L) name = Some d" "name \<notin> set parsing"
        "parseSchema L (name # parsing) (rd_raw d) (rd_file d) p = Inr (s, p1)" "p' = (name, s) # p1"
      using 1(2) by (auto simp: parseDefinition.simps split: option.splits if_splits sum.splits)
    have "extends L (name # parsing) p p1 \<and> refs s \<subseteq> names p1"
      by (rule 1(1) [OF None d(1,2,3)])
    moreover have "name \<in> names (ld_defs L)" using d(1) by (metis domI dom_map_of_conv_image_fst)
    ultimately show ?thesis
      using None d(2,4) by (simp add: extends_push map_of_None_names)
  qed
next
  case (2 L parsing raw fl p)
  show ?case
  proof (cases "map_of raw ''$ref''")
    case (Some rawRef)
    then obtain refName s0 where r: "ref_target L rawRef fl = Inr refName"
        "parseDefinition L parsing refName p = Inr (s0, p')" "s = ref_schema refName"
      using 2(4) by (auto simp: parseSchema.simps split: sum.splits)
    have *: "extends L parsing p p' \<and> map_of p' refName = Some s0"
      by (rule 2(3) [OF Some r(1,2)])
    then have "refName \<in> names p'" by (metis domI dom_map_of_conv_image_fst)
    then show ?thesis using * r(3) by simp
  next
    case None
    obtain m where m: "schema_head raw = Inr m"
      using 2(4) None by (auto simp: parseSchema.simps split: sum.splits)
    consider (object) "mt_Kind m = KindObject" | (array) "mt_Kind m = KindArray"
      | (scalar) "mt_Kind m \<noteq> KindObject" "mt_Kind m \<noteq> KindArray" by blast
    then show ?thesis
    proof cases
      case object
      then obtain ps required qs where o: "object_shape raw = Inr (ps, required)"
          "parseProperties L parsing ps required fl p = Inr (qs, p')" "s = Schema m qs None ''''"
        using 2(4) None m by (auto simp: parseSchema.simps split: sum.splits)
      show ?thesis using 2(1) [OF None m object o(1) refl o(2)] o(3) object by simp
    next
      case array
      then obtain items s0 where a: "array_items raw = Inr items"
          "parseSchema L parsing items fl p = Inr (s0, p')" "s = Schema m [] (Some s0) ''''"
        using 2(4) None m unfolding parseSchema_array [OF None m array] by (auto split: sum.splits)
      show ?thesis using 2(2) [OF None m array a(1,2)] a(3) array by simp
    next
      case scalar
      then have "s = Schema m [] None '''' \<and> p' = p \<and> mt_Kind m \<noteq> KindRef"
        using 2(4) parseSchema_scalar [OF None m scalar] schema_head_kind [OF m] by simp
      then show ?thesis by simp
    qed
  qed
next
  case (3 L parsing required fl p)
  then show ?case by (simp add: parseProperties.simps)
next
  case (4 L parsing name v ps required fl p)
  obtain raw where v: "v = AMap raw"
    using 4(3) by (cases v) (simp_all add: parseProperties.simps)
  obtain s p1 where s: "parseSchema L parsing raw fl p = Inr (s, p1)"
    using 4(3) v by (cases "parseSchema L parsing raw fl p") (auto simp: parseProperties.simps)
  obtain qs1 p2 where t: "parseProperties L parsing ps required fl p1 = Inr (qs1, p2)"
    using 4(3) v s by (cases "parseProperties L parsing ps required fl p1") (auto simp: parseProperties.simps)
  have q: "v = AMap raw" "parseSchema L parsing raw fl p = Inr (s, p1)"
      "parseProperties L parsing ps required fl p1 = Inr (qs1, p')"
      "qs = Property name s (name \<in> set required) # qs1"
    using 4(3) v s t by (simp_all add: parseProperties.simps)
  have 1: "extends L parsing p p1 \<and> refs s \<subseteq> names p1" by (rule 4(1) [OF q(1,2)])
  have 2: "extends L parsing p1 p' \<and> (\<Union>q \<in> set qs1. prop_refs q) \<subseteq> names p'"
    by (rule 4(2) [OF q(1,2) refl q(3)])
  have "refs s \<subseteq> names p'"
    using 1 2 by (elim conjE) (rule subset_trans [OF _ extends_names])
  then have "(\<Union>q \<in> set qs. prop_refs q) \<subseteq> names p'"
    using 2 unfolding q(4) by simp
  moreover have "extends L parsing p p'" using 1 2 by (elim conjE) (rule extends_trans)
  ultimately show ?case by (rule conjI [rotated])
qed

text \<open>What every parsed schema is: the constraints are those the generators emit, lists of properties
  carry each name once, and an array has items.\<close>

definition sound_meta :: "schema_meta \<Rightarrow> bool" where
  "sound_meta m \<longleftrightarrow>
     mt_Kind m \<noteq> KindRef \<and> mt_Maximum m = None \<and> distinct (mt_Enum m) \<and>
     (mt_Minimum m \<noteq> None \<longrightarrow> mt_Minimum m = Some 0 \<and> mt_Kind m = KindInteger \<and> mt_GoType m = ''uint64'') \<and>
     (mt_Enum m \<noteq> [] \<or> mt_Const m \<noteq> '''' \<longrightarrow> mt_Kind m = KindString)"

fun sound :: "schema \<Rightarrow> bool" and prop_sound :: "property \<Rightarrow> bool" where
  "sound (Schema m ps it r) =
     ((Schema m ps it r = ref_schema r \<or> sound_meta m) \<and>
      (ps \<noteq> [] \<longrightarrow> mt_Kind m = KindObject) \<and> (it \<noteq> None \<longleftrightarrow> mt_Kind m = KindArray) \<and>
      sorted (map prop_Name ps) \<and> distinct (map prop_Name ps) \<and> (\<forall>p \<in> set ps. prop_sound p) \<and>
      (case it of None \<Rightarrow> True | Some s \<Rightarrow> sound s))"
| "prop_sound (Property n s q) = sound s"

lemma sound_ref_schema [simp]: "sound (ref_schema n)"
  by (simp add: ref_schema_def new_meta_def)

lemma enum_loop_distinct: "enum_loop vs seen = Inr es \<Longrightarrow> distinct seen \<Longrightarrow> distinct es"
  by (induction vs seen rule: enum_loop.induct) (auto split: option.splits if_splits)

lemma if_key_cases: "if_key k raw f m = Inr m' \<Longrightarrow> m' = m \<or> (\<exists>v. f v m = Inr m')"
  by (auto simp: if_key_def split: option.splits)

text \<open>The invariant of \<open>applySchemaMetadata\<close>, kept by each of its steps.\<close>

definition stage :: "schema_meta \<Rightarrow> bool" where
  "stage m \<longleftrightarrow> mt_Kind m \<noteq> KindRef \<and> distinct (mt_Enum m) \<and>
     (mt_Enum m \<noteq> [] \<or> mt_Const m \<noteq> '''' \<longrightarrow> mt_Kind m = KindString)"

lemma apply_stage:
  "applyEnum v m = Inr m' \<Longrightarrow> stage m \<Longrightarrow> stage m'"
  "applyConst v m = Inr m' \<Longrightarrow> stage m \<Longrightarrow> stage m'"
  "applyFormat v m = Inr m' \<Longrightarrow> stage m \<Longrightarrow> stage m'"
  "applyGoType v m = Inr m' \<Longrightarrow> stage m \<Longrightarrow> stage m'"
  by (auto simp: applyEnum_def applyConst_def applyFormat_def applyGoType_def stage_def
      split: option.splits sum.splits if_splits dest: enum_loop_distinct)

lemma if_key_stage:
  "if_key k raw f m = Inr m' \<Longrightarrow> (\<And>v m m'. f v m = Inr m' \<Longrightarrow> stage m \<Longrightarrow> stage m') \<Longrightarrow> stage m \<Longrightarrow> stage m'"
  by (auto simp: if_key_def split: option.splits)

lemma applySchemaMetadata_stage: "applySchemaMetadata raw m = Inr m' \<Longrightarrow> stage m \<Longrightarrow> stage m'"
  unfolding applySchemaMetadata_def thenE_Inr
proof (elim exE conjE)
  fix m1 m2 m3 m4 lo hi
  assume s: "stage m" "if_key ''enum'' raw applyEnum m = Inr m1" "if_key ''const'' raw applyConst m1 = Inr m2"
    "if_key ''format'' raw applyFormat m2 = Inr m3" "if_key ''x-go-type'' raw applyGoType m3 = Inr m4"
    "(Inr (m4\<lparr>mt_Minimum := lo, mt_Maximum := hi\<rparr>) :: go_error + schema_meta) = Inr m'"
  have "stage m1" by (rule if_key_stage [OF s(2) _ s(1)]) (rule apply_stage(1))
  then have "stage m2" by (rule if_key_stage [OF s(3), rotated]) (rule apply_stage(2))
  then have "stage m3" by (rule if_key_stage [OF s(4), rotated]) (rule apply_stage(3))
  then have "stage m4" by (rule if_key_stage [OF s(5), rotated]) (rule apply_stage(4))
  then show "stage m'" using s(6) by (auto simp: stage_def)
qed

lemma schema_head_sound: "schema_head raw = Inr m \<Longrightarrow> sound_meta m"
proof -
  assume "schema_head raw = Inr m"
  then obtain k nu where m: "schemaKind raw = Inr (k, nu)"
      "applySchemaMetadata raw (new_meta k nu) = Inr m" "validateNumericConstraints m = Inr ()"
    by (auto simp: schema_head_def)
  have "stage (new_meta k nu)" using schemaKind_not_ref [OF m(1)] by (simp add: stage_def new_meta_def)
  then have "stage m" by (rule applySchemaMetadata_stage [OF m(2)])
  then show ?thesis using m(3)
    by (auto simp: stage_def sound_meta_def validateNumericConstraints_def split: if_splits option.splits)
qed

lemma object_shape_sorted:
  "object_shape raw = Inr (ps, required) \<Longrightarrow> sorted (map fst ps) \<and> distinct (map fst ps)"
  by (auto simp: object_shape_def comp_def split: option.splits)

definition all_sound :: "parsed \<Rightarrow> bool" where
  "all_sound p \<longleftrightarrow> (\<forall>e \<in> set p. sound (snd e))"

lemma parse_sound:
  "parseDefinition L parsing name p = Inr (s, p') \<Longrightarrow> all_sound p \<Longrightarrow> sound s \<and> all_sound p'"
  "parseSchema L parsing raw fl p = Inr (s, p') \<Longrightarrow> all_sound p \<Longrightarrow> sound s \<and> all_sound p'"
  "parseProperties L parsing ps required fl p = Inr (qs, p') \<Longrightarrow> all_sound p \<Longrightarrow>
     map prop_Name qs = map fst ps \<and> (\<forall>q \<in> set qs. prop_sound q) \<and> all_sound p'"
proof (induction L parsing name p and L parsing raw fl p and L parsing ps required fl p
    arbitrary: s p' and s p' and qs p'
    rule: parseDefinition_parseSchema_parseProperties.induct)
  case (1 L parsing name p)
  show ?case
  proof (cases "map_of p name")
    case (Some x)
    then show ?thesis using 1(2,3) map_of_SomeD [OF Some] by (auto simp: parseDefinition.simps all_sound_def)
  next
    case None
    then obtain d p1 where d: "map_of (ld_defs L) name = Some d" "name \<notin> set parsing"
        "parseSchema L (name # parsing) (rd_raw d) (rd_file d) p = Inr (s, p1)" "p' = (name, s) # p1"
      using 1(2) by (auto simp: parseDefinition.simps split: option.splits if_splits sum.splits)
    have "sound s \<and> all_sound p1" by (rule 1(1) [OF None d(1,2,3) 1(3)])
    then show ?thesis using d(4) by (simp add: all_sound_def)
  qed
next
  case (2 L parsing raw fl p)
  show ?case
  proof (cases "map_of raw ''$ref''")
    case (Some rawRef)
    then obtain refName s0 where r: "ref_target L rawRef fl = Inr refName"
        "parseDefinition L parsing refName p = Inr (s0, p')" "s = ref_schema refName"
      using 2(4) by (auto simp: parseSchema.simps split: sum.splits)
    have "sound s0 \<and> all_sound p'" by (rule 2(3) [OF Some r(1,2) 2(5)])
    then show ?thesis using r(3) by simp
  next
    case None
    obtain m where m: "schema_head raw = Inr m"
      using 2(4) None by (auto simp: parseSchema.simps split: sum.splits)
    note sm = schema_head_sound [OF m]
    consider (object) "mt_Kind m = KindObject" | (array) "mt_Kind m = KindArray"
      | (scalar) "mt_Kind m \<noteq> KindObject" "mt_Kind m \<noteq> KindArray" by blast
    then show ?thesis
    proof cases
      case object
      then obtain ps required qs where o: "object_shape raw = Inr (ps, required)"
          "parseProperties L parsing ps required fl p = Inr (qs, p')" "s = Schema m qs None ''''"
        using 2(4) None m by (auto simp: parseSchema.simps split: sum.splits)
      show ?thesis
        using 2(1) [OF None m object o(1) refl o(2) 2(5)] o(3) object sm object_shape_sorted [OF o(1)] by simp
    next
      case array
      then obtain items s0 where a: "array_items raw = Inr items"
          "parseSchema L parsing items fl p = Inr (s0, p')" "s = Schema m [] (Some s0) ''''"
        using 2(4) unfolding parseSchema_array [OF None m array] by (auto split: sum.splits)
      show ?thesis using 2(2) [OF None m array a(1,2) 2(5)] a(3) array sm by simp
    next
      case scalar
      then show ?thesis using 2(4,5) parseSchema_scalar [OF None m scalar] sm by auto
    qed
  qed
next
  case (3 L parsing required fl p)
  then show ?case by (simp add: parseProperties.simps)
next
  case (4 L parsing name v ps required fl p)
  obtain raw where v: "v = AMap raw"
    using 4(3) by (cases v) (simp_all add: parseProperties.simps)
  obtain s p1 where s: "parseSchema L parsing raw fl p = Inr (s, p1)"
    using 4(3) v by (cases "parseSchema L parsing raw fl p") (auto simp: parseProperties.simps)
  obtain qs1 p2 where t: "parseProperties L parsing ps required fl p1 = Inr (qs1, p2)"
    using 4(3) v s by (cases "parseProperties L parsing ps required fl p1") (auto simp: parseProperties.simps)
  have q: "v = AMap raw" "parseSchema L parsing raw fl p = Inr (s, p1)"
      "parseProperties L parsing ps required fl p1 = Inr (qs1, p')"
      "qs = Property name s (name \<in> set required) # qs1"
    using 4(3) v s t by (simp_all add: parseProperties.simps)
  have 1: "sound s \<and> all_sound p1" by (rule 4(1) [OF q(1,2) 4(4)])
  then have "map prop_Name qs1 = map fst ps \<and> (\<forall>q \<in> set qs1. prop_sound q) \<and> all_sound p'"
    by (intro 4(2) [OF q(1,2) refl q(3)]) simp
  then show ?case using 1 unfolding q(4) by simp
qed

lemma parse_loop_result:
  "parse_loop L ns p = Inr p' \<Longrightarrow> well_founded p \<Longrightarrow> all_sound p \<Longrightarrow> names p \<subseteq> names (ld_defs L) \<Longrightarrow>
     well_founded p' \<and> all_sound p' \<and> names p \<union> set ns \<subseteq> names p' \<and> names p' \<subseteq> names (ld_defs L)"
proof (induction ns arbitrary: p)
  case Nil
  then show ?case by simp
next
  case (Cons n ns)
  obtain s p1 where s: "parseDefinition L [] n p = Inr (s, p1)" "parse_loop L ns p1 = Inr p'"
    using Cons.prems(1) by (auto split: sum.splits)
  have e: "extends L [] p p1" "map_of p1 n = Some s" using parse_extends(1) [OF s(1)] by simp_all
  have "names p1 \<subseteq> names (ld_defs L)"
    using e(1) Cons.prems(4) unfolding extends_def by (elim exE conjE) (simp add: image_Un)
  then have p1: "all_sound p1" "well_founded p1" "names p1 \<subseteq> names (ld_defs L)"
    using parse_sound(1) [OF s(1) Cons.prems(3)] e(1) Cons.prems(2) by (simp_all add: extends_def)
  have "names p1 \<union> set ns \<subseteq> names p' \<and> well_founded p' \<and> all_sound p' \<and> names p' \<subseteq> names (ld_defs L)"
    using Cons.IH [OF s(2) p1(2,1,3)] by simp
  moreover have "names p \<subseteq> names p1" by (rule extends_names [OF e(1)])
  moreover have "n \<in> names p1" using e(2) by (metis domI dom_map_of_conv_image_fst)
  ultimately show ?case by (intro conjI; (elim conjE)?) (auto 0 3)
qed

lemma parseDefinitions_result:
  "parseDefinitions L = Inr p \<Longrightarrow> well_founded p \<and> all_sound p \<and> names p = names (ld_defs L)"
  unfolding parseDefinitions_def
  by (drule parse_loop_result) (auto simp: all_sound_def ld_definitionNames_def)

text \<open>The lookup in what was parsed goes down in the list.\<close>

lemma well_founded_lookup:
  "well_founded p \<Longrightarrow> map_of p n = Some s \<Longrightarrow> refs s \<subseteq> names p"
  by (induction p) (auto split: if_splits)

end
