(* ===== verification/Gen_Spec.thy ===== *)
theory Gen_Spec
  imports Gen_Schema
begin

text \<open>
  The protocol contract of \<open>tools/protocolgen/spec.go\<close>: the AsyncAPI document is read, its messages
  are checked against the channel and the operations, and together with the definitions of the schemas
  they make the \<open>Spec\<close> the emitters work from.

  \<open>gen_env\<close> holds what the generator calls outside its own code: the file system it reads, the JSON and
  YAML decoders, \<open>go/format\<close> and \<open>strconv.FormatFloat\<close>.
\<close>

record gen_env =
  ge_ReadDir :: "path \<Rightarrow> go_error + (string \<times> bool) list"
  ge_ReadFile :: "path \<Rightarrow> go_error + string"
  ge_json :: "string \<Rightarrow> go_error + any_map"
  ge_yaml :: "string \<Rightarrow> go_error + any_map"
  ge_gofmt :: "string \<Rightarrow> go_error + string"
  ge_FormatFloat :: "rat \<Rightarrow> string"

section \<open>The contract\<close>

datatype Direction = DirectionSend | DirectionReceive

record protocol_message =
  msg_WireType :: string
  msg_Title :: string
  msg_Summary :: string
  msg_Direction :: Direction
  msg_SchemaFile :: string
  msg_SchemaPointer :: string
  msg_DefName :: string
  msg_PayloadType :: string

definition IsCommand :: "protocol_message \<Rightarrow> bool" where
  "IsCommand m \<longleftrightarrow> msg_Direction m = DirectionSend"

record schema_definition =
  df_Name :: string
  df_File :: string
  df_Schema :: schema

record protocol_spec =
  sp_Messages :: "protocol_message list"
  sp_Definitions :: "schema_definition list"
  sp_byName :: "(string \<times> schema_definition) list"

definition spec_Definition :: "protocol_spec \<Rightarrow> string \<Rightarrow> schema_definition option" where
  "spec_Definition spec name = map_of (sp_byName spec) name"

fun byName_loop ::
  "schema_definition list \<Rightarrow> (string \<times> schema_definition) list \<Rightarrow> go_error + (string \<times> schema_definition) list" where
  "byName_loop [] acc = Inr acc"
| "byName_loop (d # ds) acc =
     (if map_of acc (df_Name d) \<noteq> None
      then Inl (Errorf ''duplicate $defs %q'' [OStr (df_Name d)] [])
      else byName_loop ds ((df_Name d, d) # acc))"

definition newSpec :: "protocol_message list \<Rightarrow> schema_definition list \<Rightarrow> go_error + protocol_spec" where
  "newSpec messages definitions =
     (case byName_loop definitions [] of
        Inl e \<Rightarrow> Inl e
      | Inr m \<Rightarrow> Inr \<lparr>sp_Messages = messages, sp_Definitions = definitions, sp_byName = m\<rparr>)"

definition CommandMessages :: "protocol_spec \<Rightarrow> protocol_message list" where
  "CommandMessages spec = filter IsCommand (sp_Messages spec)"

definition EventMessages :: "protocol_spec \<Rightarrow> protocol_message list" where
  "EventMessages spec = filter (\<lambda>m. \<not> IsCommand m) (sp_Messages spec)"

definition GuardedMessages :: "protocol_spec \<Rightarrow> protocol_message list" where
  "GuardedMessages spec =
     filter (\<lambda>m. IsCommand m \<and>
               (case spec_Definition spec (msg_PayloadType m) of
                  None \<Rightarrow> False
                | Some d \<Rightarrow> sch_Kind (df_Schema d) = KindObject \<and>
                            Schema_Property (df_Schema d) ''expectedRoomVersion'' \<noteq> None))
            (sp_Messages spec)"

section \<open>Entries of the AsyncAPI document\<close>

definition entryRawRef :: "any_value \<Rightarrow> go_error + string" where
  "entryRawRef value =
     (case asMap value of
        None \<Rightarrow> Inl (New ''entry must be an object'')
      | Some entry \<Rightarrow>
          let ref = string_or_empty (at_key entry ''$ref'')
          in if ref = '''' then Inl (New ''entry requires a $ref'') else Inr ref)"

definition entryRef :: "any_value \<Rightarrow> go_error + string" where
  "entryRef value = thenE (entryRawRef value) (\<lambda>ref. Inr (pointerName (snd (splitRef ref))))"

definition asyncAPIYAMLPath :: path where "asyncAPIYAMLPath = [''protocol'', ''asyncapi.yaml'']"

definition channelMessagesRefPrefix :: string where
  "channelMessagesRefPrefix = ''#/channels/roomSocket/messages/''"

definition readAsyncAPIDocument :: "gen_env \<Rightarrow> path \<Rightarrow> go_error + any_map" where
  "readAsyncAPIDocument env dir =
     (case ge_ReadFile env (dir @ asyncAPIYAMLPath) of
        Inl e \<Rightarrow> Inl (Errorf ''read protocol/asyncapi.yaml: %w'' [] [e])
      | Inr rawYAML \<Rightarrow>
          (case ge_yaml env rawYAML of
             Inl e \<Rightarrow> Inl (Errorf ''parse protocol/asyncapi.yaml: %w'' [] [e])
           | Inr document \<Rightarrow>
               (case normalizeValue (AMap document) of
                  Inl e \<Rightarrow> Inl (Errorf ''parse protocol/asyncapi.yaml: %w'' [] [e])
                | Inr normalized \<Rightarrow>
                    (case asMap normalized of
                       None \<Rightarrow> Inl (New ''protocol/asyncapi.yaml: document must be an object'')
                     | Some normalizedDocument \<Rightarrow>
                         let version = string_or_empty (at_key normalizedDocument ''asyncapi'')
                         in if \<not> HasPrefix version ''3.''
                            then Inl (Errorf ''protocol/asyncapi.yaml: asyncapi version %q must start with 3''
                                   [OStr version] [])
                            else Inr normalizedDocument))))"

definition roomChannelMessages :: "any_map \<Rightarrow> go_error + any_map" where
  "roomChannelMessages document =
     (case asMap (at_key document ''channels'') of
        None \<Rightarrow> Inl (New ''asyncapi: missing channels object'')
      | Some channels \<Rightarrow>
          (case asMap (at_key channels ''roomSocket'') of
             None \<Rightarrow> Inl (New ''asyncapi: missing channels.roomSocket'')
           | Some room \<Rightarrow>
               (case asMap (at_key room ''messages'') of
                  None \<Rightarrow> Inl (New ''asyncapi: missing channels.roomSocket.messages'')
                | Some ms \<Rightarrow> if ms = [] then Inl (New ''asyncapi: missing channels.roomSocket.messages'') else Inr ms)))"

definition asyncAPIMessages :: "any_map \<Rightarrow> go_error + any_map \<times> any_map" where
  "asyncAPIMessages document =
     (case asMap (at_key document ''components'') of
        None \<Rightarrow> Inl (New ''asyncapi: missing components object'')
      | Some components \<Rightarrow>
          (case asMap (at_key components ''messages'') of
             None \<Rightarrow> Inl (New ''asyncapi: missing components.messages'')
           | Some messagesRaw \<Rightarrow>
               if messagesRaw = [] then Inl (New ''asyncapi: missing components.messages'')
               else thenE (roomChannelMessages document) (\<lambda>channelMessages. Inr (messagesRaw, channelMessages))))"

fun exposed_loop :: "any_map \<Rightarrow> any_map \<Rightarrow> string list \<Rightarrow> go_error + unit" where
  "exposed_loop messagesRaw channelMessages [] = Inr ()"
| "exposed_loop messagesRaw channelMessages (wireType # ws) =
     (if map_of messagesRaw wireType = None
      then Inl (Errorf ''asyncapi: channel message %q is missing from components.messages'' [OStr wireType] [])
      else (case entryRef (at_key channelMessages wireType) of
              Inl e \<Rightarrow> Inl (Errorf ''asyncapi: channels.roomSocket.messages.%s: %w'' [OStr wireType] [e])
            | Inr ref \<Rightarrow>
                if ref \<noteq> wireType
                then Inl (Errorf ''asyncapi: channel message %q references %q'' [OStr wireType, OStr ref] [])
                else exposed_loop messagesRaw channelMessages ws))"

definition validateMessageExposure :: "any_map \<Rightarrow> any_map \<Rightarrow> go_error + unit" where
  "validateMessageExposure messagesRaw channelMessages =
     thenE (exposed_loop messagesRaw channelMessages (sortedKeys channelMessages)) (\<lambda>_.
       case find (\<lambda>w. map_of channelMessages w = None) (sortedKeys messagesRaw) of
         Some wireType \<Rightarrow>
           Inl (Errorf ''asyncapi: components.messages.%s is not exposed by channels.roomSocket'' [OStr wireType] [])
       | None \<Rightarrow> Inr ())"

section \<open>Operations\<close>

type_synonym directions = "(string \<times> Direction) list"

fun direction_loop ::
  "string \<Rightarrow> Direction \<Rightarrow> any_value list \<Rightarrow> directions \<Rightarrow> go_error + directions" where
  "direction_loop operationName direction [] ds = Inr ds"
| "direction_loop operationName direction (entry # entries) ds =
     (case entryRawRef entry of
        Inl e \<Rightarrow> Inl (Errorf ''asyncapi: operations.%s.messages[%d]: %w'' [OStr operationName] [e])
      | Inr rawRef \<Rightarrow>
          if \<not> HasPrefix rawRef channelMessagesRefPrefix
          then Inl (Errorf ''asyncapi: operations.%s.messages[%d]: message $ref %q must start with %q''
                 [OStr operationName, OStr rawRef, OStr channelMessagesRefPrefix] [])
          else (case entryRef entry of
                  Inl e \<Rightarrow> Inl (Errorf ''asyncapi: operations.%s.messages[%d]: %w'' [OStr operationName] [e])
                | Inr ref \<Rightarrow>
                    (case map_of ds ref of
                       Some existing \<Rightarrow>
                         Inl (Errorf ''asyncapi: message %q is listed by multiple operations (%s and %s)'' [OStr ref] [])
                     | None \<Rightarrow> direction_loop operationName direction entries ((ref, direction) # ds))))"

definition addOperationDirections :: "directions \<Rightarrow> string \<Rightarrow> any_value \<Rightarrow> go_error + directions" where
  "addOperationDirections ds operationName raw =
     (case asMap raw of
        None \<Rightarrow> Inl (Errorf ''asyncapi: operations.%s must be an object'' [OStr operationName] [])
      | Some operation \<Rightarrow>
          let action = string_or_empty (at_key operation ''action'')
          in if action \<noteq> ''send'' \<and> action \<noteq> ''receive''
             then Inl (Errorf ''asyncapi: operations.%s.action must be send or receive'' [OStr operationName] [])
             else (case asSlice (at_key operation ''messages'') of
                     None \<Rightarrow> Inl (Errorf ''asyncapi: operations.%s.messages must be a non-empty array''
                               [OStr operationName] [])
                   | Some ms \<Rightarrow>
                       if ms = []
                       then Inl (Errorf ''asyncapi: operations.%s.messages must be a non-empty array''
                              [OStr operationName] [])
                       else direction_loop operationName
                              (if action = ''send'' then DirectionSend else DirectionReceive) ms ds))"

fun operations_loop :: "any_map \<Rightarrow> string list \<Rightarrow> directions \<Rightarrow> go_error + directions" where
  "operations_loop operations [] ds = Inr ds"
| "operations_loop operations (n # ns) ds =
     (case addOperationDirections ds n (at_key operations n) of
        Inl e \<Rightarrow> Inl e | Inr ds' \<Rightarrow> operations_loop operations ns ds')"

definition operationDirections :: "any_map \<Rightarrow> go_error + directions" where
  "operationDirections document =
     (case asMap (at_key document ''operations'') of
        None \<Rightarrow> Inl (New ''asyncapi: missing operations object'')
      | Some operations \<Rightarrow>
          if operations = [] then Inl (New ''asyncapi: missing operations object'')
          else operations_loop operations (sortedKeys operations) [])"

section \<open>Messages\<close>

definition resolveMessagePayload ::
  "schemaLoader \<Rightarrow> parsed \<Rightarrow> path \<Rightarrow> string \<Rightarrow> any_map \<Rightarrow> go_error + string \<times> schema \<times> string" where
  "resolveMessagePayload L p asyncAPIFile wireType message =
     (case asMap (at_key message ''payload'') of
        None \<Rightarrow> Inl (Errorf ''asyncapi: components.messages.%s.payload must be an object'' [OStr wireType] [])
      | Some payload \<Rightarrow>
          let payloadRef = string_or_empty (at_key payload ''$ref'')
          in if payloadRef = ''''
             then Inl (Errorf ''asyncapi: components.messages.%s.payload.$ref is required'' [OStr wireType] [])
             else (case resolveRef L asyncAPIFile payloadRef of
                     Inl e \<Rightarrow> Inl (Errorf ''asyncapi: components.messages.%s.payload: %w'' [OStr wireType] [e])
                   | Inr _ \<Rightarrow>
                       let fragment = snd (splitRef payloadRef); defName = pointerName fragment
                       in if map_of (ld_defs L) defName = None
                          then Inl (Errorf ''asyncapi: components.messages.%s.payload %q does not resolve to a $defs entry''
                                 [OStr wireType, OStr payloadRef] [])
                          else (case map_of p defName of
                                  None \<Rightarrow> Inl (Errorf ''asyncapi: $defs.%s was not parsed'' [OStr defName] [])
                                | Some payloadSchema \<Rightarrow>
                                    if sch_Kind payloadSchema \<noteq> KindObject
                                    then Inl (Errorf ''asyncapi: $defs.%s must be an object'' [OStr defName] [])
                                    else Inr (defName, payloadSchema, fragment))))"

definition requireMessageTypeConst :: "schema \<Rightarrow> string \<Rightarrow> string \<Rightarrow> go_error + unit" where
  "requireMessageTypeConst payloadSchema defName wireType =
     (let mismatch = Errorf ''asyncapi: $defs.%s.type.const must equal %q'' [OStr defName, OStr wireType] []
      in case Schema_Property payloadSchema ''type'' of
           None \<Rightarrow> Inl mismatch
         | Some typeProperty \<Rightarrow> if sch_Const (prop_Schema typeProperty) \<noteq> wireType then Inl mismatch else Inr ())"

definition payloadTypeFor ::
  "schemaLoader \<Rightarrow> parsed \<Rightarrow> schema \<Rightarrow> string \<Rightarrow> string \<Rightarrow> Direction \<Rightarrow> go_error + string" where
  "payloadTypeFor L p payloadSchema defName wireType direction =
     (if direction \<noteq> DirectionSend then Inr defName
      else let undeclared = Errorf ''asyncapi: command %q must declare a payload $ref'' [OStr wireType] []
      in case Schema_Property payloadSchema ''payload'' of
           None \<Rightarrow> Inl undeclared
         | Some payloadProperty \<Rightarrow>
             if sch_Kind (prop_Schema payloadProperty) \<noteq> KindRef then Inl undeclared
             else let payloadType = sch_RefName (prop_Schema payloadProperty)
             in case map_of (ld_defs L) payloadType of
                  None \<Rightarrow> Inl (Errorf ''asyncapi: command %q payload %q is unknown'' [OStr wireType, OStr payloadType] [])
                | Some payloadDefinition \<Rightarrow>
                    let not_object = Errorf ''asyncapi: command %q payload %q must be an object''
                                       [OStr wireType, OStr payloadType] []
                    in case map_of p (rd_name payloadDefinition) of
                         None \<Rightarrow> Inl not_object
                       | Some s \<Rightarrow> if sch_Kind s \<noteq> KindObject then Inl not_object else Inr payloadType)"

definition buildMessage ::
  "schemaLoader \<Rightarrow> parsed \<Rightarrow> path \<Rightarrow> string \<Rightarrow> any_value \<Rightarrow> directions \<Rightarrow> go_error + protocol_message" where
  "buildMessage L p asyncAPIFile wireType raw ds =
     (case asMap raw of
        None \<Rightarrow> Inl (Errorf ''asyncapi: components.messages.%s must be an object'' [OStr wireType] [])
      | Some message \<Rightarrow>
          let title = string_or_empty (at_key message ''title'');
              summary = string_or_empty (at_key message ''summary'')
          in if string_or_empty (at_key message ''name'') \<noteq> wireType
             then Inl (Errorf ''asyncapi: components.messages.%s.name must be %q'' [OStr wireType, OStr wireType] [])
             else if title = '''' \<or> summary = ''''
             then Inl (Errorf ''asyncapi: components.messages.%s requires title and summary'' [OStr wireType] [])
             else thenE (resolveMessagePayload L p asyncAPIFile wireType message) (\<lambda>(defName, payloadSchema, fragment).
                  thenE (requireMessageTypeConst payloadSchema defName wireType) (\<lambda>_.
                  case map_of ds wireType of
                    None \<Rightarrow> Inl (Errorf ''asyncapi: message %q is not listed by any operation'' [OStr wireType] [])
                  | Some direction \<Rightarrow>
                      thenE (payloadTypeFor L p payloadSchema defName wireType direction) (\<lambda>payloadType.
                        Inr \<lparr>msg_WireType = wireType, msg_Title = title, msg_Summary = summary,
                             msg_Direction = direction,
                             msg_SchemaFile = (case map_of (ld_defs L) defName of None \<Rightarrow> '''' | Some d \<Rightarrow> rd_relFile d),
                             msg_SchemaPointer = ''#'' @ fragment, msg_DefName = defName,
                             msg_PayloadType = payloadType\<rparr>))))"

fun messages_loop ::
  "schemaLoader \<Rightarrow> parsed \<Rightarrow> path \<Rightarrow> any_map \<Rightarrow> directions \<Rightarrow> string list \<Rightarrow> go_error + protocol_message list" where
  "messages_loop L p file messagesRaw ds [] = Inr []"
| "messages_loop L p file messagesRaw ds (w # ws) =
     (case buildMessage L p file w (at_key messagesRaw w) ds of
        Inl e \<Rightarrow> Inl e
      | Inr m \<Rightarrow> (case messages_loop L p file messagesRaw ds ws of Inl e \<Rightarrow> Inl e | Inr ms \<Rightarrow> Inr (m # ms)))"

text \<open>Of several operation messages that are not exposed, which one the error names is left to the map;
  here it is the first listed.\<close>

definition buildMessages ::
  "schemaLoader \<Rightarrow> parsed \<Rightarrow> path \<Rightarrow> any_map \<Rightarrow> any_map \<Rightarrow> directions \<Rightarrow> go_error + protocol_message list" where
  "buildMessages L p asyncAPIFile messagesRaw channelMessages ds =
     thenE (messages_loop L p asyncAPIFile messagesRaw ds (sortedKeys channelMessages)) (\<lambda>messages.
       case find (\<lambda>w. map_of channelMessages w = None) (map fst ds) of
         Some w \<Rightarrow> Inl (Errorf ''asyncapi: operation message %q is not exposed by channels.roomSocket'' [OStr w] [])
       | None \<Rightarrow> Inr messages)"

section \<open>The loaded contract\<close>

text \<open>\<open>loader.parsed[name]\<close> is nil for a name that was not parsed; every registered name was.\<close>

definition nil_schema :: schema where "nil_schema = Schema (new_meta KindRef False) [] None ''''"

definition buildDefinitions :: "schemaLoader \<Rightarrow> parsed \<Rightarrow> schema_definition list" where
  "buildDefinitions L p =
     map (\<lambda>name. \<lparr>df_Name = name,
                  df_File = (case map_of (ld_defs L) name of None \<Rightarrow> '''' | Some d \<Rightarrow> rd_relFile d),
                  df_Schema = (case map_of p name of None \<Rightarrow> nil_schema | Some s \<Rightarrow> s)\<rparr>)
         (ld_definitionNames L)"

definition loadSpec :: "gen_env \<Rightarrow> path \<Rightarrow> go_error + protocol_spec" where
  "loadSpec env dir =
     thenE (newSchemaLoader (ge_ReadDir env) (ge_ReadFile env) (ge_json env) dir) (\<lambda>(L, p).
     thenE (readAsyncAPIDocument env dir) (\<lambda>document.
     thenE (asyncAPIMessages document) (\<lambda>(messagesRaw, channelMessages).
     thenE (validateMessageExposure messagesRaw channelMessages) (\<lambda>_.
     thenE (operationDirections document) (\<lambda>ds.
     thenE (buildMessages L p (dir @ asyncAPIYAMLPath) messagesRaw channelMessages ds) (\<lambda>messages.
       newSpec messages (buildDefinitions L p)))))))"

section \<open>What a loaded contract is\<close>

text \<open>Each definition is found under its name, with the schema that was parsed.\<close>

lemma byName_loop_result:
  "byName_loop ds acc = Inr r \<Longrightarrow> r = rev (map (\<lambda>d. (df_Name d, d)) ds) @ acc"
  by (induction ds arbitrary: acc) (auto split: if_splits)

lemma byName_loop_distinct:
  "byName_loop ds acc = Inr r \<Longrightarrow> distinct (map fst acc) \<Longrightarrow> distinct (map fst r)"
  by (induction ds arbitrary: acc) (auto split: if_splits simp: map_of_eq_None_iff)

lemma map_of_distinct_In: "distinct (map fst m) \<Longrightarrow> map_of m k = Some v \<longleftrightarrow> (k, v) \<in> set m"
  by (auto dest: map_of_SomeD)

definition spec_schema :: "protocol_spec \<Rightarrow> string \<Rightarrow> schema option" where
  "spec_schema spec n = map_option df_Schema (spec_Definition spec n)"

lemma newSpec_Definition:
  assumes "newSpec ms ds = Inr spec"
  shows "sp_Messages spec = ms" "sp_Definitions spec = ds"
    "spec_Definition spec n = Some d \<longleftrightarrow> d \<in> set ds \<and> df_Name d = n"
proof -
  obtain m where m: "byName_loop ds [] = Inr m" "spec = \<lparr>sp_Messages = ms, sp_Definitions = ds, sp_byName = m\<rparr>"
    using assms by (auto simp: newSpec_def split: sum.splits)
  show "sp_Messages spec = ms" "sp_Definitions spec = ds" using m(2) by simp_all
  have "distinct (map fst m)" by (rule byName_loop_distinct [OF m(1)]) simp
  then show "spec_Definition spec n = Some d \<longleftrightarrow> d \<in> set ds \<and> df_Name d = n"
    using byName_loop_result [OF m(1)] m(2)
    by (auto simp: spec_Definition_def map_of_distinct_In)
qed

lemma names_lookup: "names p = names q \<Longrightarrow> n \<in> names q \<Longrightarrow> \<exists>s. map_of p n = Some s"
  by (metis map_of_eq_None_iff not_Some_eq)

lemma buildDefinitions_name: "d \<in> set (buildDefinitions L p) \<Longrightarrow> df_Name d \<in> names (ld_defs L)"
  unfolding buildDefinitions_def ld_definitionNames_def set_map set_sortedKeys by (elim imageE) simp

lemma buildDefinitions_lookup:
  "map_of p n = Some s \<Longrightarrow> n \<in> names (ld_defs L) \<Longrightarrow>
   \<exists>d \<in> set (buildDefinitions L p). df_Name d = n \<and> df_Schema d = s"
  unfolding buildDefinitions_def ld_definitionNames_def set_map set_sortedKeys
  by (drule imageI) (erule bexI [rotated], simp)

lemma spec_schema_parsed:
  assumes "newSpec ms (buildDefinitions L p) = Inr spec" "names p = names (ld_defs L)"
  shows "spec_schema spec n = map_of p n"
proof (cases "map_of p n")
  case None
  then have "n \<notin> names (ld_defs L)" using assms(2) by (simp add: map_of_None_names)
  then have "spec_Definition spec n = None"
    using newSpec_Definition(3) [OF assms(1), of n] buildDefinitions_name [of _ L p]
    by (cases "spec_Definition spec n") fastforce+
  then show ?thesis using None by (simp add: spec_schema_def)
next
  case (Some s)
  then have "n \<in> names p" by (metis map_of_None_names option.distinct(1))
  then have "n \<in> names (ld_defs L)" using assms(2) by simp
  then obtain d where d: "d \<in> set (buildDefinitions L p)" "df_Name d = n" "df_Schema d = s"
    using buildDefinitions_lookup [OF Some] by blast
  have "spec_Definition spec n = Some d" using newSpec_Definition(3) [OF assms(1)] d by blast
  then show ?thesis using Some d(3) by (simp add: spec_schema_def)
qed

text \<open>A contract whose definitions, in some order \<open>p\<close>, refer only to earlier ones.\<close>

definition grounded :: "protocol_spec \<Rightarrow> parsed \<Rightarrow> bool" where
  "grounded spec p \<longleftrightarrow>
     well_founded p \<and> all_sound p \<and> (\<forall>n. spec_schema spec n = map_of p n) \<and>
     (\<forall>n d. spec_Definition spec n = Some d \<longleftrightarrow> d \<in> set (sp_Definitions spec) \<and> df_Name d = n)"

lemma loadSpec_parts:
  assumes "loadSpec env dir = Inr spec"
  obtains L p document messagesRaw channelMessages ds messages where
    "newSchemaLoader (ge_ReadDir env) (ge_ReadFile env) (ge_json env) dir = Inr (L, p)"
    "readAsyncAPIDocument env dir = Inr document"
    "asyncAPIMessages document = Inr (messagesRaw, channelMessages)"
    "validateMessageExposure messagesRaw channelMessages = Inr ()"
    "operationDirections document = Inr ds"
    "buildMessages L p (dir @ asyncAPIYAMLPath) messagesRaw channelMessages ds = Inr messages"
    "newSpec messages (buildDefinitions L p) = Inr spec"
  using assms unfolding loadSpec_def thenE_Inr by (auto split: prod.splits)

lemma newSchemaLoader_result:
  "newSchemaLoader rd rf um dir = Inr (L, p) \<Longrightarrow> well_founded p \<and> all_sound p \<and> names p = names (ld_defs L)"
  unfolding newSchemaLoader_def thenE_Inr by (elim exE conjE) (simp add: parseDefinitions_result)

lemma built_grounded:
  assumes "newSchemaLoader rd rf um dir = Inr (L, p)" "newSpec ms (buildDefinitions L p) = Inr spec"
  shows "grounded spec p"
  unfolding grounded_def
proof (intro conjI allI)
  note r = newSchemaLoader_result [OF assms(1)]
  show "well_founded p" "all_sound p" using r by simp_all
  show "spec_schema spec n = map_of p n" for n
    using r by (intro spec_schema_parsed [OF assms(2)]) simp
  show "spec_Definition spec n = Some d \<longleftrightarrow> d \<in> set (sp_Definitions spec) \<and> df_Name d = n" for n d
    unfolding newSpec_Definition(2) [OF assms(2)] by (rule newSpec_Definition(3) [OF assms(2)])
qed

lemma loadSpec_grounded:
  assumes "loadSpec env dir = Inr spec"
  shows "\<exists>p. grounded spec p"
  using assms by (rule loadSpec_parts) (blast dest: built_grounded)

text \<open>What each message is checked for.\<close>

definition message_ok :: "protocol_spec \<Rightarrow> protocol_message \<Rightarrow> bool" where
  "message_ok spec m \<longleftrightarrow>
     (\<exists>s. spec_schema spec (msg_DefName m) = Some s \<and> sch_Kind s = KindObject \<and>
          (\<exists>t. Schema_Property s ''type'' = Some t \<and> sch_Const (prop_Schema t) = msg_WireType m) \<and>
          (if IsCommand m
           then \<exists>q. Schema_Property s ''payload'' = Some q \<and> sch_Kind (prop_Schema q) = KindRef \<and>
                    sch_RefName (prop_Schema q) = msg_PayloadType m
           else msg_PayloadType m = msg_DefName m)) \<and>
     (\<exists>s. spec_schema spec (msg_PayloadType m) = Some s \<and> sch_Kind s = KindObject)"

definition defs_named :: "schemaLoader \<Rightarrow> bool" where
  "defs_named L \<longleftrightarrow> (\<forall>n d. map_of (ld_defs L) n = Some d \<longrightarrow> rd_name d = n)"

lemma register_named: "registerDefinition file n v L = Inr L' \<Longrightarrow> defs_named L \<Longrightarrow> defs_named L'"
  by (auto simp: registerDefinition_def defs_named_def split: option.splits if_splits)

lemma register_loop_named: "register_loop file raw ns L = Inr L' \<Longrightarrow> defs_named L \<Longrightarrow> defs_named L'"
  by (induction ns arbitrary: L) (auto split: sum.splits dest: register_named)

lemma loadDefinitions_named: "loadDefinitions files L = Inr L' \<Longrightarrow> defs_named L \<Longrightarrow> defs_named L'"
  by (induction files arbitrary: L)
    (auto simp: loadDefinitionsFrom_def split: sum.splits option.splits dest!: register_loop_named)

lemma newSchemaLoader_named: "newSchemaLoader rd rf um dir = Inr (L, p) \<Longrightarrow> defs_named L"
  by (auto simp: newSchemaLoader_def dest!: loadDefinitions_named) (simp add: defs_named_def)

lemma buildMessage_ok:
  assumes b: "buildMessage L p file w raw ds = Inr m" and named: "defs_named L"
    and spec: "\<And>n. spec_schema spec n = map_of p n"
  shows "msg_WireType m = w \<and> map_of ds w = Some (msg_Direction m) \<and> message_ok spec m"
proof -
  obtain message defName s fragment direction payloadType where
      r: "resolveMessagePayload L p file w message = Inr (defName, s, fragment)"
    and c: "requireMessageTypeConst s defName w = Inr ()"
    and d: "map_of ds w = Some direction"
    and t: "payloadTypeFor L p s defName w direction = Inr payloadType"
    and m: "msg_WireType m = w" "msg_Direction m = direction" "msg_DefName m = defName"
       "msg_PayloadType m = payloadType"
    using b by (auto simp: buildMessage_def Let_def split: option.splits if_splits)
  have s: "map_of p defName = Some s" "sch_Kind s = KindObject"
    using r by (auto simp: resolveMessagePayload_def Let_def split: option.splits if_splits sum.splits)
  have "\<exists>t. Schema_Property s ''type'' = Some t \<and> sch_Const (prop_Schema t) = w"
    using c by (auto simp: requireMessageTypeConst_def Let_def split: option.splits if_splits)
  moreover have "(if direction = DirectionSend
      then \<exists>q. Schema_Property s ''payload'' = Some q \<and> sch_Kind (prop_Schema q) = KindRef \<and>
               sch_RefName (prop_Schema q) = payloadType
      else payloadType = defName) \<and> (\<exists>s'. map_of p payloadType = Some s' \<and> sch_Kind s' = KindObject)"
    using t s named
    by (auto simp: payloadTypeFor_def Let_def defs_named_def split: option.splits if_splits)
  ultimately show ?thesis
    using m s d unfolding message_ok_def spec IsCommand_def by auto
qed

lemma messages_loop_ok:
  assumes "messages_loop L p file raw ds ws = Inr ms" "defs_named L" "\<And>n. spec_schema spec n = map_of p n"
  shows "map msg_WireType ms = ws \<and>
         (\<forall>m \<in> set ms. map_of ds (msg_WireType m) = Some (msg_Direction m) \<and> message_ok spec m)"
  using assms(1)
proof (induction ws arbitrary: ms)
  case Nil
  then show ?case by simp
next
  case (Cons w ws)
  obtain m ms' where m: "buildMessage L p file w (at_key raw w) ds = Inr m"
      "messages_loop L p file raw ds ws = Inr ms'" "ms = m # ms'"
    using Cons.prems by (auto split: sum.splits)
  show ?case
    using buildMessage_ok [OF m(1) assms(2,3)] Cons.IH [OF m(2)] m(3) by simp
qed

lemma loadSpec_messages:
  assumes "loadSpec env dir = Inr spec"
  shows "sorted_wrt (<) (map msg_WireType (sp_Messages spec)) \<and> (\<forall>m \<in> set (sp_Messages spec). message_ok spec m)"
  using assms
proof (rule loadSpec_parts)
  fix L p document messagesRaw channelMessages ds messages
  assume l: "newSchemaLoader (ge_ReadDir env) (ge_ReadFile env) (ge_json env) dir = Inr (L, p)"
    and b: "buildMessages L p (dir @ asyncAPIYAMLPath) messagesRaw channelMessages ds = Inr messages"
    and n: "newSpec messages (buildDefinitions L p) = Inr spec"
  have g: "\<And>n. spec_schema spec n = map_of p n"
    using built_grounded [OF l n] by (simp add: grounded_def)
  have "messages_loop L p (dir @ asyncAPIYAMLPath) messagesRaw ds (sortedKeys channelMessages) = Inr messages"
    using b by (auto simp: buildMessages_def split: option.splits)
  from messages_loop_ok [OF this newSchemaLoader_named [OF l] g] show ?thesis
    using newSpec_Definition(1) [OF n] by (simp add: strict_sorted_iff)
qed

end
