(* ===== verification/Gen_Go.thy ===== *)
theory Gen_Go
  imports Gen_Spec
begin

text \<open>
  The Go emitters, \<open>tools/protocolgen/golang.go\<close>. A builder is the text written so far; a function that
  writes to it is the text it adds. \<open>go/format\<close> is the parameter \<open>gofmt\<close>.

  \<open>schemaUsesTime\<close> follows references without remembering where it has been. Its recursion is kept as
  the list of the schemas still to look at, in the order of the calls, and it is a partial function:
  whether it returns is a property of the contract.
\<close>

section \<open>Text\<close>

definition generatedHeader :: string where
  "generatedHeader = ''// Code generated by tools/protocolgen from protocol/asyncapi.yaml; DO NOT EDIT.''"

definition goProtocolPackage :: string where "goProtocolPackage = ''protocol''"

text \<open>\<open>goName\<close> where it is used: it has a result for every text (\<open>goName_total\<close>).\<close>

definition go_name :: "string \<Rightarrow> string" where
  "go_name s = (case goName s of None \<Rightarrow> '''' | Some g \<Rightarrow> g)"

definition lines :: "string list \<Rightarrow> string" where
  "lines ls = concat (map (\<lambda>l. l @ [nl]) ls)"

section \<open>Types\<close>

definition goIntegerType :: "string \<Rightarrow> go_error + string" where
  "goIntegerType goType =
     (if goType = '''' then Inr ''int''
      else if goType = ''uint64'' then Inr ''uint64''
      else Inl (Errorf ''unsupported x-go-type %q for integer'' [OStr goType] []))"

definition goNumberType :: "string \<Rightarrow> go_error + string" where
  "goNumberType goType =
     (if goType = '''' then Inr ''float64''
      else if goType = ''float32'' then Inr ''float32''
      else Inl (Errorf ''unsupported x-go-type %q for number'' [OStr goType] []))"

definition scalar_go_type :: "protocol_spec \<Rightarrow> schema_meta \<Rightarrow> string \<Rightarrow> go_error + string" where
  "scalar_go_type spec m refName =
     (case mt_Kind m of
        KindRef \<Rightarrow>
          (case spec_Definition spec refName of
             None \<Rightarrow> Inl (Errorf ''unknown $ref %q'' [OStr refName] [])
           | Some _ \<Rightarrow> Inr refName)
      | KindString \<Rightarrow> if mt_Format m = ''date-time'' then Inr ''time.Time'' else Inr ''string''
      | KindInteger \<Rightarrow> goIntegerType (mt_GoType m)
      | KindNumber \<Rightarrow> goNumberType (mt_GoType m)
      | KindBoolean \<Rightarrow> Inr ''bool''
      | k \<Rightarrow> Inl (Errorf ''unsupported type %q'' [OStr (kind_text k)] []))"

text \<open>\<open>goTypeName\<close> with \<open>goArrayType\<close>.\<close>

fun goTypeName :: "protocol_spec \<Rightarrow> schema \<Rightarrow> go_error + string" where
  "goTypeName spec (Schema m ps items refName) =
     (if mt_Kind m = KindArray
      then (case items of
              None \<Rightarrow> Inl (New ''array without items'')
            | Some it \<Rightarrow>
                (case goTypeName spec it of
                   Inl e \<Rightarrow> Inl e
                 | Inr itemType \<Rightarrow> Inr (''[]'' @ (if sch_Nullable it then ''*'' @ itemType else itemType))))
      else scalar_go_type spec m refName)"

definition goPropertyType :: "protocol_spec \<Rightarrow> property \<Rightarrow> go_error + string \<times> bool" where
  "goPropertyType spec q =
     thenE (goTypeName spec (prop_Schema q)) (\<lambda>base.
       if sch_Kind (prop_Schema q) = KindArray then Inr (base, False)
       else if sch_Nullable (prop_Schema q) \<or> \<not> prop_Required q then Inr (''*'' @ base, \<not> prop_Required q)
       else Inr (base, False))"

section \<open>types.generated.go\<close>

definition struct_line :: "string \<Rightarrow> string \<Rightarrow> bool \<Rightarrow> string" where
  "struct_line name typeName omitempty =
     [tab] @ go_name name @ '' '' @ typeName @ '' `json:'' @
     quote (name @ (if omitempty then '',omitempty'' else '''')) @ ''`'' @ [nl]"

fun struct_fields :: "protocol_spec \<Rightarrow> string \<Rightarrow> property list \<Rightarrow> go_error + string" where
  "struct_fields spec dname [] = Inr ''''"
| "struct_fields spec dname (q # qs) =
     (case goPropertyType spec q of
        Inl e \<Rightarrow> Inl (Errorf ''$defs.%s.%s: %w'' [OStr dname, OStr (prop_Name q)] [e])
      | Inr (typeName, omitempty) \<Rightarrow>
          (case struct_fields spec dname qs of
             Inl e \<Rightarrow> Inl e
           | Inr t \<Rightarrow> Inr (struct_line (prop_Name q) typeName omitempty @ t)))"

definition emitGoStruct :: "protocol_spec \<Rightarrow> schema_definition \<Rightarrow> go_error + string" where
  "emitGoStruct spec d =
     thenE (struct_fields spec (df_Name d) (sch_Properties (df_Schema d))) (\<lambda>fields.
       Inr ([nl] @ ''type '' @ df_Name d @ '' struct {'' @ [nl] @ fields @ ''}'' @ [nl]))"

definition emitGoEnum :: "schema_definition \<Rightarrow> string" where
  "emitGoEnum d =
     [nl] @ ''type '' @ df_Name d @ '' string'' @ [nl] @ [nl] @ ''const ('' @ [nl] @
     concat (map (\<lambda>v. [tab] @ df_Name d @ go_name v @ '' '' @ df_Name d @ '' = '' @ quote v @ [nl])
                 (sch_Enum (df_Schema d))) @
     '')'' @ [nl]"

fun go_definitions :: "protocol_spec \<Rightarrow> schema_definition list \<Rightarrow> go_error + string" where
  "go_definitions spec [] = Inr ''''"
| "go_definitions spec (d # ds) =
     (case (if sch_Kind (df_Schema d) = KindObject then emitGoStruct spec d
            else if sch_Kind (df_Schema d) = KindString \<and> sch_Enum (df_Schema d) \<noteq> [] then Inr (emitGoEnum d)
            else Inl (Errorf ''$defs.%s: unsupported definition kind %q''
                   [OStr (df_Name d), OStr (kind_text (sch_Kind (df_Schema d)))] [])) of
        Inl e \<Rightarrow> Inl e
      | Inr t \<Rightarrow> (case go_definitions spec ds of Inl e \<Rightarrow> Inl e | Inr ts \<Rightarrow> Inr (t @ ts)))"

partial_function (option) schemaUsesTime :: "protocol_spec \<Rightarrow> schema list \<Rightarrow> bool option" where
  "schemaUsesTime spec calls =
     (case calls of
        [] \<Rightarrow> Some False
      | schema # rest \<Rightarrow>
          (case sch_Kind schema of
             KindObject \<Rightarrow> schemaUsesTime spec (map prop_Schema (sch_Properties schema) @ rest)
           | KindString \<Rightarrow>
               if sch_Format schema = ''date-time'' then Some True else schemaUsesTime spec rest
           | KindArray \<Rightarrow>
               (case sch_Items schema of
                  None \<Rightarrow> schemaUsesTime spec rest
                | Some it \<Rightarrow> schemaUsesTime spec (it # rest))
           | KindRef \<Rightarrow>
               (case spec_Definition spec (sch_RefName schema) of
                  None \<Rightarrow> schemaUsesTime spec rest
                | Some d \<Rightarrow> schemaUsesTime spec (df_Schema d # rest))
           | _ \<Rightarrow> schemaUsesTime spec rest))"

declare schemaUsesTime.simps [code]

definition specUsesTime :: "protocol_spec \<Rightarrow> bool option" where
  "specUsesTime spec = schemaUsesTime spec (map df_Schema (sp_Definitions spec))"

text \<open>\<open>None\<close> when \<open>specUsesTime\<close> does not return.\<close>

definition emitGoTypes :: "gen_env \<Rightarrow> protocol_spec \<Rightarrow> (go_error + string) option" where
  "emitGoTypes env spec =
     (case go_definitions spec (sp_Definitions spec) of
        Inl e \<Rightarrow> Some (Inl e)
      | Inr body \<Rightarrow>
          (case specUsesTime spec of
             None \<Rightarrow> None
           | Some uses \<Rightarrow>
               Some (ge_gofmt env
                 (generatedHeader @ [nl, nl] @ ''package '' @ goProtocolPackage @ [nl] @
                  (if uses then [nl] @ ''import '' @ [dquote] @ ''time'' @ [dquote] @ [nl] else '''') @ body))))"

section \<open>messages.generated.go\<close>

definition is_type_lines :: "protocol_message list \<Rightarrow> string" where
  "is_type_lines ms =
     concat (map (\<lambda>m. [tab] @ ''if messageType == MessageType'' @ go_name (msg_WireType m) @ '' {'' @ [nl] @
                      [tab, tab] @ ''return true'' @ [nl, tab] @ ''}'' @ [nl]) ms) @
     [tab] @ ''return false'' @ [nl] @ ''}'' @ [nl]"

definition quoted_lines :: "protocol_message list \<Rightarrow> string" where
  "quoted_lines ms = concat (map (\<lambda>m. [tab, tab] @ quote (msg_WireType m) @ '','' @ [nl]) ms)"

definition go_messages_text :: "protocol_spec \<Rightarrow> string" where
  "go_messages_text spec =
     generatedHeader @ [nl, nl] @ ''package '' @ goProtocolPackage @ [nl, nl] @ ''const ('' @ [nl] @
     concat (map (\<lambda>m. [tab] @ ''MessageType'' @ go_name (msg_WireType m) @ '' = '' @ quote (msg_WireType m) @ [nl])
                 (sp_Messages spec)) @
     '')'' @ [nl] @
     [nl] @ ''var ('' @ [nl] @ [tab] @ ''ClientCommandTypes = []string{'' @ [nl] @
     quoted_lines (CommandMessages spec) @
     [tab] @ ''}'' @ [nl, nl, tab] @ ''ServerEventTypes = []string{'' @ [nl] @
     quoted_lines (EventMessages spec) @
     [tab] @ ''}'' @ [nl] @ '')'' @ [nl] @
     [nl] @ lines [''// IsClientCommandType reports whether the wire type is a client command.'',
                   ''func IsClientCommandType(messageType string) bool {''] @
     is_type_lines (CommandMessages spec) @
     [nl] @ lines [''// IsServerEventType reports whether the wire type is a server event.'',
                   ''func IsServerEventType(messageType string) bool {''] @
     is_type_lines (EventMessages spec) @
     [nl] @ lines [''// NewClientCommandPayload returns a pointer to the zero payload struct for a command.'',
                   ''func NewClientCommandPayload(messageType string) (any, bool) {''] @
     [tab] @ ''switch messageType {'' @ [nl] @
     concat (map (\<lambda>m. [tab] @ ''case MessageType'' @ go_name (msg_WireType m) @ '':'' @ [nl, tab, tab] @
                      ''return &'' @ msg_PayloadType m @ ''{}, true'' @ [nl]) (CommandMessages spec)) @
     [tab] @ ''}'' @ [nl, tab] @ ''return nil, false'' @ [nl] @ ''}'' @ [nl]"

definition emitGoMessages :: "gen_env \<Rightarrow> protocol_spec \<Rightarrow> go_error + string" where
  "emitGoMessages env spec = ge_gofmt env (go_messages_text spec)"

section \<open>Names are never empty words\<close>

lemma split_loop_words:
  "(\<forall>w \<in> set words. w \<noteq> []) \<Longrightarrow> \<forall>w \<in> set (split_loop words current cs). w \<noteq> []"
proof (induction words current cs rule: split_loop.induct)
  case (1 words current)
  then show ?case by (auto simp: flush_def)
next
  case (2 words current c rest)
  have f: "\<forall>w \<in> set (flush words current). w \<noteq> []" using 2(4) by (auto simp: flush_def)
  show ?case
  proof (cases "\<not> IsLetter c \<and> \<not> IsDigit c")
    case True
    show ?thesis using 2(1) [OF True f] by (subst split_loop.simps, subst if_P [OF True])
  next
    case n: False
    show ?thesis
    proof (cases "starts_word current c rest")
      case True
      then show ?thesis using 2(2) [OF n True f] n by (simp only: split_loop.simps if_True if_False)
    next
      case False
      then show ?thesis using 2(3) [OF n False 2(4)] n by (simp only: split_loop.simps if_False)
    qed
  qed
qed

lemma goWords_total: "(\<forall>w \<in> set ws. w \<noteq> []) \<Longrightarrow> \<exists>g. goWords ws = Some g"
proof (induction ws)
  case Nil
  then show ?case by simp
next
  case (Cons w ws)
  then obtain g where "goWords ws = Some g" by auto
  moreover have "\<exists>h. goWord w = Some h" using Cons.prems by (cases w) (simp_all add: goWord_def)
  ultimately show ?case by auto
qed

section \<open>The recursion through references ends\<close>

text \<open>What a schema weighs when each name it refers to weighs \<open>f\<close>, and the weight of a parsed name.\<close>

fun weight :: "(string \<Rightarrow> nat) \<Rightarrow> schema \<Rightarrow> nat" and prop_weight :: "(string \<Rightarrow> nat) \<Rightarrow> property \<Rightarrow> nat" where
  "weight f (Schema m ps it r) =
     Suc ((if mt_Kind m = KindRef then f r else 0) + sum_list (map (prop_weight f) ps) +
          (case it of None \<Rightarrow> 0 | Some s \<Rightarrow> weight f s))"
| "prop_weight f (Property n s q) = weight f s"

fun name_weight :: "parsed \<Rightarrow> string \<Rightarrow> nat" where
  "name_weight [] n = 0"
| "name_weight ((k, s) # p) n = (if n = k then Suc (weight (name_weight p) s) else name_weight p n)"

lemma weight_cong:
  "(\<And>r. r \<in> refs s \<Longrightarrow> f r = g r) \<Longrightarrow> weight f s = weight g s"
  "(\<And>r. r \<in> prop_refs q \<Longrightarrow> f r = g r) \<Longrightarrow> prop_weight f q = prop_weight g q"
proof (induction s and q)
  case (Schema m ps it r)
  have "map (prop_weight f) ps = map (prop_weight g) ps"
    using Schema.IH(1) Schema.prems by (intro map_cong) auto
  then have "sum_list (map (prop_weight f) ps) = sum_list (map (prop_weight g) ps)" by (rule arg_cong)
  moreover have "it = Some s \<Longrightarrow> weight f s = weight g s" for s
    using Schema.IH(2) [of s] Schema.prems by (cases it) auto
  ultimately show ?case using Schema.prems by (auto split: option.splits)
next
  case (Property n s q)
  then show ?case by simp
qed

lemma name_weight_eq:
  "well_founded p \<Longrightarrow> map_of p n = Some s \<Longrightarrow> name_weight p n = Suc (weight (name_weight p) s)"
proof (induction p)
  case Nil
  then show ?case by simp
next
  case (Cons e p)
  obtain k t where e: "e = (k, t)" by (cases e)
  have refs: "refs s \<subseteq> names p"
    using Cons.prems e well_founded_lookup [of p n s] by (auto split: if_splits)
  have w: "weight (name_weight (e # p)) s = weight (name_weight p) s"
    using refs Cons.prems(1) e by (intro weight_cong) auto
  show ?case unfolding w using Cons e by (cases "n = k") auto
qed

definition calls_weight :: "parsed \<Rightarrow> schema list \<Rightarrow> nat" where
  "calls_weight p ss = sum_list (map (weight (name_weight p)) ss)"

lemma calls_weight_simps [simp]:
  "calls_weight p [] = 0" "calls_weight p (s # ss) = weight (name_weight p) s + calls_weight p ss"
  "calls_weight p (ss @ ts) = calls_weight p ss + calls_weight p ts"
  by (simp_all add: calls_weight_def)

lemma weight_properties:
  "calls_weight p (map prop_Schema (sch_Properties s)) < weight (name_weight p) s"
proof (cases s)
  case (Schema m ps it r)
  have "map (weight (name_weight p) \<circ> prop_Schema) ps = map (prop_weight (name_weight p)) ps"
    by (rule map_cong [OF refl]) (metis comp_apply prop_weight.simps property.exhaust property.sel(2))
  then have "calls_weight p (map prop_Schema ps) = sum_list (map (prop_weight (name_weight p)) ps)"
    unfolding calls_weight_def map_map by (rule arg_cong)
  then show ?thesis using Schema by simp
qed

lemma weight_items: "sch_Items s = Some it \<Longrightarrow> weight f it < weight f s"
  by (cases s) auto

lemma weight_pos: "0 < weight f s"
  by (cases s) simp

lemma weight_ref:
  "grounded spec p \<Longrightarrow> sch_Kind s = KindRef \<Longrightarrow> spec_Definition spec (sch_RefName s) = Some d \<Longrightarrow>
   weight (name_weight p) (df_Schema d) < weight (name_weight p) s"
proof -
  assume g: "grounded spec p" and k: "sch_Kind s = KindRef"
    and d: "spec_Definition spec (sch_RefName s) = Some d"
  have "map_of p (sch_RefName s) = Some (df_Schema d)"
    using g d unfolding grounded_def spec_schema_def by (metis option.map(2))
  then have "name_weight p (sch_RefName s) = Suc (weight (name_weight p) (df_Schema d))"
    using g by (simp add: grounded_def name_weight_eq)
  then show ?thesis using k by (cases s) (simp add: sch_Kind_def)
qed

text \<open>The parts of a schema a Go type can be made of.\<close>

inductive part :: "protocol_spec \<Rightarrow> schema \<Rightarrow> schema \<Rightarrow> bool" for spec where
  part_refl: "part spec s s"
| part_property: "part spec (prop_Schema q) t \<Longrightarrow> sch_Kind s = KindObject \<Longrightarrow> q \<in> set (sch_Properties s) \<Longrightarrow> part spec s t"
| part_items: "part spec it t \<Longrightarrow> sch_Kind s = KindArray \<Longrightarrow> sch_Items s = Some it \<Longrightarrow> part spec s t"
| part_ref: "part spec (df_Schema d) t \<Longrightarrow> sch_Kind s = KindRef \<Longrightarrow>
    spec_Definition spec (sch_RefName s) = Some d \<Longrightarrow> part spec s t"

definition is_time :: "schema \<Rightarrow> bool" where
  "is_time s \<longleftrightarrow> sch_Kind s = KindString \<and> sch_Format s = ''date-time''"

lemma part_cases:
  "part spec s t \<longleftrightarrow> s = t \<or>
     (sch_Kind s = KindObject \<and> (\<exists>q \<in> set (sch_Properties s). part spec (prop_Schema q) t)) \<or>
     (sch_Kind s = KindArray \<and> (\<exists>it. sch_Items s = Some it \<and> part spec it t)) \<or>
     (sch_Kind s = KindRef \<and> (\<exists>d. spec_Definition spec (sch_RefName s) = Some d \<and> part spec (df_Schema d) t))"
  by (subst part.simps) blast

definition some_time :: "protocol_spec \<Rightarrow> schema list \<Rightarrow> bool" where
  "some_time spec ss \<longleftrightarrow> (\<exists>s \<in> set ss. \<exists>t. part spec s t \<and> is_time t)"

lemma some_time_step:
  "some_time spec [] = False"
  "some_time spec (s # ss) =
     (is_time s \<or>
      (sch_Kind s = KindObject \<and> some_time spec (map prop_Schema (sch_Properties s))) \<or>
      (sch_Kind s = KindArray \<and> (\<exists>it. sch_Items s = Some it \<and> some_time spec [it])) \<or>
      (sch_Kind s = KindRef \<and> (\<exists>d. spec_Definition spec (sch_RefName s) = Some d \<and> some_time spec [df_Schema d])) \<or>
      some_time spec ss)"
  "some_time spec (ss @ ts) = (some_time spec ss \<or> some_time spec ts)"
  unfolding some_time_def by (auto simp: part_cases [of spec s])

lemma schemaUsesTime_result:
  assumes "grounded spec p"
  shows "schemaUsesTime spec ss = Some (some_time spec ss)"
proof (induction "calls_weight p ss" arbitrary: ss rule: less_induct)
  case less
  show ?case
  proof (cases ss)
    case Nil
    then show ?thesis by (subst schemaUsesTime.simps) (simp add: some_time_step)
  next
    case (Cons s rest)
    have rec: "schemaUsesTime spec (ts @ rest) = Some (some_time spec ts \<or> some_time spec rest)"
      if "calls_weight p ts < weight (name_weight p) s" for ts
      using less [of "ts @ rest"] that Cons by (simp add: some_time_step)
    have tail: "schemaUsesTime spec rest = Some (some_time spec rest)"
      using rec [of "[]"] weight_pos by (simp add: some_time_step)
    have one: "schemaUsesTime spec (t # rest) = Some (some_time spec [t] \<or> some_time spec rest)"
      if "weight (name_weight p) t < weight (name_weight p) s" for t
      using rec [of "[t]"] that by simp
    show ?thesis
      unfolding Cons by (subst schemaUsesTime.simps)
        (auto simp: tail rec weight_properties one weight_items weight_ref [OF assms] is_time_def
          some_time_step(2) [of spec s rest] split: SchemaKind.split option.split)
  qed
qed

end
