(* ===== verification/Gen_TypeScript.thy ===== *)
theory Gen_TypeScript
  imports Gen_Go
begin

text \<open>
  The TypeScript emitter, \<open>tools/protocolgen/typescript.go\<close>.

  The checks that \<open>tsCheck\<close> and its helpers write as text are first a term, \<open>ts_check\<close>, which \<open>check_text\<close>
  prints the way the code does; the term is what the printed expression means to JavaScript, and
  \<open>eval_check\<close> evaluates it. \<open>ts_guard\<close> and \<open>guard_text\<close> are the same for a guard function.
\<close>

section \<open>Types\<close>

fun contains :: "string \<Rightarrow> string \<Rightarrow> bool" where
  "contains sub [] = (sub = [])"
| "contains sub (c # s) = (HasPrefix (c # s) sub \<or> contains sub s)"

fun tsTypeName :: "protocol_spec \<Rightarrow> schema \<Rightarrow> go_error + string" where
  "tsTypeName spec (Schema m ps items refName) =
     (case mt_Kind m of
        KindRef \<Rightarrow>
          (case spec_Definition spec refName of
             None \<Rightarrow> Inl (Errorf ''unknown $ref %q'' [OStr refName] [])
           | Some _ \<Rightarrow> Inr refName)
      | KindString \<Rightarrow> if mt_Const m \<noteq> '''' then Inr (singleQuote (mt_Const m)) else Inr ''string''
      | KindInteger \<Rightarrow> Inr ''number''
      | KindNumber \<Rightarrow> Inr ''number''
      | KindBoolean \<Rightarrow> Inr ''boolean''
      | KindArray \<Rightarrow>
          (case items of
             None \<Rightarrow> Inl (New ''array without items'')
           | Some it \<Rightarrow>
               (case tsTypeName spec it of
                  Inl e \<Rightarrow> Inl e
                | Inr itemType \<Rightarrow>
                    if contains '' | '' itemType then Inr (''('' @ itemType @ '')[]'') else Inr (itemType @ ''[]'')))
      | KindObject \<Rightarrow> Inl (Errorf ''unsupported type %q'' [OStr (kind_text KindObject)] []))"

text \<open>The loops that put a separator after every element but the last.\<close>

fun with_last :: "('a \<Rightarrow> string) \<Rightarrow> ('a \<Rightarrow> string) \<Rightarrow> 'a list \<Rightarrow> string" where
  "with_last f g [] = ''''"
| "with_last f g [x] = g x"
| "with_last f g (x # y # xs) = f x @ with_last f g (y # xs)"

definition emitTypeScriptEnum :: "schema_definition \<Rightarrow> string" where
  "emitTypeScriptEnum d =
     [nl] @ ''export type '' @ df_Name d @ '' ='' @
     with_last (\<lambda>v. '' '' @ singleQuote v @ '' |'') (\<lambda>v. '' '' @ singleQuote v) (sch_Enum (df_Schema d)) @
     '';'' @ [nl]"

fun interface_fields :: "protocol_spec \<Rightarrow> string \<Rightarrow> property list \<Rightarrow> go_error + string" where
  "interface_fields spec dname [] = Inr ''''"
| "interface_fields spec dname (q # qs) =
     (case tsTypeName spec (prop_Schema q) of
        Inl e \<Rightarrow> Inl (Errorf ''$defs.%s.%s: %w'' [OStr dname, OStr (prop_Name q)] [e])
      | Inr t \<Rightarrow>
          (case interface_fields spec dname qs of
             Inl e \<Rightarrow> Inl e
           | Inr ts \<Rightarrow>
               Inr (''  '' @ prop_Name q @ (if prop_Required q then '''' else ''?'') @ '': '' @ t @
                    (if sch_Nullable (prop_Schema q) then '' | null'' else '''') @ '';'' @ [nl] @ ts)))"

definition emitTypeScriptInterface :: "protocol_spec \<Rightarrow> schema_definition \<Rightarrow> go_error + string" where
  "emitTypeScriptInterface spec d =
     thenE (interface_fields spec (df_Name d) (sch_Properties (df_Schema d))) (\<lambda>fields.
       Inr ([nl] @ ''export interface '' @ df_Name d @ '' {'' @ [nl] @ fields @ ''}'' @ [nl]))"

fun ts_definitions :: "protocol_spec \<Rightarrow> schema_definition list \<Rightarrow> go_error + string" where
  "ts_definitions spec [] = Inr ''''"
| "ts_definitions spec (d # ds) =
     (case (if sch_Kind (df_Schema d) = KindString \<and> sch_Enum (df_Schema d) \<noteq> [] then Inr (emitTypeScriptEnum d)
            else if sch_Kind (df_Schema d) = KindObject then emitTypeScriptInterface spec d
            else Inl (Errorf ''$defs.%s: unsupported TypeScript definition kind %q''
                   [OStr (df_Name d), OStr (kind_text (sch_Kind (df_Schema d)))] [])) of
        Inl e \<Rightarrow> Inl e
      | Inr t \<Rightarrow> (case ts_definitions spec ds of Inl e \<Rightarrow> Inl e | Inr ts \<Rightarrow> Inr (t @ ts)))"

section \<open>Unions\<close>

definition wireTypes :: "protocol_message list \<Rightarrow> string list" where
  "wireTypes ms = map msg_WireType ms"

definition ts_definitionNames :: "protocol_message list \<Rightarrow> string list" where
  "ts_definitionNames ms = map msg_DefName ms"

definition hasRequiredProperty :: "schema \<Rightarrow> bool" where
  "hasRequiredProperty s = list_ex prop_Required (sch_Properties s)"

definition emptyGuardedMessages :: "protocol_spec \<Rightarrow> protocol_message list" where
  "emptyGuardedMessages spec =
     filter (\<lambda>m. case spec_Definition spec (msg_PayloadType m) of
                   None \<Rightarrow> False
                 | Some d \<Rightarrow> sch_Kind (df_Schema d) = KindObject \<and> \<not> hasRequiredProperty (df_Schema d))
            (GuardedMessages spec)"

definition union_text :: "string \<Rightarrow> string list \<Rightarrow> string" where
  "union_text name values =
     [nl] @ ''export type '' @ name @ '' ='' @ [nl] @
     (if values = [] then ''  never;'' @ [nl]
      else with_last (\<lambda>v. ''  | '' @ v @ [nl]) (\<lambda>v. ''  | '' @ v @ '';'' @ [nl]) values)"

definition emitTypeUnion :: "string \<Rightarrow> string list \<Rightarrow> string" where
  "emitTypeUnion name values = union_text name values"

definition emitStringUnion :: "string \<Rightarrow> string list \<Rightarrow> string" where
  "emitStringUnion name values = union_text name (map singleQuote values)"

definition listed :: "string list \<Rightarrow> string" where
  "listed ws = concat (map (\<lambda>w. ''  '' @ singleQuote w @ '','' @ [nl]) ws)"

definition emitTypeScriptUnions :: "protocol_spec \<Rightarrow> string" where
  "emitTypeScriptUnions spec =
     emitStringUnion ''ClientCommandType'' (wireTypes (CommandMessages spec)) @
     emitStringUnion ''ServerEventType'' (wireTypes (EventMessages spec)) @
     emitStringUnion ''GuardedCommandType'' (wireTypes (GuardedMessages spec)) @
     emitTypeUnion ''ClientCommand'' (ts_definitionNames (CommandMessages spec)) @
     emitStringUnion ''EmptyGuardedCommandType'' (wireTypes (emptyGuardedMessages spec)) @
     [nl] @ ''export const EMPTY_GUARDED_COMMANDS: { readonly [K in EmptyGuardedCommandType]: Extract<ClientCommand, { type: K }> } = {'' @ [nl] @
     concat (map (\<lambda>w. ''  '' @ singleQuote w @ '': { type: '' @ singleQuote w @ '', payload: {} },'' @ [nl])
                 (wireTypes (emptyGuardedMessages spec))) @
     ''};'' @ [nl] @
     emitTypeUnion ''ServerEvent'' (ts_definitionNames (EventMessages spec)) @
     [nl] @ ''export const GUARDED_COMMAND_TYPES: readonly GuardedCommandType[] = ['' @ [nl] @
     listed (wireTypes (GuardedMessages spec)) @ ''];'' @ [nl] @
     [nl] @ ''export const SERVER_EVENT_TYPES: readonly ServerEventType[] = ['' @ [nl] @
     listed (wireTypes (EventMessages spec)) @ ''];'' @ [nl] @
     [nl] @ lines [''export function isGuardedCommand(type: string): type is GuardedCommandType {'',
       ''  return GUARDED_COMMAND_TYPES.some((commandType) => commandType === type);'', ''}'']"

section \<open>Checks\<close>

datatype accessor = PropertyOf string | ItemVar

definition accessor_text :: "accessor \<Rightarrow> string" where
  "accessor_text a = (case a of PropertyOf n \<Rightarrow> ''value.'' @ n | ItemVar \<Rightarrow> ''item'')"

datatype ts_check =
    NullOr accessor ts_check
  | CallGuard string accessor
  | EqualsText accessor string
  | CallTimestamp accessor
  | CallUUID accessor
  | TypeOfString accessor
  | TypeOfNumber accessor
  | TypeOfBoolean accessor
  | CallInteger accessor
  | AtLeast ts_check accessor rat
  | EveryItem accessor ts_check
  | UnlessMissing string ts_check

fun check_text :: "(rat \<Rightarrow> string) \<Rightarrow> ts_check \<Rightarrow> string" where
  "check_text ff (NullOr a c) = ''('' @ accessor_text a @ '' === null || ('' @ check_text ff c @ ''))''"
| "check_text ff (CallGuard n a) = ''is'' @ n @ ''('' @ accessor_text a @ '')''"
| "check_text ff (EqualsText a t) = accessor_text a @ '' === '' @ singleQuote t"
| "check_text ff (CallTimestamp a) = ''isRFC3339Timestamp('' @ accessor_text a @ '')''"
| "check_text ff (CallUUID a) = ''isUUID('' @ accessor_text a @ '')''"
| "check_text ff (TypeOfString a) = ''typeof '' @ accessor_text a @ '' === '' @ [squote] @ ''string'' @ [squote]"
| "check_text ff (TypeOfNumber a) = ''typeof '' @ accessor_text a @ '' === '' @ [squote] @ ''number'' @ [squote]"
| "check_text ff (TypeOfBoolean a) = ''typeof '' @ accessor_text a @ '' === '' @ [squote] @ ''boolean'' @ [squote]"
| "check_text ff (CallInteger a) = ''isInteger('' @ accessor_text a @ '')''"
| "check_text ff (AtLeast c a b) = check_text ff c @ '' && '' @ accessor_text a @ '' >= '' @ ff b"
| "check_text ff (EveryItem a c) =
     ''Array.isArray('' @ accessor_text a @ '') && '' @ accessor_text a @ ''.every((item) => '' @ check_text ff c @ '')''"
| "check_text ff (UnlessMissing n c) =
     ''(!('' @ [squote] @ n @ [squote] @ '' in value) || '' @ check_text ff c @ '')''"

definition tsNumericCheck :: "schema_meta \<Rightarrow> ts_check \<Rightarrow> accessor \<Rightarrow> ts_check" where
  "tsNumericCheck m check a = (case mt_Minimum m of None \<Rightarrow> check | Some b \<Rightarrow> AtLeast check a b)"

definition tsRefIsValidatable :: "schema \<Rightarrow> bool" where
  "tsRefIsValidatable s \<longleftrightarrow> sch_Kind s = KindObject \<or> (sch_Kind s = KindString \<and> sch_Enum s \<noteq> [])"

definition tsRefCheck :: "protocol_spec \<Rightarrow> string \<Rightarrow> accessor \<Rightarrow> go_error + ts_check" where
  "tsRefCheck spec refName a =
     (case spec_Definition spec refName of
        None \<Rightarrow> Inl (Errorf ''unknown $ref %q'' [OStr refName] [])
      | Some d \<Rightarrow>
          if tsRefIsValidatable (df_Schema d) then Inr (CallGuard (df_Name d) a)
          else Inl (Errorf ''$ref %q cannot be validated'' [OStr refName] []))"

definition tsStringCheck :: "schema_meta \<Rightarrow> accessor \<Rightarrow> ts_check" where
  "tsStringCheck m a =
     (if mt_Const m \<noteq> '''' then EqualsText a (mt_Const m)
      else if mt_Format m = ''date-time'' then CallTimestamp a
      else if mt_Format m = ''uuid'' then CallUUID a
      else TypeOfString a)"

text \<open>\<open>tsCheck\<close> with \<open>tsNonNullCheck\<close> and \<open>tsArrayCheck\<close>.\<close>

definition null_or :: "schema_meta \<Rightarrow> accessor \<Rightarrow> go_error + ts_check \<Rightarrow> go_error + ts_check" where
  "null_or m a r = thenE r (\<lambda>check. if mt_Nullable m then Inr (NullOr a check) else Inr check)"

fun tsCheck :: "protocol_spec \<Rightarrow> schema \<Rightarrow> accessor \<Rightarrow> go_error + ts_check" where
  "tsCheck spec (Schema m ps items refName) a =
     null_or m a
       (case mt_Kind m of
          KindRef \<Rightarrow> tsRefCheck spec refName a
        | KindString \<Rightarrow> Inr (tsStringCheck m a)
        | KindInteger \<Rightarrow> Inr (tsNumericCheck m (CallInteger a) a)
        | KindNumber \<Rightarrow> Inr (tsNumericCheck m (TypeOfNumber a) a)
        | KindBoolean \<Rightarrow> Inr (TypeOfBoolean a)
        | KindArray \<Rightarrow>
            (case items of
               None \<Rightarrow> Inl (New ''array without items'')
             | Some it \<Rightarrow>
                 (case tsCheck spec it ItemVar of Inl e \<Rightarrow> Inl e | Inr c \<Rightarrow> Inr (EveryItem a c)))
        | KindObject \<Rightarrow> Inl (Errorf ''unsupported type %q'' [OStr (kind_text KindObject)] []))"

section \<open>Guards\<close>

datatype ts_guard = EnumGuard "string list" | RecordGuard "ts_check list"

fun object_checks :: "protocol_spec \<Rightarrow> string \<Rightarrow> property list \<Rightarrow> go_error + ts_check list" where
  "object_checks spec dname [] = Inr []"
| "object_checks spec dname (q # qs) =
     (case tsCheck spec (prop_Schema q) (PropertyOf (prop_Name q)) of
        Inl e \<Rightarrow> Inl (Errorf ''$defs.%s.%s: %w'' [OStr dname, OStr (prop_Name q)] [e])
      | Inr c \<Rightarrow>
          (case object_checks spec dname qs of
             Inl e \<Rightarrow> Inl e
           | Inr cs \<Rightarrow> Inr ((if prop_Required q then c else UnlessMissing (prop_Name q) c) # cs)))"

definition guard_header :: "string \<Rightarrow> string \<Rightarrow> string" where
  "guard_header guard typeName =
     [nl] @ ''export function '' @ guard @ ''(value: unknown): value is '' @ typeName @ '' {'' @ [nl]"

definition record_test :: string where
  "record_test = lines [''  if (!isRecord(value)) {'', ''    return false;'', ''  }'', '''']"

definition guard_text :: "(rat \<Rightarrow> string) \<Rightarrow> string \<Rightarrow> ts_guard \<Rightarrow> string" where
  "guard_text ff name g =
     guard_header (''is'' @ name) name @
     (case g of
        EnumGuard vs \<Rightarrow>
          ''  return '' @ join_with '' || '' (map (\<lambda>v. ''value === '' @ singleQuote v) vs) @ lines ['';'', ''}'']
      | RecordGuard cs \<Rightarrow>
          record_test @
          (if cs = [] then lines [''  return true;'', ''}'']
           else lines [''  return (''] @
                with_last (\<lambda>c. ''    '' @ check_text ff c @ '' &&'' @ [nl]) (\<lambda>c. ''    '' @ check_text ff c @ [nl]) cs @
                lines [''  );'', ''}'']))"

text \<open>The guard of a definition; definitions that are neither enums nor objects have none.\<close>

definition definition_guard :: "protocol_spec \<Rightarrow> schema_definition \<Rightarrow> go_error + ts_guard option" where
  "definition_guard spec d =
     (if sch_Kind (df_Schema d) = KindString \<and> sch_Enum (df_Schema d) \<noteq> []
      then Inr (Some (EnumGuard (sch_Enum (df_Schema d))))
      else if sch_Kind (df_Schema d) = KindObject
      then thenE (object_checks spec (df_Name d) (sch_Properties (df_Schema d))) (\<lambda>cs. Inr (Some (RecordGuard cs)))
      else Inr None)"

fun spec_guards :: "protocol_spec \<Rightarrow> schema_definition list \<Rightarrow> go_error + (string \<times> ts_guard) list" where
  "spec_guards spec [] = Inr []"
| "spec_guards spec (d # ds) =
     (case definition_guard spec d of
        Inl e \<Rightarrow> Inl e
      | Inr g \<Rightarrow>
          (case spec_guards spec ds of
             Inl e \<Rightarrow> Inl e
           | Inr gs \<Rightarrow> Inr ((case g of None \<Rightarrow> [] | Some x \<Rightarrow> [(df_Name d, x)]) @ gs)))"

definition emitTypeScriptDispatcher :: "string \<Rightarrow> string \<Rightarrow> protocol_message list \<Rightarrow> string" where
  "emitTypeScriptDispatcher guard typeName ms =
     guard_header guard typeName @ record_test @ lines [''  switch (value.type) {''] @
     concat (map (\<lambda>m. ''    case '' @ singleQuote (msg_WireType m) @ '':'' @ [nl] @
                      ''      return is'' @ msg_DefName m @ ''(value);'' @ [nl]) ms) @
     lines [''    default:'', ''      return false;'', ''  }'', ''}'']"

definition emitTypeScriptGuards :: "gen_env \<Rightarrow> protocol_spec \<Rightarrow> go_error + string" where
  "emitTypeScriptGuards env spec =
     thenE (spec_guards spec (sp_Definitions spec)) (\<lambda>gs.
       Inr (concat (map (\<lambda>(n, g). guard_text (ge_FormatFloat env) n g) gs) @
            emitTypeScriptDispatcher ''isServerEvent'' ''ServerEvent'' (EventMessages spec) @
            emitTypeScriptDispatcher ''isClientCommand'' ''ClientCommand'' (CommandMessages spec)))"

section \<open>Imports\<close>

record typeScriptUsage =
  us_integer :: bool
  us_timestamp :: bool
  us_uuid :: bool

text \<open>The schemas still to scan, in the order of the recursion, and the names visited.\<close>

definition unvisited :: "protocol_spec \<Rightarrow> string set \<Rightarrow> nat" where
  "unvisited spec visited = card (dom (map_of (sp_byName spec)) - visited)"

definition scan_size :: "schema list \<Rightarrow> nat" where
  "scan_size ss = sum_list (map size ss)"

lemma scan_size_simps [simp]:
  "scan_size [] = 0" "scan_size (s # ss) = size s + scan_size ss" "scan_size (ss @ ts) = scan_size ss + scan_size ts"
  by (simp_all add: scan_size_def)

lemma schema_size_pos [simp]: "0 < size (s :: schema)"
  by (cases s) simp

lemma scan_size_properties: "scan_size (map prop_Schema (sch_Properties s)) < size s"
proof (cases s)
  case (Schema m ps it r)
  have "scan_size (map prop_Schema ps) \<le> size_list size ps"
  proof (induction ps)
    case (Cons q ps)
    then show ?case by (cases q) simp
  qed simp
  then show ?thesis using Schema by simp
qed

lemma size_items: "sch_Items s = Some it \<Longrightarrow> size it < size s"
  by (cases s) simp

lemma unvisited_insert:
  "spec_Definition spec n = Some d \<Longrightarrow> n \<notin> visited \<Longrightarrow> unvisited spec (insert n visited) < unvisited spec visited"
  unfolding unvisited_def spec_Definition_def
  by (rule psubset_card_mono) (auto simp: finite_dom_map_of)

lemma unvisited_unknown:
  "spec_Definition spec n = None \<Longrightarrow> unvisited spec (insert n visited) = unvisited spec visited"
  unfolding unvisited_def spec_Definition_def by (rule arg_cong [of _ _ card]) auto

function scanTypeScriptUsage ::
  "protocol_spec \<Rightarrow> schema list \<Rightarrow> typeScriptUsage \<Rightarrow> string list \<Rightarrow> typeScriptUsage" where
  "scanTypeScriptUsage spec [] usage visited = usage"
| "scanTypeScriptUsage spec (schema # rest) usage visited =
     (case sch_Kind schema of
        KindObject \<Rightarrow>
          scanTypeScriptUsage spec (map prop_Schema (sch_Properties schema) @ rest) usage visited
      | KindString \<Rightarrow>
          scanTypeScriptUsage spec rest
            (if sch_Format schema = ''date-time'' then usage\<lparr>us_timestamp := True\<rparr>
             else if sch_Format schema = ''uuid'' then usage\<lparr>us_uuid := True\<rparr> else usage) visited
      | KindInteger \<Rightarrow> scanTypeScriptUsage spec rest (usage\<lparr>us_integer := True\<rparr>) visited
      | KindArray \<Rightarrow>
          (case sch_Items schema of
             None \<Rightarrow> scanTypeScriptUsage spec rest usage visited
           | Some it \<Rightarrow> scanTypeScriptUsage spec (it # rest) usage visited)
      | KindRef \<Rightarrow>
          if sch_RefName schema \<in> set visited then scanTypeScriptUsage spec rest usage visited
          else (case spec_Definition spec (sch_RefName schema) of
                  None \<Rightarrow> scanTypeScriptUsage spec rest usage (sch_RefName schema # visited)
                | Some d \<Rightarrow>
                    scanTypeScriptUsage spec (df_Schema d # rest) usage (sch_RefName schema # visited))
      | _ \<Rightarrow> scanTypeScriptUsage spec rest usage visited)"
  by pat_completeness auto

termination
proof (relation "inv_image (less_than <*lex*> less_than)
    (\<lambda>(spec, ss, usage, visited). (unvisited spec (set visited), scan_size ss))", goal_cases)
qed (simp_all add: scan_size_properties size_items unvisited_insert unvisited_unknown wf_inv_image wf_lex_prod)

declare scanTypeScriptUsage.simps [simp del]

definition collectTypeScriptUsage :: "protocol_spec \<Rightarrow> typeScriptUsage" where
  "collectTypeScriptUsage spec =
     scanTypeScriptUsage spec (map df_Schema (sp_Definitions spec))
       \<lparr>us_integer = False, us_timestamp = False, us_uuid = False\<rparr> []"

definition ts_helpers :: "typeScriptUsage \<Rightarrow> string list" where
  "ts_helpers usage =
     (if us_integer usage then [''isInteger''] else []) @ [''isRecord''] @
     (if us_timestamp usage then [''isRFC3339Timestamp''] else []) @
     (if us_uuid usage then [''isUUID''] else [])"

definition emitTypeScript :: "gen_env \<Rightarrow> protocol_spec \<Rightarrow> go_error + string" where
  "emitTypeScript env spec =
     thenE (ts_definitions spec (sp_Definitions spec)) (\<lambda>types.
     thenE (emitTypeScriptGuards env spec) (\<lambda>guards.
       Inr (generatedHeader @ [nl, nl] @
            ''import { '' @ join_with '', '' (ts_helpers (collectTypeScriptUsage spec)) @ '' } from '' @
            [squote] @ ''./protocol.runtime'' @ [squote] @ '';'' @ [nl] @
            types @ emitTypeScriptUnions spec @ guards)))"

end
