(* ===== verification/Gen_Guards.thy ===== *)
theory Gen_Guards
  imports Gen_TypeScript
begin

text \<open>
  What the generated guards accept. \<open>eval_check\<close> is JavaScript's reading of the expressions that
  \<open>tsCheck\<close> writes, \<open>run_guard\<close> of the guard functions, which call one another by name; \<open>valid\<close> is what
  the schemas say. They agree on contracts that keep to \<open>plain\<close>.

  A value is what \<open>JSON.parse\<close> returns, and a missing property is \<open>None\<close>. Of the properties an array has,
  only \<open>length\<close> has a name a property access can be written with. What a record inherits from its
  prototype is left out. \<open>fmt\<close> stands for \<open>isRFC3339Timestamp\<close> and \<open>isUUID\<close> on strings, by the format.
\<close>

type_synonym format_test = "string \<Rightarrow> string \<Rightarrow> bool"

section \<open>JavaScript\<close>

definition isRecord :: "any_value \<Rightarrow> bool" where
  "isRecord v = (case v of AMap _ \<Rightarrow> True | AArr _ \<Rightarrow> True | _ \<Rightarrow> False)"

definition member :: "any_value \<Rightarrow> string \<Rightarrow> any_value option" where
  "member v n =
     (case v of
        AMap m \<Rightarrow> map_of m n
      | AArr xs \<Rightarrow> if n = ''length'' then Some (ANum (rat_of_nat (length xs))) else None
      | _ \<Rightarrow> None)"

definition access :: "any_value \<Rightarrow> any_value option \<Rightarrow> accessor \<Rightarrow> any_value option" where
  "access this item a = (case a of PropertyOf n \<Rightarrow> member this n | ItemVar \<Rightarrow> item)"

definition text_test :: "(string \<Rightarrow> bool) \<Rightarrow> any_value option \<Rightarrow> bool" where
  "text_test P v = (case v of Some (AStr t) \<Rightarrow> P t | _ \<Rightarrow> False)"

definition number_test :: "(rat \<Rightarrow> bool) \<Rightarrow> any_value option \<Rightarrow> bool" where
  "number_test P v = (case v of Some (ANum x) \<Rightarrow> P x | _ \<Rightarrow> False)"

definition is_integer :: "rat \<Rightarrow> bool" where "is_integer x \<longleftrightarrow> rat_of_int (floor x) = x"

fun eval_check ::
  "format_test \<Rightarrow> (string \<Rightarrow> any_value option \<Rightarrow> bool) \<Rightarrow> any_value \<Rightarrow> any_value option \<Rightarrow> ts_check \<Rightarrow> bool" where
  "eval_check fmt call this item (NullOr a c) =
     (access this item a = Some ANull \<or> eval_check fmt call this item c)"
| "eval_check fmt call this item (CallGuard n a) = call n (access this item a)"
| "eval_check fmt call this item (EqualsText a t) = (access this item a = Some (AStr t))"
| "eval_check fmt call this item (CallTimestamp a) = text_test (fmt ''date-time'') (access this item a)"
| "eval_check fmt call this item (CallUUID a) = text_test (fmt ''uuid'') (access this item a)"
| "eval_check fmt call this item (TypeOfString a) = text_test (\<lambda>_. True) (access this item a)"
| "eval_check fmt call this item (TypeOfNumber a) = number_test (\<lambda>_. True) (access this item a)"
| "eval_check fmt call this item (TypeOfBoolean a) =
     (case access this item a of Some (ABool _) \<Rightarrow> True | _ \<Rightarrow> False)"
| "eval_check fmt call this item (CallInteger a) = number_test is_integer (access this item a)"
| "eval_check fmt call this item (AtLeast c a b) =
     (eval_check fmt call this item c \<and> number_test (\<lambda>x. b \<le> x) (access this item a))"
| "eval_check fmt call this item (EveryItem a c) =
     (case access this item a of
        Some (AArr xs) \<Rightarrow> list_all (\<lambda>x. eval_check fmt call this (Some x) c) xs
      | _ \<Rightarrow> False)"
| "eval_check fmt call this item (UnlessMissing n c) =
     (member this n = None \<or> eval_check fmt call this item c)"

text \<open>A call of a guard, with a bound on the depth of nested calls; a deeper call counts as rejected.\<close>

fun run_guard ::
  "format_test \<Rightarrow> (string \<times> ts_guard) list \<Rightarrow> nat \<Rightarrow> string \<Rightarrow> any_value option \<Rightarrow> bool" where
  "run_guard fmt gs 0 n v = False"
| "run_guard fmt gs (Suc k) n v =
     (case map_of gs n of
        None \<Rightarrow> False
      | Some (EnumGuard vs) \<Rightarrow> list_ex (\<lambda>t. v = Some (AStr t)) vs
      | Some (RecordGuard cs) \<Rightarrow>
          (case v of
             None \<Rightarrow> False
           | Some r \<Rightarrow> isRecord r \<and> list_all (eval_check fmt (run_guard fmt gs k) r None) cs))"

text \<open>A dispatcher: \<open>isServerEvent\<close> on the events, \<open>isClientCommand\<close> on the commands.\<close>

definition run_dispatcher ::
  "format_test \<Rightarrow> (string \<times> ts_guard) list \<Rightarrow> nat \<Rightarrow> protocol_message list \<Rightarrow> any_value \<Rightarrow> bool" where
  "run_dispatcher fmt gs k ms v =
     (isRecord v \<and>
      (case find (\<lambda>m. member v ''type'' = Some (AStr (msg_WireType m))) ms of
         None \<Rightarrow> False
       | Some m \<Rightarrow> run_guard fmt gs k (msg_DefName m) (Some v)))"

section \<open>What the schemas say\<close>

definition checked_format :: "string \<Rightarrow> bool" where
  "checked_format f \<longleftrightarrow> f = ''date-time'' \<or> f = ''uuid''"

inductive valid :: "format_test \<Rightarrow> protocol_spec \<Rightarrow> schema \<Rightarrow> any_value \<Rightarrow> bool" for fmt spec where
  valid_ref: "sch_Kind s = KindRef \<Longrightarrow> spec_Definition spec (sch_RefName s) = Some d \<Longrightarrow>
    valid fmt spec (df_Schema d) v \<Longrightarrow> valid fmt spec s v"
| valid_null: "sch_Nullable s \<Longrightarrow> valid fmt spec s ANull"
| valid_string: "sch_Kind s = KindString \<Longrightarrow> (sch_Const s \<noteq> '''' \<longrightarrow> t = sch_Const s) \<Longrightarrow>
    (sch_Enum s \<noteq> [] \<longrightarrow> t \<in> set (sch_Enum s)) \<Longrightarrow> (checked_format (sch_Format s) \<longrightarrow> fmt (sch_Format s) t) \<Longrightarrow>
    valid fmt spec s (AStr t)"
| valid_number: "sch_Kind s = KindInteger \<and> is_integer x \<or> sch_Kind s = KindNumber \<Longrightarrow>
    (\<forall>b. sch_Minimum s = Some b \<longrightarrow> b \<le> x) \<Longrightarrow> valid fmt spec s (ANum x)"
| valid_boolean: "sch_Kind s = KindBoolean \<Longrightarrow> valid fmt spec s (ABool b)"
| valid_array: "sch_Kind s = KindArray \<Longrightarrow> sch_Items s = Some it \<Longrightarrow> (\<forall>x \<in> set xs. valid fmt spec it x) \<Longrightarrow>
    valid fmt spec s (AArr xs)"
| valid_object: "sch_Kind s = KindObject \<Longrightarrow> isRecord v \<Longrightarrow>
    (\<forall>q \<in> set (sch_Properties s). prop_Required q \<longrightarrow> member v (prop_Name q) \<noteq> None) \<Longrightarrow>
    (\<forall>q \<in> set (sch_Properties s). \<forall>x. member v (prop_Name q) = Some x \<longrightarrow> valid fmt spec (prop_Schema q) x) \<Longrightarrow>
    valid fmt spec s v"

text \<open>The contracts the guards check in full: an enum is a definition of its own, a constant has no
  format beside it, and only properties and items are nullable.\<close>

fun plain_part :: "schema \<Rightarrow> bool" where
  "plain_part (Schema m ps it r) =
     ((mt_Kind m = KindString \<longrightarrow> mt_Enum m = [] \<and> (mt_Const m = '''' \<or> \<not> checked_format (mt_Format m))) \<and>
      (case it of None \<Rightarrow> True | Some s \<Rightarrow> plain_part s))"

definition plain :: "protocol_spec \<Rightarrow> bool" where
  "plain spec \<longleftrightarrow>
     (\<forall>d \<in> set (sp_Definitions spec).
        \<not> sch_Nullable (df_Schema d) \<and>
        (sch_Kind (df_Schema d) = KindString \<longrightarrow>
           sch_Const (df_Schema d) = '''' \<and> \<not> checked_format (sch_Format (df_Schema d))) \<and>
        (\<forall>q \<in> set (sch_Properties (df_Schema d)). plain_part (prop_Schema q)))"

section \<open>They agree\<close>

lemma sch_Schema [simp]:
  "sch_Kind (Schema m ps it r) = mt_Kind m" "sch_Nullable (Schema m ps it r) = mt_Nullable m"
  "sch_Enum (Schema m ps it r) = mt_Enum m" "sch_Const (Schema m ps it r) = mt_Const m"
  "sch_Format (Schema m ps it r) = mt_Format m" "sch_Minimum (Schema m ps it r) = mt_Minimum m"
  by (simp_all add: sch_fields)

lemma valid_kinds:
  "sch_Kind s = KindRef \<Longrightarrow> valid fmt spec s v \<longleftrightarrow>
     sch_Nullable s \<and> v = ANull \<or> (\<exists>d. spec_Definition spec (sch_RefName s) = Some d \<and> valid fmt spec (df_Schema d) v)"
  "sch_Kind s = KindString \<Longrightarrow> valid fmt spec s v \<longleftrightarrow>
     sch_Nullable s \<and> v = ANull \<or>
     (\<exists>t. v = AStr t \<and> (sch_Const s \<noteq> '''' \<longrightarrow> t = sch_Const s) \<and> (sch_Enum s \<noteq> [] \<longrightarrow> t \<in> set (sch_Enum s)) \<and>
          (checked_format (sch_Format s) \<longrightarrow> fmt (sch_Format s) t))"
  "sch_Kind s = KindInteger \<Longrightarrow> valid fmt spec s v \<longleftrightarrow>
     sch_Nullable s \<and> v = ANull \<or> (\<exists>x. v = ANum x \<and> is_integer x \<and> (\<forall>b. sch_Minimum s = Some b \<longrightarrow> b \<le> x))"
  "sch_Kind s = KindNumber \<Longrightarrow> valid fmt spec s v \<longleftrightarrow>
     sch_Nullable s \<and> v = ANull \<or> (\<exists>x. v = ANum x \<and> (\<forall>b. sch_Minimum s = Some b \<longrightarrow> b \<le> x))"
  "sch_Kind s = KindBoolean \<Longrightarrow> valid fmt spec s v \<longleftrightarrow> sch_Nullable s \<and> v = ANull \<or> (\<exists>b. v = ABool b)"
  "sch_Kind s = KindArray \<Longrightarrow> valid fmt spec s v \<longleftrightarrow>
     sch_Nullable s \<and> v = ANull \<or> (\<exists>xs it. v = AArr xs \<and> sch_Items s = Some it \<and> (\<forall>x \<in> set xs. valid fmt spec it x))"
  "sch_Kind s = KindObject \<Longrightarrow> valid fmt spec s v \<longleftrightarrow>
     sch_Nullable s \<and> v = ANull \<or>
     isRecord v \<and> (\<forall>q \<in> set (sch_Properties s). prop_Required q \<longrightarrow> member v (prop_Name q) \<noteq> None) \<and>
       (\<forall>q \<in> set (sch_Properties s). \<forall>x. member v (prop_Name q) = Some x \<longrightarrow> valid fmt spec (prop_Schema q) x)"
  by (subst valid.simps; auto)+

text \<open>A called guard decides the definition of its name.\<close>

definition decides :: "format_test \<Rightarrow> protocol_spec \<Rightarrow> (string \<Rightarrow> any_value option \<Rightarrow> bool) \<Rightarrow> string \<Rightarrow> bool" where
  "decides fmt spec call n \<longleftrightarrow>
     (\<forall>d v. spec_Definition spec n = Some d \<and> tsRefIsValidatable (df_Schema d) \<longrightarrow>
        call n v = (\<exists>x. v = Some x \<and> valid fmt spec (df_Schema d) x))"

lemma null_or_eval:
  assumes "null_or m a r = Inr c"
    and "\<And>c'. r = Inr c' \<Longrightarrow> eval_check fmt call this item c' = (\<exists>x. access this item a = Some x \<and> P x)"
  shows "eval_check fmt call this item c =
    (\<exists>x. access this item a = Some x \<and> (mt_Nullable m \<and> x = ANull \<or> P x))"
proof -
  obtain c' where c': "r = Inr c'" using assms(1) by (auto simp: null_or_def)
  then have "c = (if mt_Nullable m then NullOr a c' else c')"
    using assms(1) by (simp add: null_or_def split: if_splits)
  then show ?thesis using assms(2) [OF c'] by auto
qed

lemma string_eval:
  "plain_part (Schema m ps it r) \<Longrightarrow> mt_Kind m = KindString \<Longrightarrow>
   eval_check fmt call this item (tsStringCheck m a) =
     (\<exists>x. access this item a = Some x \<and>
        (\<exists>t. x = AStr t \<and> (mt_Const m \<noteq> '''' \<longrightarrow> t = mt_Const m) \<and> (mt_Enum m \<noteq> [] \<longrightarrow> t \<in> set (mt_Enum m)) \<and>
             (checked_format (mt_Format m) \<longrightarrow> fmt (mt_Format m) t)))"
  by (auto simp: tsStringCheck_def text_test_def checked_format_def split: option.splits any_value.splits)

lemma numeric_eval:
  "(\<And>item. eval_check fmt call this item c = number_test P (access this item a)) \<Longrightarrow>
   eval_check fmt call this item (tsNumericCheck m c a) =
     (\<exists>x. access this item a = Some x \<and> (\<exists>y. x = ANum y \<and> P y \<and> (\<forall>b. mt_Minimum m = Some b \<longrightarrow> b \<le> y)))"
  by (auto simp: tsNumericCheck_def number_test_def split: option.splits any_value.splits)

lemma tsCheck_eval:
  "tsCheck spec s a = Inr c \<Longrightarrow> grounded spec p \<Longrightarrow> plain_part s \<Longrightarrow> (\<forall>r \<in> refs s. decides fmt spec call r) \<Longrightarrow>
    eval_check fmt call this item c = (\<exists>x. access this item a = Some x \<and> valid fmt spec s x)"
proof (induction spec s a arbitrary: c item rule: tsCheck.induct)
  case (1 spec m ps items refName a)
  let ?s = "Schema m ps items refName"
  show ?case
  proof (cases "mt_Kind m")
    case KindRef
    then have n: "null_or m a (tsRefCheck spec refName a) = Inr c" using 1(2) by simp
    have dec: "decides fmt spec call refName" using 1(5) KindRef by simp
    show ?thesis
      unfolding valid_kinds(1) [of ?s, unfolded sch_Schema, OF KindRef] schema.sel
    proof (rule null_or_eval [OF n])
      fix c'
      assume "tsRefCheck spec refName a = Inr c'"
      then obtain d where d: "spec_Definition spec refName = Some d" "tsRefIsValidatable (df_Schema d)"
          "c' = CallGuard (df_Name d) a"
        by (auto simp: tsRefCheck_def split: option.splits if_splits)
      have "df_Name d = refName" using 1(3) d(1) by (simp add: grounded_def)
      then show "eval_check fmt call this item c' =
          (\<exists>x. access this item a = Some x \<and>
             (\<exists>d. spec_Definition spec refName = Some d \<and> valid fmt spec (df_Schema d) x))"
        using dec d by (simp add: decides_def)
    qed
  next
    case KindObject
    then show ?thesis using 1(2) by (simp add: null_or_def)
  next
    case KindArray
    then obtain it where it: "items = Some it"
      using 1(2) by (cases items) (simp_all add: null_or_def)
    have n: "null_or m a (case tsCheck spec it ItemVar of Inl e \<Rightarrow> Inl e | Inr c \<Rightarrow> Inr (EveryItem a c)) = Inr c"
      using 1(2) KindArray it by simp
    show ?thesis
      unfolding valid_kinds(6) [of ?s, unfolded sch_Schema, OF KindArray] schema.sel
    proof (rule null_or_eval [OF n])
      fix c'
      assume "(case tsCheck spec it ItemVar of Inl e \<Rightarrow> Inl e | Inr c \<Rightarrow> Inr (EveryItem a c)) = Inr c'"
      then obtain ci where ci: "tsCheck spec it ItemVar = Inr ci" "c' = EveryItem a ci"
        by (auto split: sum.splits)
      have "eval_check fmt call this (Some x) ci = valid fmt spec it x" for x
        using 1(1) [OF KindArray it ci(1) 1(3), of "Some x"] 1(4,5) it by (simp add: access_def)
      then show "eval_check fmt call this item c' =
          (\<exists>x. access this item a = Some x \<and>
             (\<exists>xs it. x = AArr xs \<and> items = Some it \<and> (\<forall>x \<in> set xs. valid fmt spec it x)))"
        using ci(2) it by (auto simp: list_all_iff split: option.splits any_value.splits)
    qed
  next
    case KindString
    then have n: "null_or m a (Inr (tsStringCheck m a)) = Inr c" using 1(2) by simp
    show ?thesis
      unfolding valid_kinds(2) [of ?s, unfolded sch_Schema, OF KindString]
      by (rule null_or_eval [OF n]) (use string_eval [OF 1(4) KindString] in simp)
  next
    case KindInteger
    then have n: "null_or m a (Inr (tsNumericCheck m (CallInteger a) a)) = Inr c" using 1(2) by simp
    have e: "eval_check fmt call this item (CallInteger a) = number_test is_integer (access this item a)" for item
      by simp
    show ?thesis
      unfolding valid_kinds(3) [of ?s, unfolded sch_Schema, OF KindInteger]
      by (rule null_or_eval [OF n]) (use numeric_eval [OF e] in simp)
  next
    case KindNumber
    then have n: "null_or m a (Inr (tsNumericCheck m (TypeOfNumber a) a)) = Inr c" using 1(2) by simp
    have e: "eval_check fmt call this item (TypeOfNumber a) = number_test (\<lambda>_. True) (access this item a)" for item
      by simp
    show ?thesis
      unfolding valid_kinds(4) [of ?s, unfolded sch_Schema, OF KindNumber]
      by (rule null_or_eval [OF n]) (use numeric_eval [OF e] in simp)
  next
    case KindBoolean
    then have n: "null_or m a (Inr (TypeOfBoolean a)) = Inr c" using 1(2) by simp
    show ?thesis
      unfolding valid_kinds(5) [of ?s, unfolded sch_Schema, OF KindBoolean]
      by (rule null_or_eval [OF n]) (auto split: option.splits any_value.splits)
  qed
qed

lemma object_checks_eval:
  assumes g: "grounded spec p"
  shows "object_checks spec dname qs = Inr cs \<Longrightarrow> (\<forall>q \<in> set qs. plain_part (prop_Schema q)) \<Longrightarrow>
    (\<forall>q \<in> set qs. \<forall>r \<in> refs (prop_Schema q). decides fmt spec call r) \<Longrightarrow>
    list_all (eval_check fmt call v None) cs =
      ((\<forall>q \<in> set qs. prop_Required q \<longrightarrow> member v (prop_Name q) \<noteq> None) \<and>
       (\<forall>q \<in> set qs. \<forall>x. member v (prop_Name q) = Some x \<longrightarrow> valid fmt spec (prop_Schema q) x))"
proof (induction qs arbitrary: cs)
  case Nil
  then show ?case by simp
next
  case (Cons q qs)
  obtain c cs' where c: "tsCheck spec (prop_Schema q) (PropertyOf (prop_Name q)) = Inr c"
      "object_checks spec dname qs = Inr cs'"
      "cs = (if prop_Required q then c else UnlessMissing (prop_Name q) c) # cs'"
    using Cons.prems(1) by (auto split: sum.splits)
  have e: "eval_check fmt call v None c =
      (\<exists>x. member v (prop_Name q) = Some x \<and> valid fmt spec (prop_Schema q) x)"
    using tsCheck_eval [OF c(1) g, of fmt call v None] Cons.prems(2,3) by (simp add: access_def)
  show ?case
    using e Cons.IH [OF c(2)] Cons.prems(2,3) c(3) by (cases "member v (prop_Name q)") auto
qed

section \<open>Whole contracts\<close>

lemma spec_guards_lookup:
  "spec_guards spec ds = Inr gs \<Longrightarrow> inj_on df_Name (set ds) \<Longrightarrow> d \<in> set ds \<Longrightarrow>
   tsRefIsValidatable (df_Schema d) \<Longrightarrow> \<exists>g. definition_guard spec d = Inr (Some g) \<and> map_of gs (df_Name d) = Some g"
proof (induction ds arbitrary: gs)
  case Nil
  then show ?case by simp
next
  case (Cons e ds)
  obtain g gs' where g: "definition_guard spec e = Inr g" "spec_guards spec ds = Inr gs'"
      "gs = (case g of None \<Rightarrow> [] | Some x \<Rightarrow> [(df_Name e, x)]) @ gs'"
    using Cons.prems(1) by (auto split: sum.splits)
  show ?case
  proof (cases "d = e")
    case True
    then obtain x where "g = Some x"
      using g(1) Cons.prems(4) by (auto simp: definition_guard_def tsRefIsValidatable_def split: if_splits)
    then show ?thesis using g True by simp
  next
    case False
    then have "d \<in> set ds" using Cons.prems(3) by simp
    moreover have "df_Name d \<noteq> df_Name e"
      using False inj_onD [OF Cons.prems(2), of d e] Cons.prems(3) by auto
    ultimately show ?thesis
      using Cons.IH [OF g(2) _ _ Cons.prems(4)] Cons.prems(2) g(3)
      by (cases g) (auto simp: inj_on_def)
  qed
qed

lemma refs_property: "q \<in> set (sch_Properties s) \<Longrightarrow> refs (prop_Schema q) \<subseteq> refs s"
  by (cases s; cases q) force

lemma guard_decides:
  assumes g: "grounded spec p" and pl: "plain spec" and gs: "spec_guards spec (sp_Definitions spec) = Inr gs"
    and s: "spec_Definition spec n = Some d" "tsRefIsValidatable (df_Schema d)"
    and refs: "\<forall>r \<in> refs (df_Schema d). decides fmt spec (run_guard fmt gs k) r"
  shows "run_guard fmt gs (Suc k) n v = (\<exists>x. v = Some x \<and> valid fmt spec (df_Schema d) x)"
proof -
  have d: "d \<in> set (sp_Definitions spec)" "df_Name d = n" using g s(1) unfolding grounded_def by blast+
  have inj: "inj_on df_Name (set (sp_Definitions spec))"
  proof (rule inj_onI)
    fix a b
    assume "a \<in> set (sp_Definitions spec)" "b \<in> set (sp_Definitions spec)" "df_Name a = df_Name b"
    then have "spec_Definition spec (df_Name a) = Some a" "spec_Definition spec (df_Name a) = Some b"
      using g unfolding grounded_def by simp_all
    then show "a = b" by simp
  qed
  obtain gd where gd: "definition_guard spec d = Inr (Some gd)" "map_of gs n = Some gd"
    using spec_guards_lookup [OF gs inj d(1) s(2)] d(2) by auto
  have nn: "\<not> sch_Nullable (df_Schema d)" using pl d(1) by (simp add: plain_def)
  show ?thesis
  proof (cases "sch_Kind (df_Schema d) = KindString")
    case True
    then have "gd = EnumGuard (sch_Enum (df_Schema d))" "sch_Enum (df_Schema d) \<noteq> []"
      using gd(1) s(2) by (auto simp: definition_guard_def tsRefIsValidatable_def split: if_splits)
    moreover have "sch_Const (df_Schema d) = ''''" "\<not> checked_format (sch_Format (df_Schema d))"
      using pl d(1) True by (simp_all add: plain_def)
    ultimately show ?thesis
      using gd(2) nn unfolding valid_kinds(2) [OF True] by (auto simp: list_ex_iff)
  next
    case False
    then have k: "sch_Kind (df_Schema d) = KindObject" using s(2) by (simp add: tsRefIsValidatable_def)
    obtain cs where cs: "object_checks spec (df_Name d) (sch_Properties (df_Schema d)) = Inr cs" "gd = RecordGuard cs"
      using gd(1) k by (auto simp: definition_guard_def)
    have "\<forall>q \<in> set (sch_Properties (df_Schema d)). \<forall>r \<in> refs (prop_Schema q). decides fmt spec (run_guard fmt gs k) r"
      using refs refs_property by blast
    note e = object_checks_eval [OF g cs(1) _ this]
    have "\<forall>q \<in> set (sch_Properties (df_Schema d)). plain_part (prop_Schema q)"
      using pl d(1) by (simp add: plain_def)
    note e = e [OF this]
    show ?thesis
      unfolding valid_kinds(7) [OF k] using gd(2) cs(2) nn e by (auto split: option.splits)
  qed
qed

lemma guards_decide_names:
  assumes g: "grounded spec p" and pl: "plain spec" and gs: "spec_guards spec (sp_Definitions spec) = Inr gs"
  shows "well_founded q \<Longrightarrow> (\<And>n s. map_of q n = Some s \<Longrightarrow> map_of p n = Some s) \<Longrightarrow> n \<in> names q \<Longrightarrow>
    length q \<le> k \<Longrightarrow> decides fmt spec (run_guard fmt gs k) n"
proof (induction q arbitrary: n k)
  case Nil
  then show ?case by simp
next
  case (Cons e q)
  obtain m s where e: "e = (m, s)" by (cases e)
  have sub: "map_of q n = Some t \<Longrightarrow> map_of p n = Some t" for n t
  proof -
    assume t: "map_of q n = Some t"
    have "n \<in> names q" by (rule image_eqI [OF _ map_of_SomeD [OF t]]) simp
    then have "n \<noteq> m" using Cons.prems(1) e by auto
    then show ?thesis using Cons.prems(2) [of n t] t e by simp
  qed
  have wf: "well_founded q" using Cons.prems(1) e by simp
  obtain k' where k: "k = Suc k'" "length q \<le> k'" using Cons.prems(4) by (cases k) auto
  note IH = Cons.IH [OF wf sub]
  show ?case
  proof (cases "n = m")
    case False
    then have "n \<in> names q" using Cons.prems(3) e by simp
    then show ?thesis using IH Cons.prems(4) by simp
  next
    case True
    have "map_of p n = Some s" using Cons.prems(2) [of n s] e True by simp
    then have d: "spec_Definition spec n = Some d \<Longrightarrow> df_Schema d = s" for d
      using g unfolding grounded_def spec_schema_def by (metis option.inject option.map(2))
    have "\<forall>r \<in> refs s. decides fmt spec (run_guard fmt gs k') r"
    proof
      fix r
      assume "r \<in> refs s"
      then have "r \<in> names q" using Cons.prems(1) e by (simp add: subset_iff)
      then show "decides fmt spec (run_guard fmt gs k') r" using IH k(2) by blast
    qed
    note refs = this
    show ?thesis unfolding decides_def k(1)
    proof (intro allI impI; elim conjE)
      fix d v
      assume a: "spec_Definition spec n = Some d" "tsRefIsValidatable (df_Schema d)"
      show "run_guard fmt gs (Suc k') n v = (\<exists>x. v = Some x \<and> valid fmt spec (df_Schema d) x)"
        by (rule guard_decides [OF g pl gs a]) (unfold d [OF a(1)], rule refs)
    qed
  qed
qed

lemma guards_decide:
  assumes "grounded spec p" "plain spec" "spec_guards spec (sp_Definitions spec) = Inr gs" "length p \<le> k"
  shows "decides fmt spec (run_guard fmt gs k) n"
proof (cases "spec_Definition spec n")
  case None
  then show ?thesis by (simp add: decides_def)
next
  case (Some d)
  then have "map_of p n = Some (df_Schema d)"
    using assms(1) unfolding grounded_def spec_schema_def by (metis option.map(2))
  then have "n \<in> names p" by (metis domI dom_map_of_conv_image_fst)
  moreover have "well_founded p" using assms(1) by (simp add: grounded_def)
  ultimately show ?thesis using guards_decide_names [OF assms(1-3)] assms(4) by blast
qed

text \<open>A dispatcher accepts what one of its messages describes.\<close>

lemma dispatcher_decides:
  assumes g: "grounded spec p" "plain spec" "spec_guards spec (sp_Definitions spec) = Inr gs" "length p \<le> k"
    and ms: "distinct (map msg_WireType ms)" "\<forall>m \<in> set ms. message_ok spec m"
  shows "run_dispatcher fmt gs k ms v =
    (\<exists>m \<in> set ms. \<exists>d. member v ''type'' = Some (AStr (msg_WireType m)) \<and>
       spec_Definition spec (msg_DefName m) = Some d \<and> valid fmt spec (df_Schema d) v)" (is "_ = ?R")
proof -
  have one: "run_guard fmt gs k (msg_DefName m) (Some v) =
      (\<exists>d. spec_Definition spec (msg_DefName m) = Some d \<and> valid fmt spec (df_Schema d) v)" if m: "m \<in> set ms" for m
  proof -
    obtain d where d: "spec_Definition spec (msg_DefName m) = Some d" "sch_Kind (df_Schema d) = KindObject"
      using ms(2) m by (auto simp: message_ok_def spec_schema_def)
    then show ?thesis
      using guards_decide [OF g, of fmt "msg_DefName m"] by (simp add: decides_def tsRefIsValidatable_def)
  qed
  have rec: "isRecord v" if "member v ''type'' = Some t" for t
    using that by (auto simp: member_def isRecord_def split: any_value.splits)
  have uniq: "m = m'" if "m \<in> set ms" "m' \<in> set ms" "msg_WireType m = msg_WireType m'" for m m'
    using ms(1) that by (simp add: distinct_map inj_on_def)
  let ?P = "\<lambda>m. member v ''type'' = Some (AStr (msg_WireType m))"
  show ?thesis
  proof (cases "find ?P ms")
    case None
    then have "\<not> run_dispatcher fmt gs k ms v" unfolding run_dispatcher_def None by simp
    then show ?thesis using None by (auto simp: find_None_iff)
  next
    case (Some m)
    then have m: "m \<in> set ms" "?P m" by (auto simp: find_Some_iff)
    then have "?R = (\<exists>d. spec_Definition spec (msg_DefName m) = Some d \<and> valid fmt spec (df_Schema d) v)"
      using uniq by fastforce
    then show ?thesis using Some one [OF m(1)] rec [OF m(2)] by (simp add: run_dispatcher_def)
  qed
qed

end
