(* ===== verification/Gen_Main.thy ===== *)
theory Gen_Main
  imports Gen_TypeScript
begin

text \<open>
  The command line of \<open>tools/protocolgen\<close>: \<open>main.go\<close>, and the README it writes, \<open>docs.go\<close>.

  The disk is the list of its files by absolute path, the latest version first; a path can be faulty
  for reading, for making its directory and for writing, which stands for every other error the
  operating system may return. What runs the flow returns \<open>None\<close> when a part of it does not return.
\<close>

section \<open>protocol/README.md\<close>

definition message_row :: "protocol_message \<Rightarrow> string" where
  "message_row m =
     (let file = msg_SchemaFile m;
          link = (if HasPrefix file ''protocol/'' then drop 9 file else file)
      in ''| `'' @ msg_WireType m @ ''` | '' @ (if IsCommand m then ''client -> server'' else ''server -> client'') @
         '' | [`'' @ msg_DefName m @ ''`]('' @ link @ msg_SchemaPointer m @ '') | '' @ msg_Summary m @ '' |'' @ [nl])"

definition emitDocs :: "protocol_spec \<Rightarrow> string" where
  "emitDocs spec =
     generatedHeader @ [nl, nl] @
     lines [''# Planning Poker WebSocket protocol'', '''',
       ''This directory is the single source of truth for the realtime room WebSocket contract.'',
       ''The AsyncAPI document describes the channel, operations, and messages; the JSON Schema'',
       ''files describe every payload. Go and TypeScript types and validators are generated from'',
       ''these files and must not be edited by hand.'', '''',
       ''- AsyncAPI document: [asyncapi.yaml](asyncapi.yaml)'',
       ''- Payload schemas: [schemas/](schemas/)'', '''',
       ''## Messages'', '''',
       ''| Wire type | Direction | Schema | Summary |'',
       ''| --- | --- | --- | --- |''] @
     concat (map message_row (sp_Messages spec)) @
     lines ['''', ''## Guarded commands'', '''',
       ''Commands whose payload carries `expectedRoomVersion` are guarded: the client refuses to'',
       ''send them until the room version is known, and the server rejects stale versions.'', ''''] @
     concat (map (\<lambda>m. ''- `'' @ msg_WireType m @ ''`'' @ [nl]) (GuardedMessages spec)) @
     lines ['''', ''## Changing the protocol'', '''',
       ''1. Edit `protocol/asyncapi.yaml` and/or the JSON Schema files under `protocol/schemas/`.'',
       ''2. Run `make protocol` to regenerate the committed artifacts.'',
       ''3. Run `make protocol-check` to confirm the generated files match the spec.'',
       ''4. Commit the spec change together with every regenerated file.'', '''',
       ''Generated artifacts:'', '''',
       ''- `internal/protocol/types.generated.go`'',
       ''- `internal/protocol/messages.generated.go`'',
       ''- `frontend/planning-poker-front/src/components/messages/protocol.generated.ts`'',
       ''- `protocol/README.md`'', '''',
       ''Never hand-edit a generated file: the next `make protocol` run overwrites it.'']"

section \<open>The disk\<close>

record disk =
  dk_files :: "(path \<times> string) list"
  dk_read_fault :: "path \<Rightarrow> go_error option"
  dk_mkdir_fault :: "path \<Rightarrow> go_error option"
  dk_write_fault :: "path \<Rightarrow> go_error option"

datatype read_result = Missing | Failed go_error | Content string

definition read_file :: "disk \<Rightarrow> path \<Rightarrow> read_result" where
  "read_file dk file =
     (case dk_read_fault dk file of
        Some e \<Rightarrow> Failed e
      | None \<Rightarrow> (case map_of (dk_files dk) file of None \<Rightarrow> Missing | Some c \<Rightarrow> Content c))"

definition ErrNotExist :: go_error where "ErrNotExist = New ''file does not exist''"

definition ReadFile :: "disk \<Rightarrow> path \<Rightarrow> go_error + string" where
  "ReadFile dk file =
     (case read_file dk file of Missing \<Rightarrow> Inl ErrNotExist | Failed e \<Rightarrow> Inl e | Content c \<Rightarrow> Inr c)"

definition entry_of :: "path \<Rightarrow> path \<Rightarrow> (string \<times> bool) list" where
  "entry_of directory file =
     (if take (length directory) file = directory \<and> length directory < length file
      then [(file ! length directory, Suc (length directory) < length file)] else [])"

definition ReadDir :: "disk \<Rightarrow> path \<Rightarrow> go_error + (string \<times> bool) list" where
  "ReadDir dk directory =
     (case dk_read_fault dk directory of
        Some e \<Rightarrow> Inl e
      | None \<Rightarrow>
          let es = remdups (concat (map (\<lambda>(f, _). entry_of directory f) (dk_files dk)))
          in if es = [] then Inl ErrNotExist else Inr es)"

definition write_file :: "path \<Rightarrow> string \<Rightarrow> disk \<Rightarrow> disk" where
  "write_file file content dk = dk\<lparr>dk_files := (file, content) # dk_files dk\<rparr>"

section \<open>Artifacts\<close>

record artifact =
  art_Path :: path
  art_Content :: string

definition typesGoPath :: path where "typesGoPath = [''internal'', ''protocol'', ''types.generated.go'']"
definition messagesGoPath :: path where "messagesGoPath = [''internal'', ''protocol'', ''messages.generated.go'']"

definition typescriptOutputPath :: path where
  "typescriptOutputPath =
     [''frontend'', ''planning-poker-front'', ''src'', ''components'', ''messages'', ''protocol.generated.ts'']"

definition protocolReadmePath :: path where "protocolReadmePath = [''protocol'', ''README.md'']"

definition path_text :: "path \<Rightarrow> string" where "path_text p = join_with ''/'' p"

definition generate_error :: "path \<Rightarrow> go_error \<Rightarrow> go_error" where
  "generate_error p e = Errorf ''generate %s: %w'' [OStr (path_text p)] [e]"

definition generateArtifacts :: "gen_env \<Rightarrow> path \<Rightarrow> (go_error + artifact list) option" where
  "generateArtifacts env dir =
     (case loadSpec env dir of
        Inl e \<Rightarrow> Some (Inl e)
      | Inr spec \<Rightarrow>
          (case emitGoTypes env spec of
             None \<Rightarrow> None
           | Some (Inl e) \<Rightarrow> Some (Inl (generate_error typesGoPath e))
           | Some (Inr types) \<Rightarrow>
               (case emitGoMessages env spec of
                  Inl e \<Rightarrow> Some (Inl (generate_error messagesGoPath e))
                | Inr messages \<Rightarrow>
                    (case emitTypeScript env spec of
                       Inl e \<Rightarrow> Some (Inl (generate_error typescriptOutputPath e))
                     | Inr typescript \<Rightarrow>
                         Some (Inr [\<lparr>art_Path = typesGoPath, art_Content = types\<rparr>,
                                    \<lparr>art_Path = messagesGoPath, art_Content = messages\<rparr>,
                                    \<lparr>art_Path = typescriptOutputPath, art_Content = typescript\<rparr>,
                                    \<lparr>art_Path = protocolReadmePath, art_Content = emitDocs spec\<rparr>])))))"

text \<open>The disk after writing, with the error that stopped it.\<close>

fun writeArtifacts :: "path \<Rightarrow> artifact list \<Rightarrow> disk \<Rightarrow> go_error option \<times> disk" where
  "writeArtifacts dir [] dk = (None, dk)"
| "writeArtifacts dir (item # items) dk =
     (let target = dir @ art_Path item in
      case dk_mkdir_fault dk (butlast target) of
        Some e \<Rightarrow> (Some (Errorf ''create directory for %s: %w'' [OStr (path_text (art_Path item))] [e]), dk)
      | None \<Rightarrow>
          (case dk_write_fault dk target of
             Some e \<Rightarrow> (Some (Errorf ''write %s: %w'' [OStr (path_text (art_Path item))] [e]), dk)
           | None \<Rightarrow> writeArtifacts dir items (write_file target (art_Content item) dk)))"

fun stale_loop :: "path \<Rightarrow> disk \<Rightarrow> artifact list \<Rightarrow> path list \<Rightarrow> go_error + path list" where
  "stale_loop dir dk [] stale = Inr stale"
| "stale_loop dir dk (item # items) stale =
     (case read_file dk (dir @ art_Path item) of
        Missing \<Rightarrow> stale_loop dir dk items (stale @ [art_Path item])
      | Failed e \<Rightarrow> Inl (Errorf ''read %s: %w'' [OStr (path_text (art_Path item))] [e])
      | Content current \<Rightarrow>
          stale_loop dir dk items (if current \<noteq> art_Content item then stale @ [art_Path item] else stale))"

definition staleArtifacts :: "path \<Rightarrow> artifact list \<Rightarrow> disk \<Rightarrow> go_error + path list" where
  "staleArtifacts dir artifacts dk = stale_loop dir dk artifacts []"

section \<open>The command\<close>

text \<open>\<open>flag.Parse\<close> of a set with the one boolean flag \<open>check\<close>; \<open>None\<close> is an error, or a request for help.\<close>

definition ParseBool :: "string \<Rightarrow> bool option" where
  "ParseBool s =
     (if s \<in> set [''1'', ''t'', ''T'', ''true'', ''TRUE'', ''True''] then Some True
      else if s \<in> set [''0'', ''f'', ''F'', ''false'', ''FALSE'', ''False''] then Some False
      else None)"

definition flag_body :: "string \<Rightarrow> string option" where
  "flag_body arg =
     (case arg of
        c # d # cs \<Rightarrow>
          if c \<noteq> CHR ''-'' then None else if d = CHR ''-'' then (if cs = [] then None else Some cs) else Some (d # cs)
      | _ \<Rightarrow> None)"

fun parse_flags :: "string list \<Rightarrow> bool \<Rightarrow> bool option" where
  "parse_flags [] check = Some check"
| "parse_flags (arg # args) check =
     (case flag_body arg of
        None \<Rightarrow> Some check
      | Some body \<Rightarrow>
          if hd body = CHR ''-'' \<or> hd body = CHR ''='' then None
          else (case cut_at (CHR ''='') body of
                  None \<Rightarrow> if body = ''check'' then parse_flags args True else None
                | Some (name, val) \<Rightarrow>
                    if name \<noteq> ''check'' then None
                    else (case ParseBool val of None \<Rightarrow> None | Some b \<Rightarrow> parse_flags args b)))"

function findRepoRoot :: "disk \<Rightarrow> path \<Rightarrow> go_error + path" where
  "findRepoRoot dk current =
     (case read_file dk (current @ [''go.mod'']) of
        Content _ \<Rightarrow> Inr current
      | Failed e \<Rightarrow> Inl (Errorf ''stat go.mod in %s: %w'' [OStr (path_text current)] [e])
      | Missing \<Rightarrow>
          if current = [] then Inl (New ''go.mod not found above the start'')
          else findRepoRoot dk (butlast current))"
  by pat_completeness auto

termination
  by (relation "measure (\<lambda>(dk, current). length current)") auto

declare findRepoRoot.simps [simp del]

record outcome =
  oc_exit :: nat
  oc_stale :: "path list"
  oc_wrote :: "path list"
  oc_error :: "go_error option"

abbreviation fails_with :: "go_error \<Rightarrow> outcome" where
  "fails_with e \<equiv> \<lparr>oc_exit = 1, oc_stale = [], oc_wrote = [], oc_error = Some e\<rparr>"

text \<open>\<open>runIn\<close>: the outcome is the exit code, the paths of its \<open>stale generated file\<close> and \<open>wrote\<close> lines,
  and the error it reports.\<close>

definition runIn :: "gen_env \<Rightarrow> path \<Rightarrow> string list \<Rightarrow> disk \<Rightarrow> (outcome \<times> disk) option" where
  "runIn env0 startDirectory args dk =
     (let env = env0\<lparr>ge_ReadDir := ReadDir dk, ge_ReadFile := ReadFile dk\<rparr> in
      case parse_flags args False of
        None \<Rightarrow> Some (\<lparr>oc_exit = 2, oc_stale = [], oc_wrote = [], oc_error = None\<rparr>, dk)
      | Some check \<Rightarrow>
          (case findRepoRoot dk startDirectory of
             Inl e \<Rightarrow> Some (fails_with e, dk)
           | Inr dir \<Rightarrow>
               (case generateArtifacts env dir of
                  None \<Rightarrow> None
                | Some (Inl e) \<Rightarrow> Some (fails_with e, dk)
                | Some (Inr artifacts) \<Rightarrow>
                    if check
                    then (case staleArtifacts dir artifacts dk of
                            Inl e \<Rightarrow> Some (fails_with e, dk)
                          | Inr stale \<Rightarrow>
                              Some (\<lparr>oc_exit = (if stale \<noteq> [] then 1 else 0), oc_stale = stale, oc_wrote = [],
                                     oc_error = None\<rparr>, dk))
                    else (case writeArtifacts dir artifacts dk of
                            (Some e, dk') \<Rightarrow> Some (fails_with e, dk')
                          | (None, dk') \<Rightarrow>
                              Some (\<lparr>oc_exit = 0, oc_stale = [], oc_wrote = map art_Path artifacts,
                                     oc_error = None\<rparr>, dk')))))"

end
