(* ===== verification/Gen_Properties.thy ===== *)
theory Gen_Properties
  imports Gen_Guards Gen_Main
begin

text \<open>
  The properties of the protocol generator: what a contract that loads is, that the generator ends on
  every input, what the names, imports and guards it emits are, and that a run that wrote its files
  leaves nothing for \<open>-check\<close> to report. The witnesses run it on a small protocol of one command and
  one event.
\<close>

section \<open>Names\<close>

definition alphanumeric :: "char \<Rightarrow> bool" where
  "alphanumeric c \<longleftrightarrow> IsLetter c \<or> IsDigit c"

lemma code_char_of: "n < 256 \<Longrightarrow> code (char_of n) = n"
  by (simp add: code_def)

lemma ToUpper_alphanumeric: "alphanumeric c \<Longrightarrow> alphanumeric (ToUpper c) \<and> \<not> IsLower (ToUpper c)"
  by (auto simp: ToUpper_def alphanumeric_def IsLetter_def IsLower_def IsUpper_def IsDigit_def code_char_of)

definition good_words :: "string list \<Rightarrow> bool" where
  "good_words ws \<longleftrightarrow> (\<forall>w \<in> set ws. w \<noteq> [] \<and> list_all alphanumeric w)"

lemma flush_good: "good_words ws \<Longrightarrow> list_all alphanumeric cur \<Longrightarrow> good_words (flush ws cur)"
  by (auto simp: good_words_def flush_def)

lemma split_loop_good:
  "good_words words \<Longrightarrow> list_all alphanumeric current \<Longrightarrow> good_words (split_loop words current cs)"
proof (induction words current cs rule: split_loop.induct)
  case (1 words current)
  then show ?case by (simp add: flush_good)
next
  case (2 words current c rest)
  note f = flush_good [OF 2(4,5)]
  show ?case
  proof (cases "\<not> IsLetter c \<and> \<not> IsDigit c")
    case True
    show ?thesis using 2(1) [OF True f] by (subst split_loop.simps, subst if_P [OF True]) simp
  next
    case n: False
    then have c: "alphanumeric c" by (simp add: alphanumeric_def)
    show ?thesis
    proof (cases "starts_word current c rest")
      case True
      then show ?thesis using 2(2) [OF n True f] c
        by (subst split_loop.simps, subst if_not_P [OF n], subst if_P [OF True]) simp
    next
      case False
      then show ?thesis using 2(3) [OF n False 2(4)] 2(5) c
        by (subst split_loop.simps, subst if_not_P [OF n], subst if_not_P [OF False]) simp
    qed
  qed
qed

lemma special_words:
  "alphanumeric (CHR ''I'')" "alphanumeric (CHR ''D'')" "alphanumeric (CHR ''U'')"
  "\<not> IsLower (CHR ''I'')" "\<not> IsLower (CHR ''U'')"
  by code_simp+

lemma goWord_good:
  "w \<noteq> [] \<Longrightarrow> list_all alphanumeric w \<Longrightarrow>
   \<exists>g. goWord w = Some g \<and> g \<noteq> [] \<and> list_all alphanumeric g \<and> \<not> IsLower (hd g)"
  by (cases w) (simp_all add: goWord_def ToUpper_alphanumeric special_words)

lemma goWords_good:
  "good_words ws \<Longrightarrow> \<exists>g. goWords ws = Some g \<and> list_all alphanumeric g \<and> (g \<noteq> [] \<longrightarrow> \<not> IsLower (hd g))"
proof (induction ws)
  case Nil
  then show ?case by simp
next
  case (Cons w ws)
  have "good_words ws" using Cons.prems by (simp add: good_words_def)
  then obtain gs where gs: "goWords ws = Some gs" "list_all alphanumeric gs" using Cons.IH by blast
  obtain g where "goWord w = Some g" "g \<noteq> []" "list_all alphanumeric g" "\<not> IsLower (hd g)"
    using goWord_good [of w] Cons.prems by (auto simp: good_words_def)
  then show ?case using gs by simp
qed

text \<open>Whatever the wire name or JSON property, \<open>goName\<close> returns (it never indexes an empty word), the
  name it makes holds letters and digits only, and it does not begin with a lower case letter, so that
  it is exported.\<close>

theorem go_names_are_exported:
  "\<exists>g. goName s = Some g \<and> list_all alphanumeric g \<and> (g \<noteq> '''' \<longrightarrow> \<not> IsLower (hd g))"
proof -
  have "good_words (splitIdentifier s)"
    unfolding splitIdentifier_def by (rule split_loop_good) (simp_all add: good_words_def)
  then show ?thesis unfolding goName_def by (rule goWords_good)
qed

section \<open>The generator ends\<close>

lemma emitGoTypes_returns: "grounded spec p \<Longrightarrow> \<exists>r. emitGoTypes env spec = Some r"
  by (auto simp: emitGoTypes_def specUsesTime_def schemaUsesTime_result split: sum.splits)

lemma generateArtifacts_returns: "\<exists>r. generateArtifacts env dir = Some r"
proof (cases "loadSpec env dir")
  case (Inl e)
  then show ?thesis by (simp add: generateArtifacts_def)
next
  case (Inr spec)
  obtain p where "grounded spec p" using loadSpec_grounded [OF Inr] by blast
  then obtain r where "emitGoTypes env spec = Some r" using emitGoTypes_returns by blast
  then show ?thesis using Inr by (auto simp: generateArtifacts_def split: sum.splits)
qed

text \<open>C39: Started anywhere, with any arguments, on any disk, the generator ends with an exit code, although
  \<open>schemaUsesTime\<close> follows references without a memory of the names it met: a contract with circular
  references does not load.\<close>

theorem generator_ends:
  "\<exists>outcome dk'. runIn env start args dk = Some (outcome, dk')"
proof -
  show ?thesis
  proof (cases "parse_flags args False")
    case None
    then show ?thesis by (simp add: runIn_def)
  next
    case (Some check)
    show ?thesis
    proof (cases "findRepoRoot dk start")
      case (Inl e)
      then show ?thesis using Some by (simp add: runIn_def)
    next
      case (Inr dir)
      obtain r where "generateArtifacts (env\<lparr>ge_ReadDir := ReadDir dk, ge_ReadFile := ReadFile dk\<rparr>) dir = Some r"
        using generateArtifacts_returns by blast
      then show ?thesis using Some Inr
        by (auto simp: runIn_def Let_def split: sum.splits option.splits prod.splits)
    qed
  qed
qed

section \<open>Writing and checking\<close>

definition target :: "path \<Rightarrow> artifact \<Rightarrow> path" where
  "target dir item = dir @ art_Path item"

lemma read_write:
  "read_file (write_file f c dk) g =
     (if g = f \<and> dk_read_fault dk g = None then Content c else read_file dk g)"
  by (auto simp: read_file_def write_file_def split: option.splits)

lemma writeArtifacts_faults: "writeArtifacts dir items dk = (e, dk') \<Longrightarrow> dk_read_fault dk' = dk_read_fault dk"
  by (induction items arbitrary: dk)
    (auto simp: Let_def write_file_def split: option.splits)

lemma writeArtifacts_other:
  "writeArtifacts dir items dk = (e, dk') \<Longrightarrow> file \<notin> target dir ` set items \<Longrightarrow> read_file dk' file = read_file dk file"
  by (induction items arbitrary: dk)
    (auto simp: Let_def target_def read_write split: option.splits)

lemma writeArtifacts_content:
  "writeArtifacts dir items dk = (None, dk') \<Longrightarrow> distinct (map art_Path items) \<Longrightarrow>
   (\<forall>item \<in> set items. dk_read_fault dk (target dir item) = None) \<Longrightarrow>
   \<forall>item \<in> set items. read_file dk' (target dir item) = Content (art_Content item)"
proof (induction items arbitrary: dk)
  case Nil
  then show ?case by simp
next
  case (Cons item items)
  let ?dk = "write_file (target dir item) (art_Content item) dk"
  have w: "writeArtifacts dir items ?dk = (None, dk')"
    using Cons.prems(1) by (auto simp: Let_def target_def split: option.splits)
  have "target dir item \<notin> target dir ` set items" using Cons.prems(2) by (auto simp: target_def)
  then have "read_file dk' (target dir item) = Content (art_Content item)"
    using writeArtifacts_other [OF w] Cons.prems(3) by (simp add: read_write)
  moreover have "\<forall>i \<in> set items. dk_read_fault ?dk (target dir i) = None"
    using Cons.prems(3) by (simp add: write_file_def)
  ultimately show ?case using Cons.IH [OF w] Cons.prems(2) by simp
qed

lemma stale_loop_none:
  "stale_loop dir dk items stale = Inr [] \<longleftrightarrow>
     stale = [] \<and> (\<forall>item \<in> set items. read_file dk (target dir item) = Content (art_Content item))"
  by (induction items arbitrary: stale) (auto simp: target_def split: read_result.splits)

lemma generated_paths:
  "generateArtifacts env dir = Some (Inr items) \<Longrightarrow>
   map art_Path items = [typesGoPath, messagesGoPath, typescriptOutputPath, protocolReadmePath]"
  by (auto simp: generateArtifacts_def split: sum.splits option.splits)

lemma generated_distinct: "generateArtifacts env dir = Some (Inr items) \<Longrightarrow> distinct (map art_Path items)"
  by (simp add: generated_paths typesGoPath_def messagesGoPath_def typescriptOutputPath_def protocolReadmePath_def)

text \<open>C40: When the generated files have been written without an error, the check finds none of them stale,
  every other file is as it was, and conversely the check is silent only when each generated file
  holds exactly the generated content.\<close>

theorem written_files_are_up_to_date:
  assumes "generateArtifacts env dir = Some (Inr artifacts)"
    and "writeArtifacts dir artifacts dk = (None, dk')"
    and "\<forall>item \<in> set artifacts. dk_read_fault dk (target dir item) = None"
  shows "staleArtifacts dir artifacts dk' = Inr [] \<and>
    (\<forall>file. file \<notin> target dir ` set artifacts \<longrightarrow> read_file dk' file = read_file dk file) \<and>
    (\<forall>dk''. staleArtifacts dir artifacts dk'' = Inr [] \<longleftrightarrow>
      (\<forall>item \<in> set artifacts. read_file dk'' (target dir item) = Content (art_Content item)))"
  using writeArtifacts_content [OF assms(2) generated_distinct [OF assms(1)] assms(3)]
    writeArtifacts_other [OF assms(2)]
  by (auto simp: staleArtifacts_def stale_loop_none)

section \<open>Imports\<close>

text \<open>The runtime helpers a check calls, and those the structure of a schema asks for.\<close>

fun helpers_in :: "ts_check \<Rightarrow> string set" where
  "helpers_in (NullOr a c) = helpers_in c"
| "helpers_in (AtLeast c a b) = helpers_in c"
| "helpers_in (EveryItem a c) = helpers_in c"
| "helpers_in (UnlessMissing n c) = helpers_in c"
| "helpers_in (CallTimestamp a) = {''isRFC3339Timestamp''}"
| "helpers_in (CallUUID a) = {''isUUID''}"
| "helpers_in (CallInteger a) = {''isInteger''}"
| "helpers_in _ = {}"

fun guard_helpers :: "ts_guard \<Rightarrow> string set" where
  "guard_helpers (EnumGuard vs) = {}"
| "guard_helpers (RecordGuard cs) = insert ''isRecord'' (\<Union>c \<in> set cs. helpers_in c)"

fun asks_for :: "schema \<Rightarrow> string set" and prop_asks :: "property \<Rightarrow> string set" where
  "asks_for (Schema m ps it r) =
     (case mt_Kind m of
        KindObject \<Rightarrow> (\<Union>q \<in> set ps. prop_asks q)
      | KindString \<Rightarrow>
          (if mt_Format m = ''date-time'' then {''isRFC3339Timestamp''}
           else if mt_Format m = ''uuid'' then {''isUUID''} else {})
      | KindInteger \<Rightarrow> {''isInteger''}
      | KindArray \<Rightarrow> (case it of None \<Rightarrow> {} | Some s \<Rightarrow> asks_for s)
      | _ \<Rightarrow> {})"
| "prop_asks (Property n s q) = asks_for s"

lemma prop_asks_Schema: "prop_asks q = asks_for (prop_Schema q)"
  by (cases q) simp

lemma asks_for_kinds:
  "sch_Kind s = KindObject \<Longrightarrow> asks_for s = (\<Union>t \<in> set (map prop_Schema (sch_Properties s)). asks_for t)"
  "sch_Kind s = KindArray \<Longrightarrow> asks_for s = (case sch_Items s of None \<Rightarrow> {} | Some t \<Rightarrow> asks_for t)"
  "sch_Kind s = KindString \<Longrightarrow> asks_for s =
     (if sch_Format s = ''date-time'' then {''isRFC3339Timestamp''} else if sch_Format s = ''uuid'' then {''isUUID''} else {})"
  "sch_Kind s = KindInteger \<Longrightarrow> asks_for s = {''isInteger''}"
  "sch_Kind s = KindNumber \<or> sch_Kind s = KindBoolean \<or> sch_Kind s = KindRef \<Longrightarrow> asks_for s = {}"
  by (cases s; auto simp: prop_asks_Schema)+

lemma tsCheck_helpers: "tsCheck spec s a = Inr c \<Longrightarrow> helpers_in c \<subseteq> asks_for s"
proof (induction spec s a arbitrary: c rule: tsCheck.induct)
  case (1 spec m ps items refName a)
  obtain r c' where r: "r = Inr c'" "null_or m a r = Inr c" "helpers_in c = helpers_in c'"
      "r = (case mt_Kind m of
          KindRef \<Rightarrow> tsRefCheck spec refName a
        | KindString \<Rightarrow> Inr (tsStringCheck m a)
        | KindInteger \<Rightarrow> Inr (tsNumericCheck m (CallInteger a) a)
        | KindNumber \<Rightarrow> Inr (tsNumericCheck m (TypeOfNumber a) a)
        | KindBoolean \<Rightarrow> Inr (TypeOfBoolean a)
        | KindArray \<Rightarrow>
            (case items of
               None \<Rightarrow> Inl (New ''array without items'')
             | Some it \<Rightarrow> (case tsCheck spec it ItemVar of Inl e \<Rightarrow> Inl e | Inr c \<Rightarrow> Inr (EveryItem a c)))
        | KindObject \<Rightarrow> Inl (Errorf ''unsupported type %q'' [OStr (kind_text KindObject)] []))"
    using 1(2) by (auto simp: null_or_def split: if_splits)
  show ?case
  proof (cases "mt_Kind m = KindArray")
    case True
    then obtain it ci where i: "items = Some it" "tsCheck spec it ItemVar = Inr ci" "c' = EveryItem a ci"
      using r(1,4) by (auto split: option.splits sum.splits)
    show ?thesis using 1(1) [OF True i(1,2)] r(3) i True by simp
  next
    case False
    then show ?thesis using r
      by (cases "mt_Kind m")
        (auto simp: tsRefCheck_def tsStringCheck_def tsNumericCheck_def split: option.splits if_splits)
  qed
qed

lemma object_checks_helpers:
  "object_checks spec dname qs = Inr cs \<Longrightarrow>
   (\<Union>c \<in> set cs. helpers_in c) \<subseteq> (\<Union>t \<in> set (map prop_Schema qs). asks_for t)"
proof (induction qs arbitrary: cs)
  case Nil
  then show ?case by simp
next
  case (Cons q qs)
  obtain c cs' where c: "tsCheck spec (prop_Schema q) (PropertyOf (prop_Name q)) = Inr c"
      "object_checks spec dname qs = Inr cs'"
      "cs = (if prop_Required q then c else UnlessMissing (prop_Name q) c) # cs'"
    using Cons.prems by (auto split: sum.splits)
  have e: "(\<Union>c \<in> set cs. helpers_in c) = helpers_in c \<union> (\<Union>c \<in> set cs'. helpers_in c)"
    using c(3) by simp
  show ?case
    unfolding e list.map list.set UN_insert by (rule Un_mono [OF tsCheck_helpers [OF c(1)] Cons.IH [OF c(2)]])
qed

lemma definition_guard_helpers:
  "definition_guard spec d = Inr (Some g) \<Longrightarrow> guard_helpers g \<subseteq> insert ''isRecord'' (asks_for (df_Schema d))"
proof -
  assume g: "definition_guard spec d = Inr (Some g)"
  show ?thesis
  proof (cases g)
    case (RecordGuard cs)
    then have k: "sch_Kind (df_Schema d) = KindObject"
      and c: "object_checks spec (df_Name d) (sch_Properties (df_Schema d)) = Inr cs"
      using g by (auto simp: definition_guard_def split: if_splits)
    show ?thesis
      unfolding RecordGuard guard_helpers.simps asks_for_kinds(1) [OF k]
      by (rule insert_mono [OF object_checks_helpers [OF c]])
  qed simp
qed

lemma spec_guards_helpers:
  "spec_guards spec ds = Inr gs \<Longrightarrow> (n, g) \<in> set gs \<Longrightarrow>
   guard_helpers g \<subseteq> insert ''isRecord'' (\<Union>d \<in> set ds. asks_for (df_Schema d))"
proof (induction ds arbitrary: gs)
  case Nil
  then show ?case by simp
next
  case (Cons d ds)
  obtain x gs' where x: "definition_guard spec d = Inr x" "spec_guards spec ds = Inr gs'"
      "gs = (case x of None \<Rightarrow> [] | Some y \<Rightarrow> [(df_Name d, y)]) @ gs'"
    using Cons.prems(1) by (auto split: sum.splits)
  then consider "x = Some g" | "(n, g) \<in> set gs'" using Cons.prems(2) by (auto split: option.splits)
  then show ?case
  proof cases
    case 1
    then show ?thesis using definition_guard_helpers [of spec d g] x(1) by auto
  next
    case 2
    then show ?thesis using Cons.IH [OF x(2)] by auto
  qed
qed

lemma helpers_mono:
  "set (ts_helpers u) \<subseteq> set (ts_helpers (u\<lparr>us_integer := True\<rparr>))"
  "set (ts_helpers u) \<subseteq> set (ts_helpers (u\<lparr>us_timestamp := True\<rparr>))"
  "set (ts_helpers u) \<subseteq> set (ts_helpers (u\<lparr>us_uuid := True\<rparr>))"
  "''isInteger'' \<in> set (ts_helpers (u\<lparr>us_integer := True\<rparr>))"
  "''isRFC3339Timestamp'' \<in> set (ts_helpers (u\<lparr>us_timestamp := True\<rparr>))"
  "''isUUID'' \<in> set (ts_helpers (u\<lparr>us_uuid := True\<rparr>))"
  by (auto simp: ts_helpers_def)

lemma scan_helpers:
  "set (ts_helpers usage) \<union> (\<Union>s \<in> set ss. asks_for s) \<subseteq> set (ts_helpers (scanTypeScriptUsage spec ss usage visited))"
proof (induction spec ss usage visited rule: scanTypeScriptUsage.induct)
  case (1 spec usage visited)
  then show ?case by (simp add: scanTypeScriptUsage.simps)
next
  case (2 spec s rest usage visited)
  show ?case
  proof (cases "sch_Kind s")
    case KindRef
    then show ?thesis
      using 2(1-3) [OF KindRef] unfolding scanTypeScriptUsage.simps(2) [of spec s]
      by (simp add: asks_for_kinds split: option.split)
  next
    case KindObject
    then show ?thesis
      using 2(4) [OF KindObject] unfolding scanTypeScriptUsage.simps(2) [of spec s]
      by (simp add: asks_for_kinds image_Un)
  next
    case KindString
    then show ?thesis
      using 2(5) [OF KindString] helpers_mono [of usage] unfolding scanTypeScriptUsage.simps(2) [of spec s]
      by (auto simp: asks_for_kinds split: if_splits)
  next
    case KindInteger
    then show ?thesis
      using 2(6) [OF KindInteger] helpers_mono(1,4) [of usage] unfolding scanTypeScriptUsage.simps(2) [of spec s]
      by (auto simp: asks_for_kinds)
  next
    case KindNumber
    then show ?thesis
      using 2(7) [OF KindNumber] unfolding scanTypeScriptUsage.simps(2) [of spec s] by (simp add: asks_for_kinds)
  next
    case KindBoolean
    then show ?thesis
      using 2(8) [OF KindBoolean] unfolding scanTypeScriptUsage.simps(2) [of spec s] by (simp add: asks_for_kinds)
  next
    case KindArray
    then show ?thesis
      using 2(9,10) [OF KindArray] unfolding scanTypeScriptUsage.simps(2) [of spec s]
      by (simp add: asks_for_kinds split: option.split)
  qed
qed

text \<open>Every helper a generated guard calls (\<open>isRecord\<close>, \<open>isInteger\<close>, \<open>isRFC3339Timestamp\<close>, \<open>isUUID\<close>) is in
  the import line of the generated file, although the scan that collects them skips a reference it has
  already followed.\<close>

theorem called_helpers_are_imported:
  assumes "spec_guards spec (sp_Definitions spec) = Inr gs" and "(name, g) \<in> set gs"
  shows "guard_helpers g \<subseteq> set (ts_helpers (collectTypeScriptUsage spec))"
proof -
  let ?u = "\<lparr>us_integer = False, us_timestamp = False, us_uuid = False\<rparr>"
  have "set (ts_helpers ?u) \<union> (\<Union>s \<in> set (map df_Schema (sp_Definitions spec)). asks_for s)
      \<subseteq> set (ts_helpers (collectTypeScriptUsage spec))"
    unfolding collectTypeScriptUsage_def by (rule scan_helpers)
  moreover have "''isRecord'' \<in> set (ts_helpers ?u)" by (simp add: ts_helpers_def)
  ultimately show ?thesis using spec_guards_helpers [OF assms] by auto
qed

section \<open>A small protocol\<close>

abbreviation ref_to :: "string \<Rightarrow> any_value" where
  "ref_to r \<equiv> AMap [(''$ref'', AStr r)]"

definition demo_schemas :: any_map where
  "demo_schemas =
     [(''$defs'', AMap
       [(''Level'', AMap [(''type'', AStr ''string''), (''enum'', AArr [AStr ''high'', AStr ''low''])]),
        (''PingCommand'', AMap [(''type'', AStr ''object''),
           (''properties'', AMap
             [(''type'', AMap [(''type'', AStr ''string''), (''const'', AStr ''ping'')]),
              (''payload'', ref_to ''#/$defs/PingPayload'')]),
           (''required'', AArr [AStr ''type'', AStr ''payload''])]),
        (''PingPayload'', AMap [(''type'', AStr ''object''),
           (''properties'', AMap
             [(''expectedRoomVersion'', AMap [(''type'', AStr ''integer''), (''minimum'', ANum 0),
                                            (''x-go-type'', AStr ''uint64'')])])]),
        (''Pong'', AMap [(''type'', AStr ''object''),
           (''properties'', AMap
             [(''type'', AMap [(''type'', AStr ''string''), (''const'', AStr ''pong'')]),
              (''at'', AMap [(''type'', AStr ''string''), (''format'', AStr ''date-time'')]),
              (''level'', ref_to ''#/$defs/Level'')]),
           (''required'', AArr [AStr ''type'', AStr ''level''])])])]"

definition demo_message :: "string \<Rightarrow> string \<Rightarrow> any_value" where
  "demo_message wire def =
     AMap [(''name'', AStr wire), (''title'', AStr def), (''summary'', AStr ''A message.''),
           (''payload'', ref_to (''schemas/demo.schema.json#/$defs/'' @ def))]"

definition demo_components :: any_map where
  "demo_components = [(''ping'', demo_message ''ping'' ''PingCommand''), (''pong'', demo_message ''pong'' ''Pong'')]"

definition demo_channel :: any_map where
  "demo_channel = [(''ping'', ref_to ''#/components/messages/ping''), (''pong'', ref_to ''#/components/messages/pong'')]"

definition demo_operation :: "string \<Rightarrow> string \<Rightarrow> any_value" where
  "demo_operation action wire =
     AMap [(''action'', AStr action),
           (''messages'', AArr [ref_to (''#/channels/roomSocket/messages/'' @ wire)])]"

definition demo_asyncapi :: any_map where
  "demo_asyncapi =
     [(''asyncapi'', AStr ''3.0.0''),
      (''components'', AMap [(''messages'', AMap demo_components)]),
      (''channels'', AMap [(''roomSocket'', AMap [(''messages'', AMap demo_channel)])]),
      (''operations'', AMap [(''command'', demo_operation ''send'' ''ping''),
                             (''event'', demo_operation ''receive'' ''pong'')])]"

definition demo_disk :: disk where
  "demo_disk =
     \<lparr>dk_files = [([''repo'', ''go.mod''], ''module''),
                  ([''repo'', ''protocol'', ''asyncapi.yaml''], ''asyncapi''),
                  ([''repo'', ''protocol'', ''schemas'', ''demo.schema.json''], ''schemas'')],
      dk_read_fault = (\<lambda>_. None), dk_mkdir_fault = (\<lambda>_. None), dk_write_fault = (\<lambda>_. None)\<rparr>"

definition demo_gen_env :: gen_env where
  "demo_gen_env =
     \<lparr>ge_ReadDir = ReadDir demo_disk, ge_ReadFile = ReadFile demo_disk,
      ge_json = (\<lambda>t. if t = ''schemas'' then Inr demo_schemas else Inl (New ''invalid character'')),
      ge_yaml = (\<lambda>t. if t = ''asyncapi'' then Inr demo_asyncapi else Inl (New ''yaml'')),
      ge_gofmt = Inr, ge_FormatFloat = (\<lambda>_. ''0'')\<rparr>"

definition right_value :: "'b \<Rightarrow> 'a + 'b \<Rightarrow> 'b" where
  "right_value x r = (case r of Inl _ \<Rightarrow> x | Inr y \<Rightarrow> y)"

definition is_right :: "'a + 'b \<Rightarrow> bool" where
  "is_right r = (case r of Inl _ \<Rightarrow> False | Inr _ \<Rightarrow> True)"

lemma is_right_Inr: "is_right r \<Longrightarrow> r = Inr (right_value x r)"
  by (cases r) (simp_all add: is_right_def right_value_def)

definition demo_schema :: "SchemaKind \<Rightarrow> property list \<Rightarrow> schema" where
  "demo_schema k ps = Schema (new_meta k False) ps None ''''"

definition demo_const :: "string \<Rightarrow> property" where
  "demo_const wire = Property ''type'' (Schema ((new_meta KindString False)\<lparr>mt_Const := wire\<rparr>) [] None '''') True"

definition demo_definition :: "string \<Rightarrow> schema \<Rightarrow> schema_definition" where
  "demo_definition name s = \<lparr>df_Name = name, df_File = ''protocol/schemas/demo.schema.json'', df_Schema = s\<rparr>"

definition demo_definitions :: "schema_definition list" where
  "demo_definitions =
     [demo_definition ''Level'' (Schema ((new_meta KindString False)\<lparr>mt_Enum := [''high'', ''low'']\<rparr>) [] None ''''),
      demo_definition ''PingCommand'' (demo_schema KindObject
        [Property ''payload'' (ref_schema ''PingPayload'') True, demo_const ''ping'']),
      demo_definition ''PingPayload'' (demo_schema KindObject
        [Property ''expectedRoomVersion''
           (Schema ((new_meta KindInteger False)\<lparr>mt_GoType := ''uint64'', mt_Minimum := Some 0\<rparr>) [] None '''') False]),
      demo_definition ''Pong'' (demo_schema KindObject
        [Property ''at'' (Schema ((new_meta KindString False)\<lparr>mt_Format := ''date-time''\<rparr>) [] None '''') False,
         Property ''level'' (ref_schema ''Level'') True, demo_const ''pong''])]"

definition demo_entry :: "string \<Rightarrow> Direction \<Rightarrow> string \<Rightarrow> string \<Rightarrow> protocol_message" where
  "demo_entry wire direction def payload =
     \<lparr>msg_WireType = wire, msg_Title = def, msg_Summary = ''A message.'', msg_Direction = direction,
      msg_SchemaFile = ''protocol/schemas/demo.schema.json'', msg_SchemaPointer = ''#/$defs/'' @ def,
      msg_DefName = def, msg_PayloadType = payload\<rparr>"

definition demo_contract :: protocol_spec where
  "demo_contract =
     \<lparr>sp_Messages = [demo_entry ''ping'' DirectionSend ''PingCommand'' ''PingPayload'',
                     demo_entry ''pong'' DirectionReceive ''Pong'' ''Pong''],
      sp_Definitions = demo_definitions,
      sp_byName = rev (map (\<lambda>d. (df_Name d, d)) demo_definitions)\<rparr>"

definition pong_guard :: ts_guard where
  "pong_guard =
     RecordGuard [UnlessMissing ''at'' (CallTimestamp (PropertyOf ''at'')),
                  CallGuard ''Level'' (PropertyOf ''level''), EqualsText (PropertyOf ''type'') ''pong'']"

definition demo_guards :: "(string \<times> ts_guard) list" where
  "demo_guards =
     [(''Level'', EnumGuard [''high'', ''low'']),
      (''PingCommand'', RecordGuard [CallGuard ''PingPayload'' (PropertyOf ''payload''),
                                    EqualsText (PropertyOf ''type'') ''ping'']),
      (''PingPayload'', RecordGuard
         [UnlessMissing ''expectedRoomVersion''
            (AtLeast (CallInteger (PropertyOf ''expectedRoomVersion'')) (PropertyOf ''expectedRoomVersion'') 0)]),
      (''Pong'', pong_guard)]"

lemma demo_loads: "loadSpec demo_gen_env [''repo''] = Inr demo_contract"
  by code_simp

lemma demo_guards_are: "spec_guards demo_contract (sp_Definitions demo_contract) = Inr demo_guards"
  by code_simp

lemma demo_plain: "plain demo_contract"
  by code_simp

section \<open>Contracts that load\<close>

text \<open>C37: In a contract that loads, the definitions can be put in an order in which each refers only to
  earlier ones: every reference leads to a definition, and none leads back to where it started. Every
  schema keeps the constraints the generated types enforce: bounds are a minimum of zero on \<open>uint64\<close>
  integers, enums and constants are strings, arrays have items.\<close>

theorem loaded_references_are_grounded:
  assumes "loadSpec env dir = Inr spec"
  shows "\<exists>p. well_founded p \<and> all_sound p \<and>
    (\<forall>n. map_option df_Schema (spec_Definition spec n) = map_of p n)"
  using loadSpec_grounded [OF assms] by (auto simp: grounded_def spec_schema_def)

theorem loaded_references_are_grounded_witness:
  "\<exists>p. well_founded p \<and> all_sound p \<and>
    (\<forall>n. map_option df_Schema (spec_Definition demo_contract n) = map_of p n)"
  by (rule loaded_references_are_grounded [OF demo_loads])

text \<open>The messages of a contract that loads come in the order of their wire types, no wire type twice;
  each has a definition of its own that is an object whose \<open>type\<close> is the constant of its wire type, a
  command has a payload reference to its payload type, an event is its own payload, and the payload type
  is a defined object.\<close>

theorem loaded_messages_are_checked:
  assumes "loadSpec env dir = Inr spec"
  shows "sorted_wrt (<) (map msg_WireType (sp_Messages spec)) \<and> (\<forall>m \<in> set (sp_Messages spec). message_ok spec m)"
  by (rule loadSpec_messages [OF assms])

theorem loaded_messages_are_checked_witness:
  "map msg_WireType (sp_Messages demo_contract) = [''ping'', ''pong''] \<and>
   list_all (message_ok demo_contract) (sp_Messages demo_contract)"
proof
  show "map msg_WireType (sp_Messages demo_contract) = [''ping'', ''pong'']" by code_simp
  show "list_all (message_ok demo_contract) (sp_Messages demo_contract)"
    using loaded_messages_are_checked [OF demo_loads] by (simp add: list_all_iff)
qed

text \<open>The \<open>time\<close> import of the generated Go file is decided: \<open>specUsesTime\<close> returns, and it is true exactly
  when a \<open>date-time\<close> string is reachable from a definition through properties, items and references.\<close>

theorem time_import_is_decided:
  assumes "loadSpec env dir = Inr spec"
  shows "specUsesTime spec = Some (\<exists>d \<in> set (sp_Definitions spec). \<exists>t. part spec (df_Schema d) t \<and> is_time t)"
proof -
  obtain p where "grounded spec p" using loadSpec_grounded [OF assms] by blast
  then show ?thesis by (simp add: specUsesTime_def schemaUsesTime_result some_time_def)
qed

theorem time_import_is_decided_witness:
  "specUsesTime demo_contract =
     Some (\<exists>d \<in> set (sp_Definitions demo_contract). \<exists>t. part demo_contract (df_Schema d) t \<and> is_time t)"
  by (rule time_import_is_decided [OF demo_loads])


definition demo_pong :: "string \<Rightarrow> any_value" where
  "demo_pong level = AMap [(''type'', AStr ''pong''), (''level'', AStr level)]"


lemma demo_pong_guard: "(''Pong'', pong_guard) \<in> set demo_guards"
  by (simp add: demo_guards_def)

theorem called_helpers_are_imported_witness:
  "guard_helpers pong_guard \<subseteq> set (ts_helpers (collectTypeScriptUsage demo_contract)) \<and>
   ''isRFC3339Timestamp'' \<in> guard_helpers pong_guard"
proof
  show "guard_helpers pong_guard \<subseteq> set (ts_helpers (collectTypeScriptUsage demo_contract))"
    by (rule called_helpers_are_imported [OF demo_guards_are demo_pong_guard])
  show "''isRFC3339Timestamp'' \<in> guard_helpers pong_guard" by code_simp
qed

definition demo_artifacts :: "artifact list" where
  "demo_artifacts =
     (case generateArtifacts demo_gen_env [''repo''] of None \<Rightarrow> [] | Some r \<Rightarrow> right_value [] r)"

lemma demo_generates: "generateArtifacts demo_gen_env [''repo''] = Some (Inr demo_artifacts)"
proof -
  have "is_right (go_definitions demo_contract (sp_Definitions demo_contract))"
    by (simp add: demo_contract_def demo_definitions_def demo_definition_def demo_schema_def demo_const_def
        ref_schema_def new_meta_def sch_Kind_def sch_Enum_def sch_Nullable_def emitGoStruct_def thenE_def goPropertyType_def
        scalar_go_type_def goIntegerType_def spec_Definition_def is_right_def)
  moreover obtain p where "grounded demo_contract p" using loadSpec_grounded [OF demo_loads] by blast
  ultimately have "case emitGoTypes demo_gen_env demo_contract of None \<Rightarrow> False | Some r \<Rightarrow> is_right r"
    by (auto simp: emitGoTypes_def specUsesTime_def schemaUsesTime_result is_right_def demo_gen_env_def
        split: sum.splits)
  moreover have "is_right (emitTypeScript demo_gen_env demo_contract)"
    by code_simp
  moreover have "is_right (emitGoMessages demo_gen_env demo_contract)"
    by (simp add: emitGoMessages_def demo_gen_env_def is_right_def)
  ultimately have "\<exists>r. generateArtifacts demo_gen_env [''repo''] = Some r \<and> is_right r"
    unfolding generateArtifacts_def demo_loads
    by (auto simp: is_right_def split: option.splits sum.splits)
  then obtain r where r: "generateArtifacts demo_gen_env [''repo''] = Some r" "is_right r" by blast
  then show ?thesis using is_right_Inr [OF r(2), of "[]"] by (simp add: demo_artifacts_def)
qed

definition demo_written :: disk where
  "demo_written = snd (writeArtifacts [''repo''] demo_artifacts demo_disk)"

lemma demo_writes: "writeArtifacts [''repo''] demo_artifacts demo_disk = (None, demo_written)"
proof -
  have "dk_mkdir_fault dk = (\<lambda>_. None) \<Longrightarrow> dk_write_fault dk = (\<lambda>_. None) \<Longrightarrow> fst (writeArtifacts dir items dk) = None"
    for dir items dk
    by (induction items arbitrary: dk) (simp_all add: Let_def write_file_def)
  then have "fst (writeArtifacts [''repo''] demo_artifacts demo_disk) = None" by (simp add: demo_disk_def)
  then show ?thesis unfolding demo_written_def by (simp add: prod_eq_iff)
qed

theorem written_files_are_up_to_date_witness:
  "staleArtifacts [''repo''] demo_artifacts demo_written = Inr [] \<and>
   staleArtifacts [''repo''] demo_artifacts demo_disk \<noteq> Inr []"
proof -
  have "\<forall>item \<in> set demo_artifacts. dk_read_fault demo_disk (target [''repo''] item) = None"
    by (simp add: demo_disk_def)
  note w = written_files_are_up_to_date [OF demo_generates demo_writes this]
  have "read_file demo_disk (target [''repo''] \<lparr>art_Path = protocolReadmePath, art_Content = c\<rparr>) = Missing" for c
    by code_simp
  moreover have "protocolReadmePath \<in> set (map art_Path demo_artifacts)"
    by (simp add: generated_paths [OF demo_generates])
  ultimately have "\<exists>item \<in> set demo_artifacts. read_file demo_disk (target [''repo''] item) = Missing"
    by (simp only: set_map image_iff target_def artifact.simps) (erule bexE, rule bexI, simp_all)
  then have "\<not> (\<forall>item \<in> set demo_artifacts. read_file demo_disk (target [''repo''] item) = Content (art_Content item))"
    by (elim bexE) (metis read_result.distinct(3))
  then show ?thesis using w by blast
qed

section \<open>The channel and the components\<close>

text \<open>\<open>validateMessageExposure\<close> passes exactly when the channel and the components list the same messages
  and every channel entry refers to the message of its own name.\<close>

theorem exposure_is_one_to_one:
  "validateMessageExposure messagesRaw channelMessages = Inr () \<longleftrightarrow>
     fst ` set messagesRaw = fst ` set channelMessages \<and>
     (\<forall>w \<in> fst ` set channelMessages. entryRef (at_key channelMessages w) = Inr w)"
proof -
  have loop: "exposed_loop messagesRaw channelMessages ws = Inr () \<longleftrightarrow>
      (\<forall>w \<in> set ws. w \<in> fst ` set messagesRaw \<and> entryRef (at_key channelMessages w) = Inr w)" for ws
    by (induction ws) (auto simp: map_of_eq_None_iff split: sum.splits)
  show ?thesis
    unfolding validateMessageExposure_def thenE_Inr
    using find_None_iff [of "\<lambda>w. map_of channelMessages w = None" "sortedKeys messagesRaw"]
    by (auto simp: loop map_of_eq_None_iff split: option.splits)
qed

theorem exposure_is_one_to_one_witness:
  "validateMessageExposure demo_components demo_channel = Inr () \<and>
   validateMessageExposure demo_components [(''ping'', ref_to ''#/components/messages/pong'')] \<noteq> Inr ()"
proof
  have "fst ` set demo_components = fst ` set demo_channel \<and>
      (\<forall>w \<in> fst ` set demo_channel. entryRef (at_key demo_channel w) = Inr w)"
    by code_simp
  then show "validateMessageExposure demo_components demo_channel = Inr ()"
    by (rule exposure_is_one_to_one [THEN iffD2])
  show "validateMessageExposure demo_components [(''ping'', ref_to ''#/components/messages/pong'')] \<noteq> Inr ()"
    by code_simp
qed

section \<open>Normalized values\<close>

fun json_like :: "any_value \<Rightarrow> bool" where
  "json_like (AAnyMap m) = False"
| "json_like (AMap m) = (\<forall>e \<in> set m. json_like (snd e))"
| "json_like (AArr xs) = (\<forall>x \<in> set xs. json_like x)"
| "json_like v = True"

lemma normalize_json_like:
  "normalizeValue v = Inr w \<Longrightarrow> json_like w"
  "normalizeMap m = Inr m' \<Longrightarrow> \<forall>e \<in> set m'. json_like (snd e)"
  "normalizeAnyMap am = Inr m' \<Longrightarrow> \<forall>e \<in> set m'. json_like (snd e)"
  "normalizeSlice xs = Inr ys \<Longrightarrow> \<forall>x \<in> set ys. json_like x"
  by (induction v and m and am and xs arbitrary: w and m' and m' and ys
      rule: normalizeValue_normalizeMap_normalizeAnyMap_normalizeSlice.induct)
    (auto split: sum.splits option.splits, (metis snd_conv)+)

lemma json_like_normalize:
  "json_like v \<Longrightarrow> normalizeValue v = Inr v"
  "\<forall>e \<in> set m. json_like (snd e) \<Longrightarrow> normalizeMap m = Inr m"
  "am = am \<Longrightarrow> normalizeAnyMap am = normalizeAnyMap am"
  "\<forall>x \<in> set xs. json_like x \<Longrightarrow> normalizeSlice xs = Inr xs"
  by (induction v and m and am and xs
      rule: normalizeValue_normalizeMap_normalizeAnyMap_normalizeSlice.induct) auto

text \<open>What \<open>normalizeValue\<close> returns holds no mapping with keys of any type, at any depth, and normalizing
  it again changes nothing.\<close>

theorem normalized_is_json_like:
  assumes "normalizeValue v = Inr w"
  shows "json_like w \<and> normalizeValue w = Inr w"
  using normalize_json_like(1) [OF assms] json_like_normalize(1) by blast

theorem normalized_is_json_like_witness:
  "json_like (AMap [(''a'', AArr [AMap []])]) \<and>
   normalizeValue (AAnyMap [(AStr ''a'', AArr [AAnyMap []])]) = Inr (AMap [(''a'', AArr [AMap []])])"
proof -
  have n: "normalizeValue (AAnyMap [(AStr ''a'', AArr [AAnyMap []])]) = Inr (AMap [(''a'', AArr [AMap []])])"
    by (simp add: stringValue_def)
  show ?thesis using normalized_is_json_like [OF n] n by blast
qed

section \<open>Where guards and schemas part\<close>

text \<open>Outside \<open>plain\<close> they differ: an enum written on a property is not checked, an array passes for a record,
  and a definition that is itself nullable rejects null.\<close>

theorem inline_enum_is_not_checked:
  "mt_Kind m = KindString \<Longrightarrow> mt_Const m = '''' \<Longrightarrow> \<not> checked_format (mt_Format m) \<Longrightarrow> \<not> mt_Nullable m \<Longrightarrow>
   tsCheck spec (Schema m ps it r) a = Inr (TypeOfString a)"
  by (simp add: null_or_def tsStringCheck_def checked_format_def)

theorem array_passes_for_a_record:
  "run_guard fmt [(n, RecordGuard [])] 1 n (Some (AArr xs))"
  by (simp add: isRecord_def)

theorem nullable_definition_rejects_null:
  "spec_Definition spec n = Some d \<Longrightarrow> sch_Nullable (df_Schema d) \<Longrightarrow>
   valid fmt spec (ref_schema n) ANull \<and> \<not> run_guard fmt gs k n (Some ANull)"
proof
  assume "spec_Definition spec n = Some d" "sch_Nullable (df_Schema d)"
  then show "valid fmt spec (ref_schema n) ANull"
    by (subst valid_kinds(1)) (auto simp: ref_schema_def new_meta_def intro: valid_null)
  have "\<not> run_guard fmt gs (Suc k) n (Some ANull)" for k
    by (cases "map_of gs n") (simp_all add: isRecord_def list_ex_iff split: ts_guard.split)
  then show "\<not> run_guard fmt gs k n (Some ANull)" by (cases k) simp_all
qed

end
