(* ===== verification/Connection.thy ===== *)
theory Connection
  imports Websocket_Bus
begin

text \<open>
  The goroutines of one connection: \<open>WebsocketBus\<close> of \<open>internal/infra/bus/websocketbus.go\<close>, statement by
  statement. Theory \<open>Websocket_Bus\<close> says what a call computes when it runs alone; here the reader
  (\<open>Listen\<close>), the pinger it starts, and any number of other goroutines that call \<open>Send\<close>, \<open>Close\<close> and
  \<open>Detach\<close> interleave between the statements. A goroutine is a number with a program counter; an event
  is a step of one of them, an arrival from the network, a tick, or the passing of time.
\<close>

section \<open>The state\<close>

record WebSocketConfig =
  WriteTimeout :: int
  ReadTimeout :: int
  PingInterval :: int

text \<open>What \<open>ReadJSON\<close> can return: a close frame with its code, an error of the network (a timeout or
  not), another error.\<close>

datatype read_error = CloseErr int | NetErr bool | OtherErr

datatype receive_log = WarnClosed | ErrorTimeout | ErrorGeneral

definition CloseGoingAway :: int where "CloseGoingAway = 1001"
definition CloseAbnormalClosure :: int where "CloseAbnormalClosure = 1006"

definition handleReceiveError :: "read_error \<Rightarrow> receive_log" where
  "handleReceiveError err =
     (case err of
        CloseErr code \<Rightarrow> if code \<in> {CloseGoingAway, CloseAbnormalClosure} then WarnClosed else ErrorGeneral
      | NetErr timeout \<Rightarrow> if timeout then ErrorTimeout else ErrorGeneral
      | OtherErr \<Rightarrow> ErrorGeneral)"

text \<open>\<open>Send\<close> is called from outside the connection's code, by what \<open>process\<close> runs, or by what
  \<open>leaveRoom\<close> runs; it returns there.\<close>

datatype caller = ByOther | ByProcess | ByLeave

text \<open>The statement of a function that is about to run.\<close>

datatype send_pc = SendLoad | SendLock | SendDeadline | SendWrite | SendUnlock

datatype close_pc = CloseDo | CloseStore | CloseDone | CloseSkip | CloseLeave | CloseSocket | CloseExit

datatype listen_pc =
    ListenArm
  | ListenSpawn
  | ListenReceive
  | ListenRearm "read_error option"
  | ListenProcess
  | ListenError read_error

datatype pinger_pc =
    PingerHandler
  | PingerTicker
  | PingerSelect
  | PingerLoad
  | PingerLock
  | PingerDeadline
  | PingerWrite
  | PingerUnlock bool
  | PingerResult bool
  | PingerStop

datatype pc =
    Outside
  | InSend caller server_message send_pc
  | InClose close_pc
  | InListen listen_pc
  | InPinger pinger_pc

text \<open>\<open>sync.Once\<close>: while it runs, other callers of \<open>Do\<close> wait.\<close>

datatype once = Fresh | Running nat | Done

datatype wire_frame = DataFrame server_message | PingFrame

text \<open>What happened, in order: the stages of closing, and the frames written.\<close>

datatype action =
    MarkedClosed
  | ClosedDone
  | LeftRoom
  | LeavePanicked
  | ClosedSocket
  | Wrote wire_frame

record conn =
  cn_pc :: "nat \<Rightarrow> pc"
  cn_closed :: bool
  cn_once :: once
  cn_done :: bool
  cn_skipCleanup :: bool
  cn_writeMu :: "nat option"
  cn_open :: bool
  cn_readDeadline :: int
  cn_writeDeadline :: int
  cn_pongHandler :: bool
  cn_tick :: bool
  cn_ctxDone :: bool
  cn_listens :: bool
  cn_now :: int
  cn_log :: "action list"

definition NewWebsocketBus :: "int \<Rightarrow> conn" where
  "NewWebsocketBus now =
     \<lparr>cn_pc = (\<lambda>_. Outside), cn_closed = False, cn_once = Fresh, cn_done = False, cn_skipCleanup = False,
      cn_writeMu = None, cn_open = True, cn_readDeadline = 0, cn_writeDeadline = 0, cn_pongHandler = False,
      cn_tick = False, cn_ctxDone = False, cn_listens = False, cn_now = now, cn_log = []\<rparr>"

definition reader :: nat where "reader = 0"
definition pinger :: nat where "pinger = 1"

definition goto :: "nat \<Rightarrow> pc \<Rightarrow> conn \<Rightarrow> conn" where
  "goto g p s = s\<lparr>cn_pc := (cn_pc s)(g := p)\<rparr>"

definition note_action :: "action \<Rightarrow> conn \<Rightarrow> conn" where
  "note_action a s = s\<lparr>cn_log := cn_log s @ [a]\<rparr>"

section \<open>The statements\<close>

text \<open>What decides a step that has several outcomes: whether a write succeeds, what a read returns,
  whether code called from here returns or panics, which ready case \<open>select\<close> takes.\<close>

datatype outcome = Continues | Fails | Reads "read_error option" | Panics | TakesTick | TakesDone | TakesContext

fun return_to :: "caller \<Rightarrow> pc" where
  "return_to ByOther = Outside"
| "return_to ByProcess = InListen ListenProcess"
| "return_to ByLeave = InClose CloseLeave"

text \<open>\<open>Send\<close> and \<open>sendRaw\<close>.\<close>

fun send_step ::
  "WebSocketConfig \<Rightarrow> nat \<Rightarrow> caller \<Rightarrow> server_message \<Rightarrow> send_pc \<Rightarrow> outcome \<Rightarrow> conn \<Rightarrow> conn option" where
  "send_step cfg g r m SendLoad Continues s =
     Some (goto g (if cn_closed s then return_to r else InSend r m SendLock) s)"
| "send_step cfg g r m SendLock Continues s =
     (if cn_writeMu s = None then Some (goto g (InSend r m SendDeadline) (s\<lparr>cn_writeMu := Some g\<rparr>)) else None)"
| "send_step cfg g r m SendDeadline Continues s =
     Some (goto g (InSend r m SendWrite) (s\<lparr>cn_writeDeadline := cn_now s + WriteTimeout cfg\<rparr>))"
| "send_step cfg g r m SendWrite Continues s =
     (if cn_open s then Some (goto g (InSend r m SendUnlock) (note_action (Wrote (DataFrame m)) s)) else None)"
| "send_step cfg g r m SendWrite Fails s = Some (goto g (InSend r m SendUnlock) s)"
| "send_step cfg g r m SendUnlock Continues s = Some (goto g (return_to r) (s\<lparr>cn_writeMu := None\<rparr>))"
| "send_step cfg g r m _ _ s = None"

text \<open>\<open>Close\<close>. A panic of \<open>leaveRoom\<close> ends the call, and \<open>closeOnce\<close> counts as run.\<close>

fun close_step :: "nat \<Rightarrow> close_pc \<Rightarrow> outcome \<Rightarrow> conn \<Rightarrow> conn option" where
  "close_step g CloseDo Continues s =
     (case cn_once s of
        Fresh \<Rightarrow> Some (goto g (InClose CloseStore) (s\<lparr>cn_once := Running g\<rparr>))
      | Running _ \<Rightarrow> None
      | Done \<Rightarrow> Some (goto g Outside s))"
| "close_step g CloseStore Continues s =
     Some (goto g (InClose CloseDone) (note_action MarkedClosed (s\<lparr>cn_closed := True\<rparr>)))"
| "close_step g CloseDone Continues s =
     Some (goto g (InClose CloseSkip) (note_action ClosedDone (s\<lparr>cn_done := True\<rparr>)))"
| "close_step g CloseSkip Continues s =
     Some (goto g (InClose (if cn_skipCleanup s then CloseSocket else CloseLeave)) s)"
| "close_step g CloseLeave Continues s = Some (goto g (InClose CloseSocket) (note_action LeftRoom s))"
| "close_step g CloseLeave Panics s = Some (goto g Outside (note_action LeavePanicked (s\<lparr>cn_once := Done\<rparr>)))"
| "close_step g CloseSocket Continues s =
     Some (goto g (InClose CloseExit) (note_action ClosedSocket (s\<lparr>cn_open := False\<rparr>)))"
| "close_step g CloseExit Continues s = Some (goto g Outside (s\<lparr>cn_once := Done\<rparr>))"
| "close_step g _ _ s = None"

text \<open>\<open>Listen\<close> and \<open>receive\<close>. A read that waits returns an error once its deadline is over or the
  socket closed. The deferred \<open>Close\<close> runs on return and when \<open>process\<close> panics.\<close>

definition read_possible :: "read_error option \<Rightarrow> conn \<Rightarrow> bool" where
  "read_possible r s =
     (case r of
        None \<Rightarrow> cn_open s \<and> cn_now s < cn_readDeadline s
      | Some (NetErr timeout) \<Rightarrow> timeout \<longrightarrow> cn_readDeadline s \<le> cn_now s
      | Some _ \<Rightarrow> True)"

fun listen_step :: "WebSocketConfig \<Rightarrow> nat \<Rightarrow> listen_pc \<Rightarrow> outcome \<Rightarrow> conn \<Rightarrow> conn option" where
  "listen_step cfg g ListenArm Continues s =
     Some (goto g (InListen ListenSpawn) (s\<lparr>cn_readDeadline := cn_now s + ReadTimeout cfg\<rparr>))"
| "listen_step cfg g ListenSpawn Continues s =
     Some (goto g (InListen ListenReceive) (goto pinger (InPinger PingerHandler) s))"
| "listen_step cfg g ListenReceive (Reads r) s =
     (if read_possible r s then Some (goto g (InListen (ListenRearm r)) s) else None)"
| "listen_step cfg g (ListenRearm r) Continues s =
     Some (goto g (InListen (case r of None \<Rightarrow> ListenProcess | Some err \<Rightarrow> ListenError err))
       (s\<lparr>cn_readDeadline := cn_now s + ReadTimeout cfg\<rparr>))"
| "listen_step cfg g ListenProcess Continues s = Some (goto g (InListen ListenReceive) s)"
| "listen_step cfg g ListenProcess Panics s = Some (goto g (InClose CloseDo) s)"
| "listen_step cfg g (ListenError err) Continues s = Some (goto g (InClose CloseDo) s)"
| "listen_step cfg g _ _ s = None"

text \<open>\<open>pinger\<close>. \<open>select\<close> takes any of the cases that are ready; receiving from a closed channel, or from
  that of a context that ended, is ready for good.\<close>

fun pinger_step :: "WebSocketConfig \<Rightarrow> nat \<Rightarrow> pinger_pc \<Rightarrow> outcome \<Rightarrow> conn \<Rightarrow> conn option" where
  "pinger_step cfg g PingerHandler Continues s =
     Some (goto g (InPinger PingerTicker) (s\<lparr>cn_pongHandler := True\<rparr>))"
| "pinger_step cfg g PingerTicker Continues s = Some (goto g (InPinger PingerSelect) (s\<lparr>cn_tick := False\<rparr>))"
| "pinger_step cfg g PingerSelect TakesTick s =
     (if cn_tick s then Some (goto g (InPinger PingerLoad) (s\<lparr>cn_tick := False\<rparr>)) else None)"
| "pinger_step cfg g PingerSelect TakesDone s =
     (if cn_done s then Some (goto g (InPinger PingerStop) s) else None)"
| "pinger_step cfg g PingerSelect TakesContext s =
     (if cn_ctxDone s then Some (goto g (InPinger PingerStop) s) else None)"
| "pinger_step cfg g PingerLoad Continues s =
     Some (goto g (InPinger (if cn_closed s then PingerResult False else PingerLock)) s)"
| "pinger_step cfg g PingerLock Continues s =
     (if cn_writeMu s = None then Some (goto g (InPinger PingerDeadline) (s\<lparr>cn_writeMu := Some g\<rparr>)) else None)"
| "pinger_step cfg g PingerDeadline Continues s =
     Some (goto g (InPinger PingerWrite) (s\<lparr>cn_writeDeadline := cn_now s + WriteTimeout cfg\<rparr>))"
| "pinger_step cfg g PingerDeadline Fails s = Some (goto g (InPinger (PingerUnlock True)) s)"
| "pinger_step cfg g PingerWrite Continues s =
     (if cn_open s then Some (goto g (InPinger (PingerUnlock False)) (note_action (Wrote PingFrame) s)) else None)"
| "pinger_step cfg g PingerWrite Fails s = Some (goto g (InPinger (PingerUnlock True)) s)"
| "pinger_step cfg g (PingerUnlock failed) Continues s =
     Some (goto g (InPinger (PingerResult failed)) (s\<lparr>cn_writeMu := None\<rparr>))"
| "pinger_step cfg g (PingerResult failed) Continues s =
     Some (goto g (InPinger (if failed then PingerStop else PingerSelect)) s)"
| "pinger_step cfg g PingerStop Continues s = Some (goto g Outside s)"
| "pinger_step cfg g _ _ s = None"

definition goroutine_step :: "WebSocketConfig \<Rightarrow> nat \<Rightarrow> outcome \<Rightarrow> conn \<Rightarrow> conn option" where
  "goroutine_step cfg g c s =
     (case cn_pc s g of
        Outside \<Rightarrow> None
      | InSend r m p \<Rightarrow> send_step cfg g r m p c s
      | InClose p \<Rightarrow> close_step g p c s
      | InListen p \<Rightarrow> listen_step cfg g p c s
      | InPinger p \<Rightarrow> pinger_step cfg g p c s)"

section \<open>Events\<close>

datatype event =
    Calls_Send nat server_message
  | Calls_Close nat
  | Calls_Detach nat
  | Calls_Listen
  | Steps nat outcome
  | Ticks
  | Pongs
  | Ends_Context
  | Passes nat

text \<open>\<open>Listen\<close> is called once, by the handler that made the connection; \<open>Send\<close> by goroutines outside the
  connection's code, and by what \<open>process\<close> and \<open>leaveRoom\<close> run; \<open>Close\<close> and \<open>Detach\<close> from outside. A tick that
  finds the channel of the ticker full is dropped. A pong is handled inside a read. Time passes
  while a read or write waits, up to its deadline.\<close>

definition may_send :: "pc \<Rightarrow> caller option" where
  "may_send p =
     (case p of
        Outside \<Rightarrow> Some ByOther
      | InListen ListenProcess \<Rightarrow> Some ByProcess
      | InClose CloseLeave \<Rightarrow> Some ByLeave
      | _ \<Rightarrow> None)"

definition writing :: "pc \<Rightarrow> bool" where
  "writing p = (case p of InSend _ _ SendWrite \<Rightarrow> True | InPinger PingerWrite \<Rightarrow> True | _ \<Rightarrow> False)"

definition ticker_runs :: "pc \<Rightarrow> bool" where
  "ticker_runs p = (case p of InPinger q \<Rightarrow> q \<noteq> PingerHandler \<and> q \<noteq> PingerTicker | _ \<Rightarrow> False)"

definition other :: "nat \<Rightarrow> bool" where "other g \<longleftrightarrow> g \<noteq> reader \<and> g \<noteq> pinger"

definition may_pass :: "int \<Rightarrow> conn \<Rightarrow> bool" where
  "may_pass t s \<longleftrightarrow>
     (cn_pc s reader = InListen ListenReceive \<longrightarrow> t \<le> cn_readDeadline s) \<and>
     (case cn_writeMu s of None \<Rightarrow> True | Some g \<Rightarrow> writing (cn_pc s g) \<longrightarrow> t \<le> cn_writeDeadline s)"

definition conn_next :: "WebSocketConfig \<Rightarrow> event \<Rightarrow> conn \<Rightarrow> conn option" where
  "conn_next cfg e s =
     (case e of
        Calls_Send g m \<Rightarrow>
          (case may_send (cn_pc s g) of
             Some r \<Rightarrow> if r = ByOther \<longrightarrow> other g then Some (goto g (InSend r m SendLoad) s) else None
           | None \<Rightarrow> None)
      | Calls_Close g \<Rightarrow>
          if other g \<and> cn_pc s g = Outside then Some (goto g (InClose CloseDo) s) else None
      | Calls_Detach g \<Rightarrow>
          if other g \<and> cn_pc s g = Outside then Some (s\<lparr>cn_skipCleanup := True\<rparr>) else None
      | Calls_Listen \<Rightarrow>
          if cn_listens s then None else Some (goto reader (InListen ListenArm) (s\<lparr>cn_listens := True\<rparr>))
      | Steps g c \<Rightarrow> goroutine_step cfg g c s
      | Ticks \<Rightarrow> if ticker_runs (cn_pc s pinger) then Some (s\<lparr>cn_tick := True\<rparr>) else None
      | Pongs \<Rightarrow>
          if cn_pc s reader = InListen ListenReceive \<and> cn_open s \<and> cn_now s < cn_readDeadline s
          then Some (if cn_pongHandler s then s\<lparr>cn_readDeadline := cn_now s + ReadTimeout cfg\<rparr> else s)
          else None
      | Ends_Context \<Rightarrow> Some (s\<lparr>cn_ctxDone := True\<rparr>)
      | Passes d \<Rightarrow> if may_pass (cn_now s + int d) s then Some (s\<lparr>cn_now := cn_now s + int d\<rparr>) else None)"


fun conn_run :: "WebSocketConfig \<Rightarrow> event list \<Rightarrow> conn \<Rightarrow> conn option" where
  "conn_run cfg [] s = Some s"
| "conn_run cfg (e # es) s = (case conn_next cfg e s of None \<Rightarrow> None | Some s' \<Rightarrow> conn_run cfg es s')"

inductive conn_reachable :: "WebSocketConfig \<Rightarrow> conn \<Rightarrow> bool" for cfg where
  start: "conn_reachable cfg (NewWebsocketBus now)"
| step: "conn_reachable cfg s \<Longrightarrow> conn_next cfg e s = Some s' \<Longrightarrow> conn_reachable cfg s'"

lemma conn_run_append:
  "conn_run cfg (es @ fs) s = (case conn_run cfg es s of None \<Rightarrow> None | Some s' \<Rightarrow> conn_run cfg fs s')"
  by (induction es arbitrary: s) (auto split: option.splits)

lemma conn_run_reachable:
  "conn_reachable cfg s \<Longrightarrow> conn_run cfg es s = Some s' \<Longrightarrow> conn_reachable cfg s'"
proof (induction es arbitrary: s)
  case (Cons e es)
  then show ?case by (auto split: option.splits intro: conn_reachable.step)
qed simp

section \<open>Steps by cases\<close>

lemma goto_sel [simp]:
  "cn_pc (goto g p s) = (cn_pc s)(g := p)" "cn_closed (goto g p s) = cn_closed s"
  "cn_once (goto g p s) = cn_once s" "cn_done (goto g p s) = cn_done s"
  "cn_skipCleanup (goto g p s) = cn_skipCleanup s" "cn_writeMu (goto g p s) = cn_writeMu s"
  "cn_open (goto g p s) = cn_open s" "cn_readDeadline (goto g p s) = cn_readDeadline s"
  "cn_writeDeadline (goto g p s) = cn_writeDeadline s" "cn_pongHandler (goto g p s) = cn_pongHandler s"
  "cn_tick (goto g p s) = cn_tick s" "cn_ctxDone (goto g p s) = cn_ctxDone s"
  "cn_listens (goto g p s) = cn_listens s" "cn_now (goto g p s) = cn_now s" "cn_log (goto g p s) = cn_log s"
  by (simp_all add: goto_def)

lemma note_action_sel [simp]:
  "cn_pc (note_action a s) = cn_pc s" "cn_closed (note_action a s) = cn_closed s"
  "cn_once (note_action a s) = cn_once s" "cn_done (note_action a s) = cn_done s"
  "cn_skipCleanup (note_action a s) = cn_skipCleanup s" "cn_writeMu (note_action a s) = cn_writeMu s"
  "cn_open (note_action a s) = cn_open s" "cn_readDeadline (note_action a s) = cn_readDeadline s"
  "cn_writeDeadline (note_action a s) = cn_writeDeadline s" "cn_pongHandler (note_action a s) = cn_pongHandler s"
  "cn_tick (note_action a s) = cn_tick s" "cn_ctxDone (note_action a s) = cn_ctxDone s"
  "cn_listens (note_action a s) = cn_listens s" "cn_now (note_action a s) = cn_now s"
  "cn_log (note_action a s) = cn_log s @ [a]"
  by (simp_all add: note_action_def)

lemma conn_next_cases [consumes 1, case_names send closing listen ping start_send start_close detach start_listen
    tick pong ctx pass]:
  assumes "conn_next cfg e s = Some s'"
  obtains g r m p c where "cn_pc s g = InSend r m p" "send_step cfg g r m p c s = Some s'" "e = Steps g c"
  | g p c where "cn_pc s g = InClose p" "close_step g p c s = Some s'" "e = Steps g c"
  | g p c where "cn_pc s g = InListen p" "listen_step cfg g p c s = Some s'" "e = Steps g c"
  | g p c where "cn_pc s g = InPinger p" "pinger_step cfg g p c s = Some s'" "e = Steps g c"
  | g m r where "may_send (cn_pc s g) = Some r" "r = ByOther \<Longrightarrow> other g"
      "s' = goto g (InSend r m SendLoad) s" "e = Calls_Send g m"
  | g where "other g" "cn_pc s g = Outside" "s' = goto g (InClose CloseDo) s" "e = Calls_Close g"
  | g where "other g" "cn_pc s g = Outside" "s' = s\<lparr>cn_skipCleanup := True\<rparr>" "e = Calls_Detach g"
  | "\<not> cn_listens s" "s' = goto reader (InListen ListenArm) (s\<lparr>cn_listens := True\<rparr>)" "e = Calls_Listen"
  | "s' = s\<lparr>cn_tick := True\<rparr>" "e = Ticks"
  | "cn_pc s reader = InListen ListenReceive"
      "s' = (if cn_pongHandler s then s\<lparr>cn_readDeadline := cn_now s + ReadTimeout cfg\<rparr> else s)" "e = Pongs"
  | "s' = s\<lparr>cn_ctxDone := True\<rparr>" "e = Ends_Context"
  | d where "may_pass (cn_now s + int d) s" "s' = s\<lparr>cn_now := cn_now s + int d\<rparr>" "e = Passes d"
proof (cases e)
  case (Calls_Send g m)
  with assms that(5) show thesis by (auto simp: conn_next_def split: option.splits if_splits)
next
  case (Calls_Close g)
  with assms that(6) show thesis by (simp add: conn_next_def split: if_splits)
next
  case (Calls_Detach g)
  with assms that(7) show thesis by (simp add: conn_next_def split: if_splits)
next
  case Calls_Listen
  with assms that(8) show thesis by (simp add: conn_next_def split: if_splits)
next
  case (Steps g c)
  with assms have "goroutine_step cfg g c s = Some s'" by (simp add: conn_next_def)
  with Steps that(1-4) show thesis by (cases "cn_pc s g") (simp_all add: goroutine_step_def)
next
  case Ticks
  with assms that(9) show thesis by (simp add: conn_next_def split: if_splits)
next
  case Pongs
  with assms that(10) show thesis by (simp add: conn_next_def split: if_splits)
next
  case Ends_Context
  with assms that(11) show thesis by (simp add: conn_next_def)
next
  case (Passes d)
  with assms that(12) show thesis by (simp add: conn_next_def split: if_splits)
qed

section \<open>The write lock\<close>

text \<open>A goroutine between the lock and the unlock.\<close>

fun in_write_section :: "pc \<Rightarrow> bool" where
  "in_write_section (InSend r m q) \<longleftrightarrow> q \<in> {SendDeadline, SendWrite, SendUnlock}"
| "in_write_section (InPinger q) \<longleftrightarrow> q \<in> {PingerDeadline, PingerWrite, PingerUnlock True, PingerUnlock False}"
| "in_write_section _ \<longleftrightarrow> False"

definition lock_inv :: "conn \<Rightarrow> bool" where
  "lock_inv s \<longleftrightarrow> (\<forall>g. cn_writeMu s = Some g \<longleftrightarrow> in_write_section (cn_pc s g))"

text \<open>Which goroutine runs what.\<close>

fun role_of :: "nat \<Rightarrow> pc \<Rightarrow> bool" where
  "role_of g Outside = True"
| "role_of g (InSend ByOther m q) = other g"
| "role_of g (InSend ByProcess m q) = (g = reader)"
| "role_of g (InSend ByLeave m q) = (g \<noteq> pinger)"
| "role_of g (InClose q) = (g \<noteq> pinger)"
| "role_of g (InListen q) = (g = reader)"
| "role_of g (InPinger q) = (g = pinger)"

lemma may_send_cases:
  "may_send p = Some r \<longleftrightarrow> p = Outside \<and> r = ByOther \<or> p = InListen ListenProcess \<and> r = ByProcess \<or>
     p = InClose CloseLeave \<and> r = ByLeave"
  by (auto simp: may_send_def split: pc.splits listen_pc.splits close_pc.splits)

lemma return_to_role: "role_of g (InSend r m q) \<Longrightarrow> role_of g (return_to r)"
  by (cases r) (auto simp: other_def)

lemma role_of_send: "role_of g (InSend r m q) = role_of g (InSend r m q')"
  by (cases r) auto

lemma send_step_goto:
  assumes "send_step cfg g r m p c s = Some s'"
  obtains p' where "cn_pc s' = (cn_pc s)(g := p')" "p' = return_to r \<or> (\<exists>q. p' = InSend r m q)"
    "cn_listens s' = cn_listens s"
  using assms by (cases rule: send_step.elims) (auto split: if_splits)

lemma close_step_goto:
  assumes "close_step g p c s = Some s'"
  obtains p' where "cn_pc s' = (cn_pc s)(g := p')" "p' = Outside \<or> (\<exists>q. p' = InClose q)"
    "cn_listens s' = cn_listens s"
  using assms by (cases rule: close_step.elims) (auto split: once.splits)

lemma pinger_step_goto:
  assumes "pinger_step cfg g p c s = Some s'"
  obtains p' where "cn_pc s' = (cn_pc s)(g := p')" "p' = Outside \<or> (\<exists>q. p' = InPinger q)"
    "cn_listens s' = cn_listens s"
  using assms by (cases rule: pinger_step.elims) (auto split: if_splits)

lemma listen_step_goto:
  assumes "listen_step cfg g p c s = Some s'"
  obtains (spawn) "p = ListenSpawn" "s' = goto g (InListen ListenReceive) (goto pinger (InPinger PingerHandler) s)"
  | (other) p' where "p \<noteq> ListenSpawn" "cn_pc s' = (cn_pc s)(g := p')"
      "p' = InClose CloseDo \<or> p = ListenArm \<and> p' = InListen ListenSpawn \<or>
        (\<exists>q. p' = InListen q \<and> q \<notin> {ListenArm, ListenSpawn})"
      "cn_listens s' = cn_listens s" "p = ListenArm \<longleftrightarrow> p' = InListen ListenSpawn"
  using assms by (cases rule: listen_step.elims) (auto split: if_splits option.splits)

definition before_spawn :: "conn \<Rightarrow> bool" where
  "before_spawn s \<longleftrightarrow> \<not> cn_listens s \<or> cn_pc s reader \<in> {InListen ListenArm, InListen ListenSpawn}"

definition role_inv :: "conn \<Rightarrow> bool" where
  "role_inv s \<longleftrightarrow> (\<forall>g. role_of g (cn_pc s g)) \<and> (before_spawn s \<longrightarrow> cn_pc s pinger = Outside) \<and>
     (\<not> cn_listens s \<longrightarrow> cn_pc s reader = Outside)"

lemma reader_pinger [simp]: "reader \<noteq> pinger" "pinger \<noteq> reader"
  by (simp_all add: reader_def pinger_def)

text \<open>A step of one goroutine that keeps to its role, and does not go back before the pinger's start.\<close>

lemma role_inv_goto:
  assumes "role_inv s" "cn_pc s' = (cn_pc s)(g := p')" "cn_listens s' = cn_listens s" "role_of g p'"
    and "g = reader \<Longrightarrow> cn_listens s \<and> (p' \<in> {InListen ListenArm, InListen ListenSpawn} \<longrightarrow> before_spawn s)"
    and "g = pinger \<Longrightarrow> \<not> before_spawn s"
  shows "role_inv s'"
  using assms unfolding role_inv_def before_spawn_def by (auto simp: fun_upd_def split: if_splits)

lemma role_inv_reachable: "conn_reachable cfg s \<Longrightarrow> role_inv s"
proof (induction rule: conn_reachable.induct)
  case (start now)
  show ?case by (simp add: role_inv_def NewWebsocketBus_def)
next
  case (step s e s')
  note I = step.IH
  then have roles: "role_of g (cn_pc s g)" for g by (simp add: role_inv_def)
  have active: "(g = reader \<longrightarrow> cn_listens s) \<and> (g = pinger \<longrightarrow> \<not> before_spawn s)"
    if "cn_pc s g \<noteq> Outside" for g
    using I that by (auto simp: role_inv_def)
  from step.hyps(2) show ?case
  proof (cases rule: conn_next_cases)
    case (send g r m p c)
    from send(2) obtain p' where p': "cn_pc s' = (cn_pc s)(g := p')" "p' = return_to r \<or> (\<exists>q. p' = InSend r m q)"
      "cn_listens s' = cn_listens s" by (rule send_step_goto)
    have "role_of g p'" using p'(2) roles [of g] send(1) return_to_role role_of_send by metis
    moreover have "p' \<notin> {InListen ListenArm, InListen ListenSpawn}" using p'(2) by (cases r) auto
    moreover have "cn_pc s g \<noteq> Outside" using send(1) by simp
    ultimately show ?thesis using role_inv_goto [OF I p'(1,3)] active by blast
  next
    case (closing g p c)
    from closing(2) obtain p' where p': "cn_pc s' = (cn_pc s)(g := p')" "p' = Outside \<or> (\<exists>q. p' = InClose q)"
      "cn_listens s' = cn_listens s" by (rule close_step_goto)
    have "role_of g p'" using p'(2) roles [of g] closing(1) by auto
    moreover have "cn_pc s g \<noteq> Outside" using closing(1) by simp
    ultimately show ?thesis using role_inv_goto [OF I p'(1,3)] active p'(2) by blast
  next
    case (ping g p c)
    from ping(2) obtain p' where p': "cn_pc s' = (cn_pc s)(g := p')" "p' = Outside \<or> (\<exists>q. p' = InPinger q)"
      "cn_listens s' = cn_listens s" by (rule pinger_step_goto)
    have "role_of g p'" "g = pinger" using p'(2) roles [of g] ping(1) by auto
    then show ?thesis using role_inv_goto [OF I p'(1,3)] active [of g] ping(1) p'(2) by auto
  next
    case (listen g p c)
    have g: "g = reader" using roles [of g] listen(1) by simp
    from listen(2) show ?thesis
    proof (cases rule: listen_step_goto)
      case spawn
      with I g listen(1) show ?thesis by (auto simp: role_inv_def before_spawn_def)
    next
      case (other p')
      then have "role_of g p'" using g by auto
      then show ?thesis
        using role_inv_goto [OF I other(2,4)] active [of g] listen(1) other(3,5) g by (auto simp: before_spawn_def)
    qed
  next
    case (start_send g m r)
    then have "role_of g (InSend r m SendLoad)" using roles [of g] by (auto simp: may_send_cases)
    moreover have "g = reader \<longrightarrow> cn_listens s" "g \<noteq> pinger"
      using start_send(1,2) roles [of g] active [of g] by (auto simp: may_send_cases other_def)
    ultimately show ?thesis
      using role_inv_goto [OF I, of s' g "InSend r m SendLoad"] start_send(3) by auto
  next
    case (start_close g)
    then show ?thesis using role_inv_goto [OF I, of s' g "InClose CloseDo"] by (auto simp: other_def)
  qed (use I in \<open>auto simp: role_inv_def before_spawn_def split: if_splits\<close>)
qed

text \<open>The write lock is held by the goroutine in a write section, and by no other.\<close>

lemma in_write_return [simp]: "\<not> in_write_section (return_to r)"
  by (cases r) auto

lemma lock_inv_reachable: "conn_reachable cfg s \<Longrightarrow> lock_inv s"
proof (induction rule: conn_reachable.induct)
  case (start now)
  show ?case by (simp add: lock_inv_def NewWebsocketBus_def)
next
  case (step s e s')
  note I = step.IH [unfolded lock_inv_def, rule_format]
  note R = role_inv_reachable [OF step.hyps(1), unfolded role_inv_def before_spawn_def]
  have U: "in_write_section (cn_pc s g) \<Longrightarrow> in_write_section (cn_pc s h) \<Longrightarrow> g = h" for g h
    using I by (metis option.inject)
  from step.hyps(2) show ?case
  proof (cases rule: conn_next_cases)
    case (send g r m p c)
    note Ig = I [of g, unfolded send(1)]
    from send(2) show ?thesis
      by (cases rule: send_step.elims) (use I Ig U in \<open>auto simp: lock_inv_def split: if_splits\<close>)
  next
    case (closing g p c)
    note Ig = I [of g, unfolded closing(1)]
    from closing(2) show ?thesis
      by (cases rule: close_step.elims) (use I Ig U in \<open>auto simp: lock_inv_def split: if_splits once.splits\<close>)
  next
    case (listen g p c)
    note Ig = I [of g, unfolded listen(1)]
    have g: "g = reader" using R listen(1) by (metis role_of.simps(6))
    from listen(2) show ?thesis
      by (cases rule: listen_step.elims)
        (use I Ig I [of pinger] U R g listen(1) [unfolded g] in \<open>auto simp: lock_inv_def split: if_splits option.splits\<close>)
  next
    case (ping g p c)
    note Ig = I [of g, unfolded ping(1)]
    from ping(2) show ?thesis
      by (cases rule: pinger_step.elims) (use I Ig U in \<open>auto simp: lock_inv_def split: if_splits\<close>)
  next
    case (start_send g m r)
    then have "\<not> in_write_section (cn_pc s g)" by (auto simp: may_send_cases)
    with I [of g] start_send(3) I show ?thesis by (auto simp: lock_inv_def)
  next
    case start_close
    with I show ?thesis by (auto simp: lock_inv_def)
  next
    case start_listen
    with I R show ?thesis by (auto simp: lock_inv_def)
  qed (use I in \<open>auto simp: lock_inv_def split: if_splits\<close>)
qed

section \<open>Closing\<close>

text \<open>A goroutine inside the function that \<open>closeOnce\<close> runs.\<close>

fun in_once :: "pc \<Rightarrow> bool" where
  "in_once (InClose q) \<longleftrightarrow> q \<noteq> CloseDo"
| "in_once (InSend r m q) \<longleftrightarrow> r = ByLeave"
| "in_once _ \<longleftrightarrow> False"

text \<open>The stages of closing that have happened when that goroutine is at a statement, and once it is
  done.\<close>

fun stages_at :: "bool \<Rightarrow> pc \<Rightarrow> action list set" where
  "stages_at skip (InClose CloseStore) = {[]}"
| "stages_at skip (InClose CloseDone) = {[MarkedClosed]}"
| "stages_at skip (InClose CloseSkip) = {[MarkedClosed, ClosedDone]}"
| "stages_at skip (InClose CloseLeave) = {[MarkedClosed, ClosedDone]}"
| "stages_at skip (InSend r m q) = (if q = SendLoad then {[MarkedClosed, ClosedDone]} else {})"
| "stages_at skip (InClose CloseSocket) =
     {[MarkedClosed, ClosedDone, LeftRoom]} \<union> (if skip then {[MarkedClosed, ClosedDone]} else {})"
| "stages_at skip (InClose CloseExit) =
     {[MarkedClosed, ClosedDone, LeftRoom, ClosedSocket]} \<union>
     (if skip then {[MarkedClosed, ClosedDone, ClosedSocket]} else {})"
| "stages_at skip _ = {}"

definition stages_done :: "bool \<Rightarrow> action list set" where
  "stages_done skip =
     {[MarkedClosed, ClosedDone, LeftRoom, ClosedSocket], [MarkedClosed, ClosedDone, LeavePanicked]} \<union>
     (if skip then {[MarkedClosed, ClosedDone, ClosedSocket]} else {})"

definition is_stage :: "action \<Rightarrow> bool" where
  "is_stage a = (case a of Wrote f \<Rightarrow> False | _ \<Rightarrow> True)"

definition stages :: "conn \<Rightarrow> action list" where
  "stages s = filter is_stage (cn_log s)"

definition once_inv :: "conn \<Rightarrow> bool" where
  "once_inv s \<longleftrightarrow> (\<forall>g. cn_once s = Running g \<longleftrightarrow> in_once (cn_pc s g)) \<and>
     stages s \<in> (case cn_once s of
        Fresh \<Rightarrow> {[]} | Running g \<Rightarrow> stages_at (cn_skipCleanup s) (cn_pc s g) | Done \<Rightarrow> stages_done (cn_skipCleanup s)) \<and>
     cn_closed s = (MarkedClosed \<in> set (stages s)) \<and> cn_done s = (ClosedDone \<in> set (stages s)) \<and>
     cn_open s = (ClosedSocket \<notin> set (stages s))"

lemma stages_simps [simp]:
  "stages (goto g p s) = stages s"
  "stages (note_action a s) = (if is_stage a then stages s @ [a] else stages s)"
  "stages (s\<lparr>cn_writeMu := m\<rparr>) = stages s" "stages (s\<lparr>cn_writeDeadline := d\<rparr>) = stages s"
  "stages (s\<lparr>cn_readDeadline := d\<rparr>) = stages s" "stages (s\<lparr>cn_tick := b\<rparr>) = stages s"
  "stages (s\<lparr>cn_pongHandler := b\<rparr>) = stages s" "stages (s\<lparr>cn_ctxDone := b\<rparr>) = stages s"
  "stages (s\<lparr>cn_listens := b\<rparr>) = stages s" "stages (s\<lparr>cn_now := t\<rparr>) = stages s"
  "stages (s\<lparr>cn_skipCleanup := b\<rparr>) = stages s" "stages (s\<lparr>cn_once := c\<rparr>) = stages s"
  "stages (s\<lparr>cn_closed := b\<rparr>) = stages s" "stages (s\<lparr>cn_done := b\<rparr>) = stages s"
  "stages (s\<lparr>cn_open := b\<rparr>) = stages s"
  by (simp_all add: stages_def note_action_def)

lemma is_stage_simps [simp]:
  "is_stage MarkedClosed" "is_stage ClosedDone" "is_stage LeftRoom" "is_stage LeavePanicked" "is_stage ClosedSocket"
  "\<not> is_stage (Wrote f)"
  by (simp_all add: is_stage_def)

lemma in_once_return: "in_once (return_to r) \<longleftrightarrow> r = ByLeave"
  by (cases r) auto

text \<open>A step of a goroutine that is not inside the function, and stays outside it.\<close>

lemma once_inv_goto:
  assumes "once_inv s" "cn_pc s' = (cn_pc s)(g := p')" "\<not> in_once (cn_pc s g)" "\<not> in_once p'"
    and "cn_once s' = cn_once s" "stages s' = stages s" "cn_skipCleanup s' = cn_skipCleanup s"
    and "cn_closed s' = cn_closed s" "cn_done s' = cn_done s" "cn_open s' = cn_open s"
  shows "once_inv s'"
proof -
  have g: "cn_once s \<noteq> Running g" using assms(1,3) by (simp add: once_inv_def)
  have "cn_once s' = Running h \<longleftrightarrow> in_once (cn_pc s' h)" for h
    using assms(1-5) by (cases "h = g") (simp_all add: once_inv_def)
  moreover have "stages_at skip (cn_pc s' h) = stages_at skip (cn_pc s h)" if "cn_once s = Running h" for skip h
    using g that assms(2) by auto
  ultimately show ?thesis
    using assms(1) unfolding once_inv_def assms(5-10)
    by (cases "cn_once s") (simp_all, metis)
qed

lemma stages_at_mono: "x \<in> stages_at skip p \<Longrightarrow> x \<in> stages_at True p"
  by (cases "(skip, p)" rule: stages_at.cases) (auto split: if_splits)

lemma stages_done_mono: "x \<in> stages_done skip \<Longrightarrow> x \<in> stages_done True"
  by (auto simp: stages_done_def split: if_splits)

lemma once_inv_cong:
  assumes "once_inv s" "cn_pc s' = cn_pc s" "cn_once s' = cn_once s" "stages s' = stages s"
    and "cn_skipCleanup s' = cn_skipCleanup s" "cn_closed s' = cn_closed s" "cn_done s' = cn_done s" "cn_open s' = cn_open s"
  shows "once_inv s'"
  using assms(1) unfolding once_inv_def assms(2-8) .

lemma once_inv_reachable: "conn_reachable cfg s \<Longrightarrow> once_inv s"
proof (induction rule: conn_reachable.induct)
  case (start now)
  show ?case by (simp add: once_inv_def NewWebsocketBus_def stages_def)
next
  case (step s e s')
  note I = step.IH
  note I' = step.IH [unfolded once_inv_def]
  note R = role_inv_reachable [OF step.hyps(1), unfolded role_inv_def before_spawn_def]
  from step.hyps(2) show ?case
  proof (cases rule: conn_next_cases)
    case (send g r m p c)
    show ?thesis
    proof (cases "r = ByLeave")
      case True
      with I' send(1) have g: "cn_once s = Running g" by simp
      with I' send(1) have p: "p = SendLoad" "stages s = [MarkedClosed, ClosedDone]"
        by (auto split: if_splits)
      with g I' have "cn_closed s" by simp
      with send(2) p True have "s' = goto g (InClose CloseLeave) s"
        by (cases c) simp_all
      with I g p send(1) True show ?thesis by (auto simp: once_inv_def)
    next
      case False
      then have "\<not> in_once (InSend r m q)" for q by simp
      with False send show ?thesis
        by (cases rule: send_step.elims [OF send(2)])
          (auto intro!: once_inv_goto [OF I] simp: in_once_return split: if_splits)
    qed
  next
    case (closing g p c)
    show ?thesis
    proof (cases "p = CloseDo")
      case True
      with closing have c: "c = Continues" and g: "\<not> in_once (cn_pc s g)" by (cases c; simp)+
      show ?thesis
      proof (cases "cn_once s")
        case Fresh
        with closing c True have "s' = goto g (InClose CloseStore) (s\<lparr>cn_once := Running g\<rparr>)" by simp
        with Fresh I' show ?thesis by (simp add: once_inv_def)
      next
        case Running
        with closing c True show ?thesis by simp
      next
        case Done
        with closing c True have "s' = goto g Outside s" by simp
        then show ?thesis using g by (intro once_inv_goto [OF I, where g = g and p' = Outside]) auto
      qed
    next
      case False
      with I' closing(1) have g: "cn_once s = Running g" by simp
      from closing(2) show ?thesis
        by (cases rule: close_step.elims) (use False g closing(1) I' in \<open>auto simp: once_inv_def stages_done_def\<close>)
    qed
  next
    case (listen g p c)
    then have g: "\<not> in_once (cn_pc s g)" by simp
    from listen(2) show ?thesis
    proof (cases rule: listen_step_goto)
      case spawn
      from R listen(1) have "g = reader" by (metis role_of.simps(6))
      with R listen(1) spawn(1) have "cn_pc s pinger = Outside" by auto
      then have "once_inv (goto pinger (InPinger PingerHandler) s)"
        by (intro once_inv_goto [OF I, where g = pinger and p' = "InPinger PingerHandler"]) auto
      then show ?thesis
        unfolding spawn(2) by (rule once_inv_goto [where g = g and p' = "InListen ListenReceive"]) (use g \<open>g = reader\<close> in auto)
    next
      case (other p')
      have "cn_once s' = cn_once s" "stages s' = stages s" "cn_skipCleanup s' = cn_skipCleanup s"
        "cn_closed s' = cn_closed s" "cn_done s' = cn_done s" "cn_open s' = cn_open s"
        using listen(2) other(1) by (cases rule: listen_step.elims; auto split: if_splits)+
      then show ?thesis using once_inv_goto [OF I other(2) g] other(3) by auto
    qed
  next
    case (ping g p c)
    from ping(2) show ?thesis
      by (cases rule: pinger_step.elims) (auto intro!: once_inv_goto [OF I] simp: ping(1) split: if_splits)
  next
    case (start_send g m r)
    show ?thesis
    proof (cases "r = ByLeave")
      case True
      with start_send(1) have p: "cn_pc s g = InClose CloseLeave" by (simp add: may_send_cases)
      with I' have g: "cn_once s = Running g" by simp
      with I' p have "stages s = [MarkedClosed, ClosedDone]" by simp
      with I' p g True show ?thesis by (simp add: once_inv_def start_send(3))
    next
      case False
      with start_send(1) have "\<not> in_once (cn_pc s g)" by (auto simp: may_send_cases)
      with False show ?thesis unfolding start_send(3)
        by (intro once_inv_goto [OF I, where g = g and p' = "InSend r m SendLoad"]) auto
    qed
  next
    case (start_close g)
    then show ?thesis by (intro once_inv_goto [OF I, where g = g and p' = "InClose CloseDo"]) auto
  next
    case (detach g)
    then have sel: "cn_pc s' = cn_pc s" "cn_once s' = cn_once s" "stages s' = stages s" "cn_skipCleanup s'"
      "cn_closed s' = cn_closed s" "cn_done s' = cn_done s" "cn_open s' = cn_open s" by simp_all
    show ?thesis
      using I' unfolding once_inv_def sel
      by (cases "cn_once s") (auto simp: sel intro: stages_at_mono stages_done_mono)
  next
    case start_listen
    with R have "cn_pc s reader = Outside" by simp
    with start_listen show ?thesis
      by (intro once_inv_goto [OF I, where g = reader and p' = "InListen ListenArm"]) auto
  qed (rule once_inv_cong [OF I], simp_all split: if_splits)+
qed

text \<open>Nothing is written after the socket is closed.\<close>

definition silent_after_close :: "action list \<Rightarrow> bool" where
  "silent_after_close as \<longleftrightarrow> (\<forall>f. Wrote f \<notin> set (tl (dropWhile (\<lambda>a. a \<noteq> ClosedSocket) as)))"

lemma silent_append:
  assumes "silent_after_close as" "ClosedSocket \<in> set as \<Longrightarrow> is_stage a"
  shows "silent_after_close (as @ [a])"
proof (cases "ClosedSocket \<in> set as")
  case True
  then have "dropWhile (\<lambda>a. a \<noteq> ClosedSocket) as \<noteq> []" by (simp add: dropWhile_eq_Nil_conv)
  moreover have "dropWhile (\<lambda>a. a \<noteq> ClosedSocket) (as @ [a]) = dropWhile (\<lambda>a. a \<noteq> ClosedSocket) as @ [a]"
    using True by (simp add: dropWhile_append1)
  ultimately show ?thesis using assms True by (auto simp: silent_after_close_def)
next
  case False
  then have "dropWhile (\<lambda>a. a \<noteq> ClosedSocket) (as @ [a]) = dropWhile (\<lambda>a. a \<noteq> ClosedSocket) [a]"
    by (metis (mono_tags, lifting) dropWhile_append2)
  then show ?thesis by (simp add: silent_after_close_def)
qed

lemma silent_reachable: "conn_reachable cfg s \<Longrightarrow> silent_after_close (cn_log s)"
proof (induction rule: conn_reachable.induct)
  case (start now)
  show ?case by (simp add: silent_after_close_def NewWebsocketBus_def)
next
  case (step s e s')
  have "cn_open s \<longleftrightarrow> ClosedSocket \<notin> set (cn_log s)"
    using once_inv_reachable [OF step.hyps(1)] by (auto simp: once_inv_def stages_def)
  moreover have "cn_log s' = cn_log s \<or> (\<exists>a. cn_log s' = cn_log s @ [a] \<and> (is_stage a \<or> cn_open s))"
    using step.hyps(2)
  proof (cases rule: conn_next_cases)
    case (send g r m p c)
    from send(2) show ?thesis by (cases rule: send_step.elims) (auto split: if_splits)
  next
    case (closing g p c)
    from closing(2) show ?thesis by (cases rule: close_step.elims) (auto split: once.splits)
  next
    case (listen g p c)
    from listen(2) show ?thesis by (cases rule: listen_step.elims) (auto split: if_splits)
  next
    case (ping g p c)
    from ping(2) show ?thesis by (cases rule: pinger_step.elims) (auto split: if_splits)
  qed (auto split: if_splits)
  ultimately show ?case using silent_append [OF step.IH] step.IH by auto
qed

end
