(* ===== verification/Connection_Properties.thy ===== *)
theory Connection_Properties
  imports Connection
begin

text \<open>
  What holds of a connection however its goroutines interleave: writes exclude one another, closing
  happens once and in order, nobody is stuck, the pinger ends, and a silent client is given up.
\<close>

section \<open>Writing\<close>

lemma write_section_unique:
  assumes "conn_reachable cfg s" "in_write_section (cn_pc s g)" "in_write_section (cn_pc s h)"
  shows "g = h"
  using lock_inv_reachable [OF assms(1)] assms(2,3) unfolding lock_inv_def by (metis option.inject)

section \<open>What the invariant gives\<close>

lemma once_running: "once_inv s \<Longrightarrow> cn_once s = Running g \<longleftrightarrow> in_once (cn_pc s g)"
  unfolding once_inv_def by blast

lemma once_stages:
  assumes "once_inv s"
  shows "cn_once s = Fresh \<Longrightarrow> stages s = []"
    "cn_once s = Running g \<Longrightarrow> stages s \<in> stages_at (cn_skipCleanup s) (cn_pc s g)"
    "cn_once s = Done \<Longrightarrow> stages s \<in> stages_done (cn_skipCleanup s)"
proof -
  have at: "stages s \<in> (case cn_once s of Fresh \<Rightarrow> {[]}
      | Running g \<Rightarrow> stages_at (cn_skipCleanup s) (cn_pc s g) | Done \<Rightarrow> stages_done (cn_skipCleanup s))"
    using assms unfolding once_inv_def by blast
  show "cn_once s = Fresh \<Longrightarrow> stages s = []"
    "cn_once s = Running g \<Longrightarrow> stages s \<in> stages_at (cn_skipCleanup s) (cn_pc s g)"
    "cn_once s = Done \<Longrightarrow> stages s \<in> stages_done (cn_skipCleanup s)"
    using at by simp_all
qed

lemma once_flags:
  assumes "once_inv s"
  shows "cn_closed s \<longleftrightarrow> MarkedClosed \<in> set (stages s)" "cn_done s \<longleftrightarrow> ClosedDone \<in> set (stages s)"
    "cn_open s \<longleftrightarrow> ClosedSocket \<notin> set (stages s)"
  using assms unfolding once_inv_def by blast+

lemma stages_complete:
  assumes "once_inv s"
  shows "\<exists>rest. stages s @ rest \<in> stages_done True"
proof (cases "cn_once s")
  case Fresh
  then show ?thesis using once_stages(1) [OF assms] by (auto simp: stages_done_def)
next
  case (Running g)
  have "\<exists>rest. x @ rest \<in> stages_done True" if "x \<in> stages_at skip p" for x skip p
    using that by (cases "(skip, p)" rule: stages_at.cases) (auto simp: stages_done_def split: if_splits)
  then show ?thesis using once_stages(2) [OF assms Running] by blast
next
  case Done
  then have "stages s @ [] \<in> stages_done True" using once_stages(3) [OF assms] by (auto intro: stages_done_mono)
  then show ?thesis by blast
qed

lemma done_is_closed:
  assumes "once_inv s" "cn_done s"
  shows "cn_closed s"
proof -
  obtain rest where "stages s @ rest \<in> stages_done True" using stages_complete [OF assms(1)] by blast
  moreover have "ClosedDone \<in> set (stages s)" using once_flags(2) [OF assms(1)] assms(2) by simp
  ultimately have "MarkedClosed \<in> set (stages s)" by (cases "stages s") (auto simp: stages_done_def)
  then show ?thesis using once_flags(1) [OF assms(1)] by simp
qed

section \<open>Progress\<close>

definition can_step :: "WebSocketConfig \<Rightarrow> conn \<Rightarrow> nat \<Rightarrow> bool" where
  "can_step cfg s g \<longleftrightarrow> (\<exists>c s'. goroutine_step cfg g c s = Some s')"

text \<open>The pinger waits for a tick, or for the connection or its context to end.\<close>

definition pinger_waits :: "conn \<Rightarrow> nat \<Rightarrow> bool" where
  "pinger_waits s g \<longleftrightarrow> cn_pc s g = InPinger PingerSelect \<and> \<not> cn_tick s \<and> \<not> cn_done s \<and> \<not> cn_ctxDone s"

lemma can_stepI: "goroutine_step cfg g c s = Some s' \<Longrightarrow> can_step cfg s g"
  by (auto simp: can_step_def)

lemma send_can_step:
  assumes "cn_pc s g = InSend r m p" "p = SendLock \<longrightarrow> cn_writeMu s = None"
  shows "can_step cfg s g"
proof (cases p)
  case SendWrite
  with assms show ?thesis by (intro can_stepI [of cfg g Fails]) (simp add: goroutine_step_def)
qed (use assms in \<open>auto intro!: can_stepI [of cfg g Continues] simp: goroutine_step_def\<close>)

lemma close_can_step:
  assumes "cn_pc s g = InClose p" "p = CloseDo \<longrightarrow> (\<forall>h. cn_once s \<noteq> Running h)"
  shows "can_step cfg s g"
proof (cases p)
  case CloseDo
  with assms show ?thesis
    by (cases "cn_once s") (auto intro!: can_stepI [of cfg g Continues] simp: goroutine_step_def)
qed (use assms in \<open>auto intro!: can_stepI [of cfg g Continues] simp: goroutine_step_def\<close>)

lemma listen_can_step:
  assumes "cn_pc s g = InListen p"
  shows "can_step cfg s g"
proof (cases p)
  case ListenReceive
  with assms show ?thesis
    by (intro can_stepI [of cfg g "Reads (Some OtherErr)"]) (simp add: goroutine_step_def read_possible_def)
qed (use assms in \<open>auto intro!: can_stepI [of cfg g Continues] simp: goroutine_step_def\<close>)

lemma pinger_can_step:
  assumes "cn_pc s g = InPinger p" "\<not> pinger_waits s g" "p = PingerLock \<longrightarrow> cn_writeMu s = None"
  shows "can_step cfg s g"
proof (cases p)
  case PingerSelect
  with assms consider "cn_tick s" | "cn_done s" | "cn_ctxDone s" by (auto simp: pinger_waits_def)
  then show ?thesis
  proof cases
    case 1
    with assms PingerSelect show ?thesis by (intro can_stepI [of cfg g TakesTick]) (simp add: goroutine_step_def)
  next
    case 2
    with assms PingerSelect show ?thesis by (intro can_stepI [of cfg g TakesDone]) (simp add: goroutine_step_def)
  next
    case 3
    with assms PingerSelect show ?thesis by (intro can_stepI [of cfg g TakesContext]) (simp add: goroutine_step_def)
  qed
next
  case PingerWrite
  with assms show ?thesis by (intro can_stepI [of cfg g Fails]) (simp add: goroutine_step_def)
qed (use assms in \<open>auto intro!: can_stepI [of cfg g Continues] simp: goroutine_step_def\<close>)

text \<open>A goroutine in a write section can go on.\<close>

lemma write_section_can_step:
  assumes "in_write_section (cn_pc s g)"
  shows "can_step cfg s g"
proof (cases "cn_pc s g")
  case (InSend r m q)
  with assms show ?thesis by (intro send_can_step) auto
next
  case (InPinger q)
  with assms show ?thesis by (intro pinger_can_step) (auto simp: pinger_waits_def)
qed (use assms in simp_all)

text \<open>So can the one inside \<open>closeOnce\<close>: what \<open>leaveRoom\<close> sends finds the connection closed.\<close>

lemma in_once_can_step:
  assumes "conn_reachable cfg s" "cn_once s = Running g"
  shows "can_step cfg s g"
proof -
  note I = once_inv_reachable [OF assms(1)]
  have g: "in_once (cn_pc s g)" using once_running [OF I, of g] assms(2) by simp
  note st = once_stages(2) [OF I assms(2)]
  show ?thesis
  proof (cases "cn_pc s g")
    case (InSend r m q)
    with st have "q = SendLoad" by (auto split: if_splits)
    with InSend show ?thesis by (intro send_can_step) auto
  next
    case (InClose q)
    with g show ?thesis by (intro close_can_step) auto
  qed (use g in simp_all)
qed

section \<open>The pinger ends\<close>

fun pinger_weight :: "conn \<Rightarrow> pc \<Rightarrow> nat" where
  "pinger_weight s (InPinger PingerHandler) = 4"
| "pinger_weight s (InPinger PingerTicker) = 3"
| "pinger_weight s (InPinger PingerSelect) = 2"
| "pinger_weight s (InPinger PingerLoad) = 4"
| "pinger_weight s (InPinger PingerLock) = 7"
| "pinger_weight s (InPinger PingerDeadline) = 6"
| "pinger_weight s (InPinger PingerWrite) = 5"
| "pinger_weight s (InPinger (PingerUnlock b)) = 4"
| "pinger_weight s (InPinger (PingerResult b)) = 3"
| "pinger_weight s (InPinger PingerStop) = 1"
| "pinger_weight s _ = (if before_spawn s then 4 else 0)"

definition pinger_work :: "conn \<Rightarrow> nat" where
  "pinger_work s = pinger_weight s (cn_pc s pinger) + (if cn_tick s then 3 else 0)"

definition pings :: "conn \<Rightarrow> nat" where
  "pings s = count_list (cn_log s) (Wrote PingFrame)"

definition ping_pending :: "conn \<Rightarrow> nat" where
  "ping_pending s =
     (if cn_pc s pinger \<in> {InPinger PingerLock, InPinger PingerDeadline, InPinger PingerWrite} then 1 else 0)"

fun step_of :: "nat \<Rightarrow> event \<Rightarrow> nat" where
  "step_of g (Steps h c) = (if h = g then 1 else 0)"
| "step_of g e = 0"

fun tick_of :: "event \<Rightarrow> nat" where
  "tick_of Ticks = 1"
| "tick_of e = 0"

definition steps_of :: "nat \<Rightarrow> event list \<Rightarrow> nat" where
  "steps_of g es = sum_list (map (step_of g) es)"

definition ticks :: "event list \<Rightarrow> nat" where
  "ticks es = sum_list (map tick_of es)"

lemma before_spawn_goto:
  assumes "cn_pc s' = (cn_pc s)(g := p')" "cn_listens s' = cn_listens s"
    and "p' \<notin> {InListen ListenArm, InListen ListenSpawn}"
  shows "before_spawn s' \<longrightarrow> before_spawn s"
  using assms by (auto simp: before_spawn_def)

lemma pinger_weight_le:
  "(before_spawn s' \<longrightarrow> before_spawn s) \<Longrightarrow> pinger_weight s' p \<le> pinger_weight s p"
  by (cases "(s, p)" rule: pinger_weight.cases) auto

text \<open>Once the connection is closed, every step of the pinger uses up work, and nothing but a tick gives
  it any; a ping that it was about to send is the last.\<close>

lemma pinger_work_step:
  assumes "conn_reachable cfg s" "cn_done s" "conn_next cfg e s = Some s'"
  shows "step_of pinger e + pinger_work s' \<le> pinger_work s + 3 * tick_of e \<and>
    pings s' + ping_pending s' \<le> pings s + ping_pending s \<and> cn_done s'"
proof -
  note I = once_inv_reachable [OF assms(1)]
  note R = role_inv_reachable [OF assms(1), unfolded role_inv_def]
  note closed = done_is_closed [OF I assms(2)]
  have other_goroutine: ?thesis
    if "cn_pc s' pinger = cn_pc s pinger" "cn_tick s' = cn_tick s" "pings s' = pings s" "cn_done s'"
      "before_spawn s' \<longrightarrow> before_spawn s" "step_of pinger e = 0"
  proof -
    show ?thesis
      using that pinger_weight_le [OF that(5), of "cn_pc s pinger"]
      by (simp add: pinger_work_def ping_pending_def trans_le_add1)
  qed
  from assms(3) show ?thesis
  proof (cases rule: conn_next_cases)
    case (ping g p c)
    then have g: "g = pinger" using R by (metis role_of.simps(7))
    have "\<not> before_spawn s" using R ping(1) g by auto
    with ping(2) show ?thesis
      by (cases rule: pinger_step.elims)
        (use g ping(1,3) closed assms(2) in \<open>auto simp: pinger_work_def ping_pending_def pings_def before_spawn_def split: if_splits\<close>)
  next
    case (send g r m p c)
    from R have "role_of g (InSend r m p)" using send(1) by metis
    then have g: "g \<noteq> pinger" by (cases r) (auto simp: other_def)
    obtain p' where p': "cn_pc s' = (cn_pc s)(g := p')" "p' = return_to r \<or> (\<exists>q. p' = InSend r m q)"
      "cn_listens s' = cn_listens s" using send_step_goto [OF send(2)] .
    have "p' \<notin> {InListen ListenArm, InListen ListenSpawn}" using p'(2) by (cases r) auto
    note b = before_spawn_goto [OF p'(1,3) this]
    have "cn_tick s' = cn_tick s" "pings s' = pings s" "cn_done s' = cn_done s"
      using send(2) by (cases rule: send_step.elims; auto simp: pings_def split: if_splits)+
    with g b p'(1) send(3) assms(2) show ?thesis by (intro other_goroutine) auto
  next
    case (closing g p c)
    from R have "role_of g (InClose p)" using closing(1) by metis
    then have g: "g \<noteq> pinger" by simp
    obtain p' where p': "cn_pc s' = (cn_pc s)(g := p')" "p' = Outside \<or> (\<exists>q. p' = InClose q)"
      "cn_listens s' = cn_listens s" using close_step_goto [OF closing(2)] .
    then have "p' \<notin> {InListen ListenArm, InListen ListenSpawn}" by auto
    note b = before_spawn_goto [OF p'(1,3) this]
    have "cn_tick s' = cn_tick s" "pings s' = pings s" "cn_done s \<longrightarrow> cn_done s'"
      using closing(2) by (cases rule: close_step.elims; auto simp: pings_def split: once.splits)+
    with g b p'(1) closing(3) assms(2) show ?thesis by (intro other_goroutine) auto
  next
    case (listen g p c)
    from R have "role_of g (InListen p)" using listen(1) by metis
    then have g: "g = reader" by simp
    from listen(2) show ?thesis
    proof (cases rule: listen_step_goto)
      case spawn
      with R g listen(1) have "before_spawn s" "cn_pc s pinger = Outside" by (auto simp: before_spawn_def)
      with spawn(2) g listen(3) assms(2) show ?thesis by (simp add: pinger_work_def ping_pending_def pings_def)
    next
      case (other p')
      have "before_spawn s' \<longrightarrow> before_spawn s"
        using other(2-5) g listen(1) by (auto simp: before_spawn_def)
      moreover have "cn_tick s' = cn_tick s" "pings s' = pings s" "cn_done s' = cn_done s"
        using listen(2) other(1) by (cases rule: listen_step.elims; auto simp: pings_def split: if_splits)+
      ultimately show ?thesis using g other(2) listen(3) assms(2) by (intro other_goroutine) auto
    qed
  next
    case (start_send g m r)
    from R have "role_of g (cn_pc s g)" by simp
    with start_send(1,2) have g: "g \<noteq> pinger" by (auto simp: may_send_cases other_def)
    with start_send(3,4) assms(2) show ?thesis
      by (intro other_goroutine) (auto simp: pings_def before_spawn_def)
  next
    case (start_close g)
    with assms(2) show ?thesis
      by (intro other_goroutine) (auto simp: pings_def before_spawn_def other_def)
  next
    case (detach g)
    then show ?thesis using assms(2) by (intro other_goroutine) (auto simp: pings_def before_spawn_def)
  next
    case start_listen
    then show ?thesis using assms(2) by (intro other_goroutine) (auto simp: pings_def before_spawn_def)
  next
    case tick
    then have "before_spawn s' \<longrightarrow> before_spawn s" by (simp add: before_spawn_def)
    note w = pinger_weight_le [OF this, of "cn_pc s pinger"]
    have "cn_pc s' = cn_pc s" "cn_tick s'" "cn_log s' = cn_log s" "cn_done s'" "tick_of e = 1" "step_of pinger e = 0"
      using tick assms(2) by simp_all
    then show ?thesis using w by (auto simp: pinger_work_def ping_pending_def pings_def)
  next
    case pong
    then show ?thesis using assms(2)  by (intro other_goroutine) (auto simp: pings_def before_spawn_def)
  next
    case ctx
    then show ?thesis using assms(2)  by (intro other_goroutine) (auto simp: pings_def before_spawn_def)
  next
    case pass
    then show ?thesis using assms(2)  by (intro other_goroutine) (auto simp: pings_def before_spawn_def)
  qed
qed

lemma pinger_work_run:
  assumes "conn_reachable cfg s" "cn_done s" "conn_run cfg es s = Some s'"
  shows "steps_of pinger es + pinger_work s' \<le> pinger_work s + 3 * ticks es \<and>
    pings s' + ping_pending s' \<le> pings s + ping_pending s \<and> cn_done s'"
  using assms
proof (induction es arbitrary: s)
  case Nil
  then show ?case by (simp add: steps_of_def)
next
  case (Cons e es)
  then obtain t where t: "conn_next cfg e s = Some t" "conn_run cfg es t = Some s'"
    by (auto split: option.splits)
  note step = pinger_work_step [OF Cons.prems(1,2) t(1)]
  have "steps_of pinger es + pinger_work s' \<le> pinger_work t + 3 * ticks es \<and>
      pings s' + ping_pending s' \<le> pings t + ping_pending t \<and> cn_done s'"
    using Cons.IH conn_reachable.step [OF Cons.prems(1) t(1)] step t(2) by blast
  with step show ?case by (simp add: steps_of_def ticks_def)
qed

lemma pinger_work_bound: "pinger_work s \<le> 10" "ping_pending s \<le> 1"
proof -
  have "pinger_weight s p \<le> 7" for p by (cases "(s, p)" rule: pinger_weight.cases) auto
  then show "pinger_work s \<le> 10" by (simp add: pinger_work_def add_le_mono [of _ 7 _ 3, simplified])
  show "ping_pending s \<le> 1" by (simp add: ping_pending_def)
qed


section \<open>Silent clients\<close>

definition heard :: "event \<Rightarrow> bool" where
  "heard e \<longleftrightarrow> e = Steps reader (Reads None) \<or> e = Pongs"

text \<open>The reader has left its loop: it is on its way to \<open>Close\<close>, in it, or has returned from it.\<close>

fun leaving :: "pc \<Rightarrow> bool" where
  "leaving Outside \<longleftrightarrow> True"
| "leaving (InClose q) \<longleftrightarrow> True"
| "leaving (InSend r m q) \<longleftrightarrow> r = ByLeave"
| "leaving (InListen q) \<longleftrightarrow> (case q of ListenRearm r \<Rightarrow> r \<noteq> None | ListenError _ \<Rightarrow> True | _ \<Rightarrow> False)"
| "leaving (InPinger q) \<longleftrightarrow> False"

definition gave_up :: "conn \<Rightarrow> bool" where
  "gave_up s \<longleftrightarrow> cn_listens s \<and> leaving (cn_pc s reader) \<and> (cn_pc s reader = Outside \<longrightarrow> cn_once s = Done)"

lemma once_done_stays:
  assumes "conn_next cfg e s = Some s'" "cn_once s = Done"
  shows "cn_once s' = Done \<or> (\<exists>g. in_once (cn_pc s g))"
  using assms
proof (cases rule: conn_next_cases)
  case (send g r m p c)
  from send(2) assms(2) show ?thesis by (cases rule: send_step.elims) (auto split: if_splits)
next
  case (closing g p c)
  from closing(2) assms(2) show ?thesis by (cases rule: close_step.elims) (auto split: once.splits)
next
  case (listen g p c)
  from listen(2) assms(2) show ?thesis by (cases rule: listen_step.elims) (auto split: if_splits)
next
  case (ping g p c)
  from ping(2) assms(2) show ?thesis by (cases rule: pinger_step.elims) (auto split: if_splits)
qed (auto split: if_splits)

lemma once_done_step:
  assumes "conn_reachable cfg s" "conn_next cfg e s = Some s'" "cn_once s = Done"
  shows "cn_once s' = Done"
  using once_done_stays [OF assms(2,3)] once_running [OF once_inv_reachable [OF assms(1)]] assms(3)
  by (metis once.distinct(5))

lemma step_frames:
  "send_step cfg g r m p c s = Some s' \<Longrightarrow> cn_readDeadline s' = cn_readDeadline s \<and> cn_now s' = cn_now s"
  "close_step g q c s = Some s' \<Longrightarrow> cn_readDeadline s' = cn_readDeadline s \<and> cn_now s' = cn_now s"
  "pinger_step cfg g k c s = Some s' \<Longrightarrow> cn_readDeadline s' = cn_readDeadline s \<and> cn_now s' = cn_now s"
proof -
  show "send_step cfg g r m p c s = Some s' \<Longrightarrow> cn_readDeadline s' = cn_readDeadline s \<and> cn_now s' = cn_now s"
    by (erule send_step.elims) (auto split: if_splits)
  show "close_step g q c s = Some s' \<Longrightarrow> cn_readDeadline s' = cn_readDeadline s \<and> cn_now s' = cn_now s"
    by (erule close_step.elims) (auto split: once.splits)
  show "pinger_step cfg g k c s = Some s' \<Longrightarrow> cn_readDeadline s' = cn_readDeadline s \<and> cn_now s' = cn_now s"
    by (erule pinger_step.elims) (auto split: if_splits)
qed

lemma close_step_outside:
  "close_step g p c s = Some s' \<Longrightarrow> cn_pc s' g = Outside \<Longrightarrow> cn_once s' = Done"
  by (erule close_step.elims) (auto split: once.splits)

lemma gave_up_step:
  assumes "conn_reachable cfg s" "conn_next cfg e s = Some s'" "gave_up s"
  shows "gave_up s'"
proof -
  note roles = role_inv_reachable [OF assms(1), unfolded role_inv_def, THEN conjunct1, rule_format]
  have L: "cn_listens s" "leaving (cn_pc s reader)" and D: "cn_pc s reader = Outside \<Longrightarrow> cn_once s = Done"
    using assms(3) by (simp_all add: gave_up_def)
  note stays = once_done_step [OF assms(1,2)]
  have other_goroutine: ?thesis if "cn_pc s' = (cn_pc s)(g := p')" "g \<noteq> reader" "cn_listens s' = cn_listens s" for g p'
    using that L D stays by (simp add: gave_up_def)
  from assms(2) show ?thesis
  proof (cases rule: conn_next_cases)
    case (send g r m p c)
    obtain p' where p': "cn_pc s' = (cn_pc s)(g := p')" "p' = return_to r \<or> (\<exists>q. p' = InSend r m q)"
      "cn_listens s' = cn_listens s" using send_step_goto [OF send(2)] .
    show ?thesis
    proof (cases "g = reader")
      case True
      with L send(1) have "r = ByLeave" by simp
      with p' L True show ?thesis by (auto simp: gave_up_def)
    qed (use other_goroutine p' in blast)
  next
    case (closing g p c)
    obtain p' where p': "cn_pc s' = (cn_pc s)(g := p')" "p' = Outside \<or> (\<exists>q. p' = InClose q)"
      "cn_listens s' = cn_listens s" using close_step_goto [OF closing(2)] .
    show ?thesis
    proof (cases "g = reader")
      case True
      with p' L close_step_outside [OF closing(2)] show ?thesis by (auto simp: gave_up_def)
    qed (use other_goroutine p' in blast)
  next
    case (listen g p c)
    with roles [of g] have g: "g = reader" by simp
    with L listen(1) consider r where "p = ListenRearm (Some r)" | r where "p = ListenError r"
      by (cases p) auto
    then show ?thesis
    proof cases
      case 1
      with listen(2) g L show ?thesis by (cases c) (auto simp: gave_up_def)
    next
      case 2
      with listen(2) g L show ?thesis by (cases c) (auto simp: gave_up_def)
    qed
  next
    case (ping g p c)
    obtain p' where p': "cn_pc s' = (cn_pc s)(g := p')" "cn_listens s' = cn_listens s"
      using pinger_step_goto [OF ping(2)] .
    moreover have "g \<noteq> reader" using roles [of g] ping(1) by auto
    ultimately show ?thesis using other_goroutine by blast
  next
    case (start_send g m r)
    show ?thesis
    proof (cases "g = reader")
      case True
      with L start_send have "r = ByLeave" by (auto simp: may_send_cases other_def)
      with L start_send(3) True show ?thesis by (simp add: gave_up_def)
    qed (use other_goroutine [of g "InSend r m SendLoad"] start_send(3) in simp)
  next
    case (start_close g)
    then show ?thesis using other_goroutine [of g "InClose CloseDo"] by (simp add: other_def)
  qed (use L D stays in \<open>auto simp: gave_up_def split: if_splits\<close>)
qed

lemma silent_step:
  assumes "conn_reachable cfg s" "conn_next cfg e s = Some s'" "\<not> heard e"
    and "cn_pc s reader = InListen ListenReceive"
  shows "gave_up s' \<or> cn_pc s' reader = InListen ListenReceive \<and> cn_readDeadline s' = cn_readDeadline s \<and>
    cn_now s' \<le> max (cn_now s) (cn_readDeadline s)"
proof -
  note roles = role_inv_reachable [OF assms(1), unfolded role_inv_def, THEN conjunct1, rule_format]
  have L: "cn_listens s" using role_inv_reachable [OF assms(1)] assms(4) by (auto simp: role_inv_def)
  have other_goroutine: ?thesis if "cn_pc s' = (cn_pc s)(g := p')" "g \<noteq> reader"
    "cn_readDeadline s' = cn_readDeadline s" "cn_now s' = cn_now s" for g p'
    using that assms(4) by simp
  from assms(2) show ?thesis
  proof (cases rule: conn_next_cases)
    case (send g r m p c)
    obtain p' where p': "cn_pc s' = (cn_pc s)(g := p')" using send_step_goto [OF send(2)] .
    with send assms(4) other_goroutine step_frames(1) [OF send(2)] show ?thesis by (cases "g = reader") auto
  next
    case (closing g p c)
    obtain p' where p': "cn_pc s' = (cn_pc s)(g := p')" using close_step_goto [OF closing(2)] .
    with closing assms(4) other_goroutine step_frames(2) [OF closing(2)] show ?thesis by (cases "g = reader") auto
  next
    case (listen g p c)
    with roles [of g] have g: "g = reader" by simp
    with listen(1) assms(4) have p: "p = ListenReceive" by simp
    with listen(2) obtain r where r: "c = Reads r" "s' = goto g (InListen (ListenRearm r)) s"
      by (cases c) (auto split: if_splits)
    with assms(3) listen(3) g have "r \<noteq> None" by (auto simp: heard_def)
    with r g L show ?thesis by (simp add: gave_up_def)
  next
    case (ping g p c)
    obtain p' where p': "cn_pc s' = (cn_pc s)(g := p')" using pinger_step_goto [OF ping(2)] .
    moreover have "g \<noteq> reader" using roles [of g] ping(1) by auto
    ultimately show ?thesis using other_goroutine step_frames(3) [OF ping(2)] by blast
  next
    case (start_send g m r)
    with assms(4) have "g \<noteq> reader" by (auto simp: may_send_cases)
    with start_send(3) show ?thesis using other_goroutine [of g "InSend r m SendLoad"] by simp
  next
    case (start_close g)
    then show ?thesis using other_goroutine [of g "InClose CloseDo"] by (simp add: other_def)
  next
    case pong
    with assms(3) show ?thesis by (simp add: heard_def)
  next
    case start_listen
    with L show ?thesis by simp
  next
    case (pass d)
    with assms(4) show ?thesis by (simp add: may_pass_def)
  qed (use assms(4) in auto)
qed

section \<open>Properties of a connection\<close>

text \<open>A connection with the default configuration, and its state after some events.\<close>

definition demo_cfg :: WebSocketConfig where
  "demo_cfg = \<lparr>WriteTimeout = 10, ReadTimeout = 60, PingInterval = 30\<rparr>"

definition demo_conn :: "event list \<Rightarrow> conn" where
  "demo_conn es = (case conn_run demo_cfg es (NewWebsocketBus 0) of Some s \<Rightarrow> s | None \<Rightarrow> NewWebsocketBus 0)"

lemma demo_reachable: "conn_reachable demo_cfg (demo_conn es)"
  using conn_run_reachable [OF conn_reachable.start [of demo_cfg 0]] conn_reachable.start
  by (auto simp: demo_conn_def split: option.splits)

text \<open>The reader waits for a message, the pinger for a tick.\<close>

definition demo_listen :: "event list" where
  "demo_listen = [Calls_Listen, Steps 0 Continues, Steps 0 Continues, Steps 1 Continues, Steps 1 Continues]"

text \<open>Goroutine 2 writes; 3 waits for the write lock.\<close>

definition demo_two_writers :: "event list" where
  "demo_two_writers = demo_listen @
     [Calls_Send 2 (StaleCommand 7), Calls_Send 3 (StaleCommand 8), Steps 3 Continues, Steps 2 Continues,
      Steps 2 Continues, Steps 2 Continues]"

text \<open>Goroutine 2 closes the connection, while the pinger is about to ping.\<close>

definition demo_closed :: "event list" where
  "demo_closed = demo_listen @ [Ticks, Steps 1 TakesTick, Steps 1 Continues, Calls_Close 2, Steps 2 Continues,
     Steps 2 Continues, Steps 2 Continues]"



text \<open>C21: Whoever calls \<open>Close\<close>, and however often, a connection is closed once and in one order: \<open>closed\<close> is
  set, \<open>done\<close> is closed, the client leaves the room unless \<open>Detach\<close> was called, the socket is closed, and
  nothing is written after that; when \<open>closeOnce\<close> is done, all of it has happened, the closing of the
  socket excepted when leaving the room panicked.\<close>

theorem connection_closes_once_in_order:
  assumes "conn_reachable cfg s"
  shows "(\<exists>rest. stages s @ rest \<in> stages_done True) \<and>
    (cn_closed s \<longleftrightarrow> MarkedClosed \<in> set (stages s)) \<and> (cn_done s \<longleftrightarrow> ClosedDone \<in> set (stages s)) \<and>
    (cn_open s \<longleftrightarrow> ClosedSocket \<notin> set (stages s)) \<and> silent_after_close (cn_log s) \<and>
    (cn_once s = Done \<longrightarrow> stages s \<in> stages_done (cn_skipCleanup s))"
proof -
  note I = once_inv_reachable [OF assms]
  show ?thesis
    by (intro conjI impI stages_complete [OF I] once_flags [OF I] silent_reachable [OF assms] once_stages(3) [OF I])
qed

theorem connection_closes_once_in_order_witness:
  "stages (demo_conn demo_closed) = [MarkedClosed, ClosedDone] \<and> cn_closed (demo_conn demo_closed) \<and>
   cn_open (demo_conn demo_closed)"
proof
  show st: "stages (demo_conn demo_closed) = [MarkedClosed, ClosedDone]" by code_simp
  show "cn_closed (demo_conn demo_closed) \<and> cn_open (demo_conn demo_closed)"
    using connection_closes_once_in_order [OF demo_reachable, of demo_closed] by (simp add: st)
qed

text \<open>C23: Closing a connection ends its pinger: from then on it takes at most ten steps and three more for
  every tick, whatever the others do, sends at most the one ping that it was about to send, and until
  it has returned it can go on, or the goroutine that holds the write lock can.\<close>

theorem pinger_ends_after_close:
  assumes "conn_reachable cfg s" "cn_done s" "conn_run cfg es s = Some s'"
  shows "steps_of pinger es \<le> 10 + 3 * ticks es \<and> pings s' \<le> pings s + 1 \<and>
    (cn_pc s' pinger = Outside \<or> (\<exists>h. can_step cfg s' h \<and> (h = pinger \<or> cn_writeMu s' = Some h)))"
proof -
  note run = pinger_work_run [OF assms]
  have "steps_of pinger es \<le> 10 + 3 * ticks es" "pings s' \<le> pings s + 1"
    using run pinger_work_bound [of s] by linarith+
  moreover have "\<exists>h. can_step cfg s' h \<and> (h = pinger \<or> cn_writeMu s' = Some h)" if "cn_pc s' pinger \<noteq> Outside"
  proof -
    have r: "conn_reachable cfg s'" using conn_run_reachable [OF assms(1,3)] .
    then have "role_of pinger (cn_pc s' pinger)" using role_inv_reachable by (simp add: role_inv_def)
    with that obtain p where p: "cn_pc s' pinger = InPinger p"
      by (cases "(pinger, cn_pc s' pinger)" rule: role_of.cases) (auto simp: other_def)
    have "\<not> pinger_waits s' pinger" using run by (simp add: pinger_waits_def)
    note can = pinger_can_step [OF p this]
    show ?thesis
    proof (cases "cn_writeMu s'")
      case None
      with can show ?thesis by blast
    next
      case (Some h)
      with lock_inv_reachable [OF r] have "in_write_section (cn_pc s' h)" unfolding lock_inv_def by blast
      with Some show ?thesis using write_section_can_step by blast
    qed
  qed
  ultimately show ?thesis by blast
qed

theorem pinger_ends_after_close_witness:
  "(let s' = demo_conn (demo_closed @ replicate 5 (Steps 1 Continues) @ [Steps 1 TakesDone, Steps 1 Continues])
    in pings s' = 1 \<and> pings s' \<le> pings (demo_conn demo_closed) + 1 \<and> cn_pc s' pinger = Outside)"
proof -
  let ?es = "replicate 5 (Steps 1 Continues) @ [Steps 1 TakesDone, Steps 1 Continues]"
  let ?s = "demo_conn (demo_closed @ ?es)"
  have n: "pings ?s = 1" "cn_pc ?s pinger = Outside" by code_simp+
  have "conn_run demo_cfg demo_closed (NewWebsocketBus 0) \<noteq> None"
    "conn_run demo_cfg (demo_closed @ ?es) (NewWebsocketBus 0) \<noteq> None"
    by code_simp+
  then have "conn_run demo_cfg ?es (demo_conn demo_closed) = Some ?s"
    by (auto simp: demo_conn_def conn_run_append simp del: conn_run.simps split: option.splits)
  moreover have "cn_done (demo_conn demo_closed)" by code_simp
  ultimately have "pings ?s \<le> pings (demo_conn demo_closed) + 1"
    using pinger_ends_after_close [OF demo_reachable] by blast
  with n show ?thesis by (simp only: Let_def simp_thms)
qed

text \<open>C24: A client from which neither a message nor a pong arrives is given up: once the deadline of the read
  is over, the reader is on its way to closing the connection, or has closed it.\<close>

theorem silent_client_is_given_up:
  assumes "conn_reachable cfg s" "cn_pc s reader = InListen ListenReceive"
    and "conn_run cfg es s = Some s'" "\<forall>e \<in> set es. \<not> heard e"
    and "max (cn_now s) (cn_readDeadline s) < cn_now s'"
  shows "gave_up s'"
proof -
  have "gave_up s' \<or> cn_now s' \<le> D"
    if "conn_reachable cfg s" "conn_run cfg es s = Some s'" "\<forall>e \<in> set es. \<not> heard e"
      "gave_up s \<or> cn_pc s reader = InListen ListenReceive \<and> max (cn_now s) (cn_readDeadline s) \<le> D" for s es D
    using that
  proof (induction es arbitrary: s)
    case (Cons e es)
    then obtain t where t: "conn_next cfg e s = Some t" "conn_run cfg es t = Some s'" by (auto split: option.splits)
    have r: "conn_reachable cfg t" using Cons.prems(1) t(1) by (rule conn_reachable.step)
    have "gave_up t \<or> cn_pc t reader = InListen ListenReceive \<and> max (cn_now t) (cn_readDeadline t) \<le> D"
      using Cons.prems(3,4) gave_up_step [OF Cons.prems(1) t(1)] silent_step [OF Cons.prems(1) t(1)] by auto
    then show ?case using Cons.IH [OF r t(2)] Cons.prems(3) by simp
  qed auto
  from this [OF assms(1,3,4), of "max (cn_now s) (cn_readDeadline s)"] assms(2,5) show ?thesis by auto
qed

theorem silent_client_is_given_up_witness:
  "gave_up (demo_conn (demo_listen @ [Passes 60, Steps 0 (Reads (Some (NetErr True))), Passes 1])) \<and>
   conn_run demo_cfg (demo_listen @ [Passes 61]) (NewWebsocketBus 0) = None"
proof
  let ?es = "[Passes 60, Steps 0 (Reads (Some (NetErr True))), Passes 1]"
  let ?s = "demo_conn (demo_listen @ ?es)"
  have "conn_run demo_cfg demo_listen (NewWebsocketBus 0) \<noteq> None"
    "conn_run demo_cfg (demo_listen @ ?es) (NewWebsocketBus 0) \<noteq> None"
    by code_simp+
  then have run: "conn_run demo_cfg ?es (demo_conn demo_listen) = Some ?s"
    by (auto simp: demo_conn_def conn_run_append simp del: conn_run.simps split: option.splits)
  have pc: "cn_pc (demo_conn demo_listen) reader = InListen ListenReceive"
    and t: "max (cn_now (demo_conn demo_listen)) (cn_readDeadline (demo_conn demo_listen)) < cn_now ?s"
    and quiet: "\<forall>e \<in> set ?es. \<not> heard e"
    by code_simp+
  show "gave_up ?s" by (rule silent_client_is_given_up [OF demo_reachable pc run quiet t])
  show "conn_run demo_cfg (demo_listen @ [Passes 61]) (NewWebsocketBus 0) = None" by code_simp
qed

section \<open>Calls that run alone\<close>

text \<open>The flags of theory \<open>Websocket_Bus\<close>. A \<open>Close\<close> or \<open>Send\<close> that nothing interleaves with does what
  \<open>ws_Close\<close> and \<open>ws_Send\<close> say.\<close>

definition flags_of :: "conn \<Rightarrow> ws_flags" where
  "flags_of s = \<lparr>ws_closed = cn_closed s, ws_skipCleanup = cn_skipCleanup s, ws_closeOnce = (cn_once s \<noteq> Fresh)\<rparr>"

lemma replicate_five: "replicate (5 + n) x = x # x # x # x # x # replicate n x"
  by (simp add: numeral_eq_Suc)

lemma close_alone:
  assumes "other g" "cn_pc s g = Outside" "cn_once s = Fresh"
  shows "\<exists>s'. conn_run cfg (Calls_Close g # replicate (5 + (if cn_skipCleanup s then 1 else 2)) (Steps g Continues)) s = Some s' \<and>
    flags_of s' = (flags_of s)\<lparr>ws_closed := True, ws_closeOnce := True\<rparr> \<and> cn_pc s' = cn_pc s \<and> \<not> cn_open s' \<and>
    cn_log s' = cn_log s @ [MarkedClosed, ClosedDone] @ (if cn_skipCleanup s then [] else [LeftRoom]) @ [ClosedSocket]"
  unfolding replicate_five using assms
  by (cases "cn_skipCleanup s")
    (auto simp: conn_next_def goroutine_step_def flags_of_def numeral_2_eq_2 fun_upd_idem)

lemma send_alone:
  assumes "other g" "cn_pc s g = Outside" "cn_writeMu s = None" "cn_open s"
  shows "\<exists>s'. conn_run cfg (Calls_Send g m # replicate (if cn_closed s then 1 else 5) (Steps g Continues)) s = Some s' \<and>
    flags_of s' = flags_of s \<and> cn_pc s' = cn_pc s \<and> cn_writeMu s' = None \<and>
    cn_log s' = cn_log s @ (if cn_closed s then [] else [Wrote (DataFrame m)])"
  using assms replicate_five [of 0 "Steps g Continues"]
  by (cases "cn_closed s")
    (auto simp: conn_next_def goroutine_step_def flags_of_def may_send_def fun_upd_idem)

end
