(* ===== verification/Redis_Pubsub.thy ===== *)
theory Redis_Pubsub
  imports Redis_Hub
begin

text \<open>
  Broadcasts between the instances of the program: the subscriptions, the goroutines that listen on
  them and \<open>Close\<close> of \<open>internal/infra/boundaries/hub/redis/hub.go\<close>. An instance runs one \<open>RedisHub\<close>; all
  share the Redis server. Redis hands a published message to every subscription that is open at that
  moment, in the order of publication; a message is lost when a subscription closes, and a channel
  of go-redis that stays full for a minute, which is not modelled, loses messages too.
\<close>

section \<open>The registry of connections\<close>

definition registry :: "'s redis_hub \<Rightarrow> (string \<Rightarrow> bus option) \<times> (string \<Rightarrow> bool) \<times> (string \<Rightarrow> int)" where
  "registry h = (rh_buses h, rh_roomSubs h, rh_roomClientCounts h)"

lemma registry_simps [simp]:
  "registry (h\<lparr>rh_redis := s\<rparr>) = registry h" "registry (h\<lparr>rh_heap := x\<rparr>) = registry h"
  "registry (snd (on_redis f h)) = registry h" "registry (rh_assign ref r h) = registry h"
  by (simp_all add: registry_def on_redis_def rh_assign_def split: prod.splits)

lemma on_redis_registry: "on_redis f h = (r, h') \<Longrightarrow> registry h' = registry h"
  using registry_simps(3) [of f h] by simp

lemma rh_loadRoom_registry [simp]: "registry (snd (rh_loadRoom R i h)) = registry h"
  by (auto simp: rh_loadRoom_def rh_alloc_def dest!: on_redis_registry split: prod.splits sum.splits rvalue.splits)

lemma rh_LoadRoom_registry [simp]: "registry (snd (rh_LoadRoom R i h)) = registry h"
  using rh_loadRoom_registry [of R i h]
  by (auto simp: rh_LoadRoom_def simp del: rh_loadRoom_registry split: prod.splits sum.splits)

lemma rh_saveRoom_registry [simp]: "registry (snd (rh_saveRoom R ref h)) = registry h"
  by (auto simp: rh_saveRoom_def Let_def dest!: on_redis_registry split: prod.splits sum.splits)

lemma saveRoomConditionally_registry [simp]: "registry (snd (saveRoomConditionally R ref v h)) = registry h"
  by (auto simp: saveRoomConditionally_def Let_def dest!: on_redis_registry
      split: prod.splits sum.splits option.splits list.splits)

lemma rh_AddClient_registry [simp]: "registry (rh_AddClient R ref i h) = registry h"
  by (auto simp: rh_AddClient_def dest!: on_redis_registry split: prod.splits option.splits)

lemma rh_RemoveRoom_registry [simp]: "registry (rh_RemoveRoom R i h) = registry h"
  by (simp add: rh_RemoveRoom_def)

lemma rh_BroadcastToRoom_registry [simp]: "registry (snd (rh_BroadcastToRoom R i m h)) = registry h"
  by (auto simp: rh_BroadcastToRoom_def dest!: on_redis_registry split: prod.splits option.splits)

lemma rh_NewRoomFrom_registry [simp]: "registry (snd (rh_NewRoomFrom R r h)) = registry h"
  by (auto simp: rh_NewRoomFrom_def rh_alloc_def saveInitialRoom_def andThen_def ret_def Let_def
      dest!: on_redis_registry split: prod.splits sum.splits option.splits)

lemma rh_RemoveClient_registry:
  "registry (snd (rh_RemoveClient R clk c i h)) = registry (rh_RemoveBus R c (snd (on_redis (rDel R (clientKeyPrefix @ c)) h)))"
proof -
  let ?h = "rh_RemoveBus R c (snd (on_redis (rDel R (clientKeyPrefix @ c)) h))"
  obtain r h3 where l: "rh_LoadRoom R i ?h = (r, h3)" by fastforce
  then have "registry h3 = registry ?h" using rh_LoadRoom_registry [of R i ?h] by simp
  then show ?thesis
    by (auto simp: rh_RemoveClient_def Let_def l split: sum.splits prod.splits option.splits)
qed

text \<open>The clients connected_here here to a room.\<close>

definition connected_here :: "'s redis_hub \<Rightarrow> string \<Rightarrow> string set" where
  "connected_here h i = {c. \<exists>b. rh_buses h c = Some b \<and> bus_RoomID b = i}"

text \<open>The count of a room is at least the number of its connections, and the room is subscribed to
  exactly when it is positive.\<close>

definition registry_ok :: "'s redis_hub \<Rightarrow> bool" where
  "registry_ok h \<longleftrightarrow> finite (dom (rh_buses h)) \<and>
     (\<forall>i. i \<noteq> '''' \<longrightarrow> int (card (connected_here h i)) \<le> rh_roomClientCounts h i \<and>
        (rh_roomSubs h i \<longleftrightarrow> 0 < rh_roomClientCounts h i))"

lemma registry_cong: "registry h' = registry h \<Longrightarrow> registry_ok h' = registry_ok h"
  by (simp add: registry_def registry_ok_def connected_here_def)

lemma finite_connected: "finite (dom (rh_buses h)) \<Longrightarrow> finite (connected_here h i)"
  by (rule finite_subset [of _ "dom (rh_buses h)"]) (auto simp: connected_here_def)

lemma connected_insert:
  "rh_buses h' = (rh_buses h)(c := Some b) \<Longrightarrow>
     connected_here h' i = (if bus_RoomID b = i then insert c (connected_here h i) else connected_here h i - {c})"
  by (auto simp: connected_here_def)

lemma connected_delete:
  "rh_buses h' = (rh_buses h)(c := None) \<Longrightarrow> connected_here h' i = connected_here h i - {c}"
  by (auto simp: connected_here_def)

lemma card_delete_le: "finite A \<Longrightarrow> card (A - {c}) \<le> card A"
  by (rule card_mono) auto

lemma rh_AddBus_cases:
  assumes "rh_AddBus R c b h = (res, h')"
  obtains (no_room) "bus_RoomID b = ''''" "res = Inr ()"
      "registry h' = ((rh_buses h)(c \<mapsto> b), rh_roomSubs h, rh_roomClientCounts h)"
  | (added) i where "bus_RoomID b = i" "i \<noteq> ''''" "res = Inr ()"
      "registry h' = ((rh_buses h)(c \<mapsto> b), (rh_roomSubs h)(i := True),
        (rh_roomClientCounts h)(i := rh_roomClientCounts h i + 1))"
  | (failed) i e where "bus_RoomID b = i" "i \<noteq> ''''" "res = Inl e" "\<not> rh_roomSubs h i"
      "registry h' = ((rh_buses h)(c := None), rh_roomSubs h, rh_roomClientCounts h)"
proof -
  let ?i = "bus_RoomID b"
  let ?h2 = "h\<lparr>rh_buses := (rh_buses h)(c \<mapsto> b), rh_roomClientCounts :=
    (rh_roomClientCounts h)(?i := rh_roomClientCounts h ?i + 1)\<rparr>"
  consider "?i = ''''" | "?i \<noteq> ''''" "rh_roomSubs h ?i" | "?i \<noteq> ''''" "\<not> rh_roomSubs h ?i" by blast
  then show thesis
  proof cases
    case 1
    with assms show thesis by (intro no_room) (auto simp: rh_AddBus_def Let_def registry_def)
  next
    case 2
    with assms show thesis
      by (intro added) (auto simp: rh_AddBus_def Let_def registry_def fun_eq_iff)
  next
    case 3
    obtain r s where s: "rSubscribe R (pubsubChannel @ ?i) (rh_redis h) = (r, s)" by fastforce
    show thesis
    proof (cases r)
      case None
      with 3 assms s show thesis
        by (intro added) (auto simp: rh_AddBus_def Let_def registry_def on_redis_def)
    next
      case (Some e)
      have "registry h' = ((rh_buses h)(c := None), rh_roomSubs h, rh_roomClientCounts h)" "isl res"
        using 3 assms s Some by (auto simp: rh_AddBus_def Let_def registry_def on_redis_def split: prod.splits)
      then show thesis using failed 3(1,2) by (cases res) auto
    qed
  qed
qed

lemma rh_RemoveBus_cases:
  obtains (no_room) "\<forall>b. rh_buses h c = Some b \<longrightarrow> bus_RoomID b = ''''"
      "registry (rh_RemoveBus R c h) = ((rh_buses h)(c := None), rh_roomSubs h, rh_roomClientCounts h)"
  | (removed) b i n where "rh_buses h c = Some b" "bus_RoomID b = i" "i \<noteq> ''''"
      "n = (if 0 < rh_roomClientCounts h i then rh_roomClientCounts h i - 1 else rh_roomClientCounts h i)"
      "registry (rh_RemoveBus R c h) = ((rh_buses h)(c := None),
        (rh_roomSubs h)(i := rh_roomSubs h i \<and> n \<noteq> 0), (rh_roomClientCounts h)(i := n))"
proof -
  have d: "registry (rh_RemoveBus R c h) =
      (let i = (case rh_buses h c of Some b \<Rightarrow> bus_RoomID b | None \<Rightarrow> '''');
           n = (if 0 < rh_roomClientCounts h i then rh_roomClientCounts h i - 1 else rh_roomClientCounts h i)
       in if i = '''' then ((rh_buses h)(c := None), rh_roomSubs h, rh_roomClientCounts h)
          else ((rh_buses h)(c := None), (rh_roomSubs h)(i := rh_roomSubs h i \<and> n \<noteq> 0),
                (rh_roomClientCounts h)(i := n)))"
    by (auto simp: rh_RemoveBus_def Let_def registry_def on_redis_def fun_eq_iff split: prod.splits)
  show thesis
  proof (cases "\<exists>b. rh_buses h c = Some b \<and> bus_RoomID b \<noteq> ''''")
    case True
    then obtain b where "rh_buses h c = Some b" "bus_RoomID b \<noteq> ''''" by blast
    with d show thesis by (intro removed) (simp_all add: Let_def)
  next
    case False
    with d show thesis by (intro no_room) (auto simp: Let_def split: option.splits)
  qed
qed

lemma registry_okD:
  assumes "registry_ok h"
  shows "finite (dom (rh_buses h))" "finite (connected_here h i)"
    "i \<noteq> '''' \<Longrightarrow> int (card (connected_here h i)) \<le> rh_roomClientCounts h i"
    "i \<noteq> '''' \<Longrightarrow> rh_roomSubs h i \<longleftrightarrow> 0 < rh_roomClientCounts h i"
    "i \<noteq> '''' \<Longrightarrow> 0 \<le> rh_roomClientCounts h i"
proof -
  show "finite (dom (rh_buses h))" using assms by (simp add: registry_ok_def)
  then show "finite (connected_here h i)" by (rule finite_connected)
  show c: "int (card (connected_here h i)) \<le> rh_roomClientCounts h i" if "i \<noteq> ''''"
    using assms that by (simp add: registry_ok_def)
  show "rh_roomSubs h i \<longleftrightarrow> 0 < rh_roomClientCounts h i" if "i \<noteq> ''''"
    using assms that by (simp add: registry_ok_def)
  show "0 \<le> rh_roomClientCounts h i" if "i \<noteq> ''''"
    using c [OF that] of_nat_0_le_iff order_trans by blast
qed

lemma registry_okI:
  assumes "finite (dom (rh_buses h))"
    and "\<And>i. i \<noteq> '''' \<Longrightarrow> int (card (connected_here h i)) \<le> rh_roomClientCounts h i"
    and "\<And>i. i \<noteq> '''' \<Longrightarrow> rh_roomSubs h i \<longleftrightarrow> 0 < rh_roomClientCounts h i"
  shows "registry_ok h"
  using assms unfolding registry_ok_def by blast

lemma AddBus_registry_ok:
  assumes ok: "registry_ok h" and add: "rh_AddBus R c b h = (res, h')"
  shows "registry_ok h'"
  using add
proof (cases rule: rh_AddBus_cases)
  case no_room
  then have h': "rh_buses h' = (rh_buses h)(c \<mapsto> b)" "rh_roomSubs h' = rh_roomSubs h"
    "rh_roomClientCounts h' = rh_roomClientCounts h"
    by (simp_all add: registry_def)
  show ?thesis
  proof (rule registry_okI)
    fix i :: string assume i: "i \<noteq> ''''"
    have "card (connected_here h' i) \<le> card (connected_here h i)"
      using connected_insert [OF h'(1), of i] no_room(1) i card_delete_le [OF registry_okD(2) [OF ok]] by simp
    then show "int (card (connected_here h' i)) \<le> rh_roomClientCounts h' i"
      using registry_okD(3) [OF ok i] h'(3) by simp
    show "rh_roomSubs h' i \<longleftrightarrow> 0 < rh_roomClientCounts h' i"
      using registry_okD(4) [OF ok i] h' by simp
  qed (use registry_okD(1) [OF ok] h' in simp)
next
  case (added i)
  then have h': "rh_buses h' = (rh_buses h)(c \<mapsto> b)" "rh_roomSubs h' = (rh_roomSubs h)(i := True)"
    "rh_roomClientCounts h' = (rh_roomClientCounts h)(i := rh_roomClientCounts h i + 1)"
    by (simp_all add: registry_def)
  show ?thesis
  proof (rule registry_okI)
    fix j :: string assume j: "j \<noteq> ''''"
    have "card (connected_here h' j) \<le> card (connected_here h j) + (if j = i then 1 else 0)"
      using connected_insert [OF h'(1), of j] added(1) card_delete_le [OF registry_okD(2) [OF ok], of j c]
        registry_okD(2) [OF ok, of j] card_insert_if [of "connected_here h j" c]
      by auto
    then show "int (card (connected_here h' j)) \<le> rh_roomClientCounts h' j"
      using registry_okD(3) [OF ok j] h'(3) by (simp split: if_splits)
    show "rh_roomSubs h' j \<longleftrightarrow> 0 < rh_roomClientCounts h' j"
      using registry_okD(4,5) [OF ok j] h' by auto
  qed (use registry_okD(1) [OF ok] h' in simp)
next
  case (failed i e)
  then have h': "rh_buses h' = (rh_buses h)(c := None)" "rh_roomSubs h' = rh_roomSubs h"
    "rh_roomClientCounts h' = rh_roomClientCounts h"
    by (simp_all add: registry_def)
  show ?thesis
  proof (rule registry_okI)
    fix j :: string assume j: "j \<noteq> ''''"
    have "card (connected_here h' j) \<le> card (connected_here h j)"
      using connected_delete [OF h'(1), of j] card_delete_le [OF registry_okD(2) [OF ok], of j c] by simp
    then show "int (card (connected_here h' j)) \<le> rh_roomClientCounts h' j"
      using registry_okD(3) [OF ok j] h'(3) by simp
    show "rh_roomSubs h' j \<longleftrightarrow> 0 < rh_roomClientCounts h' j"
      using registry_okD(4) [OF ok j] h' by simp
  qed (use registry_okD(1) [OF ok] h' in simp)
qed

lemma RemoveBus_registry_ok:
  assumes ok: "registry_ok h"
  shows "registry_ok (rh_RemoveBus R c h)"
proof -
  let ?h = "rh_RemoveBus R c h"
  show ?thesis
  proof (cases rule: rh_RemoveBus_cases [where h = h and c = c and R = R])
    case no_room
    then have h': "rh_buses ?h = (rh_buses h)(c := None)" "rh_roomSubs ?h = rh_roomSubs h"
      "rh_roomClientCounts ?h = rh_roomClientCounts h"
      by (simp_all add: registry_def)
    show ?thesis
    proof (rule registry_okI)
      fix j :: string assume j: "j \<noteq> ''''"
      have "card (connected_here ?h j) \<le> card (connected_here h j)"
        using connected_delete [OF h'(1), of j] card_delete_le [OF registry_okD(2) [OF ok], of j c] by simp
      then show "int (card (connected_here ?h j)) \<le> rh_roomClientCounts ?h j"
        using registry_okD(3) [OF ok j] h'(3) by simp
      show "rh_roomSubs ?h j \<longleftrightarrow> 0 < rh_roomClientCounts ?h j"
        using registry_okD(4) [OF ok j] h' by simp
    qed (use registry_okD(1) [OF ok] h' in simp)
  next
    case (removed b i n)
    then have h': "rh_buses ?h = (rh_buses h)(c := None)"
      "rh_roomSubs ?h = (rh_roomSubs h)(i := rh_roomSubs h i \<and> n \<noteq> 0)"
      "rh_roomClientCounts ?h = (rh_roomClientCounts h)(i := n)"
      by (simp_all add: registry_def)
    have "c \<in> connected_here h i" using removed(1,2) by (simp add: connected_here_def)
    then have one: "0 < card (connected_here h i)" using registry_okD(2) [OF ok] by (auto simp: card_gt_0_iff)
    with registry_okD(3) [OF ok removed(3)] have n: "n = rh_roomClientCounts h i - 1" "0 < rh_roomClientCounts h i"
      using removed(4) by auto
    show ?thesis
    proof (rule registry_okI)
      fix j :: string assume j: "j \<noteq> ''''"
      have "card (connected_here ?h j) \<le> card (connected_here h j) - (if j = i then 1 else 0)"
        using connected_delete [OF h'(1), of j] card_delete_le [OF registry_okD(2) [OF ok], of j c]
          registry_okD(2) [OF ok, of j] \<open>c \<in> connected_here h i\<close> by simp
      then show "int (card (connected_here ?h j)) \<le> rh_roomClientCounts ?h j"
        using registry_okD(3) [OF ok j] h'(3) n one by (simp split: if_splits)
      show "rh_roomSubs ?h j \<longleftrightarrow> 0 < rh_roomClientCounts ?h j"
        using registry_okD(4) [OF ok j] h' n by auto
    qed (use registry_okD(1) [OF ok] h' in simp)
  qed
qed

section \<open>Listening\<close>

text \<open>What \<open>select\<close> of \<open>listenToRoomPubSub\<close> receives: a message (\<open>None\<close> when its payload does not decode),
  the end of the subscription's channel, or of \<open>closeCh\<close>. The result tells whether the loop goes on.\<close>

datatype incoming = Payload "(string \<times> server_message) option" | ChannelClosed | HubClosed

definition listenToRoomPubSub ::
  "(bus \<Rightarrow> server_message \<Rightarrow> ('s redis_hub, unit) call) \<Rightarrow> 's redis_client \<Rightarrow> incoming \<Rightarrow> 's redis_hub \<Rightarrow>
   bool \<times> 's redis_hub" where
  "listenToRoomPubSub send R ev h =
     (case ev of
        Payload None \<Rightarrow> (True, h)
      | Payload (Some (roomID, payload)) \<Rightarrow> (True, forwardToLocalClients send R roomID payload h)
      | ChannelClosed \<Rightarrow> (False, h)
      | HubClosed \<Rightarrow> (False, h))"

text \<open>A subscription and the goroutine that listens on it: the instance and the room, the messages that
  wait in the channel, whether the subscription is open, whether the goroutine runs.\<close>

record listener =
  li_hub :: nat
  li_room :: string
  li_queue :: "(string \<times> server_message) list"
  li_open :: bool
  li_running :: bool

text \<open>The instances, their server, and all listeners started so far. \<open>cl_closing\<close> tells whether the
  \<open>closeCh\<close> of an instance is closed. The copy of the server in a hub is the server's state when the
  hub last used it.\<close>

record 's cluster =
  cl_server :: 's
  cl_hub :: "nat \<Rightarrow> 's redis_hub"
  cl_closing :: "nat \<Rightarrow> bool"
  cl_listeners :: "listener list"

definition new_cluster :: "'s \<Rightarrow> 's cluster" where
  "new_cluster s = \<lparr>cl_server = s, cl_hub = (\<lambda>_. NewRedisHub s), cl_closing = (\<lambda>_. False), cl_listeners = []\<rparr>"

definition on_hub :: "nat \<Rightarrow> ('s redis_hub \<Rightarrow> 'r \<times> 's redis_hub) \<Rightarrow> 's cluster \<Rightarrow> 'r \<times> 's cluster" where
  "on_hub k f c =
     (case f ((cl_hub c k)\<lparr>rh_redis := cl_server c\<rparr>) of
        (r, h) \<Rightarrow> (r, c\<lparr>cl_server := rh_redis h, cl_hub := (cl_hub c)(k := h)\<rparr>))"

text \<open>\<open>AddBus\<close> starts a listener when it subscribes; \<open>RemoveBus\<close> closes the subscription of the room it
  unsubscribes from, as does \<open>RemoveClient\<close>, which calls it.\<close>

definition starts_listener :: "nat \<Rightarrow> string \<Rightarrow> 's redis_hub \<Rightarrow> 's redis_hub \<Rightarrow> listener list" where
  "starts_listener k i before after =
     (if \<not> rh_roomSubs before i \<and> rh_roomSubs after i
      then [\<lparr>li_hub = k, li_room = i, li_queue = [], li_open = True, li_running = True\<rparr>] else [])"

definition closes_subscriptions :: "nat \<Rightarrow> 's redis_hub \<Rightarrow> 's redis_hub \<Rightarrow> listener \<Rightarrow> listener" where
  "closes_subscriptions k before after l =
     (if li_hub l = k \<and> rh_roomSubs before (li_room l) \<and> \<not> rh_roomSubs after (li_room l)
      then l\<lparr>li_open := False\<rparr> else l)"

definition cl_AddBus :: "'s redis_client \<Rightarrow> nat \<Rightarrow> string \<Rightarrow> bus \<Rightarrow> 's cluster \<Rightarrow> (go_error + unit) \<times> 's cluster" where
  "cl_AddBus R k clientID b c =
     (case on_hub k (rh_AddBus R clientID b) c of
        (r, c') \<Rightarrow> (r, c'\<lparr>cl_listeners := cl_listeners c @
          starts_listener k (bus_RoomID b) (cl_hub c k) (cl_hub c' k)\<rparr>))"

definition cl_RemoveBus :: "'s redis_client \<Rightarrow> nat \<Rightarrow> string \<Rightarrow> 's cluster \<Rightarrow> 's cluster" where
  "cl_RemoveBus R k clientID c =
     (case on_hub k (\<lambda>h. ((), rh_RemoveBus R clientID h)) c of
        (_, c') \<Rightarrow> c'\<lparr>cl_listeners := map (closes_subscriptions k (cl_hub c k) (cl_hub c' k)) (cl_listeners c)\<rparr>)"

definition cl_RemoveClient ::
  "'s redis_client \<Rightarrow> clock \<Rightarrow> nat \<Rightarrow> string \<Rightarrow> string \<Rightarrow> 's cluster \<Rightarrow> (go_error + unit) \<times> 's cluster" where
  "cl_RemoveClient R clk k clientID roomID c =
     (case on_hub k (rh_RemoveClient R clk clientID roomID) c of
        (r, c') \<Rightarrow> (r, c'\<lparr>cl_listeners := map (closes_subscriptions k (cl_hub c k) (cl_hub c' k)) (cl_listeners c)\<rparr>))"

text \<open>\<open>BroadcastToRoom\<close>: a publication that reports success reached the open subscriptions to the
  room's channel; one that reports an error may have, which \<open>lost\<close> decides.\<close>

definition cl_BroadcastToRoom ::
  "'s redis_client \<Rightarrow> bool \<Rightarrow> nat \<Rightarrow> string \<Rightarrow> server_message \<Rightarrow> 's cluster \<Rightarrow> (go_error + unit) \<times> 's cluster" where
  "cl_BroadcastToRoom R lost k roomID msg c =
     (case on_hub k (rh_BroadcastToRoom R roomID msg) c of
        (r, c') \<Rightarrow>
          (r, if isl r \<and> lost then c'
              else c'\<lparr>cl_listeners := map (\<lambda>l.
                if li_open l \<and> li_room l = roomID then l\<lparr>li_queue := li_queue l @ [(roomID, msg)]\<rparr> else l)
                  (cl_listeners c)\<rparr>))"

text \<open>A listener takes the next message of its channel. Closing a subscription drops what waits there
  or not; taking \<open>n\<close> messages of a closed one covers both.\<close>

definition cl_deliver ::
  "(bus \<Rightarrow> server_message \<Rightarrow> ('s redis_hub, unit) call) \<Rightarrow> 's redis_client \<Rightarrow> nat \<Rightarrow> 's cluster \<Rightarrow> 's cluster option" where
  "cl_deliver send R n c =
     (if n < length (cl_listeners c) \<and> li_running (cl_listeners c ! n) then
        (let l = cl_listeners c ! n
         in case li_queue l of
              [] \<Rightarrow> None
            | m # ms \<Rightarrow>
                (case on_hub (li_hub l) (listenToRoomPubSub send R (Payload (Some m))) c of
                   (runs, c') \<Rightarrow> Some (c'\<lparr>cl_listeners := (cl_listeners c)
                     [n := l\<lparr>li_queue := ms, li_running := runs\<rparr>]\<rparr>)))
      else None)"

text \<open>A listener ends when its channel is closed, or, after it has unsubscribed, when the hub is closing.\<close>

definition cl_stop ::
  "(bus \<Rightarrow> server_message \<Rightarrow> ('s redis_hub, unit) call) \<Rightarrow> 's redis_client \<Rightarrow> nat \<Rightarrow> 's cluster \<Rightarrow> 's cluster option" where
  "cl_stop send R n c =
     (if n < length (cl_listeners c) \<and> li_running (cl_listeners c ! n) then
        (let l = cl_listeners c ! n
         in if li_open l \<and> \<not> cl_closing c (li_hub l) then None
            else
              (case on_hub (li_hub l) (listenToRoomPubSub send R (if li_open l then HubClosed else ChannelClosed)) c of
                 (runs, c') \<Rightarrow> Some (c'\<lparr>cl_listeners := (cl_listeners c)
                   [n := l\<lparr>li_running := runs, li_open := False\<rparr>]\<rparr>)))
      else None)"

text \<open>\<open>Close\<close>: closing \<open>closeCh\<close> a second time panics; then it waits for the listeners, and closes the
  subscriptions.\<close>

definition cl_Close_start :: "nat \<Rightarrow> 's cluster \<Rightarrow> 's cluster option" where
  "cl_Close_start k c = (if cl_closing c k then None else Some (c\<lparr>cl_closing := (cl_closing c)(k := True)\<rparr>))"

definition cl_Close_finish :: "nat \<Rightarrow> 's cluster \<Rightarrow> 's cluster option" where
  "cl_Close_finish k c =
     (if cl_closing c k \<and> list_all (\<lambda>l. li_hub l = k \<longrightarrow> \<not> li_running l) (cl_listeners c)
      then Some (c\<lparr>cl_hub := (cl_hub c)(k := (cl_hub c k)\<lparr>rh_roomSubs := (\<lambda>_. False)\<rparr>),
                   cl_listeners := map (\<lambda>l. if li_hub l = k then l\<lparr>li_open := False\<rparr> else l) (cl_listeners c)\<rparr>)
      else None)"

section \<open>Clusters that can arise\<close>

text \<open>The other operations of a hub.\<close>

datatype hub_op =
    OpNewRoom room
  | OpLoadRoom string
  | OpSaveRoom ref
  | OpSaveRoomIfVersion ref "64 word option"
  | OpRemoveRoom string
  | OpAddClient ref ClientID
  | OpAssign ref room

fun run_op :: "'s redis_client \<Rightarrow> hub_op \<Rightarrow> 's redis_hub \<Rightarrow> 's redis_hub" where
  "run_op R (OpNewRoom r) h = snd (rh_NewRoomFrom R r h)"
| "run_op R (OpLoadRoom i) h = snd (rh_LoadRoom R i h)"
| "run_op R (OpSaveRoom ref) h = snd (rh_SaveRoom R ref h)"
| "run_op R (OpSaveRoomIfVersion ref v) h = snd (rh_SaveRoomIfVersion R ref v h)"
| "run_op R (OpRemoveRoom i) h = rh_RemoveRoom R i h"
| "run_op R (OpAddClient ref i) h = rh_AddClient R ref i h"
| "run_op R (OpAssign ref r) h = rh_assign ref r h"

lemma run_op_registry [simp]: "registry (run_op R op h) = registry h"
  by (cases op) (simp_all add: rh_SaveRoom_def rh_SaveRoomIfVersion_def)

inductive cluster_reachable ::
  "(bus \<Rightarrow> server_message \<Rightarrow> ('s redis_hub, unit) call) \<Rightarrow> 's redis_client \<Rightarrow> 's cluster \<Rightarrow> bool"
  for send R where
  start: "cluster_reachable send R (new_cluster s)"
| add: "cluster_reachable send R c \<Longrightarrow> cl_AddBus R k i b c = (r, c') \<Longrightarrow> cluster_reachable send R c'"
| remove: "cluster_reachable send R c \<Longrightarrow> cluster_reachable send R (cl_RemoveBus R k i c)"
| remove_client: "cluster_reachable send R c \<Longrightarrow> cl_RemoveClient R clk k i room c = (r, c') \<Longrightarrow>
    cluster_reachable send R c'"
| broadcast: "cluster_reachable send R c \<Longrightarrow> cl_BroadcastToRoom R lost k room msg c = (r, c') \<Longrightarrow>
    cluster_reachable send R c'"
| deliver: "cluster_reachable send R c \<Longrightarrow> cl_deliver send R n c = Some c' \<Longrightarrow> cluster_reachable send R c'"
| stop: "cluster_reachable send R c \<Longrightarrow> cl_stop send R n c = Some c' \<Longrightarrow> cluster_reachable send R c'"
| close_start: "cluster_reachable send R c \<Longrightarrow> cl_Close_start k c = Some c' \<Longrightarrow> cluster_reachable send R c'"
| close_finish: "cluster_reachable send R c \<Longrightarrow> cl_Close_finish k c = Some c' \<Longrightarrow> cluster_reachable send R c'"
| other: "cluster_reachable send R c \<Longrightarrow>
    cluster_reachable send R (snd (on_hub k (\<lambda>h. ((), run_op R op h)) c))"

text \<open>A connection's \<open>Send\<close> does not touch the hub.\<close>

definition send_keeps :: "(bus \<Rightarrow> server_message \<Rightarrow> ('s redis_hub, unit) call) \<Rightarrow> bool" where
  "send_keeps send \<longleftrightarrow> (\<forall>b m h. registry (snd (send b m h)) = registry h \<and> rh_heap (snd (send b m h)) = rh_heap h)"

lemma forward_loop_registry:
  "send_keeps send \<Longrightarrow> registry (forward_loop send msg cs h) = registry h"
  by (induction cs arbitrary: h) (auto simp: send_keeps_def split: option.splits)

lemma forward_registry:
  assumes "send_keeps send"
  shows "registry (forwardToLocalClients send R i msg h) = registry h"
proof -
  obtain r h' where l: "rh_LoadRoom R i h = (r, h')" by fastforce
  then have "registry h' = registry h" using rh_LoadRoom_registry [of R i h] by simp
  then show ?thesis
    using forward_loop_registry [OF assms] by (auto simp: forwardToLocalClients_def l split: sum.splits)
qed

lemma listen_registry:
  "send_keeps send \<Longrightarrow> registry (snd (listenToRoomPubSub send R ev h)) = registry h"
  using forward_registry by (auto simp: listenToRoomPubSub_def split: incoming.splits option.splits)

lemma on_hub_sel:
  assumes "on_hub k f c = (r, c')"
  defines "h \<equiv> (cl_hub c k)\<lparr>rh_redis := cl_server c\<rparr>"
  shows "r = fst (f h)" "cl_hub c' = (cl_hub c)(k := snd (f h))" "cl_server c' = rh_redis (snd (f h))"
    "cl_closing c' = cl_closing c" "cl_listeners c' = cl_listeners c"
  using assms by (auto simp: on_hub_def split: prod.splits)

text \<open>The listeners with an open subscription of an instance to a room.\<close>

definition open_for :: "'s cluster \<Rightarrow> nat \<Rightarrow> string \<Rightarrow> listener list" where
  "open_for c k i = filter (\<lambda>l. li_hub l = k \<and> li_room l = i \<and> li_open l) (cl_listeners c)"

definition hub_ok :: "'s cluster \<Rightarrow> nat \<Rightarrow> bool" where
  "hub_ok c k \<longleftrightarrow> registry_ok (cl_hub c k) \<and>
     (\<forall>i. length (open_for c k i) = (if rh_roomSubs (cl_hub c k) i then 1 else 0) \<and>
        list_all li_running (open_for c k i))"

definition cluster_ok :: "'s cluster \<Rightarrow> bool" where
  "cluster_ok c \<longleftrightarrow> (\<forall>k. \<not> cl_closing c k \<longrightarrow> hub_ok c k)"

lemma hub_ok_cong:
  assumes "registry (cl_hub c' k) = registry (cl_hub c k)" "\<And>i. open_for c' k i = open_for c k i"
  shows "hub_ok c' k = hub_ok c k"
proof -
  have "rh_roomSubs (cl_hub c' k) = rh_roomSubs (cl_hub c k)" using assms(1) by (simp add: registry_def)
  then show ?thesis using assms registry_cong [OF assms(1)] by (simp add: hub_ok_def)
qed

text \<open>A step that leaves the registries and the listeners of open subscriptions alone.\<close>

lemma cluster_ok_cong:
  assumes "cluster_ok c" "\<And>k. \<not> cl_closing c' k \<Longrightarrow> \<not> cl_closing c k"
    and "\<And>k. \<not> cl_closing c' k \<Longrightarrow> registry (cl_hub c' k) = registry (cl_hub c k)"
    and "\<And>k i. \<not> cl_closing c' k \<Longrightarrow> map (\<lambda>l. l\<lparr>li_queue := []\<rparr>) (open_for c' k i) = map (\<lambda>l. l\<lparr>li_queue := []\<rparr>) (open_for c k i)"
  shows "cluster_ok c'"
proof -
  have len: "length xs = length ys \<and> list_all li_running xs = list_all li_running ys"
    if "map (\<lambda>l. l\<lparr>li_queue := []\<rparr>) xs = map (\<lambda>l. l\<lparr>li_queue := []\<rparr>) ys" for xs ys :: "listener list"
    using that
  proof (induction xs arbitrary: ys)
    case (Cons x xs)
    then obtain y ys' where ys: "ys = y # ys'" "x\<lparr>li_queue := []\<rparr> = y\<lparr>li_queue := []\<rparr>"
      "map (\<lambda>l. l\<lparr>li_queue := []\<rparr>) xs = map (\<lambda>l. l\<lparr>li_queue := []\<rparr>) ys'" by (cases ys) auto
    then have "li_running x = li_running y" by (metis listener.ext_inject listener.surjective listener.update_convs(3))
    with ys Cons.IH [OF ys(3)] show ?case by simp
  qed simp
  show ?thesis
    unfolding cluster_ok_def
  proof (intro allI impI)
    fix k assume k: "\<not> cl_closing c' k"
    have reg: "rh_roomSubs (cl_hub c' k) = rh_roomSubs (cl_hub c k)" using assms(3) [OF k] by (simp add: registry_def)
    have "hub_ok c k" using assms(1,2) k by (simp add: cluster_ok_def)
    then show "hub_ok c' k"
      unfolding hub_ok_def registry_cong [OF assms(3) [OF k]] reg using len [OF assms(4) [OF k]] by metis
  qed
qed

lemma filter_update_other:
  assumes "\<not> P (xs ! n)" "\<not> P y"
  shows "filter P (xs[n := y]) = filter P xs"
proof (cases "n < length xs")
  case True
  then show ?thesis
    using assms by (simp add: upd_conv_take_nth_drop, subst (3) id_take_nth_drop [OF True]) simp
qed (simp add: list_update_beyond)

lemma filter_map_same:
  assumes "\<And>x. x \<in> set xs \<Longrightarrow> P (f x) = P x" "\<And>x. x \<in> set xs \<Longrightarrow> P x \<Longrightarrow> f x = x"
  shows "filter P (map f xs) = filter P xs"
  using assms by (induction xs) auto

text \<open>What \<open>open_for\<close> sees of a listener.\<close>

definition shape :: "listener \<Rightarrow> listener" where
  "shape l = l\<lparr>li_queue := []\<rparr>"

lemma open_for_shape:
  "map (\<lambda>l. l\<lparr>li_queue := []\<rparr>) (open_for c k i) =
     filter (\<lambda>l. li_hub l = k \<and> li_room l = i \<and> li_open l) (map shape (cl_listeners c))"
  by (simp add: open_for_def filter_map shape_def comp_def)

lemma cluster_ok_shape:
  assumes "cluster_ok c" "cl_closing c' = cl_closing c"
    and "\<And>k. registry (cl_hub c' k) = registry (cl_hub c k)"
    and "map shape (cl_listeners c') = map shape (cl_listeners c)"
  shows "cluster_ok c'"
  using cluster_ok_cong [OF assms(1), of c'] assms(2,3) by (simp add: open_for_shape assms(4))

lemma registry_redis: "registry (h\<lparr>rh_redis := s\<rparr>) = registry h" "rh_roomSubs (h\<lparr>rh_redis := s\<rparr>) = rh_roomSubs h"
  by simp_all

lemma AddBus_cluster_ok:
  assumes ok: "cluster_ok c" and add: "cl_AddBus R k i b c = (r, c')"
  shows "cluster_ok c'"
proof -
  obtain c1 where c1: "on_hub k (rh_AddBus R i b) c = (r, c1)"
    "c' = c1\<lparr>cl_listeners := cl_listeners c @ starts_listener k (bus_RoomID b) (cl_hub c k) (cl_hub c1 k)\<rparr>"
    using add by (auto simp: cl_AddBus_def split: prod.splits)
  note sel = on_hub_sel [OF c1(1)]
  let ?h = "(cl_hub c k)\<lparr>rh_redis := cl_server c\<rparr>" and ?h' = "cl_hub c1 k"
  have run: "rh_AddBus R i b ?h = (r, ?h')" using sel(1,2) by simp
  show ?thesis
    unfolding cluster_ok_def
  proof (intro allI impI)
    fix k' assume "\<not> cl_closing c' k'"
    then have hub: "hub_ok c k'" using ok sel(4) c1(2) by (simp add: cluster_ok_def)
    show "hub_ok c' k'"
    proof (cases "k' = k")
      case False
      have "open_for c' k' j = open_for c k' j" for j
        using False by (auto simp: open_for_def c1(2) starts_listener_def)
      moreover have "registry (cl_hub c' k') = registry (cl_hub c k')" using False sel(2) c1(2) by simp
      ultimately show ?thesis using hub hub_ok_cong by blast
    next
      case True
      have reg: "registry_ok ?h" using hub True by (simp add: hub_ok_def registry_cong [OF registry_redis(1)])
      have "registry_ok ?h'" by (rule AddBus_registry_ok [OF reg run])
      moreover have "rh_roomSubs ?h' = rh_roomSubs (cl_hub c k) \<or>
          rh_roomSubs ?h' = (rh_roomSubs (cl_hub c k))(bus_RoomID b := True)"
        using run by (cases rule: rh_AddBus_cases) (auto simp: registry_def)
      then have "length (open_for c' k j) = (if rh_roomSubs ?h' j then 1 else 0) \<and> list_all li_running (open_for c' k j)" for j
        using hub True by (auto simp: hub_ok_def open_for_def c1(2) starts_listener_def fun_upd_def split: if_splits)
      ultimately show ?thesis using True c1(2) by (simp add: hub_ok_def)
    qed
  qed
qed

text \<open>Removing a connection, on its own or with its client.\<close>

lemma closing_subscriptions_ok:
  assumes ok: "cluster_ok c" and c1: "on_hub k f c = (r, c1)"
    and reg: "registry (cl_hub c1 k) = registry (rh_RemoveBus R i h)" "registry h = registry (cl_hub c k)"
    and c': "c' = c1\<lparr>cl_listeners := map (closes_subscriptions k (cl_hub c k) (cl_hub c1 k)) (cl_listeners c)\<rparr>"
  shows "cluster_ok c'"
proof -
  note sel = on_hub_sel [OF c1]
  show ?thesis
    unfolding cluster_ok_def
  proof (intro allI impI)
    fix k' assume "\<not> cl_closing c' k'"
    then have hub: "hub_ok c k'" using ok sel(4) c' by (simp add: cluster_ok_def)
    show "hub_ok c' k'"
    proof (cases "k' = k")
      case False
      have "open_for c' k' j = open_for c k' j" for j
        unfolding open_for_def c' using False by (simp, intro filter_map_same) (auto simp: closes_subscriptions_def)
      moreover have "registry (cl_hub c' k') = registry (cl_hub c k')" using False sel(2) c' by simp
      ultimately show ?thesis using hub hub_ok_cong by blast
    next
      case True
      have "registry_ok h" using hub True registry_cong [OF reg(2)] by (simp add: hub_ok_def)
      then have "registry_ok (cl_hub c1 k)" using RemoveBus_registry_ok registry_cong [OF reg(1)] by blast
      moreover have sub: "rh_roomSubs (cl_hub c1 k) j \<Longrightarrow> rh_roomSubs (cl_hub c k) j" for j
        using reg by (cases rule: rh_RemoveBus_cases [where h = h and c = i and R = R])
          (auto simp: registry_def split: if_splits)
      have "open_for c' k j = (if rh_roomSubs (cl_hub c1 k) j then open_for c k j else [])" for j
      proof (cases "rh_roomSubs (cl_hub c1 k) j \<or> \<not> rh_roomSubs (cl_hub c k) j")
        case True
        then have "open_for c' k j = open_for c k j"
          unfolding open_for_def c' by (simp, intro filter_map_same) (auto simp: closes_subscriptions_def)
        moreover have "open_for c k j = []" if "\<not> rh_roomSubs (cl_hub c k) j"
          using hub \<open>k' = k\<close> that unfolding hub_ok_def by (metis length_0_conv)
        ultimately show ?thesis using True sub by auto
      next
        case False
        then show ?thesis
          by (auto simp: open_for_def c' closes_subscriptions_def filter_empty_conv filter_map)
      qed
      ultimately show ?thesis using hub True c' sub by (auto simp: hub_ok_def)
    qed
  qed
qed

lemma RemoveBus_cluster_ok:
  assumes "cluster_ok c"
  shows "cluster_ok (cl_RemoveBus R k i c)"
proof -
  obtain u c1 where c1: "on_hub k (\<lambda>h. ((), rh_RemoveBus R i h)) c = (u, c1)" by (rule prod.exhaust)
  have "registry (cl_hub c1 k) = registry (rh_RemoveBus R i ((cl_hub c k)\<lparr>rh_redis := cl_server c\<rparr>))"
    using on_hub_sel(2) [OF c1] by simp
  then show ?thesis
    using closing_subscriptions_ok [OF assms c1 _ registry_redis(1)] by (simp add: cl_RemoveBus_def c1)
qed

lemma RemoveClient_cluster_ok:
  assumes "cluster_ok c" "cl_RemoveClient R clk k i room c = (r, c')"
  shows "cluster_ok c'"
proof -
  obtain c1 where c1: "on_hub k (rh_RemoveClient R clk i room) c = (r, c1)"
    "c' = c1\<lparr>cl_listeners := map (closes_subscriptions k (cl_hub c k) (cl_hub c1 k)) (cl_listeners c)\<rparr>"
    using assms(2) by (auto simp: cl_RemoveClient_def split: prod.splits)
  let ?h = "(cl_hub c k)\<lparr>rh_redis := cl_server c\<rparr>"
  have "registry (cl_hub c1 k) =
      registry (rh_RemoveBus R i (snd (on_redis (rDel R (clientKeyPrefix @ i)) ?h)))"
    using on_hub_sel(2) [OF c1(1)] by (simp add: rh_RemoveClient_registry)
  then show ?thesis
    by (rule closing_subscriptions_ok [OF assms(1) c1(1) _ _ c1(2)]) simp
qed

lemma Broadcast_cluster_ok:
  assumes "cluster_ok c" "cl_BroadcastToRoom R lost k room msg c = (r, c')"
  shows "cluster_ok c'"
proof -
  obtain c1 where c1: "on_hub k (rh_BroadcastToRoom R room msg) c = (r, c1)"
    using assms(2) by (auto simp: cl_BroadcastToRoom_def split: prod.splits)
  note sel = on_hub_sel [OF c1]
  show ?thesis
  proof (rule cluster_ok_shape [OF assms(1)])
    show "cl_closing c' = cl_closing c" using assms(2) sel(4) by (auto simp: cl_BroadcastToRoom_def c1)
    show "registry (cl_hub c' k') = registry (cl_hub c k')" for k'
      using assms(2) sel(2) by (auto simp: cl_BroadcastToRoom_def c1)
    show "map shape (cl_listeners c') = map shape (cl_listeners c)"
      using assms(2) sel(5) by (auto simp: cl_BroadcastToRoom_def c1 shape_def)
  qed
qed

lemma deliver_cluster_ok:
  assumes "send_keeps send" "cluster_ok c" "cl_deliver send R n c = Some c'"
  shows "cluster_ok c'"
proof -
  let ?l = "cl_listeners c ! n"
  obtain m ms runs c1 where d: "n < length (cl_listeners c)" "li_running ?l" "li_queue ?l = m # ms"
    "on_hub (li_hub ?l) (listenToRoomPubSub send R (Payload (Some m))) c = (runs, c1)"
    "c' = c1\<lparr>cl_listeners := (cl_listeners c)[n := ?l\<lparr>li_queue := ms, li_running := runs\<rparr>]\<rparr>"
    using assms(3) by (auto simp: cl_deliver_def Let_def split: if_splits list.splits prod.splits)
  note sel = on_hub_sel [OF d(4)]
  have runs: "runs" using sel(1) by (cases m) (simp add: listenToRoomPubSub_def)
  show ?thesis
  proof (rule cluster_ok_shape [OF assms(2)])
    show "cl_closing c' = cl_closing c" using sel(4) d(5) by simp
    show "registry (cl_hub c' k') = registry (cl_hub c k')" for k'
      using sel(2) d(5) listen_registry [OF assms(1)] by simp
    have "shape (?l\<lparr>li_queue := ms, li_running := runs\<rparr>) = shape ?l" using runs d(2) by (cases ?l) (simp add: shape_def)
    then show "map shape (cl_listeners c') = map shape (cl_listeners c)"
      using d(1,5) by (simp add: map_update list_update_same_conv)
  qed
qed

lemma stop_cluster_ok:
  assumes "send_keeps send" "cluster_ok c" "cl_stop send R n c = Some c'"
  shows "cluster_ok c'"
proof -
  let ?l = "cl_listeners c ! n"
  obtain ev runs c1 where d: "n < length (cl_listeners c)" "\<not> li_open ?l \<or> cl_closing c (li_hub ?l)"
    "on_hub (li_hub ?l) (listenToRoomPubSub send R ev) c = (runs, c1)"
    "c' = c1\<lparr>cl_listeners := (cl_listeners c)[n := ?l\<lparr>li_running := runs, li_open := False\<rparr>]\<rparr>"
    using assms(3) by (auto simp: cl_stop_def Let_def split: if_splits prod.splits)
  note sel = on_hub_sel [OF d(3)]
  show ?thesis
  proof (rule cluster_ok_cong [OF assms(2)])
    show "\<not> cl_closing c k'" if "\<not> cl_closing c' k'" for k' using that sel(4) d(4) by simp
    show "registry (cl_hub c' k') = registry (cl_hub c k')" for k'
      using sel(2) d(4) listen_registry [OF assms(1)] by simp
    fix k' i assume k': "\<not> cl_closing c' k'"
    then have "\<not> (li_hub ?l = k' \<and> li_room ?l = i \<and> li_open ?l)" using d(2,4) sel(4) by auto
    then have "open_for c' k' i = open_for c k' i"
      unfolding open_for_def d(4) using filter_update_other [of _ "cl_listeners c" n] by simp
    then show "map (\<lambda>l. l\<lparr>li_queue := []\<rparr>) (open_for c' k' i) = map (\<lambda>l. l\<lparr>li_queue := []\<rparr>) (open_for c k' i)" by simp
  qed
qed

lemma cluster_ok_reachable:
  assumes "send_keeps send" "cluster_reachable send R c"
  shows "cluster_ok c"
  using assms(2)
proof (induction rule: cluster_reachable.induct)
  case (start s)
  show ?case
    by (simp add: cluster_ok_def hub_ok_def registry_ok_def connected_here_def open_for_def new_cluster_def
        NewRedisHub_def)
next
  case (close_start c k c')
  then have c': "c' = c\<lparr>cl_closing := (cl_closing c)(k := True)\<rparr>" by (simp add: cl_Close_start_def split: if_splits)
  show ?case
    by (rule cluster_ok_cong [OF close_start.IH]) (simp_all add: c' open_for_def split: if_splits)
next
  case (close_finish c k c')
  then have k: "cl_closing c k" and c': "c' = c\<lparr>cl_hub := (cl_hub c)(k := (cl_hub c k)\<lparr>rh_roomSubs := (\<lambda>_. False)\<rparr>),
      cl_listeners := map (\<lambda>l. if li_hub l = k then l\<lparr>li_open := False\<rparr> else l) (cl_listeners c)\<rparr>"
    by (simp_all add: cl_Close_finish_def split: if_splits)
  show ?case
  proof (rule cluster_ok_cong [OF close_finish.IH])
    fix k' i assume k': "\<not> cl_closing c' k'"
    then have "k' \<noteq> k" using k c' by auto
    then have "open_for c' k' i = open_for c k' i"
      unfolding open_for_def c' by (simp, intro filter_map_same) auto
    then show "map (\<lambda>l. l\<lparr>li_queue := []\<rparr>) (open_for c' k' i) = map (\<lambda>l. l\<lparr>li_queue := []\<rparr>) (open_for c k' i)" by simp
  qed (use k c' in auto)
next
  case (other c k op)
  show ?case
  proof (rule cluster_ok_shape [OF other.IH])
    obtain r c' where c': "on_hub k (\<lambda>h. ((), run_op R op h)) c = (r, c')" by (rule prod.exhaust)
    note sel = on_hub_sel [OF c']
    show "cl_closing (snd (on_hub k (\<lambda>h. ((), run_op R op h)) c)) = cl_closing c" using sel(4) c' by simp
    show "registry (cl_hub (snd (on_hub k (\<lambda>h. ((), run_op R op h)) c)) k') = registry (cl_hub c k')" for k'
      using sel(2) c' by simp
    show "map shape (cl_listeners (snd (on_hub k (\<lambda>h. ((), run_op R op h)) c))) = map shape (cl_listeners c)"
      using sel(5) c' by simp
  qed
next
  case (add c k i b r c')
  then show ?case using AddBus_cluster_ok by blast
next
  case (remove c k i)
  show ?case by (rule RemoveBus_cluster_ok [OF remove.IH])
next
  case (remove_client c clk k i room r c')
  then show ?case using RemoveClient_cluster_ok by blast
next
  case (broadcast c lost k room msg r c')
  then show ?case using Broadcast_cluster_ok by blast
next
  case (deliver c n c')
  show ?case by (rule deliver_cluster_ok [OF assms(1) deliver.IH deliver.hyps(2)])
next
  case (stop c n c')
  show ?case by (rule stop_cluster_ok [OF assms(1) stop.IH stop.hyps(2)])
qed

section \<open>Delivery\<close>

fun cl_delivers ::
  "(bus \<Rightarrow> server_message \<Rightarrow> ('s redis_hub, unit) call) \<Rightarrow> 's redis_client \<Rightarrow> nat \<Rightarrow> nat \<Rightarrow> 's cluster \<Rightarrow> 's cluster option" where
  "cl_delivers send R n 0 c = Some c"
| "cl_delivers send R n (Suc m) c =
     (case cl_deliver send R n c of None \<Rightarrow> None | Some c' \<Rightarrow> cl_delivers send R n m c')"

lemma deliver_one:
  assumes "n < length (cl_listeners c)" "li_running (cl_listeners c ! n)" "li_queue (cl_listeners c ! n) = m # ms"
  defines "l \<equiv> cl_listeners c ! n"
  shows "\<exists>c'. cl_deliver send R n c = Some c' \<and> cl_listeners c' = (cl_listeners c)[n := l\<lparr>li_queue := ms\<rparr>] \<and>
    cl_hub c' (li_hub l) = forwardToLocalClients send R (fst m) (snd m) ((cl_hub c (li_hub l))\<lparr>rh_redis := cl_server c\<rparr>) \<and>
    cl_server c' = rh_redis (cl_hub c' (li_hub l))"
proof -
  obtain runs c1 where c1: "on_hub (li_hub l) (listenToRoomPubSub send R (Payload (Some m))) c = (runs, c1)"
    by (rule prod.exhaust)
  note sel = on_hub_sel [OF c1]
  have runs: "runs" using sel(1) by (cases m) (simp add: listenToRoomPubSub_def)
  have "cl_deliver send R n c = Some (c1\<lparr>cl_listeners := (cl_listeners c)[n := l\<lparr>li_queue := ms, li_running := runs\<rparr>]\<rparr>)"
    using assms(1-3) c1 by (simp add: cl_deliver_def l_def Let_def)
  moreover have "l\<lparr>li_queue := ms, li_running := runs\<rparr> = l\<lparr>li_queue := ms\<rparr>"
    using runs assms(2) by (cases l) (simp add: l_def)
  moreover have "cl_hub c1 (li_hub l) =
      forwardToLocalClients send R (fst m) (snd m) ((cl_hub c (li_hub l))\<lparr>rh_redis := cl_server c\<rparr>)"
    using sel(2) by (cases m) (simp add: listenToRoomPubSub_def)
  ultimately show ?thesis using sel(2,3) by simp
qed

lemma delivers_queue:
  "n < length (cl_listeners c) \<Longrightarrow> li_running (cl_listeners c ! n) \<Longrightarrow> li_queue (cl_listeners c ! n) = q @ rest \<Longrightarrow>
    \<exists>c1. cl_delivers send R n (length q) c = Some c1 \<and> n < length (cl_listeners c1) \<and>
      cl_listeners c1 ! n = (cl_listeners c ! n)\<lparr>li_queue := rest\<rparr>"
proof (induction q arbitrary: c)
  case Nil
  then show ?case by simp
next
  case (Cons m q)
  then obtain c' where c': "cl_deliver send R n c = Some c'"
    "cl_listeners c' = (cl_listeners c)[n := (cl_listeners c ! n)\<lparr>li_queue := q @ rest\<rparr>]"
    using deliver_one [of n c m "q @ rest" send R] by auto
  then have "n < length (cl_listeners c')" "li_running (cl_listeners c' ! n)" "li_queue (cl_listeners c' ! n) = q @ rest"
    using Cons.prems by simp_all
  from Cons.IH [OF this] c' Cons.prems(1) show ?case by auto
qed

text \<open>What the sockets were given to write, in order: a \<open>Send\<close> adds its message, whether the write
  succeeds or not, and reading the store adds nothing.\<close>

definition sends_recorded ::
  "(bus \<Rightarrow> server_message \<Rightarrow> ('s redis_hub, unit) call) \<Rightarrow> 's redis_client \<Rightarrow> ('s \<Rightarrow> (bus \<times> server_message) list) \<Rightarrow> bool" where
  "sends_recorded send R out \<longleftrightarrow> send_keeps send \<and>
     (\<forall>b m h. out (rh_redis (snd (send b m h))) = out (rh_redis h) @ [(b, m)]) \<and>
     (\<forall>k s. out (snd (rGet R k s)) = out s)"

text \<open>The connections of this instance to the clients of a room, in the room's order.\<close>

definition local_buses :: "'s redis_hub \<Rightarrow> room \<Rightarrow> bus list" where
  "local_buses h room = List.map_filter (\<lambda>c. rh_buses h (client_ID c)) (cc_Values (Clients room))"

lemma forward_loop_out:
  assumes "sends_recorded send R out"
  shows "out (rh_redis (forward_loop send msg cs h)) =
    out (rh_redis h) @ map (\<lambda>b. (b, msg)) (List.map_filter (\<lambda>c. rh_buses h (client_ID c)) cs)"
proof (induction cs arbitrary: h)
  case (Cons c cs)
  show ?case
  proof (cases "rh_buses h (client_ID c)")
    case (Some b)
    have "registry (snd (send b msg h)) = registry h"
      "out (rh_redis (snd (send b msg h))) = out (rh_redis h) @ [(b, msg)]"
      using assms by (simp_all add: sends_recorded_def send_keeps_def)
    then show ?thesis using Some Cons [of "snd (send b msg h)"] by (simp add: registry_def map_filter_simps)
  qed (simp add: Cons map_filter_simps)
qed (simp add: map_filter_simps)

lemma LoadRoom_out:
  assumes "sends_recorded send R out" "rh_LoadRoom R i h = (r, h')"
  shows "out (rh_redis h') = out (rh_redis h)" "rh_buses h' = rh_buses h"
proof -
  have g: "out (snd (rGet R k s)) = out s" for k s using assms(1) by (simp add: sends_recorded_def)
  show "out (rh_redis h') = out (rh_redis h)"
    using assms(2) g [of "roomKeyPrefix @ i" "rh_redis h"]
    by (auto simp: rh_LoadRoom_def rh_loadRoom_def on_redis_def rh_alloc_def
        split: prod.splits sum.splits rvalue.splits if_splits)
  show "rh_buses h' = rh_buses h"
    using rh_LoadRoom_registry [of R i h] assms(2) by (simp add: registry_def)
qed

lemma forward_out:
  assumes "sends_recorded send R out" "rh_LoadRoom R i h = (Inr ref, h1)"
  shows "out (rh_redis (forwardToLocalClients send R i msg h)) =
    out (rh_redis h) @ map (\<lambda>b. (b, msg)) (local_buses h (rh_deref ref h1))"
  using forward_loop_out [OF assms(1)] LoadRoom_out [OF assms]
  by (simp add: forwardToLocalClients_def assms(2) local_buses_def)

section \<open>Two instances\<close>

text \<open>The server of theory \<open>Redis_Hub\<close>, with what the sockets were given to write.\<close>

type_synonym net_server = "server \<times> (bus \<times> server_message) list"

definition beside :: "(server \<Rightarrow> 'r \<times> server) \<Rightarrow> net_server \<Rightarrow> 'r \<times> net_server" where
  "beside f s = (case f (fst s) of (r, s') \<Rightarrow> (r, (s', snd s)))"

definition net_client :: "net_server redis_client" where
  "net_client =
     \<lparr>rSet = (\<lambda>k v. beside (rSet sv_client k v)), rGet = (\<lambda>k. beside (rGet sv_client k)),
      rDel = (\<lambda>k. beside (rDel sv_client k)), rKeys = (\<lambda>p. beside (rKeys sv_client p)),
      rPublish = (\<lambda>ch room msg. beside (rPublish sv_client ch room msg)),
      rSubscribe = (\<lambda>ch. beside (rSubscribe sv_client ch)), rCloseSub = (\<lambda>ch. beside (rCloseSub sv_client ch)),
      rEval = (\<lambda>f. beside (rEval sv_client f))\<rparr>"

definition net_send :: "bus \<Rightarrow> server_message \<Rightarrow> (net_server redis_hub, unit) call" where
  "net_send b m h = (Inr (), h\<lparr>rh_redis := (fst (rh_redis h), snd (rh_redis h) @ [(b, m)])\<rparr>)"

lemma net_sends_recorded: "sends_recorded net_send net_client snd"
  by (simp add: sends_recorded_def send_keeps_def net_send_def net_client_def beside_def split: prod.splits)

text \<open>Ann is connected to the second instance; the document of her room is on the server.\<close>

definition demo_document :: json where
  "demo_document = JObj [(''id'', JStr ''room''), (''clients'', JArr [JObj [(''id'', JStr ''ann'')]])]"

definition demo_server :: net_server where
  "demo_server = (new_server\<lparr>sv_kv := [roomKeyPrefix @ ''room'' \<mapsto> RDoc demo_document]\<rparr>, [])"

definition demo_cluster :: "net_server cluster" where
  "demo_cluster = snd (cl_AddBus net_client 1 ''ann'' (Bus 3 ''room'') (new_cluster demo_server))"

definition demo_sent :: "net_server cluster" where
  "demo_sent = snd (cl_BroadcastToRoom net_client False 0 ''room'' (StaleCommand 1) demo_cluster)"

lemma demo_cluster_reachable: "cluster_reachable net_send net_client demo_cluster"
  unfolding demo_cluster_def
  by (rule cluster_reachable.add [OF cluster_reachable.start prod.collapse [symmetric]])



end
