(* ===== verification/Wire.thy ===== *)
theory Wire
  imports Websocket_Bus Gen_Guards
begin

text \<open>
  The bytes on the socket: the structs of \<open>internal/protocol/types.generated.go\<close> as \<open>encoding/json\<close> writes
  them, by the tags of their fields, and a received frame as \<open>ReadJSON\<close> decodes it into
  \<open>WebSocketMessage\<close>. The other end is a browser: \<open>value_of\<close> is what \<open>JSON.parse\<close> makes of a document,
  \<open>document_of\<close> the document that \<open>JSON.stringify\<close> writes of a value.
\<close>

section \<open>Server messages\<close>

fun CommandErrorCode_text :: "CommandErrorCode \<Rightarrow> string" where
  "CommandErrorCode_text CommandErrorCodeValidation = ''validation''"
| "CommandErrorCode_text CommandErrorCodeForbidden = ''forbidden''"
| "CommandErrorCode_text CommandErrorCodeNotFound = ''not_found''"
| "CommandErrorCode_text CommandErrorCodeConflict = ''conflict''"
| "CommandErrorCode_text CommandErrorCodeStaleVersion = ''stale_version''"
| "CommandErrorCode_text CommandErrorCodeInvalidPayload = ''invalid_payload''"
| "CommandErrorCode_text CommandErrorCodeUnknownCommand = ''unknown_command''"
| "CommandErrorCode_text CommandErrorCodeInvalidCommandID = ''invalid_command_id''"
| "CommandErrorCode_text CommandErrorCodeCommandInProgress = ''command_in_progress''"
| "CommandErrorCode_text CommandErrorCodeInternal = ''internal''"

fun DeckKind_text :: "DeckKind \<Rightarrow> string" where
  "DeckKind_text DeckKindNumeric = ''numeric''"
| "DeckKind_text DeckKindCategorical = ''categorical''"

definition enc_version :: "64 word \<Rightarrow> json" where "enc_version v = JInt (uint v)"

definition marshal_DeckDescriptor :: "DeckDescriptor \<Rightarrow> json" where
  "marshal_DeckDescriptor d = JObj
     [(''cards'', JArr (map JStr (dd_Cards d))), (''id'', JStr (dd_ID d)), (''kind'', JStr (DeckKind_text (dd_Kind d))),
      (''name'', JStr (dd_Name d))]"

definition marshal_Participant :: "Participant \<Rightarrow> json" where
  "marshal_Participant p = JObj
     ([(''hasVoted'', JBool (pt_HasVoted p)), (''id'', JStr (pt_ID p)), (''isOwner'', JBool (pt_IsOwner p)),
       (''isSpectator'', JBool (pt_IsSpectator p)), (''name'', JStr (pt_Name p)),
       (''vote'', case pt_Vote p of None \<Rightarrow> JNull | Some v \<Rightarrow> JStr v)] @
      enc_opt ''votedAt'' JTime (pt_VotedAt p))"

definition marshal_Story :: "wire_story \<Rightarrow> json" where
  "marshal_Story s = JObj
     ([(''id'', JStr (ws_ID s)), (''mostAppearingVotes'', enc_strings (ws_MostAppearingVotes s)),
       (''name'', JStr (ws_Name s))] @
      enc_opt ''result'' JFloat (ws_Result s) @ [(''voted'', JBool (ws_Voted s))])"

definition marshal_RoomState :: "RoomState \<Rightarrow> json" where
  "marshal_RoomState s = JObj
     (enc_opt ''backlogMode'' JBool (rs_BacklogMode s) @
      enc_opt ''consensus'' JStr (rs_Consensus s) @
      [(''currentStory'', JStr (rs_CurrentStory s))] @
      enc_opt ''currentStoryIndex'' JInt (rs_CurrentStoryIndex s) @
      [(''deck'', marshal_DeckDescriptor (rs_Deck s))] @
      enc_opt ''highestVote'' JStr (rs_HighestVote s) @
      enc_opt ''lowestVote'' JStr (rs_LowestVote s) @
      [(''mostAppearingVotes'', enc_strings (rs_MostAppearingVotes s)),
       (''participants'', JArr (map marshal_Participant (rs_Participants s)))] @
      enc_opt ''result'' JFloat (rs_Result s) @
      [(''reveal'', JBool (rs_Reveal s)), (''roomVersion'', enc_version (rs_RoomVersion s))] @
      enc_opt ''specialVoteCount'' JInt (rs_SpecialVoteCount s) @
      enc_opt ''startedAt'' JTime (rs_StartedAt s) @
      [(''stories'', JArr (map marshal_Story (rs_Stories s))), (''type'', JStr ''room-state'')] @
      enc_opt ''voteRange'' JInt (rs_VoteRange s) @
      enc_opt ''voteSpread'' JInt (rs_VoteSpread s))"

definition marshal_CommandAck :: "CommandAck \<Rightarrow> json" where
  "marshal_CommandAck a = JObj
     ([(''commandId'', JStr (ca_CommandID a))] @ enc_opt ''roomVersion'' enc_version (ca_RoomVersion a) @
      [(''type'', JStr ''command-ack'')])"

text \<open>\<open>text\<close> renders the message of an error, which \<open>fmt.Sprintf\<close> made.\<close>

definition marshal_CommandError :: "(message \<Rightarrow> string) \<Rightarrow> CommandError \<Rightarrow> json" where
  "marshal_CommandError text e = JObj
     ([(''code'', JStr (CommandErrorCode_text (ce_Code e))), (''commandId'', JStr (ce_CommandID e)),
       (''message'', JStr (text (ce_Message e)))] @
      enc_opt ''roomVersion'' enc_version (ce_RoomVersion e) @ [(''type'', JStr ''command-error'')])"

fun marshal_message :: "(message \<Rightarrow> string) \<Rightarrow> server_message \<Rightarrow> json" where
  "marshal_message text (RoomStateMessage s) = marshal_RoomState s"
| "marshal_message text (UpdateClientID i) = JObj [(''clientId'', JStr i), (''type'', JStr ''update-client-id'')]"
| "marshal_message text Kicked = JObj [(''type'', JStr ''kicked'')]"
| "marshal_message text (CommandAckMessage a) = marshal_CommandAck a"
| "marshal_message text (CommandErrorMessage e) = marshal_CommandError text e"
| "marshal_message text (StaleCommand v) = JObj [(''roomVersion'', enc_version v), (''type'', JStr ''stale-command'')]"

section \<open>Client commands\<close>

definition enc_expected :: "64 word option \<Rightarrow> (string \<times> json) list" where
  "enc_expected v = enc_opt ''expectedRoomVersion'' enc_version v"

fun marshal_payload :: "payload \<Rightarrow> json" where
  "marshal_payload (AddStoryPayload s) = JObj [(''story'', JStr s)]"
| "marshal_payload (VersionPayload v) = JObj (enc_expected v)"
| "marshal_payload (RemoveStoryPayload v s) = JObj (enc_expected v @ [(''storyId'', JStr s)])"
| "marshal_payload (ReorderStoryPayload v s i) = JObj (enc_expected v @ [(''storyId'', JStr s), (''targetIndex'', JInt i)])"
| "marshal_payload (SelectStoryPayload v s) = JObj (enc_expected v @ [(''storyId'', JStr s)])"
| "marshal_payload (ToggleOwnerPayload v t) = JObj (enc_expected v @ [(''targetClientId'', JStr t)])"
| "marshal_payload (ToggleSpectatorPayload v t) = JObj (enc_expected v @ [(''targetClientId'', JStr t)])"
| "marshal_payload (UpdateNamePayload n) = JObj [(''username'', JStr n)]"
| "marshal_payload (UpdateStoryPayload v s) = JObj (enc_expected v @ [(''story'', JStr s)])"
| "marshal_payload (VotePayload v) = JObj [(''vote'', JStr v)]"

text \<open>The frame structs (\<open>VoteCommand\<close> and the others) differ in the type of their payload only.\<close>

record client_frame =
  cf_CommandID :: "string option"
  cf_Payload :: payload
  cf_Type :: string

definition marshal_frame :: "client_frame \<Rightarrow> json" where
  "marshal_frame f = JObj
     (enc_opt ''commandId'' JStr (cf_CommandID f) @
      [(''payload'', marshal_payload (cf_Payload f)), (''type'', JStr (cf_Type f))])"

text \<open>A frame carries the payload of its type.\<close>

fun payload_struct :: "payload \<Rightarrow> nat" where
  "payload_struct (AddStoryPayload _) = 0"
| "payload_struct (VersionPayload _) = 1"
| "payload_struct (RemoveStoryPayload _ _) = 2"
| "payload_struct (ReorderStoryPayload _ _ _) = 3"
| "payload_struct (SelectStoryPayload _ _) = 4"
| "payload_struct (ToggleOwnerPayload _ _) = 5"
| "payload_struct (ToggleSpectatorPayload _ _) = 6"
| "payload_struct (UpdateNamePayload _) = 7"
| "payload_struct (UpdateStoryPayload _ _) = 8"
| "payload_struct (VotePayload _) = 9"

definition frame_ok :: "client_frame \<Rightarrow> bool" where
  "frame_ok f \<longleftrightarrow>
     (case NewClientCommandPayload (cf_Type f) of None \<Rightarrow> False | Some p \<Rightarrow> payload_struct p = payload_struct (cf_Payload f))"

section \<open>Receiving\<close>

text \<open>\<open>ReadJSON\<close> into \<open>WebSocketMessage\<close>; the payload is kept as \<open>any\<close>, nil when missing.\<close>

definition dec_WebSocketMessage :: "(string \<times> json) list \<Rightarrow> go_error + WebSocketMessage" where
  "dec_WebSocketMessage kvs =
     bnd (dec_string (field ''type'' kvs)) (\<lambda>t.
     bnd (dec_string (field ''commandId'' kvs)) (\<lambda>i.
     Inr \<lparr>wm_Type = t, wm_CommandID = i,
          wm_Payload = (case field ''payload'' kvs of None \<Rightarrow> JNull | Some p \<Rightarrow> p)\<rparr>))"

definition ReadJSON :: "json \<Rightarrow> go_error + WebSocketMessage" where
  "ReadJSON j = dec_struct dec_WebSocketMessage (Some j)"

section \<open>The browser's side\<close>

text \<open>What \<open>JSON.parse\<close> makes of a number and of a time: an integer is rounded to a double, which is an
  integer again and keeps its sign; a time is a string.\<close>

record json_parse =
  jp_int :: "int \<Rightarrow> rat"
  jp_float :: "float32 \<Rightarrow> rat"
  jp_time :: "time \<Rightarrow> string"

definition rounds_integers :: "json_parse \<Rightarrow> bool" where
  "rounds_integers P \<longleftrightarrow> (\<forall>n. is_integer (jp_int P n) \<and> (0 \<le> n \<longrightarrow> 0 \<le> jp_int P n))"

fun value_of :: "json_parse \<Rightarrow> json \<Rightarrow> any_value" where
  "value_of P JNull = ANull"
| "value_of P (JBool b) = ABool b"
| "value_of P (JInt n) = ANum (jp_int P n)"
| "value_of P (JFloat x) = ANum (jp_float P x)"
| "value_of P (JStr s) = AStr s"
| "value_of P (JTime t) = AStr (jp_time P t)"
| "value_of P (JArr js) = AArr (map (value_of P) js)"
| "value_of P (JObj kvs) = AMap (map (\<lambda>(k, j). (k, value_of P j)) kvs)"

text \<open>What \<open>JSON.stringify\<close> writes: a number that is an integer without a fraction. \<open>AAnyMap\<close> is no
  JavaScript value.\<close>

fun document_of :: "any_value \<Rightarrow> json" where
  "document_of ANull = JNull"
| "document_of (ABool b) = JBool b"
| "document_of (ANum x) = (if is_integer x then JInt \<lfloor>x\<rfloor> else JFloat x)"
| "document_of (AStr s) = JStr s"
| "document_of (AArr vs) = JArr (map document_of vs)"
| "document_of (AMap kvs) = JObj (map (\<lambda>(k, v). (k, document_of v)) kvs)"
| "document_of (AAnyMap _) = JNull"

end
