(* ===== verification/Gen_Reference.thy ===== *)
theory Gen_Reference
  imports Gen_Spec
begin

text \<open>
  The schema loader against a reference. \<open>parseDefinitions\<close> of \<open>tools/protocolgen/spec.go\<close> follows every
  reference while it parses, keeps what it has parsed, and fails on a name it is parsing already. The
  reference reads each definition on its own, and follows nothing; the loader succeeds when that
  works for every definition and no reference leads back to where it started, and its result is the
  reference's.
\<close>

section \<open>One definition on its own\<close>

function (sequential) direct_schema :: "schemaLoader \<Rightarrow> any_map \<Rightarrow> path \<Rightarrow> schema option"
  and direct_properties ::
    "schemaLoader \<Rightarrow> (string \<times> any_value) list \<Rightarrow> string list \<Rightarrow> path \<Rightarrow> property list option" where
  "direct_schema L raw file =
     (case map_of raw ''$ref'' of
        Some rawRef \<Rightarrow> (case ref_target L rawRef file of Inl _ \<Rightarrow> None | Inr n \<Rightarrow> Some (ref_schema n))
      | None \<Rightarrow>
          (case schema_head raw of
             Inl _ \<Rightarrow> None
           | Inr m \<Rightarrow>
               (case mt_Kind m of
                  KindObject \<Rightarrow>
                    (case object_shape raw of
                       Inl _ \<Rightarrow> None
                     | Inr (ps, required) \<Rightarrow>
                         map_option (\<lambda>qs. Schema m qs None '''') (direct_properties L ps required file))
                | KindArray \<Rightarrow>
                    (case array_items raw of
                       Inl _ \<Rightarrow> None
                     | Inr items \<Rightarrow> map_option (\<lambda>s. Schema m [] (Some s) '''') (direct_schema L items file))
                | _ \<Rightarrow> Some (Schema m [] None ''''))))"
| "direct_properties L [] required file = Some []"
| "direct_properties L ((name, value) # ps) required file =
     (case asMap value of
        None \<Rightarrow> None
      | Some raw \<Rightarrow>
          (case direct_schema L raw file of
             None \<Rightarrow> None
           | Some s \<Rightarrow>
               map_option (\<lambda>qs. Property name s (name \<in> set required) # qs)
                 (direct_properties L ps required file)))"
  by pat_completeness auto

termination
proof (relation "inv_image (less_than <*lex*> less_than)
    (\<lambda>x. case x of
       Inl (L, raw, file) \<Rightarrow> (size (AMap raw), 0)
     | Inr (L, ps, required, file) \<Rightarrow> (values_bound ps, length ps))", goal_cases)
qed (auto simp: object_shape_bound array_items_size asMap_def less_max_iff_disj simp del: any_value.size
     split: any_value.splits)

declare direct_schema.simps [simp del]

definition direct :: "schemaLoader \<Rightarrow> string \<Rightarrow> schema option" where
  "direct L n =
     (case map_of (ld_defs L) n of None \<Rightarrow> None | Some d \<Rightarrow> direct_schema L (rd_raw d) (rd_file d))"

text \<open>Which definition refers to which.\<close>

definition uses :: "schemaLoader \<Rightarrow> (string \<times> string) set" where
  "uses L = {(n, r). \<exists>s. direct L n = Some s \<and> r \<in> refs s}"

lemma direct_schema_cases:
  "map_of raw ''$ref'' = Some r \<Longrightarrow>
     direct_schema L raw fl = (case ref_target L r fl of Inl _ \<Rightarrow> None | Inr n \<Rightarrow> Some (ref_schema n))"
  "map_of raw ''$ref'' = None \<Longrightarrow> schema_head raw = Inl e \<Longrightarrow> direct_schema L raw fl = None"
  "map_of raw ''$ref'' = None \<Longrightarrow> schema_head raw = Inr m \<Longrightarrow> mt_Kind m = KindObject \<Longrightarrow>
     direct_schema L raw fl =
       (case object_shape raw of
          Inl _ \<Rightarrow> None
        | Inr (ps, required) \<Rightarrow> map_option (\<lambda>qs. Schema m qs None '''') (direct_properties L ps required fl))"
  "map_of raw ''$ref'' = None \<Longrightarrow> schema_head raw = Inr m \<Longrightarrow> mt_Kind m = KindArray \<Longrightarrow>
     direct_schema L raw fl =
       (case array_items raw of
          Inl _ \<Rightarrow> None
        | Inr items \<Rightarrow> map_option (\<lambda>s. Schema m [] (Some s) '''') (direct_schema L items fl))"
  "map_of raw ''$ref'' = None \<Longrightarrow> schema_head raw = Inr m \<Longrightarrow> mt_Kind m \<noteq> KindObject \<Longrightarrow>
     mt_Kind m \<noteq> KindArray \<Longrightarrow> direct_schema L raw fl = Some (Schema m [] None '''')"
  by (subst direct_schema.simps; simp split: SchemaKind.split)+

section \<open>The loader computes it\<close>

definition agrees :: "schemaLoader \<Rightarrow> parsed \<Rightarrow> bool" where
  "agrees L p \<longleftrightarrow> (\<forall>n s. map_of p n = Some s \<longrightarrow> direct L n = Some s)"

lemma agrees_push: "agrees L p \<Longrightarrow> direct L n = Some s \<Longrightarrow> agrees L ((n, s) # p)"
  by (simp add: agrees_def)

lemma parse_agrees:
  "parseDefinition L parsing name p = Inr (s, p') \<Longrightarrow> agrees L p \<Longrightarrow> agrees L p' \<and> direct L name = Some s"
  "parseSchema L parsing raw fl p = Inr (s, p') \<Longrightarrow> agrees L p \<Longrightarrow> agrees L p' \<and> direct_schema L raw fl = Some s"
  "parseProperties L parsing ps required fl p = Inr (qs, p') \<Longrightarrow> agrees L p \<Longrightarrow>
     agrees L p' \<and> direct_properties L ps required fl = Some qs"
proof (induction L parsing name p and L parsing raw fl p and L parsing ps required fl p
    arbitrary: s p' and s p' and qs p'
    rule: parseDefinition_parseSchema_parseProperties.induct)
  case (1 L parsing name p)
  show ?case
  proof (cases "map_of p name")
    case (Some x)
    then show ?thesis using 1(2,3) by (simp add: parseDefinition.simps agrees_def)
  next
    case None
    then obtain d p1 where d: "map_of (ld_defs L) name = Some d" "name \<notin> set parsing"
        "parseSchema L (name # parsing) (rd_raw d) (rd_file d) p = Inr (s, p1)" "p' = (name, s) # p1"
      using 1(2) by (auto simp: parseDefinition.simps split: option.splits if_splits sum.splits)
    have *: "agrees L p1 \<and> direct_schema L (rd_raw d) (rd_file d) = Some s"
      by (rule 1(1) [OF None d(1,2,3) 1(3)])
    then have "direct L name = Some s" using d(1) by (simp add: direct_def)
    then show ?thesis using * d(4) by (simp add: agrees_push)
  qed
next
  case (2 L parsing raw fl p)
  show ?case
  proof (cases "map_of raw ''$ref''")
    case (Some rawRef)
    then obtain refName s0 where r: "ref_target L rawRef fl = Inr refName"
        "parseDefinition L parsing refName p = Inr (s0, p')" "s = ref_schema refName"
      using 2(4) by (auto simp: parseSchema.simps split: sum.splits)
    show ?thesis using 2(3) [OF Some r(1,2) 2(5)] r(1,3) by (simp add: direct_schema_cases(1) [OF Some])
  next
    case None
    obtain m where m: "schema_head raw = Inr m"
      using 2(4) None by (auto simp: parseSchema.simps split: sum.splits)
    consider (object) "mt_Kind m = KindObject" | (array) "mt_Kind m = KindArray"
      | (scalar) "mt_Kind m \<noteq> KindObject" "mt_Kind m \<noteq> KindArray" by blast
    then show ?thesis
    proof cases
      case object
      then obtain ps required qs where o: "object_shape raw = Inr (ps, required)"
          "parseProperties L parsing ps required fl p = Inr (qs, p')" "s = Schema m qs None ''''"
        using 2(4) None m by (auto simp: parseSchema.simps split: sum.splits)
      show ?thesis
        using 2(1) [OF None m object o(1) refl o(2) 2(5)] o(1,3)
        by (simp add: direct_schema_cases(3) [OF None m object])
    next
      case array
      then obtain items s0 where a: "array_items raw = Inr items"
          "parseSchema L parsing items fl p = Inr (s0, p')" "s = Schema m [] (Some s0) ''''"
        using 2(4) None m unfolding parseSchema_array [OF None m array] by (auto split: sum.splits)
      show ?thesis
        using 2(2) [OF None m array a(1,2) 2(5)] a(1,3) by (simp add: direct_schema_cases(4) [OF None m array])
    next
      case scalar
      then have "s = Schema m [] None '''' \<and> p' = p"
        using 2(4) parseSchema_scalar [OF None m scalar] by simp
      then show ?thesis using 2(5) direct_schema_cases(5) [OF None m scalar] by simp
    qed
  qed
next
  case (3 L parsing required fl p)
  then show ?case by (simp add: parseProperties.simps)
next
  case (4 L parsing name v ps required fl p)
  obtain raw where v: "v = AMap raw"
    using 4(3) by (cases v) (simp_all add: parseProperties.simps)
  obtain s p1 where s: "parseSchema L parsing raw fl p = Inr (s, p1)"
    using 4(3) v by (cases "parseSchema L parsing raw fl p") (auto simp: parseProperties.simps)
  obtain qs1 p2 where t: "parseProperties L parsing ps required fl p1 = Inr (qs1, p2)"
    using 4(3) v s by (cases "parseProperties L parsing ps required fl p1") (auto simp: parseProperties.simps)
  have q: "parseProperties L parsing ps required fl p1 = Inr (qs1, p')"
      "qs = Property name s (name \<in> set required) # qs1"
    using 4(3) v s t by (simp_all add: parseProperties.simps)
  have 1: "agrees L p1 \<and> direct_schema L raw fl = Some s" by (rule 4(1) [OF v s 4(4)])
  then have "agrees L p' \<and> direct_properties L ps required fl = Some qs1"
    by (intro 4(2) [OF v s refl q(1)]) simp
  then show ?case using 1 q(2) v by (simp add: asMap_def)
qed

lemma ref_target_known: "ref_target L r fl = Inr n \<Longrightarrow> n \<in> names (ld_defs L)"
  by (rule ccontr)
    (auto simp: map_of_None_names [symmetric] ref_target_def Let_def
      split: option.splits if_splits sum.splits prod.splits)

text \<open>Nothing that is being parsed is referred to again.\<close>

definition above :: "schemaLoader \<Rightarrow> string list \<Rightarrow> string set \<Rightarrow> bool" where
  "above L parsing rs \<longleftrightarrow> (\<forall>n \<in> set parsing. \<forall>r \<in> rs. (n, r) \<in> (uses L)\<^sup>+)"

lemma above_down:
  assumes "above L parsing {name}" "direct L name = Some s"
  shows "above L (name # parsing) (refs s)"
  unfolding above_def
proof (intro ballI)
  fix n r
  assume n: "n \<in> set (name # parsing)" and r: "r \<in> refs s"
  have "(name, r) \<in> uses L" using assms(2) r by (simp add: uses_def)
  then show "(n, r) \<in> (uses L)\<^sup>+"
    using n assms(1) by (auto simp: above_def intro: trancl_into_trancl)
qed

lemma above_mono: "above L parsing rs \<Longrightarrow> rs' \<subseteq> rs \<Longrightarrow> above L parsing rs'"
  by (auto simp: above_def)

lemma parse_complete:
  assumes all: "\<forall>n \<in> names (ld_defs L). direct L n \<noteq> None" and acyc: "acyclic (uses L)"
  shows "direct L name = Some s \<Longrightarrow> agrees L p \<Longrightarrow> above L parsing {name} \<Longrightarrow>
      \<exists>p'. parseDefinition L parsing name p = Inr (s, p')"
    "direct_schema L raw fl = Some s \<Longrightarrow> agrees L p \<Longrightarrow> above L parsing (refs s) \<Longrightarrow>
      \<exists>p'. parseSchema L parsing raw fl p = Inr (s, p')"
    "direct_properties L ps required fl = Some qs \<Longrightarrow> agrees L p \<Longrightarrow> above L parsing (\<Union>q \<in> set qs. prop_refs q) \<Longrightarrow>
      \<exists>p'. parseProperties L parsing ps required fl p = Inr (qs, p')"
  using assms
proof (induction L parsing name p and L parsing raw fl p and L parsing ps required fl p
    arbitrary: s and s and qs rule: parseDefinition_parseSchema_parseProperties.induct)
  case (1 L parsing name p)
  show ?case
  proof (cases "map_of p name")
    case (Some x)
    then show ?thesis using 1(2,3) by (simp add: parseDefinition.simps agrees_def)
  next
    case None
    obtain d where d: "map_of (ld_defs L) name = Some d" "direct_schema L (rd_raw d) (rd_file d) = Some s"
      using 1(2) by (auto simp: direct_def split: option.splits)
    have new: "name \<notin> set parsing"
      using 1(4,6) by (auto simp: above_def acyclic_def)
    have "\<exists>p'. parseSchema L (name # parsing) (rd_raw d) (rd_file d) p = Inr (s, p')"
      by (rule 1(1) [OF None d(1) new d(2) 1(3) above_down [OF 1(4,2)] 1(5,6)])
    then show ?thesis using None d(1) new by (auto simp: parseDefinition.simps)
  qed
next
  case (2 L parsing raw fl p)
  show ?case
  proof (cases "map_of raw ''$ref''")
    case (Some rawRef)
    then obtain n where n: "ref_target L rawRef fl = Inr n" "s = ref_schema n"
      using 2(4) by (auto simp: direct_schema_cases(1) split: sum.splits)
    obtain t where t: "direct L n = Some t"
      using 2(7) ref_target_known [OF n(1)] by blast
    have "above L parsing {n}" using 2(6) n(2) by simp
    then have "\<exists>p'. parseDefinition L parsing n p = Inr (t, p')"
      by (intro 2(3) [OF Some n(1) t 2(5) _ 2(7,8)])
    then show ?thesis using Some n by (auto simp: parseSchema.simps)
  next
    case None
    obtain m where m: "schema_head raw = Inr m"
      using 2(4) None direct_schema_cases(2) by (cases "schema_head raw") auto
    consider (object) "mt_Kind m = KindObject" | (array) "mt_Kind m = KindArray"
      | (scalar) "mt_Kind m \<noteq> KindObject" "mt_Kind m \<noteq> KindArray" by blast
    then show ?thesis
    proof cases
      case object
      obtain ps required qs where o: "object_shape raw = Inr (ps, required)"
          "direct_properties L ps required fl = Some qs" "s = Schema m qs None ''''"
        using 2(4) unfolding direct_schema_cases(3) [OF None m object] by (auto split: sum.splits)
      have "above L parsing (\<Union>q \<in> set qs. prop_refs q)"
        using 2(6) by (rule above_mono) (auto simp: o(3))
      then have "\<exists>p'. parseProperties L parsing ps required fl p = Inr (qs, p')"
        by (intro 2(1) [OF None m object o(1) refl o(2) 2(5) _ 2(7,8)])
      then show ?thesis using None m object o(1,3) by (auto simp: parseSchema.simps)
    next
      case array
      obtain items s0 where a: "array_items raw = Inr items" "direct_schema L items fl = Some s0"
          "s = Schema m [] (Some s0) ''''"
        using 2(4) unfolding direct_schema_cases(4) [OF None m array] by (auto split: sum.splits)
      have "above L parsing (refs s0)" using 2(6) by (rule above_mono) (auto simp: a(3))
      then have "\<exists>p'. parseSchema L parsing items fl p = Inr (s0, p')"
        by (intro 2(2) [OF None m array a(1,2) 2(5) _ 2(7,8)])
      then show ?thesis using a(1,3) unfolding parseSchema_array [OF None m array] by auto
    next
      case scalar
      then show ?thesis
        using 2(4) parseSchema_scalar [OF None m scalar] direct_schema_cases(5) [OF None m scalar] by simp
    qed
  qed
next
  case (3 L parsing required fl p)
  then show ?case by (simp add: parseProperties.simps)
next
  case (4 L parsing name v ps required fl p)
  obtain raw s qs1 where v: "v = AMap raw" "direct_schema L raw fl = Some s"
      "direct_properties L ps required fl = Some qs1" "qs = Property name s (name \<in> set required) # qs1"
    using 4(3) by (cases v) (auto simp: asMap_def split: option.splits)
  have "above L parsing (refs s)" using 4(5) by (rule above_mono) (auto simp: v(4))
  then obtain p1 where s: "parseSchema L parsing raw fl p = Inr (s, p1)"
    using 4(1) [OF v(1,2) 4(4) _ 4(6,7)] by blast
  then have "agrees L p1" using parse_agrees(2) 4(4) by blast
  moreover have "above L parsing (\<Union>q \<in> set qs1. prop_refs q)"
    using 4(5) by (rule above_mono) (auto simp: v(4))
  ultimately obtain p2 where "parseProperties L parsing ps required fl p1 = Inr (qs1, p2)"
    using 4(2) [OF v(1) s refl v(3) _ _ 4(6,7)] by blast
  then show ?case using v s by (simp add: parseProperties.simps)
qed

section \<open>All definitions\<close>

lemma parse_loop_agrees:
  "parse_loop L ns p = Inr p' \<Longrightarrow> agrees L p \<Longrightarrow>
     agrees L p' \<and> set ns \<subseteq> names p' \<and> extends L [] p p'"
proof (induction L ns p rule: parse_loop.induct)
  case (2 L n ns p)
  then obtain s p1 where d: "parseDefinition L [] n p = Inr (s, p1)" "parse_loop L ns p1 = Inr p'"
    by (auto split: sum.splits)
  have e: "extends L [] p p1" "map_of p1 n = Some s" using parse_extends(1) [OF d(1)] by simp_all
  have a: "agrees L p1" using parse_agrees(1) [OF d(1) 2(3)] by simp
  have r: "agrees L p' \<and> set ns \<subseteq> names p' \<and> extends L [] p1 p'" using 2(1) [OF d(1) refl d(2) a] .
  have "n \<in> names p1" using e(2) by (metis domI dom_map_of_conv_image_fst)
  then show ?case using r extends_names [of L "[]" p1 p'] extends_trans [OF e(1)] by auto
qed simp

lemma parse_loop_complete:
  assumes "\<forall>n \<in> names (ld_defs L). direct L n \<noteq> None" "acyclic (uses L)"
  shows "set ns \<subseteq> names (ld_defs L) \<Longrightarrow> agrees L p \<Longrightarrow> \<exists>p'. parse_loop L ns p = Inr p'"
proof (induction ns arbitrary: p)
  case (Cons n ns)
  then obtain s where s: "direct L n = Some s" using assms(1) by auto
  have "above L [] {n}" by (simp add: above_def)
  then obtain p1 where p1: "parseDefinition L [] n p = Inr (s, p1)"
    using parse_complete(1) [OF assms s Cons.prems(2)] by blast
  then have "agrees L p1" using parse_agrees(1) Cons.prems(2) by blast
  then obtain p' where "parse_loop L ns p1 = Inr p'" using Cons by auto
  with p1 show ?case by simp
qed simp

text \<open>What a well-founded list of schemas refers to can be numbered downwards.\<close>

lemma well_founded_rank:
  "well_founded p \<Longrightarrow> \<exists>f :: string \<Rightarrow> nat. \<forall>n s r. map_of p n = Some s \<and> r \<in> refs s \<longrightarrow> f r < f n \<and> r \<in> names p"
proof (induction p)
  case (Cons e p)
  obtain m t where e: "e = (m, t)" by (cases e)
  have "well_founded p" using Cons.prems e by simp
  then obtain f :: "string \<Rightarrow> nat"
    where f: "\<forall>n s r. map_of p n = Some s \<and> r \<in> refs s \<longrightarrow> f r < f n \<and> r \<in> names p"
    using Cons.IH by blast
  let ?f = "f(m := Suc (sum f (names p)))"
  have "?f r < ?f n \<and> r \<in> names (e # p)" if "map_of (e # p) n = Some s" "r \<in> refs s" for n s r
  proof (cases "n = m")
    case True
    then have r: "r \<in> names p" "r \<noteq> m" using that Cons.prems e by auto
    then have "f r \<le> sum f (names p)" by (intro member_le_sum) simp_all
    then show ?thesis using True r by simp
  next
    case False
    then have r: "f r < f n" "r \<in> names p" using that f e by simp_all
    moreover have "r \<noteq> m" using r(2) Cons.prems e by auto
    ultimately show ?thesis using False by simp
  qed
  then show ?case by blast
qed simp

lemma acyclic_rank:
  assumes "\<And>n r. (n, r) \<in> R \<Longrightarrow> f r < (f n :: nat)"
  shows "acyclic R"
proof -
  have "f b < f a" if "(a, b) \<in> R\<^sup>+" for a b
    using that by (induction rule: trancl_induct) (use assms in \<open>auto intro: less_trans\<close>)
  then show ?thesis unfolding acyclic_def by blast
qed

lemma parseDefinitions_direct:
  assumes "parseDefinitions L = Inr p"
  shows "map_of p = direct L" "\<forall>n \<in> names (ld_defs L). direct L n \<noteq> None" "acyclic (uses L)"
proof -
  have r: "agrees L p \<and> set (ld_definitionNames L) \<subseteq> names p \<and> extends L [] [] p"
    by (rule parse_loop_agrees [OF assms [unfolded parseDefinitions_def]]) (simp add: agrees_def)
  have n: "names p = names (ld_defs L)" using parseDefinitions_result [OF assms] by simp
  show m: "map_of p = direct L"
  proof
    fix k
    show "map_of p k = direct L k"
    proof (cases "map_of p k")
      case None
      then have "k \<notin> names (ld_defs L)" using n by (simp add: map_of_None_names)
      then show ?thesis using None by (simp add: direct_def map_of_None_names [symmetric])
    qed (use r in \<open>simp add: agrees_def\<close>)
  qed
  then show "\<forall>k \<in> names (ld_defs L). direct L k \<noteq> None"
    using n by (metis map_of_None_names)
  have "well_founded p" using r by (simp add: extends_def)
  then obtain f :: "string \<Rightarrow> nat" where "\<forall>k s r. map_of p k = Some s \<and> r \<in> refs s \<longrightarrow> f r < f k \<and> r \<in> names p"
    using well_founded_rank by blast
  then show "acyclic (uses L)" using acyclic_rank [of "uses L" f] by (auto simp: uses_def m)
qed

lemma parseDefinitions_exists:
  assumes "\<forall>n \<in> names (ld_defs L). direct L n \<noteq> None" "acyclic (uses L)"
  shows "\<exists>p. parseDefinitions L = Inr p"
  unfolding parseDefinitions_def
  by (rule parse_loop_complete [OF assms]) (simp_all add: ld_definitionNames_def agrees_def)


text \<open>C38: the loader computes the reference reading of the schemas: it succeeds exactly when every
  definition can be read and no definition reaches itself through references, and then each schema it has is the
  direct reading of its own definition, whatever order the definitions were first met in.\<close>

theorem loader_matches_reference:
  "case parseDefinitions L of
     Inl _ \<Rightarrow> \<not> (fst ` set (ld_defs L) \<subseteq> dom (direct L) \<and> acyclic (uses L))
   | Inr p \<Rightarrow> fst ` set (ld_defs L) \<subseteq> dom (direct L) \<and> acyclic (uses L) \<and> map_of p = direct L"
proof (cases "parseDefinitions L")
  case (Inl e)
  then show ?thesis using parseDefinitions_exists [of L] by auto
next
  case (Inr p)
  then show ?thesis using parseDefinitions_direct [OF Inr] by auto
qed

end
