(* ===== verification/Contract.thy ===== *)
theory Contract
  imports Gen_Reference Gen_Properties
begin

text \<open>
  The contract the repository ships: \<open>protocol/asyncapi.yaml\<close> and \<open>protocol/schemas\<close>, as the decoders give
  them to the generator, and the specification that \<open>loadSpec\<close> makes of them. The members of an object
  are listed by name; the description of the contract, which nothing reads, is left out. The contents
  of a file are named by one word, which the decoders of \<open>contract_env\<close> know.
\<close>

section \<open>The schema files\<close>

text \<open>The shapes that occur.\<close>

definition raw_object :: "(string \<times> any_map) list \<Rightarrow> string list \<Rightarrow> any_map" where
  "raw_object ps req =
     (''type'', AStr ''object'') # (''properties'', AMap (map (apsnd AMap) ps)) #
     (if req = [] then [] else [(''required'', AArr (map AStr req))])"

definition raw_type :: "string \<Rightarrow> any_map" where "raw_type t = [(''type'', AStr t)]"

definition raw_described :: "string \<Rightarrow> string \<Rightarrow> any_map" where
  "raw_described t text = [(''description'', AStr text), (''type'', AStr t)]"

definition raw_version :: any_map where
  "raw_version = [(''type'', AStr ''integer''), (''minimum'', ANum 0), (''x-go-type'', AStr ''uint64'')]"

definition raw_float32 :: any_map where
  "raw_float32 = [(''type'', AStr ''number''), (''x-go-type'', AStr ''float32'')]"

definition defs_ref :: "string \<Rightarrow> string \<Rightarrow> string" where "defs_ref file n = file @ ''#/$defs/'' @ n"

definition raw_ref :: "string \<Rightarrow> string \<Rightarrow> any_map" where
  "raw_ref file n = [(''$ref'', AStr (defs_ref file n))]"

definition raw_const :: "string \<Rightarrow> any_map" where
  "raw_const c = [(''type'', AStr ''string''), (''const'', AStr c)]"

definition raw_format :: "string \<Rightarrow> any_map" where
  "raw_format f = [(''type'', AStr ''string''), (''format'', AStr f)]"

definition raw_enum :: "string list \<Rightarrow> any_map" where
  "raw_enum es = [(''type'', AStr ''string''), (''enum'', AArr (map AStr es))]"

text \<open>Of the types that are lists, \<open>null\<close> is the second.\<close>

definition raw_nullable :: "string \<Rightarrow> any_value" where "raw_nullable t = AArr [AStr t, AStr ''null'']"
definition raw_string_or_null :: any_map where "raw_string_or_null = [(''type'', raw_nullable ''string'')]"

definition raw_array :: "bool \<Rightarrow> any_map \<Rightarrow> any_map" where
  "raw_array nullable it =
     [(''type'', if nullable then raw_nullable ''array'' else AStr ''array''), (''items'', AMap it)]"

text \<open>A command frame: its wire type and the definition of its payload.\<close>

definition raw_command :: "string \<Rightarrow> string \<Rightarrow> any_map" where
  "raw_command wire payload =
     raw_object [(''commandId'', raw_format ''uuid''), (''payload'', raw_ref '''' payload), (''type'', raw_const wire)]
       [''type'', ''payload'']"

definition schema_document :: "string \<Rightarrow> string \<Rightarrow> (string \<times> any_map) list \<Rightarrow> any_map" where
  "schema_document name title defs =
     [(''$schema'', AStr ''https://json-schema.org/draft/2020-12/schema''),
      (''$id'', AStr (''https://planning-poker.local/protocol/schemas/'' @ name @ ''.schema.json'')),
      (''title'', AStr title), (''$defs'', AMap (map (apsnd AMap) defs))]"

definition commands_defs :: "(string \<times> any_map) list" where
  "commands_defs =
     [(''AddStoryCommand'', raw_command ''add-story'' ''AddStoryPayload''),
      (''AddStoryPayload'', raw_object
       [(''story'', raw_type ''string'')]
       [''story'']),
      (''AdvanceStoryCommand'', raw_command ''advance-story'' ''AdvanceStoryPayload''),
      (''AdvanceStoryPayload'', raw_object
       [(''expectedRoomVersion'', raw_version)]
       []),
      (''PrevStoryCommand'', raw_command ''prev-story'' ''PrevStoryPayload''),
      (''PrevStoryPayload'', raw_object
       [(''expectedRoomVersion'', raw_version)]
       []),
      (''RemoveStoryCommand'', raw_command ''remove-story'' ''RemoveStoryPayload''),
      (''RemoveStoryPayload'', raw_object
       [(''expectedRoomVersion'', raw_version),
        (''storyId'', raw_type ''string'')]
       [''storyId'']),
      (''ReorderStoryCommand'', raw_command ''reorder-story'' ''ReorderStoryPayload''),
      (''ReorderStoryPayload'', raw_object
       [(''expectedRoomVersion'', raw_version),
        (''storyId'', raw_type ''string''),
        (''targetIndex'', raw_type ''integer'')]
       [''storyId'', ''targetIndex'']),
      (''ResetCommand'', raw_command ''reset'' ''ResetPayload''),
      (''ResetPayload'', raw_object
       [(''expectedRoomVersion'', raw_version)]
       []),
      (''RevealVotesCommand'', raw_command ''reveal-votes'' ''RevealVotesPayload''),
      (''RevealVotesPayload'', raw_object
       [(''expectedRoomVersion'', raw_version)]
       []),
      (''SelectStoryCommand'', raw_command ''select-story'' ''SelectStoryPayload''),
      (''SelectStoryPayload'', raw_object
       [(''expectedRoomVersion'', raw_version),
        (''storyId'', raw_type ''string'')]
       [''storyId'']),
      (''ToggleBacklogModeCommand'', raw_command ''toggle-backlog-mode'' ''ToggleBacklogModePayload''),
      (''ToggleBacklogModePayload'', raw_object
       [(''expectedRoomVersion'', raw_version)]
       []),
      (''ToggleOwnerCommand'', raw_command ''toggle-owner'' ''ToggleOwnerPayload''),
      (''ToggleOwnerPayload'', raw_object
       [(''expectedRoomVersion'', raw_version),
        (''targetClientId'', raw_type ''string'')]
       [''targetClientId'']),
      (''ToggleSpectatorCommand'', raw_command ''toggle-spectator'' ''ToggleSpectatorPayload''),
      (''ToggleSpectatorPayload'', raw_object
       [(''expectedRoomVersion'', raw_version),
        (''targetClientId'', raw_type ''string'')]
       [''targetClientId'']),
      (''UpdateNameCommand'', raw_command ''update-name'' ''UpdateNamePayload''),
      (''UpdateNamePayload'', raw_object
       [(''username'', raw_type ''string'')]
       [''username'']),
      (''UpdateStoryCommand'', raw_command ''update-story'' ''UpdateStoryPayload''),
      (''UpdateStoryPayload'', raw_object
       [(''expectedRoomVersion'', raw_version),
        (''story'', raw_type ''string'')]
       [''story'']),
      (''VoteAgainCommand'', raw_command ''vote-again'' ''VoteAgainPayload''),
      (''VoteAgainPayload'', raw_object
       [(''expectedRoomVersion'', raw_version)]
       []),
      (''VoteCommand'', raw_command ''vote'' ''VotePayload''),
      (''VotePayload'', raw_object
       [(''vote'', raw_type ''string'')]
       [''vote''])]"

definition events_defs :: "(string \<times> any_map) list" where
  "events_defs =
     [(''CommandAck'', raw_object
       [(''commandId'', raw_format ''uuid''),
        (''roomVersion'', raw_version),
        (''type'', raw_const ''command-ack'')]
       [''type'', ''commandId'']),
      (''CommandError'', raw_object
       [(''code'', raw_ref '''' ''CommandErrorCode''),
        (''commandId'', raw_described ''string'' ''Echoes the raw client commandId, including when it is not a valid UUID (invalid_command_id).''),
        (''message'', raw_type ''string''),
        (''roomVersion'', raw_version),
        (''type'', raw_const ''command-error'')]
       [''type'', ''commandId'', ''code'', ''message'']),
      (''CommandErrorCode'', raw_enum [''validation'', ''forbidden'', ''not_found'', ''conflict'', ''stale_version'', ''invalid_payload'', ''unknown_command'', ''invalid_command_id'', ''command_in_progress'', ''internal'']),
      (''Kicked'', raw_object
       [(''type'', raw_const ''kicked'')]
       [''type'']),
      (''RoomState'', raw_object
       [(''backlogMode'', raw_type ''boolean''),
        (''consensus'', raw_ref ''shared.schema.json'' ''ConsensusLevel''),
        (''currentStory'', raw_type ''string''),
        (''currentStoryIndex'', raw_type ''integer''),
        (''deck'', raw_ref ''shared.schema.json'' ''DeckDescriptor''),
        (''highestVote'', raw_type ''string''),
        (''lowestVote'', raw_type ''string''),
        (''mostAppearingVotes'', raw_array True (raw_type ''string'')),
        (''participants'', raw_array False (raw_ref ''shared.schema.json'' ''Participant'')),
        (''result'', raw_float32),
        (''reveal'', raw_type ''boolean''),
        (''roomVersion'', raw_version),
        (''specialVoteCount'', raw_type ''integer''),
        (''startedAt'', raw_format ''date-time''),
        (''stories'', raw_array True (raw_ref ''shared.schema.json'' ''Story'')),
        (''type'', raw_const ''room-state''),
        (''voteRange'', raw_type ''integer''),
        (''voteSpread'', raw_type ''integer'')]
       [''type'', ''deck'', ''currentStory'', ''reveal'', ''mostAppearingVotes'', ''participants'', ''roomVersion'']),
      (''StaleCommand'', raw_object
       [(''roomVersion'', raw_version),
        (''type'', raw_const ''stale-command'')]
       [''type'', ''roomVersion'']),
      (''UpdateClientID'', raw_object
       [(''clientId'', raw_type ''string''),
        (''type'', raw_const ''update-client-id'')]
       [''type'', ''clientId''])]"

definition shared_defs :: "(string \<times> any_map) list" where
  "shared_defs =
     [(''ConsensusLevel'', raw_enum [''High'', ''Medium'', ''Low'', ''Unavailable'']),
      (''DeckDescriptor'', raw_object
       [(''cards'', raw_array False (raw_type ''string'')),
        (''id'', raw_type ''string''),
        (''kind'', raw_ref '''' ''DeckKind''),
        (''name'', raw_type ''string'')]
       [''id'', ''name'', ''kind'', ''cards'']),
      (''DeckKind'', raw_enum [''numeric'', ''categorical'']),
      (''Participant'', raw_object
       [(''hasVoted'', raw_type ''boolean''),
        (''id'', raw_type ''string''),
        (''isOwner'', raw_type ''boolean''),
        (''isSpectator'', raw_type ''boolean''),
        (''name'', raw_type ''string''),
        (''vote'', raw_string_or_null),
        (''votedAt'', raw_format ''date-time'')]
       [''id'', ''name'', ''vote'', ''hasVoted'', ''isSpectator'', ''isOwner'']),
      (''Story'', raw_object
       [(''id'', raw_type ''string''),
        (''mostAppearingVotes'', raw_array True (raw_type ''string'')),
        (''name'', raw_type ''string''),
        (''result'', raw_float32),
        (''voted'', raw_type ''boolean'')]
       [''id'', ''name'', ''mostAppearingVotes'', ''voted''])]"

definition commands_schema :: any_map where
  "commands_schema = schema_document ''commands'' ''Client command frames and payloads'' commands_defs"

definition events_schema :: any_map where
  "events_schema = schema_document ''events'' ''Server event payloads'' events_defs"

definition shared_schema :: any_map where
  "shared_schema = schema_document ''shared'' ''Shared protocol types'' shared_defs"

section \<open>The AsyncAPI document\<close>

text \<open>A message: its wire type, title, summary, and the file and definition of its schema.\<close>

record raw_message =
  rm_wire :: string
  rm_title :: string
  rm_summary :: string
  rm_file :: string
  rm_def :: string

definition rmsg :: "string \<Rightarrow> string \<Rightarrow> string \<Rightarrow> string \<Rightarrow> string \<Rightarrow> raw_message" where
  "rmsg wire title summary file def =
     \<lparr>rm_wire = wire, rm_title = title, rm_summary = summary, rm_file = file, rm_def = def\<rparr>"

definition schema_file_ref :: "string \<Rightarrow> string" where
  "schema_file_ref file = ''schemas/'' @ file @ ''.schema.json''"

definition message_entry :: "raw_message \<Rightarrow> string \<times> any_value" where
  "message_entry m =
     (rm_wire m, AMap [(''name'', AStr (rm_wire m)), (''title'', AStr (rm_title m)), (''summary'', AStr (rm_summary m)),
                       (''payload'', AMap (raw_ref (schema_file_ref (rm_file m)) (rm_def m)))])"

definition pointer_entry :: "string \<Rightarrow> string \<Rightarrow> any_value" where
  "pointer_entry prefix wire = AMap [(''$ref'', AStr (prefix @ wire))]"

definition operation_entry :: "string \<Rightarrow> string list \<Rightarrow> any_value" where
  "operation_entry action wires =
     AMap [(''action'', AStr action), (''channel'', AMap [(''$ref'', AStr ''#/channels/roomSocket'')]),
           (''messages'', AArr (map (pointer_entry channelMessagesRefPrefix) wires))]"

definition contract_raw_messages :: "raw_message list" where
  "contract_raw_messages =
     [rmsg ''add-story'' ''Add story'' ''Append a story to the backlog.''
        ''commands'' ''AddStoryCommand'',
      rmsg ''advance-story'' ''Advance story'' ''Move to the next backlog story.''
        ''commands'' ''AdvanceStoryCommand'',
      rmsg ''command-ack'' ''Command acknowledged'' ''Successful command outcome correlated by commandId.''
        ''events'' ''CommandAck'',
      rmsg ''command-error'' ''Command failed'' ''Failed command outcome correlated by commandId.''
        ''events'' ''CommandError'',
      rmsg ''kicked'' ''Kicked'' ''The client was removed from the room by an owner.''
        ''events'' ''Kicked'',
      rmsg ''prev-story'' ''Previous story'' ''Move to the previous backlog story.''
        ''commands'' ''PrevStoryCommand'',
      rmsg ''remove-story'' ''Remove story'' ''Remove a story from the backlog.''
        ''commands'' ''RemoveStoryCommand'',
      rmsg ''reorder-story'' ''Reorder story'' ''Move a backlog story to another index.''
        ''commands'' ''ReorderStoryCommand'',
      rmsg ''reset'' ''Reset'' ''Clear votes and results for the room.''
        ''commands'' ''ResetCommand'',
      rmsg ''reveal-votes'' ''Reveal votes'' ''Reveal the current votes.''
        ''commands'' ''RevealVotesCommand'',
      rmsg ''room-state'' ''Room state'' ''Full room snapshot broadcast after every mutation.''
        ''events'' ''RoomState'',
      rmsg ''select-story'' ''Select story'' ''Select a backlog story.''
        ''commands'' ''SelectStoryCommand'',
      rmsg ''stale-command'' ''Stale command'' ''The command was rejected because the room version changed.''
        ''events'' ''StaleCommand'',
      rmsg ''toggle-backlog-mode'' ''Toggle backlog mode'' ''Toggle backlog mode for the room.''
        ''commands'' ''ToggleBacklogModeCommand'',
      rmsg ''toggle-owner'' ''Toggle owner'' ''Toggle the owner role for a client.''
        ''commands'' ''ToggleOwnerCommand'',
      rmsg ''toggle-spectator'' ''Toggle spectator'' ''Toggle spectator mode for a client.''
        ''commands'' ''ToggleSpectatorCommand'',
      rmsg ''update-client-id'' ''Update client id'' ''Server-assigned client identity sent after the socket connects.''
        ''events'' ''UpdateClientID'',
      rmsg ''update-name'' ''Update name'' ''Change the current client display name.''
        ''commands'' ''UpdateNameCommand'',
      rmsg ''update-story'' ''Update story'' ''Change the story currently being estimated.''
        ''commands'' ''UpdateStoryCommand'',
      rmsg ''vote'' ''Vote'' ''Cast the current client vote.''
        ''commands'' ''VoteCommand'',
      rmsg ''vote-again'' ''Vote again'' ''Start a new voting round.''
        ''commands'' ''VoteAgainCommand'']"

definition command_wires :: "string list" where
  "command_wires =
     [''vote'', ''update-name'', ''reset'', ''reveal-votes'', ''toggle-spectator'', ''toggle-owner'',
      ''update-story'', ''vote-again'', ''toggle-backlog-mode'', ''add-story'', ''remove-story'',
      ''advance-story'', ''prev-story'', ''select-story'', ''reorder-story'']"

definition event_wires :: "string list" where
  "event_wires =
     [''room-state'', ''update-client-id'', ''kicked'', ''stale-command'', ''command-ack'',
      ''command-error'']"

definition asyncapi_yaml :: any_map where
  "asyncapi_yaml =
     [(''asyncapi'', AStr ''3.0.0''), (''id'', AStr ''urn:planning-poker:websocket-protocol''),
      (''info'', AMap [(''title'', AStr ''Planning Poker WebSocket Protocol''), (''version'', AStr ''1.0.0'')]),
      (''defaultContentType'', AStr ''application/json''),
      (''channels'', AMap [(''roomSocket'', AMap
         [(''address'', AStr ''/planning/{roomID}/ws''),
          (''messages'', AMap (map (\<lambda>m. (rm_wire m, pointer_entry ''#/components/messages/'' (rm_wire m)))
             contract_raw_messages))])]),
      (''operations'', AMap
         [(''receiveEvent'', operation_entry ''receive'' event_wires),
          (''sendCommand'', operation_entry ''send'' command_wires)]),
      (''components'', AMap [(''messages'', AMap (map message_entry contract_raw_messages))])]"

section \<open>The repository\<close>

definition schema_path :: "string \<Rightarrow> path" where
  "schema_path file = [''repo'', ''protocol'', ''schemas'', file @ ''.schema.json'']"

definition contract_env :: gen_env where
  "contract_env =
     \<lparr>ge_ReadDir = (\<lambda>p. if p = [''repo'', ''protocol'', ''schemas'']
        then Inr [(''commands.schema.json'', False), (''events.schema.json'', False), (''shared.schema.json'', False)]
        else Inl (New ''no such directory'')),
      ge_ReadFile = (\<lambda>p. if p = [''repo'', ''protocol'', ''asyncapi.yaml''] then Inr ''asyncapi''
        else if p = schema_path ''commands'' then Inr ''commands''
        else if p = schema_path ''events'' then Inr ''events''
        else if p = schema_path ''shared'' then Inr ''shared''
        else Inl (New ''no such file'')),
      ge_json = (\<lambda>t. if t = ''commands'' then Inr commands_schema else if t = ''events'' then Inr events_schema
        else if t = ''shared'' then Inr shared_schema else Inl (New ''invalid character'')),
      ge_yaml = (\<lambda>t. if t = ''asyncapi'' then Inr asyncapi_yaml else Inl (New ''yaml'')),
      ge_gofmt = Inr, ge_FormatFloat = (\<lambda>_. ''0'')\<rparr>"

section \<open>The specification\<close>

definition scalar :: "schema_meta \<Rightarrow> schema" where "scalar m = Schema m [] None ''''"
definition s_kind :: "SchemaKind \<Rightarrow> schema" where "s_kind k = scalar (new_meta k False)"
definition s_string_or_null :: schema where "s_string_or_null = scalar (new_meta KindString True)"

definition s_version :: schema where
  "s_version = scalar ((new_meta KindInteger False)\<lparr>mt_GoType := ''uint64'', mt_Minimum := Some 0\<rparr>)"

definition s_float32 :: schema where "s_float32 = scalar ((new_meta KindNumber False)\<lparr>mt_GoType := ''float32''\<rparr>)"

definition s_const :: "string \<Rightarrow> schema" where
  "s_const c = scalar ((new_meta KindString False)\<lparr>mt_Const := c\<rparr>)"

definition s_format :: "string \<Rightarrow> schema" where
  "s_format f = scalar ((new_meta KindString False)\<lparr>mt_Format := f\<rparr>)"

definition s_enum :: "string list \<Rightarrow> schema" where
  "s_enum es = scalar ((new_meta KindString False)\<lparr>mt_Enum := es\<rparr>)"

definition s_array :: "bool \<Rightarrow> schema \<Rightarrow> schema" where
  "s_array nullable it = Schema (new_meta KindArray nullable) [] (Some it) ''''"

definition s_object :: "property list \<Rightarrow> schema" where
  "s_object ps = Schema (new_meta KindObject False) ps None ''''"

definition s_command :: "string \<Rightarrow> string \<Rightarrow> schema" where
  "s_command wire payload = s_object
     [Property ''commandId'' (s_format ''uuid'') False, Property ''payload'' (ref_schema payload) True,
      Property ''type'' (s_const wire) True]"

definition commands_schemas :: "(string \<times> schema) list" where
  "commands_schemas =
     [(''AddStoryCommand'', s_command ''add-story'' ''AddStoryPayload''),
      (''AddStoryPayload'', s_object
       [Property ''story'' (s_kind KindString) True]),
      (''AdvanceStoryCommand'', s_command ''advance-story'' ''AdvanceStoryPayload''),
      (''AdvanceStoryPayload'', s_object
       [Property ''expectedRoomVersion'' s_version False]),
      (''PrevStoryCommand'', s_command ''prev-story'' ''PrevStoryPayload''),
      (''PrevStoryPayload'', s_object
       [Property ''expectedRoomVersion'' s_version False]),
      (''RemoveStoryCommand'', s_command ''remove-story'' ''RemoveStoryPayload''),
      (''RemoveStoryPayload'', s_object
       [Property ''expectedRoomVersion'' s_version False,
        Property ''storyId'' (s_kind KindString) True]),
      (''ReorderStoryCommand'', s_command ''reorder-story'' ''ReorderStoryPayload''),
      (''ReorderStoryPayload'', s_object
       [Property ''expectedRoomVersion'' s_version False,
        Property ''storyId'' (s_kind KindString) True,
        Property ''targetIndex'' (s_kind KindInteger) True]),
      (''ResetCommand'', s_command ''reset'' ''ResetPayload''),
      (''ResetPayload'', s_object
       [Property ''expectedRoomVersion'' s_version False]),
      (''RevealVotesCommand'', s_command ''reveal-votes'' ''RevealVotesPayload''),
      (''RevealVotesPayload'', s_object
       [Property ''expectedRoomVersion'' s_version False]),
      (''SelectStoryCommand'', s_command ''select-story'' ''SelectStoryPayload''),
      (''SelectStoryPayload'', s_object
       [Property ''expectedRoomVersion'' s_version False,
        Property ''storyId'' (s_kind KindString) True]),
      (''ToggleBacklogModeCommand'', s_command ''toggle-backlog-mode'' ''ToggleBacklogModePayload''),
      (''ToggleBacklogModePayload'', s_object
       [Property ''expectedRoomVersion'' s_version False]),
      (''ToggleOwnerCommand'', s_command ''toggle-owner'' ''ToggleOwnerPayload''),
      (''ToggleOwnerPayload'', s_object
       [Property ''expectedRoomVersion'' s_version False,
        Property ''targetClientId'' (s_kind KindString) True]),
      (''ToggleSpectatorCommand'', s_command ''toggle-spectator'' ''ToggleSpectatorPayload''),
      (''ToggleSpectatorPayload'', s_object
       [Property ''expectedRoomVersion'' s_version False,
        Property ''targetClientId'' (s_kind KindString) True]),
      (''UpdateNameCommand'', s_command ''update-name'' ''UpdateNamePayload''),
      (''UpdateNamePayload'', s_object
       [Property ''username'' (s_kind KindString) True]),
      (''UpdateStoryCommand'', s_command ''update-story'' ''UpdateStoryPayload''),
      (''UpdateStoryPayload'', s_object
       [Property ''expectedRoomVersion'' s_version False,
        Property ''story'' (s_kind KindString) True]),
      (''VoteAgainCommand'', s_command ''vote-again'' ''VoteAgainPayload''),
      (''VoteAgainPayload'', s_object
       [Property ''expectedRoomVersion'' s_version False]),
      (''VoteCommand'', s_command ''vote'' ''VotePayload''),
      (''VotePayload'', s_object
       [Property ''vote'' (s_kind KindString) True])]"

definition events_schemas :: "(string \<times> schema) list" where
  "events_schemas =
     [(''CommandAck'', s_object
       [Property ''commandId'' (s_format ''uuid'') True,
        Property ''roomVersion'' s_version False,
        Property ''type'' (s_const ''command-ack'') True]),
      (''CommandError'', s_object
       [Property ''code'' (ref_schema ''CommandErrorCode'') True,
        Property ''commandId'' (s_kind KindString) True,
        Property ''message'' (s_kind KindString) True,
        Property ''roomVersion'' s_version False,
        Property ''type'' (s_const ''command-error'') True]),
      (''CommandErrorCode'', s_enum [''validation'', ''forbidden'', ''not_found'', ''conflict'', ''stale_version'', ''invalid_payload'', ''unknown_command'', ''invalid_command_id'', ''command_in_progress'', ''internal'']),
      (''Kicked'', s_object
       [Property ''type'' (s_const ''kicked'') True]),
      (''RoomState'', s_object
       [Property ''backlogMode'' (s_kind KindBoolean) False,
        Property ''consensus'' (ref_schema ''ConsensusLevel'') False,
        Property ''currentStory'' (s_kind KindString) True,
        Property ''currentStoryIndex'' (s_kind KindInteger) False,
        Property ''deck'' (ref_schema ''DeckDescriptor'') True,
        Property ''highestVote'' (s_kind KindString) False,
        Property ''lowestVote'' (s_kind KindString) False,
        Property ''mostAppearingVotes'' (s_array True (s_kind KindString)) True,
        Property ''participants'' (s_array False (ref_schema ''Participant'')) True,
        Property ''result'' s_float32 False,
        Property ''reveal'' (s_kind KindBoolean) True,
        Property ''roomVersion'' s_version True,
        Property ''specialVoteCount'' (s_kind KindInteger) False,
        Property ''startedAt'' (s_format ''date-time'') False,
        Property ''stories'' (s_array True (ref_schema ''Story'')) False,
        Property ''type'' (s_const ''room-state'') True,
        Property ''voteRange'' (s_kind KindInteger) False,
        Property ''voteSpread'' (s_kind KindInteger) False]),
      (''StaleCommand'', s_object
       [Property ''roomVersion'' s_version True,
        Property ''type'' (s_const ''stale-command'') True]),
      (''UpdateClientID'', s_object
       [Property ''clientId'' (s_kind KindString) True,
        Property ''type'' (s_const ''update-client-id'') True])]"

definition shared_schemas :: "(string \<times> schema) list" where
  "shared_schemas =
     [(''ConsensusLevel'', s_enum [''High'', ''Medium'', ''Low'', ''Unavailable'']),
      (''DeckDescriptor'', s_object
       [Property ''cards'' (s_array False (s_kind KindString)) True,
        Property ''id'' (s_kind KindString) True,
        Property ''kind'' (ref_schema ''DeckKind'') True,
        Property ''name'' (s_kind KindString) True]),
      (''DeckKind'', s_enum [''numeric'', ''categorical'']),
      (''Participant'', s_object
       [Property ''hasVoted'' (s_kind KindBoolean) True,
        Property ''id'' (s_kind KindString) True,
        Property ''isOwner'' (s_kind KindBoolean) True,
        Property ''isSpectator'' (s_kind KindBoolean) True,
        Property ''name'' (s_kind KindString) True,
        Property ''vote'' s_string_or_null True,
        Property ''votedAt'' (s_format ''date-time'') False]),
      (''Story'', s_object
       [Property ''id'' (s_kind KindString) True,
        Property ''mostAppearingVotes'' (s_array True (s_kind KindString)) True,
        Property ''name'' (s_kind KindString) True,
        Property ''result'' s_float32 False,
        Property ''voted'' (s_kind KindBoolean) True])]"

definition relative_path :: "string \<Rightarrow> string" where
  "relative_path file = ''protocol/schemas/'' @ file @ ''.schema.json''"

definition definitions_of :: "string \<Rightarrow> (string \<times> schema) list \<Rightarrow> schema_definition list" where
  "definitions_of file ss = map (\<lambda>(n, s). \<lparr>df_Name = n, df_File = relative_path file, df_Schema = s\<rparr>) ss"

definition contract_definitions :: "schema_definition list" where
  "contract_definitions =
     sort_key df_Name (definitions_of ''commands'' commands_schemas @ definitions_of ''events'' events_schemas @
       definitions_of ''shared'' shared_schemas)"

text \<open>A command's payload is the definition of its frame without the suffix.\<close>

definition payload_name :: "string \<Rightarrow> string" where
  "payload_name def = take (length def - length ''Command'') def @ ''Payload''"

definition contract_message :: "raw_message \<Rightarrow> protocol_message" where
  "contract_message m =
     \<lparr>msg_WireType = rm_wire m, msg_Title = rm_title m, msg_Summary = rm_summary m,
      msg_Direction = (if rm_wire m \<in> set command_wires then DirectionSend else DirectionReceive),
      msg_SchemaFile = relative_path (rm_file m), msg_SchemaPointer = ''#/$defs/'' @ rm_def m,
      msg_DefName = rm_def m,
      msg_PayloadType = (if rm_wire m \<in> set command_wires then payload_name (rm_def m) else rm_def m)\<rparr>"

definition contract :: protocol_spec where
  "contract =
     \<lparr>sp_Messages = map contract_message contract_raw_messages, sp_Definitions = contract_definitions,
      sp_byName = rev (map (\<lambda>d. (df_Name d, d)) contract_definitions)\<rparr>"

end
