(* ===== verification/Contract_Loads.thy ===== *)
theory Contract_Loads
  imports Contract
begin

text \<open>
  The generator loads the contract of the repository: \<open>loadSpec\<close> makes \<open>contract\<close> of the documents of
  theory \<open>Contract\<close>. The schemas are read one by one, by theory \<open>Gen_Reference\<close>; the AsyncAPI
  document is followed message by message.
\<close>

section \<open>References and pointers\<close>

definition plain_name :: "string \<Rightarrow> bool" where
  "plain_name n \<longleftrightarrow> list_all (\<lambda>c. c \<noteq> CHR ''#'' \<and> c \<noteq> CHR ''/'' \<and> c \<noteq> CHR ''~'') n"

lemma plain_name_chars: "plain_name n \<Longrightarrow> CHR ''#'' \<notin> set n \<and> CHR ''/'' \<notin> set n \<and> CHR ''~'' \<notin> set n"
  by (auto simp: plain_name_def list_all_iff)

lemma cut_at_first: "d \<notin> set a \<Longrightarrow> cut_at d (a @ d # b) = Some (a, b)"
  by (induction a) auto

lemma split_on_whole: "d \<notin> set w \<Longrightarrow> split_on d w = [w]"
  by (induction w) auto

lemma split_on_first: "d \<notin> set a \<Longrightarrow> split_on d (a @ d # b) = a # split_on d b"
  by (induction a) auto

lemma replace2_absent: "a \<notin> set s \<Longrightarrow> replace2 a b r s = s"
  by (induction a b r s rule: replace2.induct) auto

lemma unescape_plain: "CHR ''~'' \<notin> set t \<Longrightarrow> unescape_token t = t"
  by (simp add: unescape_token_def replace2_absent)

definition defs_pointer :: "string \<Rightarrow> string" where "defs_pointer n = ''/$defs/'' @ n"

lemma splitRef_defs: "CHR ''#'' \<notin> set file \<Longrightarrow> splitRef (defs_ref file n) = (file, defs_pointer n)"
  using cut_at_first [of "CHR ''#''" "file" "''/$defs/'' @ n"]
  by (simp add: splitRef_def defs_ref_def defs_pointer_def)

lemma split_slash_defs: "plain_name n \<Longrightarrow> split_on (CHR ''/'') (''$defs/'' @ n) = [''$defs'', n]"
  using split_on_first [of "CHR ''/''" "''$defs''" n] split_on_whole plain_name_chars by simp

lemma pointerName_defs: "plain_name n \<Longrightarrow> pointerName (defs_pointer n) = n"
  using split_on_first [of "CHR ''/''" "[]" "''$defs/'' @ n"] split_slash_defs [of n] unescape_plain plain_name_chars
  by (simp add: pointerName_def defs_pointer_def)

lemma map_of_AMap [simp]: "map_of (map (apsnd AMap) ds) n = map_option AMap (map_of ds n)"
  by (induction ds) auto

lemma at_key_defs: "at_key (schema_document f t ds) ''$defs'' = AMap (map (apsnd AMap) ds)"
  by (simp add: schema_document_def at_key_def)

lemma checkPointer_defs:
  assumes "plain_name n" "map_of ds n = Some raw"
  shows "checkPointer (schema_document f t ds) (defs_pointer n) = Inr ()"
proof -
  have "unescape_token n = n" "unescape_token ''$defs'' = ''$defs''"
    using unescape_plain plain_name_chars [OF assms(1)] by simp_all
  then show ?thesis
    using split_slash_defs [OF assms(1)] assms(2)
    by (simp add: checkPointer_def pointerValue_def HasPrefix_def defs_pointer_def schema_document_def)
qed

section \<open>The loader\<close>

definition raw_entry :: "string \<Rightarrow> string \<times> any_map \<Rightarrow> string \<times> rawDefinition" where
  "raw_entry file = (\<lambda>(n, raw). (n, \<lparr>rd_name = n, rd_file = schema_path file, rd_relFile = relative_path file,
     rd_raw = raw\<rparr>))"

definition empty_loader :: schemaLoader where
  "empty_loader =
     \<lparr>ld_root = [''repo''], ld_ReadFile = ge_ReadFile contract_env, ld_Unmarshal = ge_json contract_env, ld_defs = []\<rparr>"

definition contract_loader :: schemaLoader where
  "contract_loader = empty_loader\<lparr>ld_defs :=
     rev (map (raw_entry ''shared'') shared_defs) @ rev (map (raw_entry ''events'') events_defs) @
     rev (map (raw_entry ''commands'') commands_defs)\<rparr>"

lemma loadDoc_files [simp]:
  "loadDoc (empty_loader\<lparr>ld_defs := ds\<rparr>) (schema_path ''commands'') = Inr commands_schema"
  "loadDoc (empty_loader\<lparr>ld_defs := ds\<rparr>) (schema_path ''events'') = Inr events_schema"
  "loadDoc (empty_loader\<lparr>ld_defs := ds\<rparr>) (schema_path ''shared'') = Inr shared_schema"
  by (simp_all add: loadDoc_def empty_loader_def contract_env_def schema_path_def)

lemma loadDoc_contract [simp]:
  "loadDoc contract_loader (schema_path ''commands'') = Inr commands_schema"
  "loadDoc contract_loader (schema_path ''events'') = Inr events_schema"
  "loadDoc contract_loader (schema_path ''shared'') = Inr shared_schema"
  by (simp_all add: contract_loader_def)

lemma relPath_files [simp]:
  "relPath (empty_loader\<lparr>ld_defs := ds\<rparr>) (schema_path file) = relative_path file"
  by (simp add: relPath_def empty_loader_def schema_path_def relative_path_def)

text \<open>The names, in order and all different.\<close>

definition all_defs :: "(string \<times> any_map) list" where "all_defs = commands_defs @ events_defs @ shared_defs"

lemma sorted_defs:
  "sorted (map fst commands_defs)" "sorted (map fst events_defs)" "sorted (map fst shared_defs)"
  by code_simp+

lemma distinct_defs: "distinct (map fst all_defs)"
  by code_simp

lemma plain_defs: "list_all (\<lambda>d. plain_name (fst d)) all_defs"
  by code_simp

lemma sortedKeys_sorted: "sorted (map fst m) \<Longrightarrow> distinct (map fst m) \<Longrightarrow> sortedKeys m = map fst m"
  by (simp add: sortedKeys_def distinct_remdups_id sorted_sort_id)

text \<open>Registering the definitions of a file, in the order of their names.\<close>

lemma register_loop_defs:
  assumes "distinct (map fst ds)" "distinct (map fst m)" "set ds \<subseteq> set m"
    and "fst ` set ds \<inter> fst ` set es = {}"
  shows "register_loop (schema_path file) (map (apsnd AMap) m) (map fst ds) (empty_loader\<lparr>ld_defs := es\<rparr>) =
    Inr (empty_loader\<lparr>ld_defs := rev (map (raw_entry file) ds) @ es\<rparr>)"
  using assms(1,3,4)
proof (induction ds arbitrary: es)
  case (Cons d ds)
  obtain n raw where d: "d = (n, raw)" by (cases d)
  have m: "map_of m n = Some raw" using Cons.prems(2) assms(2) d by simp
  have e: "map_of es n = None" using Cons.prems(3) d by (auto simp: map_of_eq_None_iff)
  let ?e = "raw_entry file d"
  have "registerDefinition (schema_path file) n (at_key (map (apsnd AMap) m) n) (empty_loader\<lparr>ld_defs := es\<rparr>) =
      Inr (empty_loader\<lparr>ld_defs := ?e # es\<rparr>)"
    using m e d by (simp add: registerDefinition_def at_key_def asMap_def raw_entry_def)
  moreover have "fst ` set ds \<inter> fst ` set (?e # es) = {}" using Cons.prems(1,3) d by (auto simp: raw_entry_def)
  ultimately show ?case using Cons d by simp
qed simp

lemma loadDefinitionsFrom_defs:
  assumes "loadDoc (empty_loader\<lparr>ld_defs := es\<rparr>) (schema_path file) = Inr (schema_document f t ds)"
    and "sorted (map fst ds)" "distinct (map fst ds)" "fst ` set ds \<inter> fst ` set es = {}"
  shows "loadDefinitionsFrom (schema_path file) (empty_loader\<lparr>ld_defs := es\<rparr>) =
    Inr (empty_loader\<lparr>ld_defs := rev (map (raw_entry file) ds) @ es\<rparr>)"
proof -
  have "map fst (map (apsnd AMap) ds) = map fst ds" by simp
  then have "sortedKeys (map (apsnd AMap) ds) = map fst ds"
    using sortedKeys_sorted [of "map (apsnd AMap) ds"] assms(2,3) by simp
  then show ?thesis
    using register_loop_defs [OF assms(3,3) order_refl assms(4)] assms(1)
    by (simp add: loadDefinitionsFrom_def at_key_defs asMap_def)
qed

lemma fst_raw_entry [simp]: "fst (raw_entry file d) = fst d"
  by (cases d) (simp add: raw_entry_def)

lemma loadDefinitions_contract:
  "loadDefinitions [schema_path ''commands'', schema_path ''events'', schema_path ''shared''] empty_loader =
     Inr contract_loader"
proof -
  have d: "distinct (map fst commands_defs)" "distinct (map fst events_defs)" "distinct (map fst shared_defs)"
    "fst ` set events_defs \<inter> fst ` set commands_defs = {}"
    "fst ` set shared_defs \<inter> (fst ` set events_defs \<union> fst ` set commands_defs) = {}"
    using distinct_defs by (auto simp: all_defs_def)
  have e: "empty_loader = empty_loader\<lparr>ld_defs := []\<rparr>" by (simp add: empty_loader_def)
  have "loadDefinitionsFrom (schema_path ''commands'') (empty_loader\<lparr>ld_defs := []\<rparr>) =
      Inr (empty_loader\<lparr>ld_defs := rev (map (raw_entry ''commands'') commands_defs) @ []\<rparr>)"
    by (rule loadDefinitionsFrom_defs [OF _ sorted_defs(1) d(1)]) (simp_all add: commands_schema_def)
  then have 1: "loadDefinitionsFrom (schema_path ''commands'') empty_loader =
      Inr (empty_loader\<lparr>ld_defs := rev (map (raw_entry ''commands'') commands_defs)\<rparr>)"
    using e by simp
  have 2: "loadDefinitionsFrom (schema_path ''events'')
      (empty_loader\<lparr>ld_defs := rev (map (raw_entry ''commands'') commands_defs)\<rparr>) =
      Inr (empty_loader\<lparr>ld_defs := rev (map (raw_entry ''events'') events_defs) @
        rev (map (raw_entry ''commands'') commands_defs)\<rparr>)"
    by (rule loadDefinitionsFrom_defs [OF _ sorted_defs(2) d(2)])
      (simp add: events_schema_def, use d(4) in \<open>simp add: image_image\<close>)
  have 3: "loadDefinitionsFrom (schema_path ''shared'')
      (empty_loader\<lparr>ld_defs := rev (map (raw_entry ''events'') events_defs) @
        rev (map (raw_entry ''commands'') commands_defs)\<rparr>) = Inr contract_loader"
    unfolding contract_loader_def
    by (rule loadDefinitionsFrom_defs [OF _ sorted_defs(3) d(3)])
      (simp add: shared_schema_def, use d(5) in \<open>simp add: image_image image_Un\<close>)
  show ?thesis by (simp add: 1 2 3)
qed

text \<open>What the loader knows of a name.\<close>

lemma distinct_loader: "distinct (map fst (ld_defs contract_loader))"
  using distinct_defs by (auto simp: contract_loader_def all_defs_def rev_map [symmetric] comp_def)

lemma names_loader: "names (ld_defs contract_loader) = fst ` set all_defs"
  by (simp add: contract_loader_def all_defs_def image_Un image_image Un_ac)

lemma loader_knows:
  "(n, raw) \<in> set commands_defs \<Longrightarrow> map_of (ld_defs contract_loader) n = Some (snd (raw_entry ''commands'' (n, raw)))"
  "(n, raw) \<in> set events_defs \<Longrightarrow> map_of (ld_defs contract_loader) n = Some (snd (raw_entry ''events'' (n, raw)))"
  "(n, raw) \<in> set shared_defs \<Longrightarrow> map_of (ld_defs contract_loader) n = Some (snd (raw_entry ''shared'' (n, raw)))"
proof -
  have in_loader: "map_of (ld_defs contract_loader) n = Some (snd (raw_entry file (n, raw)))"
    if "(n, raw) \<in> set ds" "raw_entry file ` set ds \<subseteq> set (ld_defs contract_loader)" for ds "file"
  proof -
    have "raw_entry file (n, raw) \<in> set (ld_defs contract_loader)" using that by blast
    then have "(n, snd (raw_entry file (n, raw))) \<in> set (ld_defs contract_loader)"
      by (simp add: raw_entry_def)
    then show ?thesis using distinct_loader by simp
  qed
  show "(n, raw) \<in> set commands_defs \<Longrightarrow>
      map_of (ld_defs contract_loader) n = Some (snd (raw_entry ''commands'' (n, raw)))"
    by (erule in_loader) (auto simp: contract_loader_def)
  show "(n, raw) \<in> set events_defs \<Longrightarrow>
      map_of (ld_defs contract_loader) n = Some (snd (raw_entry ''events'' (n, raw)))"
    by (erule in_loader) (auto simp: contract_loader_def)
  show "(n, raw) \<in> set shared_defs \<Longrightarrow>
      map_of (ld_defs contract_loader) n = Some (snd (raw_entry ''shared'' (n, raw)))"
    by (erule in_loader) (auto simp: contract_loader_def)
qed

section \<open>The schemas\<close>

text \<open>A reference to a definition of the same file, and from the events to the shared ones.\<close>

lemma resolveRef_defs:
  assumes "plain_name n" "CHR ''#'' \<notin> set pre" "map_of ds n = Some raw"
    and "loadDoc contract_loader t = Inr (schema_document f ti ds)"
    and "t = (if pre = '''' then base else walk (butlast base) (split_on (CHR ''/'') pre))" "\<not> HasPrefix pre ''/''"
  shows "resolveRef contract_loader base (defs_ref pre n) = Inr (t, defs_pointer n)"
proof -
  have "(if pre = '''' then base else if HasPrefix pre ''/'' then walk [] (split_on (CHR ''/'') pre)
      else walk (butlast base) (split_on (CHR ''/'') pre)) = t"
    using assms(5,6) by simp
  then show ?thesis
    using assms(4) checkPointer_defs [OF assms(1,3)]
    by (simp add: resolveRef_def splitRef_defs [OF assms(2)] Let_def)
qed

lemma ref_target_defs:
  assumes "plain_name n" "CHR ''#'' \<notin> set pre" "map_of ds n = Some raw"
    and "loadDoc contract_loader t = Inr (schema_document f ti ds)"
    and "t = (if pre = '''' then base else walk (butlast base) (split_on (CHR ''/'') pre))" "\<not> HasPrefix pre ''/''"
    and "map_of (ld_defs contract_loader) n = Some d" "rd_file d = t"
  shows "ref_target contract_loader (AStr (defs_ref pre n)) base = Inr n"
  using resolveRef_defs [OF assms(1-6)] assms(7,8)
  by (simp add: ref_target_def stringValue_def pointerName_defs [OF assms(1)])

lemma plain_of_defs:
  "(n, raw) \<in> set commands_defs \<or> (n, raw) \<in> set events_defs \<or> (n, raw) \<in> set shared_defs \<Longrightarrow> plain_name n"
  using plain_defs [unfolded list_all_iff, THEN bspec, of "(n, raw)"] by (simp add: all_defs_def)

lemma distinct_files:
  "distinct (map fst commands_defs)" "distinct (map fst events_defs)" "distinct (map fst shared_defs)"
  using distinct_defs by (simp_all add: all_defs_def)

lemma rd_file_entry [simp]: "rd_file (snd (raw_entry f (n, raw))) = schema_path f"
  by (simp add: raw_entry_def)

lemma local_ref:
  "(n, raw) \<in> set commands_defs \<Longrightarrow>
     ref_target contract_loader (AStr (defs_ref '''' n)) (schema_path ''commands'') = Inr n"
  "(n, raw) \<in> set events_defs \<Longrightarrow>
     ref_target contract_loader (AStr (defs_ref '''' n)) (schema_path ''events'') = Inr n"
  "(n, raw) \<in> set shared_defs \<Longrightarrow>
     ref_target contract_loader (AStr (defs_ref '''' n)) (schema_path ''shared'') = Inr n"
  by (rule ref_target_defs [OF _ _ _ _ _ _ loader_knows(1), where t = "schema_path ''commands''" and raw = raw],
      auto simp: distinct_files HasPrefix_def commands_schema_def intro: plain_of_defs,
      rule ref_target_defs [OF _ _ _ _ _ _ loader_knows(2), where t = "schema_path ''events''" and raw = raw],
      auto simp: distinct_files HasPrefix_def events_schema_def intro: plain_of_defs,
      rule ref_target_defs [OF _ _ _ _ _ _ loader_knows(3), where t = "schema_path ''shared''" and raw = raw],
      auto simp: distinct_files HasPrefix_def shared_schema_def intro: plain_of_defs)

lemma shared_ref:
  assumes "(n, raw) \<in> set shared_defs"
  shows "ref_target contract_loader (AStr (defs_ref ''shared.schema.json'' n)) (schema_path ''events'') = Inr n"
proof (rule ref_target_defs [OF _ _ _ _ _ _ loader_knows(3) [OF assms], where t = "schema_path ''shared''" and raw = raw])
  show "schema_path ''shared'' = (if ''shared.schema.json'' = '''' then schema_path ''events''
      else walk (butlast (schema_path ''events'')) (split_on (CHR ''/'') ''shared.schema.json''))"
    by code_simp
qed (use assms plain_of_defs in \<open>auto simp: distinct_files HasPrefix_def shared_schema_def\<close>)

text \<open>Each shape that occurs.\<close>

lemmas head_defs = schema_head_def rejectUnsupportedKeywords_def unsupportedKeywords_def schemaKind_def
  schemaKindName_def schemaKindFromList_def stringValue_def asSlice_def applySchemaMetadata_def if_key_def
  applyEnum_def applyConst_def applyFormat_def applyGoType_def applyNumericConstraint_def
  validateNumericConstraints_def new_meta_def

lemma direct_scalar:
  "schema_head raw = Inr m \<Longrightarrow> mt_Kind m \<noteq> KindObject \<Longrightarrow> mt_Kind m \<noteq> KindArray \<Longrightarrow>
   map_of raw ''$ref'' = None \<Longrightarrow> direct_schema L raw fl = Some (scalar m)"
  by (simp add: direct_schema_cases(5) scalar_def)

lemma enum_loop_strings:
  "distinct (seen @ es) \<Longrightarrow> enum_loop (map AStr es) seen = Inr (seen @ es)"
  by (induction es arbitrary: seen) (auto simp: stringValue_def)

lemma direct_shapes:
  "direct_schema L (raw_type ''string'') fl = Some (s_kind KindString)"
  "direct_schema L (raw_type ''integer'') fl = Some (s_kind KindInteger)"
  "direct_schema L (raw_type ''boolean'') fl = Some (s_kind KindBoolean)"
  "direct_schema L (raw_described ''string'' text) fl = Some (s_kind KindString)"
  "direct_schema L raw_version fl = Some s_version"
  "direct_schema L raw_float32 fl = Some s_float32"
  "direct_schema L raw_string_or_null fl = Some s_string_or_null"
  "direct_schema L (raw_const c) fl = Some (s_const c)"
  "direct_schema L (raw_format c) fl = Some (s_format c)"
  "distinct es \<Longrightarrow> es \<noteq> [] \<Longrightarrow> direct_schema L (raw_enum es) fl = Some (s_enum es)"
  unfolding s_kind_def s_version_def s_float32_def s_string_or_null_def s_const_def s_format_def s_enum_def
  by (rule direct_scalar; simp add: raw_type_def raw_described_def raw_version_def raw_float32_def
      raw_string_or_null_def raw_nullable_def raw_const_def raw_format_def raw_enum_def head_defs
      enum_loop_strings)+

lemma direct_ref:
  "ref_target L (AStr (defs_ref pre n)) fl = Inr n \<Longrightarrow> direct_schema L (raw_ref pre n) fl = Some (ref_schema n)"
  by (simp add: direct_schema_cases(1) raw_ref_def)

lemma direct_array:
  "direct_schema L it fl = Some s \<Longrightarrow> direct_schema L (raw_array nullable it) fl = Some (s_array nullable s)"
proof -
  assume it: "direct_schema L it fl = Some s"
  have "schema_head (raw_array nullable it) = Inr (new_meta KindArray nullable)"
    by (simp add: raw_array_def raw_nullable_def head_defs)
  moreover have "map_of (raw_array nullable it) ''$ref'' = None" "array_items (raw_array nullable it) = Inr it"
    by (simp_all add: raw_array_def array_items_def asMap_def)
  moreover have "mt_Kind (new_meta KindArray nullable) = KindArray" by (simp add: new_meta_def)
  ultimately show ?thesis using it direct_schema_cases(4) by (simp add: s_array_def)
qed

lemma required_loop_strings: "required_loop (map AStr req) = Inr req"
  by (induction req) (simp_all add: stringValue_def)

lemma at_keys_of: "distinct (map fst m) \<Longrightarrow> map (\<lambda>k. (k, at_key m k)) (map fst m) = m"
  unfolding map_map by (rule map_idI) (auto simp: at_key_def)

lemma object_shape_raw:
  assumes "sorted (map fst ps)" "distinct (map fst ps)" "list_all (\<lambda>r. r \<in> fst ` set ps) req"
  shows "object_shape (raw_object ps req) = Inr (map (apsnd AMap) ps, req)"
proof -
  let ?m = "map (apsnd AMap) ps"
  have f: "map fst ?m = map fst ps" by simp
  have "sortedKeys ?m = map fst ?m" using assms(1,2) by (intro sortedKeys_sorted) (simp_all only: f)
  then have k: "map (\<lambda>k. (k, at_key ?m k)) (sortedKeys ?m) = ?m"
    using at_keys_of [of ?m] assms(2) by (simp only: f)
  have "find (\<lambda>name. map_of ?m name = None) req = None"
    using assms(3) by (auto simp: find_None_iff list_all_iff map_of_eq_None_iff)
  moreover have "requiredNames (raw_object ps req) = Inr req"
    by (simp add: requiredNames_def raw_object_def asSlice_def required_loop_strings)
  moreover have "map_of (raw_object ps req) ''properties'' = Some (AMap ?m)" by (simp add: raw_object_def)
  ultimately show ?thesis by (simp add: object_shape_def asMap_def k)
qed

lemma direct_object:
  assumes "sorted (map fst ps)" "distinct (map fst ps)" "list_all (\<lambda>r. r \<in> fst ` set ps) req"
    and "direct_properties L (map (apsnd AMap) ps) req fl = Some qs"
  shows "direct_schema L (raw_object ps req) fl = Some (s_object qs)"
proof -
  have "schema_head (raw_object ps req) = Inr (new_meta KindObject False)"
    by (simp add: raw_object_def head_defs)
  moreover have "map_of (raw_object ps req) ''$ref'' = None" by (simp add: raw_object_def)
  moreover have "mt_Kind (new_meta KindObject False) = KindObject" by (simp add: new_meta_def)
  ultimately show ?thesis
    using direct_schema_cases(3) assms(4) object_shape_raw [OF assms(1-3)] by (simp add: s_object_def)
qed

lemma direct_properties_Cons:
  "direct_schema L raw fl = Some s \<Longrightarrow> direct_properties L (map (apsnd AMap) ps) req fl = Some qs \<Longrightarrow>
   q = (n \<in> set req) \<Longrightarrow>
   direct_properties L (map (apsnd AMap) ((n, raw) # ps)) req fl = Some (Property n s q # qs)"
  by (simp add: asMap_def)

lemma direct_command:
  "ref_target L (AStr (defs_ref '''' payload)) fl = Inr payload \<Longrightarrow>
   direct_schema L (raw_command wire payload) fl = Some (s_command wire payload)"
  unfolding raw_command_def s_command_def
  by (rule direct_object) (simp_all add: asMap_def direct_shapes direct_ref)

text \<open>All definitions of a file.\<close>

definition parsed_as :: "string \<Rightarrow> string \<times> any_map \<Rightarrow> string \<times> schema \<Rightarrow> bool" where
  "parsed_as file d e \<longleftrightarrow>
     fst d = fst e \<and> direct_schema contract_loader (snd d) (schema_path file) = Some (snd e)"

lemma parsed_as_pair [simp]:
  "parsed_as file (n, raw) (n', s) \<longleftrightarrow>
     n = n' \<and> direct_schema contract_loader raw (schema_path file) = Some s"
  by (simp add: parsed_as_def)

lemma shared_parsed: "list_all2 (parsed_as ''shared'') shared_defs shared_schemas"
proof -
  have "(''DeckKind'', raw_enum [''numeric'', ''categorical'']) \<in> set shared_defs" by (simp add: shared_defs_def)
  note r = local_ref(3) [OF this]
  show ?thesis
    unfolding shared_defs_def shared_schemas_def
    by (simp add: direct_shapes r direct_ref direct_array direct_object asMap_def)
qed

lemma local_refs:
  "n \<in> fst ` set commands_defs \<Longrightarrow>
     ref_target contract_loader (AStr (defs_ref '''' n)) (schema_path ''commands'') = Inr n"
  "n \<in> fst ` set events_defs \<Longrightarrow>
     ref_target contract_loader (AStr (defs_ref '''' n)) (schema_path ''events'') = Inr n"
  "n \<in> fst ` set shared_defs \<Longrightarrow>
     ref_target contract_loader (AStr (defs_ref ''shared.schema.json'' n)) (schema_path ''events'') = Inr n"
  using local_ref(1,2) shared_ref by auto

lemma events_parsed: "list_all2 (parsed_as ''events'') events_defs events_schemas"
proof -
  have s: "list_all (\<lambda>n. n \<in> fst ` set shared_defs) [''ConsensusLevel'', ''DeckDescriptor'', ''Participant'', ''Story'']"
    and e: "''CommandErrorCode'' \<in> fst ` set events_defs"
    by code_simp+
  then have r: "n \<in> set [''ConsensusLevel'', ''DeckDescriptor'', ''Participant'', ''Story''] \<Longrightarrow>
      direct_schema contract_loader (raw_ref ''shared.schema.json'' n) (schema_path ''events'') = Some (ref_schema n)"
    "direct_schema contract_loader (raw_ref '''' ''CommandErrorCode'') (schema_path ''events'') =
      Some (ref_schema ''CommandErrorCode'')" for n
    by (intro direct_ref local_refs(3), force simp: list_all_iff, intro direct_ref local_refs(2))
  show ?thesis
    unfolding events_defs_def events_schemas_def
    by (simp add: direct_shapes r direct_array direct_object asMap_def)
qed

lemma commands_parsed: "list_all2 (parsed_as ''commands'') commands_defs commands_schemas"
proof -
  have c: "direct_schema contract_loader (raw_command wire payload) (schema_path ''commands'') =
      Some (s_command wire payload)" if "payload \<in> fst ` set commands_defs" for wire payload
    by (rule direct_command) (rule local_refs(1) [OF that])
  show ?thesis
    by (simp add: commands_defs_def commands_schemas_def direct_shapes direct_object asMap_def
        c [unfolded commands_defs_def])
qed

definition contract_schemas :: "(string \<times> schema) list" where
  "contract_schemas = commands_schemas @ events_schemas @ shared_schemas"

lemma parsed_names: "list_all2 (parsed_as file) ds ss \<Longrightarrow> map fst ds = map fst ss"
  by (induction rule: list_all2_induct) (auto simp: parsed_as_def)

lemma schema_names:
  "map fst commands_defs = map fst commands_schemas" "map fst events_defs = map fst events_schemas"
  "map fst shared_defs = map fst shared_schemas"
  using parsed_names commands_parsed events_parsed shared_parsed by blast+

lemma all_names: "map fst all_defs = map fst contract_schemas"
  by (simp add: all_defs_def contract_schemas_def schema_names)

lemma distinct_schemas: "distinct (map fst contract_schemas)"
  using distinct_defs by (simp add: all_names)

lemma direct_of_parsed:
  assumes "list_all2 (parsed_as file) ds ss" "(n, s) \<in> set ss"
    and "\<And>raw. (n, raw) \<in> set ds \<Longrightarrow> map_of (ld_defs contract_loader) n = Some (snd (raw_entry file (n, raw)))"
  shows "direct contract_loader n = Some s"
proof -
  obtain i where i: "i < length ss" "ss ! i = (n, s)" using assms(2) by (auto simp: in_set_conv_nth)
  then have "parsed_as file (ds ! i) (n, s)" "ds ! i \<in> set ds"
    using assms(1) by (auto simp: list_all2_conv_all_nth)
  then obtain raw where "(n, raw) \<in> set ds" "direct_schema contract_loader raw (schema_path file) = Some s"
    by (cases "ds ! i") auto
  then show ?thesis using assms(3) by (simp add: direct_def raw_entry_def)
qed

lemma contract_direct:
  assumes "(n, s) \<in> set contract_schemas"
  shows "direct contract_loader n = Some s"
  using assms direct_of_parsed [OF commands_parsed _ loader_knows(1)] direct_of_parsed [OF events_parsed _ loader_knows(2)]
    direct_of_parsed [OF shared_parsed _ loader_knows(3)]
  unfolding contract_schemas_def by auto

lemma contract_direct_iff: "direct contract_loader n = Some s \<longleftrightarrow> (n, s) \<in> set contract_schemas"
proof
  assume d: "direct contract_loader n = Some s"
  then have "n \<in> names (ld_defs contract_loader)"
    by (metis direct_def map_of_None_names option.case(1) option.distinct(1))
  then have "n \<in> set (map fst contract_schemas)" unfolding names_loader all_names [symmetric] by simp
  then show "(n, s) \<in> set contract_schemas" using contract_direct d by auto
qed (rule contract_direct)

text \<open>References go down: a room's state to the deck, the deck to its kind, the others one step.\<close>

definition level :: "string \<Rightarrow> nat" where
  "level n = (if n = ''RoomState'' then 2
     else if n = ''DeckDescriptor'' \<or> n = ''CommandError'' \<or> HasSuffix n ''Command'' then 1 else 0)"

fun refs_list :: "schema \<Rightarrow> string list" and prop_refs_list :: "property \<Rightarrow> string list" where
  "refs_list (Schema m ps it r) =
     (if mt_Kind m = KindRef then [r] else []) @ concat (map prop_refs_list ps) @
     (case it of None \<Rightarrow> [] | Some s \<Rightarrow> refs_list s)"
| "prop_refs_list (Property n s q) = refs_list s"

lemma refs_list: "set (refs_list s) = refs s" "set (prop_refs_list q) = prop_refs q"
  by (induction s and q rule: refs_list_prop_refs_list.induct) (auto split: option.splits)

lemma levels_go_down: "list_all (\<lambda>(n, s). list_all (\<lambda>r. level r < level n) (refs_list s)) contract_schemas"
  by code_simp

lemma contract_acyclic: "acyclic (uses contract_loader)"
  by (rule acyclic_rank [where f = level])
    (use levels_go_down in \<open>auto simp: uses_def contract_direct_iff list_all_iff refs_list\<close>)

lemma contract_newSchemaLoader:
  "\<exists>p. newSchemaLoader (ge_ReadDir contract_env) (ge_ReadFile contract_env) (ge_json contract_env) [''repo''] =
      Inr (contract_loader, p) \<and> map_of p = direct contract_loader"
proof -
  have f: "schemaFiles (ge_ReadDir contract_env ([''repo''] @ schemaDirectory)) ([''repo''] @ schemaDirectory) =
      Inr [schema_path ''commands'', schema_path ''events'', schema_path ''shared'']"
    by code_simp
  have "direct contract_loader n \<noteq> None" if n: "n \<in> names (ld_defs contract_loader)" for n
  proof -
    have "n \<in> set (map fst contract_schemas)" using n unfolding names_loader all_names [symmetric] by simp
    then show ?thesis using contract_direct by auto
  qed
  then obtain p where p: "parseDefinitions contract_loader = Inr p"
    using parseDefinitions_exists [OF _ contract_acyclic] by blast
  then show ?thesis
    using f loadDefinitions_contract parseDefinitions_direct(1) [OF p]
    by (auto simp: newSchemaLoader_def empty_loader_def)
qed

section \<open>The AsyncAPI document\<close>

lemma asyncapi_normal: "normalizeMap asyncapi_yaml = Inr asyncapi_yaml"
  by code_simp

lemma contract_document: "readAsyncAPIDocument contract_env [''repo''] = Inr asyncapi_yaml"
proof -
  have "ge_ReadFile contract_env ([''repo''] @ asyncAPIYAMLPath) = Inr ''asyncapi''"
    "ge_yaml contract_env ''asyncapi'' = Inr asyncapi_yaml"
    "at_key asyncapi_yaml ''asyncapi'' = AStr ''3.0.0''"
    by (simp_all add: contract_env_def asyncAPIYAMLPath_def asyncapi_yaml_def at_key_def)
  then show ?thesis
    by (simp add: readAsyncAPIDocument_def asyncapi_normal asMap_def string_or_empty_def stringValue_def HasPrefix_def)
qed

definition wires :: "string list" where "wires = map rm_wire contract_raw_messages"

lemma wires_ok:
  "sorted wires" "distinct wires" "list_all plain_name wires" "set wires = set (command_wires @ event_wires)"
  "distinct (command_wires @ event_wires)"
proof -
  have "list_all (\<lambda>w. w \<in> set (command_wires @ event_wires)) wires" "list_all (\<lambda>w. w \<in> set wires) (command_wires @ event_wires)"
    by code_simp+
  then show "set wires = set (command_wires @ event_wires)" unfolding list_all_iff by blast
qed code_simp+

definition channel_messages :: any_map where
  "channel_messages = map (\<lambda>w. (w, pointer_entry ''#/components/messages/'' w)) wires"

lemma contract_messages_found:
  "asyncAPIMessages asyncapi_yaml = Inr (map message_entry contract_raw_messages, channel_messages)"
proof -
  have "contract_raw_messages \<noteq> []" by (simp add: contract_raw_messages_def)
  then show ?thesis
    by (simp add: asyncAPIMessages_def roomChannelMessages_def asyncapi_yaml_def at_key_def asMap_def
        channel_messages_def wires_def comp_def)
qed

lemma fst_message_entry [simp]: "fst (message_entry m) = rm_wire m"
  by (simp add: message_entry_def)

lemma message_lookup:
  "m \<in> set contract_raw_messages \<Longrightarrow> at_key (map message_entry contract_raw_messages) (rm_wire m) = snd (message_entry m)"
  "w \<in> set wires \<Longrightarrow> \<exists>v. map_of (map message_entry contract_raw_messages) w = Some v"
proof -
  have d: "distinct (map fst (map message_entry contract_raw_messages))"
    using wires_ok(2) by (simp add: wires_def comp_def)
  show "at_key (map message_entry contract_raw_messages) (rm_wire m) = snd (message_entry m)"
    if "m \<in> set contract_raw_messages"
  proof -
    have "(rm_wire m, snd (message_entry m)) \<in> set (map message_entry contract_raw_messages)"
      using imageI [OF that, of message_entry] by (simp add: message_entry_def)
    then have "map_of (map message_entry contract_raw_messages) (rm_wire m) = Some (snd (message_entry m))"
      using map_of_is_SomeI [OF d] by blast
    then show ?thesis by (simp add: at_key_def)
  qed
  show "w \<in> set wires \<Longrightarrow> \<exists>v. map_of (map message_entry contract_raw_messages) w = Some v"
    using map_of_eq_None_iff [of "map message_entry contract_raw_messages" w] by (auto simp: wires_def image_image)
qed

lemma channel_lookup: "w \<in> set wires \<Longrightarrow> map_of channel_messages w = Some (pointer_entry ''#/components/messages/'' w)"
  by (auto simp: channel_messages_def map_of_map_restrict restrict_map_def map_of_eq_Some_iff comp_def wires_ok(2)
      intro!: map_of_is_SomeI)

lemma entryRef_pointer:
  assumes "plain_name w"
  shows "entryRef (pointer_entry ''#/components/messages/'' w) = Inr w"
    "entryRef (pointer_entry channelMessagesRefPrefix w) = Inr w"
proof -
  have s: "split_on (CHR ''/'') w = [w]" "unescape_token w = w"
    using plain_name_chars [OF assms] by (simp_all add: split_on_whole unescape_plain)
  show "entryRef (pointer_entry ''#/components/messages/'' w) = Inr w"
    "entryRef (pointer_entry channelMessagesRefPrefix w) = Inr w"
    by (simp_all add: entryRef_def entryRawRef_def pointer_entry_def asMap_def at_key_def string_or_empty_def
        stringValue_def splitRef_def pointerName_def s channelMessagesRefPrefix_def)
qed

lemma exposed_loop_ok:
  "set ws \<subseteq> set wires \<Longrightarrow> exposed_loop (map message_entry contract_raw_messages) channel_messages ws = Inr ()"
proof (induction ws)
  case (Cons w ws)
  then have "w \<in> set wires" by simp
  moreover have "plain_name w" using Cons.prems wires_ok(3) by (auto simp: list_all_iff)
  ultimately show ?case
    using Cons message_lookup(2) [of w] by (auto simp: channel_lookup at_key_def entryRef_pointer)
qed simp

lemma contract_exposure:
  "validateMessageExposure (map message_entry contract_raw_messages) channel_messages = Inr ()"
proof -
  have "set (sortedKeys channel_messages) = set wires" "set (sortedKeys (map message_entry contract_raw_messages)) = set wires"
    by (simp_all add: channel_messages_def wires_def image_image)
  moreover from this(2) have "find (\<lambda>w. map_of channel_messages w = None)
      (sortedKeys (map message_entry contract_raw_messages)) = None"
    by (auto simp: find_None_iff channel_lookup)
  ultimately show ?thesis by (simp add: validateMessageExposure_def exposed_loop_ok)
qed

section \<open>Operations and messages\<close>

definition contract_directions :: directions where
  "contract_directions =
     rev (map (\<lambda>w. (w, DirectionSend)) command_wires) @ rev (map (\<lambda>w. (w, DirectionReceive)) event_wires)"

lemma direction_loop_pointers:
  assumes "list_all plain_name ws" "distinct ws" "set ws \<inter> fst ` set ds = {}"
  shows "direction_loop op d (map (pointer_entry channelMessagesRefPrefix) ws) ds = Inr (rev (map (\<lambda>w. (w, d)) ws) @ ds)"
  using assms
proof (induction ws arbitrary: ds)
  case (Cons w ws)
  have raw: "entryRawRef (pointer_entry channelMessagesRefPrefix w) = Inr (channelMessagesRefPrefix @ w)"
    by (simp add: entryRawRef_def pointer_entry_def asMap_def at_key_def string_or_empty_def stringValue_def
        channelMessagesRefPrefix_def)
  moreover have "HasPrefix (channelMessagesRefPrefix @ w) channelMessagesRefPrefix" by (simp add: HasPrefix_def)
  moreover have "entryRef (pointer_entry channelMessagesRefPrefix w) = Inr w"
    using Cons.prems(1) by (simp add: entryRef_pointer)
  moreover have "map_of ds w = None" using Cons.prems(3) by (simp add: map_of_eq_None_iff)
  moreover have "set ws \<inter> fst ` set ((w, d) # ds) = {}" using Cons.prems(2,3) by auto
  ultimately show ?case using Cons by simp
qed simp

lemma add_operation:
  assumes "list_all plain_name ws" "distinct ws" "set ws \<inter> fst ` set ds = {}" "ws \<noteq> []"
    and "action = ''send'' \<and> d = DirectionSend \<or> action = ''receive'' \<and> d = DirectionReceive"
  shows "addOperationDirections ds n (operation_entry action ws) = Inr (rev (map (\<lambda>w. (w, d)) ws) @ ds)"
  using assms(4,5) direction_loop_pointers [OF assms(1-3)]
  by (auto simp: addOperationDirections_def operation_entry_def asMap_def at_key_def string_or_empty_def
      stringValue_def asSlice_def)

lemma contract_operations: "operationDirections asyncapi_yaml = Inr contract_directions"
proof -
  have o: "asMap (at_key asyncapi_yaml ''operations'') =
      Some [(''receiveEvent'', operation_entry ''receive'' event_wires), (''sendCommand'', operation_entry ''send'' command_wires)]"
    by (simp add: asyncapi_yaml_def at_key_def asMap_def)
  have k: "sortedKeys [(''receiveEvent'', x), (''sendCommand'', y)] = [''receiveEvent'', ''sendCommand'']" for x y :: any_value
    by (simp add: sortedKeys_def)
  have p: "list_all plain_name command_wires" "list_all plain_name event_wires"
    using wires_ok(3,4) by (auto simp: list_all_iff)
  have d: "distinct command_wires" "distinct event_wires" "set command_wires \<inter> set event_wires = {}"
    using wires_ok(5) by auto
  have n: "command_wires \<noteq> []" "event_wires \<noteq> []" by (simp_all add: command_wires_def event_wires_def)
  have e: "addOperationDirections [] ''receiveEvent'' (operation_entry ''receive'' event_wires) =
      Inr (rev (map (\<lambda>w. (w, DirectionReceive)) event_wires) @ [])"
    by (rule add_operation) (use p d n in simp_all)
  have c: "addOperationDirections (rev (map (\<lambda>w. (w, DirectionReceive)) event_wires)) ''sendCommand''
      (operation_entry ''send'' command_wires) = Inr contract_directions"
    unfolding contract_directions_def by (rule add_operation) (use p d n in \<open>auto simp: image_image\<close>)
  show ?thesis using e c by (simp add: operationDirections_def o k) (simp add: at_key_def)
qed

lemma direction_of:
  assumes "w \<in> set wires"
  shows "map_of contract_directions w = Some (if w \<in> set command_wires then DirectionSend else DirectionReceive)"
proof -
  have d: "distinct (map fst contract_directions)"
    using wires_ok(5) by (auto simp: contract_directions_def rev_map [symmetric] comp_def)
  have "(w, if w \<in> set command_wires then DirectionSend else DirectionReceive) \<in> set contract_directions"
    using assms wires_ok(4) by (auto simp: contract_directions_def)
  then show ?thesis using d by simp
qed

text \<open>What a message needs of the schema it names.\<close>

definition schemas_in :: "string \<Rightarrow> (string \<times> schema) list" where
  "schemas_in file = (if file = ''commands'' then commands_schemas else events_schemas)"

definition message_fits :: "raw_message \<Rightarrow> bool" where
  "message_fits m \<longleftrightarrow>
     rm_title m \<noteq> [] \<and> rm_summary m \<noteq> [] \<and> (rm_file m = ''commands'' \<or> rm_file m = ''events'') \<and>
     (case map_of (schemas_in (rm_file m)) (rm_def m) of
        None \<Rightarrow> False
      | Some s \<Rightarrow>
          sch_Kind s = KindObject \<and>
          (case Schema_Property s ''type'' of None \<Rightarrow> False | Some q \<Rightarrow> sch_Const (prop_Schema q) = rm_wire m) \<and>
          (if rm_wire m \<in> set command_wires then
             (case Schema_Property s ''payload'' of
                None \<Rightarrow> False
              | Some q \<Rightarrow>
                  sch_Kind (prop_Schema q) = KindRef \<and> sch_RefName (prop_Schema q) = payload_name (rm_def m) \<and>
                  (case map_of contract_schemas (payload_name (rm_def m)) of
                     None \<Rightarrow> False | Some t \<Rightarrow> sch_Kind t = KindObject))
           else True))"

lemma messages_fit: "list_all message_fits contract_raw_messages"
  by code_simp

lemma payload_of:
  "asMap (at_key [(''name'', x), (''title'', y), (''summary'', z), (''payload'', AMap r)] ''payload'') = Some r"
  by (simp add: at_key_def asMap_def)

lemma schemas_in_defs:
  assumes "file = ''commands'' \<or> file = ''events''" "map_of (schemas_in file) n = Some s"
  shows "direct contract_loader n = Some s"
    "\<exists>d. map_of (ld_defs contract_loader) n = Some d \<and> rd_relFile d = relative_path file \<and> rd_file d = schema_path file"
    "plain_name n"
    "resolveRef contract_loader [''repo'', ''protocol'', ''asyncapi.yaml''] (defs_ref (schema_file_ref file) n) =
       Inr (schema_path file, defs_pointer n)"
proof -
  let ?ds = "if file = ''commands'' then commands_defs else events_defs"
  have s: "(n, s) \<in> set (schemas_in file)" using assms(2) by (rule map_of_SomeD)
  then show "direct contract_loader n = Some s"
    by (intro contract_direct) (auto simp: schemas_in_def contract_schemas_def split: if_splits)
  have "map fst ?ds = map fst (schemas_in file)" by (simp add: schemas_in_def schema_names)
  moreover have "n \<in> set (map fst (schemas_in file))" using imageI [OF s, of fst] by simp
  ultimately have "n \<in> set (map fst ?ds)" by metis
  then obtain raw where raw: "(n, raw) \<in> set ?ds" by auto
  then show "\<exists>d. map_of (ld_defs contract_loader) n = Some d \<and> rd_relFile d = relative_path file \<and>
      rd_file d = schema_path file"
    using assms(1) loader_knows [of n raw] by (auto simp: raw_entry_def split: if_splits)
  show p: "plain_name n" using raw plain_of_defs [of n raw] by (auto split: if_splits)
  have m: "map_of ?ds n = Some raw" using raw distinct_files by (auto split: if_splits)
  have t: "schema_path file = (if schema_file_ref file = '''' then [''repo'', ''protocol'', ''asyncapi.yaml'']
      else walk (butlast [''repo'', ''protocol'', ''asyncapi.yaml'']) (split_on (CHR ''/'') (schema_file_ref file)))"
    using assms(1) by (elim disjE; simp add: schema_path_def schema_file_ref_def)
  have l: "loadDoc contract_loader (schema_path file) = Inr (if file = ''commands'' then commands_schema else events_schema)"
    using assms(1) by auto
  show "resolveRef contract_loader [''repo'', ''protocol'', ''asyncapi.yaml''] (defs_ref (schema_file_ref file) n) =
      Inr (schema_path file, defs_pointer n)"
  proof (rule resolveRef_defs [OF p _ m _ t])
    show "loadDoc contract_loader (schema_path file) =
        Inr (schema_document (if file = ''commands'' then ''commands'' else ''events'')
          (if file = ''commands'' then ''Client command frames and payloads'' else ''Server event payloads'') ?ds)"
      using l by (simp add: commands_schema_def events_schema_def)
  qed (use assms(1) in \<open>auto simp: schema_file_ref_def HasPrefix_def\<close>)
qed

lemma buildMessage_contract:
  assumes m: "m \<in> set contract_raw_messages" and p: "map_of p = direct contract_loader"
  shows "buildMessage contract_loader p [''repo'', ''protocol'', ''asyncapi.yaml''] (rm_wire m) (snd (message_entry m))
    contract_directions = Inr (contract_message m)"
proof -
  note f = messages_fit [unfolded list_all_iff, THEN bspec, OF m, unfolded message_fits_def]
  obtain s where s: "map_of (schemas_in (rm_file m)) (rm_def m) = Some s" "sch_Kind s = KindObject"
    using f by (auto split: option.splits)
  obtain q where q: "Schema_Property s ''type'' = Some q" "sch_Const (prop_Schema q) = rm_wire m"
    using f s by (auto split: option.splits)
  have fl: "rm_file m = ''commands'' \<or> rm_file m = ''events''" using f by blast
  note k = schemas_in_defs [OF fl s(1)]
  obtain d where d: "map_of (ld_defs contract_loader) (rm_def m) = Some d" "rd_relFile d = relative_path (rm_file m)"
    using k(2) by blast
  have "defs_ref (schema_file_ref (rm_file m)) (rm_def m) \<noteq> ''''" by (simp add: defs_ref_def)
  moreover have "CHR ''#'' \<notin> set (schema_file_ref (rm_file m))" using fl by (auto simp: schema_file_ref_def)
  ultimately have res: "resolveMessagePayload contract_loader p [''repo'', ''protocol'', ''asyncapi.yaml''] (rm_wire m)
      [(''name'', AStr (rm_wire m)), (''title'', AStr (rm_title m)), (''summary'', AStr (rm_summary m)),
       (''payload'', AMap (raw_ref (schema_file_ref (rm_file m)) (rm_def m)))] =
      Inr (rm_def m, s, defs_pointer (rm_def m))"
    using k(1,4) d(1) s(2) p
    by (simp add: resolveMessagePayload_def payload_of raw_ref_def at_key_def string_or_empty_def stringValue_def
        splitRef_defs pointerName_defs [OF k(3)] asMap_def Let_def)
  have type: "requireMessageTypeConst s (rm_def m) (rm_wire m) = Inr ()"
    using q by (simp add: requireMessageTypeConst_def)
  have "rm_wire m \<in> set wires" using m by (simp add: wires_def)
  note dir = direction_of [OF this]
  have pay: "payloadTypeFor contract_loader p s (rm_def m) (rm_wire m)
      (if rm_wire m \<in> set command_wires then DirectionSend else DirectionReceive) =
      Inr (if rm_wire m \<in> set command_wires then payload_name (rm_def m) else rm_def m)"
  proof (cases "rm_wire m \<in> set command_wires")
    case True
    then obtain r t where r: "Schema_Property s ''payload'' = Some r" "sch_Kind (prop_Schema r) = KindRef"
        "sch_RefName (prop_Schema r) = payload_name (rm_def m)"
        "map_of contract_schemas (payload_name (rm_def m)) = Some t" "sch_Kind t = KindObject"
      using f s(1) by (auto split: option.splits)
    have t: "direct contract_loader (payload_name (rm_def m)) = Some t"
      using map_of_SomeD [OF r(4)] by (rule contract_direct)
    then obtain d' where d': "map_of (ld_defs contract_loader) (payload_name (rm_def m)) = Some d'"
      by (auto simp: direct_def split: option.splits)
    have "defs_named contract_loader" using contract_newSchemaLoader newSchemaLoader_named by blast
    then have "rd_name d' = payload_name (rm_def m)" using d' by (auto simp: defs_named_def)
    then show ?thesis using True r t d' p by (simp add: payloadTypeFor_def)
  qed (simp add: payloadTypeFor_def)
  show ?thesis
    using f res type pay d
    by (simp add: buildMessage_def message_entry_def asMap_def at_key_def string_or_empty_def stringValue_def dir
        contract_message_def defs_pointer_def del: split_paired_Ex)
qed

section \<open>The contract is loaded\<close>

lemma messages_loop_contract:
  assumes p: "map_of p = direct contract_loader"
  shows "set ms \<subseteq> set contract_raw_messages \<Longrightarrow>
    messages_loop contract_loader p [''repo'', ''protocol'', ''asyncapi.yaml''] (map message_entry contract_raw_messages)
      contract_directions (map rm_wire ms) = Inr (map contract_message ms)"
  by (induction ms) (simp_all add: message_lookup(1) buildMessage_contract [OF _ p])

lemma buildMessages_contract:
  assumes "map_of p = direct contract_loader"
  shows "buildMessages contract_loader p [''repo'', ''protocol'', ''asyncapi.yaml''] (map message_entry contract_raw_messages)
    channel_messages contract_directions = Inr (map contract_message contract_raw_messages)"
proof -
  have "map fst channel_messages = wires" by (simp add: channel_messages_def comp_def)
  then have k: "sortedKeys channel_messages = map rm_wire contract_raw_messages"
    using sortedKeys_sorted [of channel_messages] wires_ok(1,2) by (simp add: wires_def)
  have "find (\<lambda>w. map_of channel_messages w = None) (map fst contract_directions) = None"
    using wires_ok(4) by (auto simp: find_None_iff contract_directions_def image_image channel_lookup)
  then show ?thesis using messages_loop_contract [OF assms order_refl] by (simp add: buildMessages_def k)
qed

lemma map_sort_key: "map f (sort_key f xs) = sort (map f xs)"
  by (rule properties_for_sort [symmetric]) simp_all

lemma names_of_definitions: "map df_Name (definitions_of file ss) = map fst ss"
  by (induction ss) (auto simp: definitions_of_def)

lemma set_contract_definitions:
  "set contract_definitions = set (definitions_of ''commands'' commands_schemas) \<union>
     set (definitions_of ''events'' events_schemas) \<union> set (definitions_of ''shared'' shared_schemas)"
  by (simp add: contract_definitions_def Un_ac)

lemma definition_in:
  assumes "d \<in> set contract_definitions"
  shows "(df_Name d, df_Schema d) \<in> set contract_schemas"
    "\<exists>r. map_of (ld_defs contract_loader) (df_Name d) = Some r \<and> rd_relFile r = df_File d"
proof -
  show "(df_Name d, df_Schema d) \<in> set contract_schemas"
    using assms by (auto simp: set_contract_definitions definitions_of_def contract_schemas_def)
  have known: "\<exists>r. map_of (ld_defs contract_loader) n = Some r \<and> rd_relFile r = relative_path file"
    if "n \<in> fst ` set ds" "\<And>raw. (n, raw) \<in> set ds \<Longrightarrow> map_of (ld_defs contract_loader) n = Some (snd (raw_entry file (n, raw)))"
    for ds n "file"
    using that by (auto simp: raw_entry_def)
  have n: "fst ` set commands_schemas = fst ` set commands_defs" "fst ` set events_schemas = fst ` set events_defs"
    "fst ` set shared_schemas = fst ` set shared_defs"
    by (metis schema_names set_map)+
  consider (c) s where "(df_Name d, s) \<in> set commands_schemas" "df_File d = relative_path ''commands''"
    | (e) s where "(df_Name d, s) \<in> set events_schemas" "df_File d = relative_path ''events''"
    | (s) s where "(df_Name d, s) \<in> set shared_schemas" "df_File d = relative_path ''shared''"
    using assms by (auto simp: set_contract_definitions definitions_of_def)
  then show "\<exists>r. map_of (ld_defs contract_loader) (df_Name d) = Some r \<and> rd_relFile r = df_File d"
  proof cases
    case c
    then show ?thesis using known [OF _ loader_knows(1)] n(1) by (metis fst_conv imageI)
  next
    case e
    then show ?thesis using known [OF _ loader_knows(2)] n(2) by (metis fst_conv imageI)
  next
    case s
    then show ?thesis using known [OF _ loader_knows(3)] n(3) by (metis fst_conv imageI)
  qed
qed

lemma buildDefinitions_contract:
  assumes "map_of p = direct contract_loader"
  shows "buildDefinitions contract_loader p = contract_definitions"
proof -
  let ?f = "\<lambda>name. \<lparr>df_Name = name,
      df_File = (case map_of (ld_defs contract_loader) name of None \<Rightarrow> '''' | Some d \<Rightarrow> rd_relFile d),
      df_Schema = (case map_of p name of None \<Rightarrow> nil_schema | Some s \<Rightarrow> s)\<rparr>"
  have f: "?f (df_Name d) = d" if "d \<in> set contract_definitions" for d
    using definition_in [OF that] assms contract_direct by auto
  have "mset (map fst (ld_defs contract_loader)) = mset (map fst all_defs)"
    by (simp add: contract_loader_def all_defs_def image_mset.compositionality comp_def add_ac)
  also have "\<dots> = mset (map df_Name (definitions_of ''commands'' commands_schemas @
      definitions_of ''events'' events_schemas @ definitions_of ''shared'' shared_schemas))"
    by (simp only: all_names) (simp add: contract_schemas_def names_of_definitions flip: mset_map)
  finally have "sort (map fst (ld_defs contract_loader)) = map df_Name contract_definitions"
    unfolding contract_definitions_def map_sort_key by (intro properties_for_sort) simp_all
  then have "ld_definitionNames contract_loader = map df_Name contract_definitions"
    using distinct_loader by (simp add: ld_definitionNames_def sortedKeys_def distinct_remdups_id)
  then have "buildDefinitions contract_loader p = map (\<lambda>d. ?f (df_Name d)) contract_definitions"
    by (simp add: buildDefinitions_def)
  also have "\<dots> = contract_definitions" by (rule map_idI) (rule f)
  finally show ?thesis .
qed

lemma byName_loop_succeeds:
  "distinct (map df_Name ds) \<Longrightarrow> df_Name ` set ds \<inter> fst ` set acc = {} \<Longrightarrow>
   byName_loop ds acc = Inr (rev (map (\<lambda>d. (df_Name d, d)) ds) @ acc)"
  by (induction ds arbitrary: acc) (auto simp: map_of_eq_None_iff)

lemma distinct_definitions: "distinct (map df_Name contract_definitions)"
  using distinct_schemas
  by (simp add: contract_definitions_def map_sort_key names_of_definitions contract_schemas_def)

lemma contract_loads: "loadSpec contract_env [''repo''] = Inr contract"
proof -
  obtain p where p: "newSchemaLoader (ge_ReadDir contract_env) (ge_ReadFile contract_env) (ge_json contract_env) [''repo''] =
      Inr (contract_loader, p)" "map_of p = direct contract_loader"
    using contract_newSchemaLoader by blast
  have "newSpec (map contract_message contract_raw_messages) contract_definitions = Inr contract"
    using byName_loop_succeeds [OF distinct_definitions, of "[]"] by (simp add: newSpec_def contract_def)
  moreover have "buildMessages contract_loader p ([''repo''] @ asyncAPIYAMLPath) (map message_entry contract_raw_messages)
      channel_messages contract_directions = Inr (map contract_message contract_raw_messages)"
    using buildMessages_contract [OF p(2)] by (simp add: asyncAPIYAMLPath_def)
  ultimately show ?thesis
    unfolding loadSpec_def p(1) thenE_simps prod.case contract_document contract_messages_found contract_exposure
      contract_operations buildDefinitions_contract [OF p(2)]
    by simp
qed

end
