(* ===== verification/Wire_Contract.thy ===== *)
theory Wire_Contract
  imports Wire Contract_Loads Room_Machine
begin

text \<open>
  The two ends of the socket: what the server writes is what the browser's generated guards accept,
  and what they let through the server decodes.
\<close>

section \<open>The guards of the contract\<close>

lemma contract_fields [simp]:
  "sp_Messages contract = map contract_message contract_raw_messages"
  "sp_Definitions contract = contract_definitions"
  by (simp_all add: contract_def)

lemma contract_Definition:
  "spec_Definition contract n = Some d \<longleftrightarrow> d \<in> set contract_definitions \<and> df_Name d = n"
proof -
  have "newSpec (map contract_message contract_raw_messages) contract_definitions = Inr contract"
    using byName_loop_succeeds [OF distinct_definitions, of "[]"] by (simp add: newSpec_def contract_def)
  then show ?thesis by (rule newSpec_Definition(3))
qed

lemma contract_schema:
  assumes "(n, s) \<in> set contract_schemas"
  obtains d where "spec_Definition contract n = Some d" "df_Schema d = s"
proof -
  have "\<exists>d \<in> set contract_definitions. df_Name d = n \<and> df_Schema d = s"
    using assms by (force simp: set_contract_definitions definitions_of_def contract_schemas_def)
  then show thesis using that contract_Definition by blast
qed

lemma contract_definition_schema:
  assumes "spec_Definition contract n = Some d"
  shows "(n, df_Schema d) \<in> set contract_schemas"
proof -
  have "d \<in> set contract_definitions" "df_Name d = n" using assms contract_Definition by simp_all
  then show ?thesis using definition_in(1) by blast
qed

lemma contract_plain: "plain contract"
proof -
  have "list_all (\<lambda>(n, s). \<not> sch_Nullable s \<and>
      (sch_Kind s = KindString \<longrightarrow> sch_Const s = '''' \<and> \<not> checked_format (sch_Format s)) \<and>
      list_all (\<lambda>q. plain_part (prop_Schema q)) (sch_Properties s)) contract_schemas"
    by code_simp
  then show ?thesis using definition_in(1) by (fastforce simp: plain_def list_all_iff)
qed

text \<open>Every reference is to an object or an enum, so the guards are generated.\<close>

lemma contract_refs:
  assumes "(n, s) \<in> set contract_schemas" "r \<in> refs s"
  obtains t where "(r, t) \<in> set contract_schemas"
proof -
  obtain p where p: "grounded contract p" using loadSpec_grounded [OF contract_loads] by blast
  have look: "map_of p k = Some t \<longleftrightarrow> (\<exists>d. spec_Definition contract k = Some d \<and> df_Schema d = t)" for k t
  proof -
    have "map_option df_Schema (spec_Definition contract k) = map_of p k"
      using p unfolding grounded_def spec_schema_def by blast
    then show ?thesis by (metis map_option_eq_Some)
  qed
  have "map_of p n = Some s" using contract_schema [OF assms(1)] look by metis
  moreover have "well_founded p" using p by (simp add: grounded_def)
  ultimately have "r \<in> names p" using well_founded_lookup [of p n s] assms(2) by blast
  then obtain t where "map_of p r = Some t" by (metis map_of_None_names not_None_eq)
  then obtain d where "spec_Definition contract r = Some d" "df_Schema d = t" using look by blast
  then show thesis using that contract_definition_schema by metis
qed

definition guarded :: "schema \<Rightarrow> bool" where
  "guarded s \<longleftrightarrow> sch_Kind s = KindObject \<or> sch_Kind s = KindString \<and> sch_Enum s \<noteq> []"

fun checkable :: "schema \<Rightarrow> bool" where
  "checkable (Schema m ps it r) =
     (case mt_Kind m of
        KindArray \<Rightarrow> (case it of None \<Rightarrow> False | Some s \<Rightarrow> checkable s)
      | KindObject \<Rightarrow> False
      | _ \<Rightarrow> True)"

lemma contract_checkable:
  "list_all (\<lambda>(n, s). guarded s \<and> list_all (\<lambda>q. checkable (prop_Schema q)) (sch_Properties s)) contract_schemas"
  by code_simp

lemma contract_ref_check:
  assumes "(r, t) \<in> set contract_schemas"
  shows "\<exists>c. tsRefCheck contract r a = Inr c"
proof -
  obtain d where "spec_Definition contract r = Some d" "df_Schema d = t" using contract_schema [OF assms] by blast
  moreover have "guarded t" using contract_checkable assms by (auto simp: list_all_iff)
  ultimately show ?thesis by (simp add: tsRefCheck_def tsRefIsValidatable_def guarded_def)
qed

lemma null_or_succeeds: "\<exists>c. r = Inr c \<Longrightarrow> \<exists>c. null_or m a r = Inr c"
  by (cases "mt_Nullable m") (auto simp: null_or_def)

lemma tsCheck_succeeds:
  "checkable s \<Longrightarrow> (\<forall>r \<in> refs s. \<exists>t. (r, t) \<in> set contract_schemas) \<Longrightarrow> \<exists>c. tsCheck contract s a = Inr c"
proof (induction s arbitrary: a rule: checkable.induct)
  case (1 m ps it r)
  show ?case
  proof (cases "mt_Kind m")
    case KindRef
    then obtain t where "(r, t) \<in> set contract_schemas" using 1(3) by auto
    then show ?thesis using KindRef contract_ref_check [of r t a] by (simp add: null_or_succeeds)
  next
    case KindArray
    then obtain s where s: "it = Some s" "checkable s" using 1(2) by (auto split: option.splits)
    then obtain c where "tsCheck contract s ItemVar = Inr c"
      using 1(1) [OF KindArray s, of ItemVar] 1(3) by auto
    then show ?thesis using KindArray s(1) by (simp add: null_or_succeeds)
  qed (use 1(2) in \<open>simp_all add: null_or_succeeds\<close>)
qed

lemma object_checks_succeed:
  "\<forall>q \<in> set qs. \<exists>c. tsCheck contract (prop_Schema q) (PropertyOf (prop_Name q)) = Inr c \<Longrightarrow>
   \<exists>cs. object_checks contract dn qs = Inr cs"
proof (induction qs)
  case (Cons q qs)
  then obtain c cs where "tsCheck contract (prop_Schema q) (PropertyOf (prop_Name q)) = Inr c"
      "object_checks contract dn qs = Inr cs"
    by auto
  then show ?case by simp
qed simp

lemma spec_guards_succeed:
  "set ds \<subseteq> set contract_definitions \<Longrightarrow> \<exists>gs. spec_guards contract ds = Inr gs"
proof (induction ds)
  case (Cons d ds)
  then have d: "(df_Name d, df_Schema d) \<in> set contract_schemas" by (intro definition_in(1)) simp
  have "\<exists>c. tsCheck contract (prop_Schema q) (PropertyOf (prop_Name q)) = Inr c"
    if q: "q \<in> set (sch_Properties (df_Schema d))" for q
  proof (rule tsCheck_succeeds)
    show "checkable (prop_Schema q)" using contract_checkable d q by (auto simp: list_all_iff)
    show "\<forall>r \<in> refs (prop_Schema q). \<exists>t. (r, t) \<in> set contract_schemas"
      using refs_property [OF q] contract_refs [OF d] by blast
  qed
  then obtain cs where "object_checks contract (df_Name d) (sch_Properties (df_Schema d)) = Inr cs"
    using object_checks_succeed by blast
  then have "\<exists>g. definition_guard contract d = Inr g" by (simp add: definition_guard_def)
  then show ?case using Cons by auto
qed simp

definition contract_guards :: "(string \<times> ts_guard) list" where
  "contract_guards = (case spec_guards contract contract_definitions of Inl _ \<Rightarrow> [] | Inr gs \<Rightarrow> gs)"

lemma contract_guards: "spec_guards contract (sp_Definitions contract) = Inr contract_guards"
  using spec_guards_succeed [OF order_refl] by (auto simp: contract_guards_def)

text \<open>\<open>isServerEvent\<close> and \<open>isClientCommand\<close> decide the schemas of their messages.\<close>

lemma contract_dispatchers:
  assumes "ms = EventMessages contract \<or> ms = CommandMessages contract"
  shows "\<exists>depth. \<forall>k. depth \<le> k \<longrightarrow> (\<forall>v. run_dispatcher fmt contract_guards k ms v =
    (\<exists>m \<in> set ms. \<exists>s. member v ''type'' = Some (AStr (msg_WireType m)) \<and>
       (msg_DefName m, s) \<in> set contract_schemas \<and> valid fmt contract s v))"
proof -
  obtain p where p: "grounded contract p" using loadSpec_grounded [OF contract_loads] by blast
  have m: "sorted_wrt (<) (map msg_WireType (sp_Messages contract))" "\<forall>m \<in> set (sp_Messages contract). message_ok contract m"
    using loadSpec_messages [OF contract_loads] by simp_all
  have d: "distinct (map msg_WireType ms)"
    using m(1) assms by (auto simp: strict_sorted_iff EventMessages_def CommandMessages_def distinct_map_filter)
  have o: "\<forall>m \<in> set ms. message_ok contract m"
  proof -
    have "set ms \<subseteq> set (sp_Messages contract)"
      using assms by (auto simp: EventMessages_def CommandMessages_def)
    then show ?thesis using m(2) by blast
  qed
  have s: "(\<exists>d. spec_Definition contract n = Some d \<and> valid fmt contract (df_Schema d) v) =
      (\<exists>s. (n, s) \<in> set contract_schemas \<and> valid fmt contract s v)" for n v
  proof
    assume "\<exists>d. spec_Definition contract n = Some d \<and> valid fmt contract (df_Schema d) v"
    then obtain d where d: "spec_Definition contract n = Some d" "valid fmt contract (df_Schema d) v" by blast
    then have "(n, df_Schema d) \<in> set contract_schemas" using contract_definition_schema by simp
    then show "\<exists>s. (n, s) \<in> set contract_schemas \<and> valid fmt contract s v" using d(2) by blast
  next
    assume "\<exists>s. (n, s) \<in> set contract_schemas \<and> valid fmt contract s v"
    then obtain s where s: "(n, s) \<in> set contract_schemas" "valid fmt contract s v" by blast
    obtain d where "spec_Definition contract n = Some d" "df_Schema d = s" using contract_schema [OF s(1)] by blast
    then show "\<exists>d. spec_Definition contract n = Some d \<and> valid fmt contract (df_Schema d) v" using s(2) by blast
  qed
  have "run_dispatcher fmt contract_guards k ms v = (\<exists>m \<in> set ms. \<exists>s. member v ''type'' = Some (AStr (msg_WireType m)) \<and>
      (msg_DefName m, s) \<in> set contract_schemas \<and> valid fmt contract s v)" if "length p \<le> k" for k v
    by (simp only: dispatcher_decides [OF p contract_plain contract_guards that d o] ex_simps s)
  then show ?thesis by blast
qed

section \<open>What the schemas say of a value\<close>

lemmas schema_shapes = scalar_def s_kind_def s_string_or_null_def s_version_def s_float32_def s_const_def s_format_def
  s_enum_def s_array_def s_object_def new_meta_def

lemma valid_shapes:
  "valid fmt spec (s_kind KindString) v \<longleftrightarrow> (\<exists>t. v = AStr t)"
  "valid fmt spec (s_kind KindInteger) v \<longleftrightarrow> (\<exists>x. v = ANum x \<and> is_integer x)"
  "valid fmt spec (s_kind KindBoolean) v \<longleftrightarrow> (\<exists>b. v = ABool b)"
  "valid fmt spec s_string_or_null v \<longleftrightarrow> v = ANull \<or> (\<exists>t. v = AStr t)"
  "valid fmt spec s_version v \<longleftrightarrow> (\<exists>x. v = ANum x \<and> is_integer x \<and> 0 \<le> x)"
  "valid fmt spec s_float32 v \<longleftrightarrow> (\<exists>x. v = ANum x)"
  "c \<noteq> '''' \<Longrightarrow> valid fmt spec (s_const c) v \<longleftrightarrow> v = AStr c"
  "checked_format f \<Longrightarrow> valid fmt spec (s_format f) v \<longleftrightarrow> (\<exists>t. v = AStr t \<and> fmt f t)"
  "es \<noteq> [] \<Longrightarrow> valid fmt spec (s_enum es) v \<longleftrightarrow> (\<exists>t \<in> set es. v = AStr t)"
  "valid fmt spec (s_array nullable it) v \<longleftrightarrow>
     nullable \<and> v = ANull \<or> (\<exists>xs. v = AArr xs \<and> (\<forall>x \<in> set xs. valid fmt spec it x))"
  by (auto simp: valid_kinds schema_shapes checked_format_def)

text \<open>The properties of an object, one by one.\<close>

fun fields_valid :: "format_test \<Rightarrow> protocol_spec \<Rightarrow> property list \<Rightarrow> any_map \<Rightarrow> bool" where
  "fields_valid fmt spec [] m = True"
| "fields_valid fmt spec (Property n s required # qs) m =
     ((case map_of m n of None \<Rightarrow> \<not> required | Some x \<Rightarrow> valid fmt spec s x) \<and> fields_valid fmt spec qs m)"

lemma fields_valid_iff:
  "fields_valid fmt spec qs m \<longleftrightarrow>
     (\<forall>q \<in> set qs. (prop_Required q \<longrightarrow> map_of m (prop_Name q) \<noteq> None) \<and>
       (\<forall>x. map_of m (prop_Name q) = Some x \<longrightarrow> valid fmt spec (prop_Schema q) x))"
proof (induction qs)
  case (Cons q qs)
  then show ?case by (cases q) (auto split: option.splits)
qed simp

lemma valid_object:
  "valid fmt spec (s_object qs) (AMap m) \<longleftrightarrow> fields_valid fmt spec qs m"
  unfolding fields_valid_iff
  by (subst valid_kinds(7)) (auto simp: schema_shapes isRecord_def member_def)

lemma valid_contract_ref:
  assumes "(n, s) \<in> set contract_schemas"
  shows "valid fmt contract (ref_schema n) v \<longleftrightarrow> valid fmt contract s v"
proof -
  obtain d where "spec_Definition contract n = Some d" "df_Schema d = s" using contract_schema [OF assms] by blast
  then show ?thesis by (subst valid_kinds(1)) (simp_all add: ref_schema_def new_meta_def)
qed

text \<open>The members of an object, as they come out of \<open>JSON.parse\<close>.\<close>

definition parse_members :: "json_parse \<Rightarrow> (string \<times> json) list \<Rightarrow> any_map" where
  "parse_members P kvs = map (\<lambda>(k, j). (k, value_of P j)) kvs"

lemma value_of_JObj [simp]: "value_of P (JObj kvs) = AMap (parse_members P kvs)"
  by (simp add: parse_members_def)

declare value_of.simps(8) [simp del]

definition missing :: "string \<Rightarrow> (string \<times> json) list \<Rightarrow> bool" where
  "missing n kvs \<longleftrightarrow> n \<notin> fst ` set kvs"

lemma missing_simps [simp]:
  "missing n []" "missing n ((k, j) # kvs) \<longleftrightarrow> n \<noteq> k \<and> missing n kvs"
  "n \<noteq> k \<Longrightarrow> missing n (enc_opt k f v @ kvs) \<longleftrightarrow> missing n kvs" "n \<noteq> k \<Longrightarrow> missing n (enc_opt k f v)"
  by (auto simp: missing_def enc_opt_def split: option.splits)

lemma parsed_missing: "missing n kvs \<Longrightarrow> map_of (parse_members P kvs) n = None"
  by (induction kvs) (auto simp: parse_members_def missing_def)

lemma parsed_member:
  "map_of (parse_members P []) n = None"
  "map_of (parse_members P ((n, j) # kvs)) n = Some (value_of P j)"
  "n \<noteq> k \<Longrightarrow> map_of (parse_members P ((k, j) # kvs)) n = map_of (parse_members P kvs) n"
  "n \<noteq> k \<Longrightarrow> map_of (parse_members P (enc_opt k f v @ kvs)) n = map_of (parse_members P kvs) n"
  "missing n kvs \<Longrightarrow> map_of (parse_members P (enc_opt n f v @ kvs)) n = map_option (\<lambda>x. value_of P (f x)) v"
  "n \<noteq> k \<Longrightarrow> map_of (parse_members P (enc_opt k f v)) n = None"
  "map_of (parse_members P (enc_opt n f v)) n = map_option (\<lambda>x. value_of P (f x)) v"
  using parsed_missing [of n kvs P]
  by (auto simp: parse_members_def enc_opt_def split: option.splits)

lemma case_map_option: "(case map_option g v of None \<Rightarrow> b | Some y \<Rightarrow> f y) = (case v of None \<Rightarrow> b | Some x \<Rightarrow> f (g x))"
  by (cases v) simp_all

lemma version_value: "rounds_integers P \<Longrightarrow> \<exists>x. value_of P (enc_version v) = ANum x \<and> is_integer x \<and> 0 \<le> x"
  by (simp add: enc_version_def rounds_integers_def)

lemma valid_version: "rounds_integers P \<Longrightarrow> valid fmt spec s_version (value_of P (enc_version v))"
  by (simp add: valid_shapes version_value)

lemma valid_int: "rounds_integers P \<Longrightarrow> valid fmt spec (s_kind KindInteger) (value_of P (JInt n))"
  by (simp add: valid_shapes rounds_integers_def)

lemma valid_strings:
  "valid fmt spec (s_array True (s_kind KindString)) (value_of P (enc_strings v))"
  by (auto simp: valid_shapes enc_strings_def split: option.splits)

lemma contract_members:
  "(n, s) \<in> set events_schemas \<Longrightarrow> (n, s) \<in> set contract_schemas"
  "(n, s) \<in> set shared_schemas \<Longrightarrow> (n, s) \<in> set contract_schemas"
  "(n, s) \<in> set commands_schemas \<Longrightarrow> (n, s) \<in> set contract_schemas"
  by (simp_all add: contract_schemas_def)

lemma enum_refs:
  "valid fmt contract (ref_schema ''ConsensusLevel'') v \<longleftrightarrow> (\<exists>t \<in> {''High'', ''Medium'', ''Low'', ''Unavailable''}. v = AStr t)"
  "valid fmt contract (ref_schema ''DeckKind'') v \<longleftrightarrow> (\<exists>t \<in> {''numeric'', ''categorical''}. v = AStr t)"
proof -
  have c: "(''ConsensusLevel'', s_enum [''High'', ''Medium'', ''Low'', ''Unavailable'']) \<in> set contract_schemas"
    and d: "(''DeckKind'', s_enum [''numeric'', ''categorical'']) \<in> set contract_schemas"
    by (rule contract_members(2), simp add: shared_schemas_def)+
  show "valid fmt contract (ref_schema ''ConsensusLevel'') v \<longleftrightarrow> (\<exists>t \<in> {''High'', ''Medium'', ''Low'', ''Unavailable''}. v = AStr t)"
    "valid fmt contract (ref_schema ''DeckKind'') v \<longleftrightarrow> (\<exists>t \<in> {''numeric'', ''categorical''}. v = AStr t)"
    by (simp_all add: valid_contract_ref [OF c] valid_contract_ref [OF d] valid_shapes)
qed

section \<open>What the server writes is valid\<close>

lemma DeckKind_text_known: "DeckKind_text k \<in> {''numeric'', ''categorical''}"
  by (cases k) simp_all

lemma deck_valid: "valid fmt contract (ref_schema ''DeckDescriptor'') (value_of P (marshal_DeckDescriptor d))"
proof -
  have c: "(''DeckDescriptor'', s_object
       [Property ''cards'' (s_array False (s_kind KindString)) True, Property ''id'' (s_kind KindString) True,
        Property ''kind'' (ref_schema ''DeckKind'') True, Property ''name'' (s_kind KindString) True])
      \<in> set contract_schemas"
    by (rule contract_members(2)) (simp add: shared_schemas_def)
  show ?thesis
    unfolding valid_contract_ref [OF c] marshal_DeckDescriptor_def value_of_JObj valid_object
    using DeckKind_text_known [of "dd_Kind d"] by (auto simp: parsed_member enum_refs valid_shapes)
qed

lemma participant_valid:
  assumes "\<And>t. pt_VotedAt p = Some t \<Longrightarrow> fmt ''date-time'' (jp_time P t)"
  shows "valid fmt contract (ref_schema ''Participant'') (value_of P (marshal_Participant p))"
proof -
  have c: "(''Participant'', s_object
       [Property ''hasVoted'' (s_kind KindBoolean) True, Property ''id'' (s_kind KindString) True,
        Property ''isOwner'' (s_kind KindBoolean) True, Property ''isSpectator'' (s_kind KindBoolean) True,
        Property ''name'' (s_kind KindString) True, Property ''vote'' s_string_or_null True,
        Property ''votedAt'' (s_format ''date-time'') False]) \<in> set contract_schemas"
    by (rule contract_members(2)) (simp add: shared_schemas_def)
  show ?thesis
    unfolding valid_contract_ref [OF c] marshal_Participant_def value_of_JObj valid_object
    using assms by (auto simp: parsed_member valid_shapes checked_format_def split: option.splits)
qed

lemma story_valid: "valid fmt contract (ref_schema ''Story'') (value_of P (marshal_Story s))"
proof -
  have c: "(''Story'', s_object
       [Property ''id'' (s_kind KindString) True, Property ''mostAppearingVotes'' (s_array True (s_kind KindString)) True,
        Property ''name'' (s_kind KindString) True, Property ''result'' s_float32 False,
        Property ''voted'' (s_kind KindBoolean) True]) \<in> set contract_schemas"
    by (rule contract_members(2)) (simp add: shared_schemas_def)
  show ?thesis
    unfolding valid_contract_ref [OF c] marshal_Story_def value_of_JObj valid_object
    using valid_strings [of fmt contract P "ws_MostAppearingVotes s"]
    by (simp add: parsed_member valid_shapes split: option.split)
qed

text \<open>The state of a room: its times are printed in the format, and its consensus is a level.\<close>

definition times_of :: "RoomState \<Rightarrow> time set" where
  "times_of s = set_option (rs_StartedAt s) \<union> (\<Union>p \<in> set (rs_Participants s). set_option (pt_VotedAt p))"

definition state_ok :: "RoomState \<Rightarrow> bool" where
  "state_ok s \<longleftrightarrow> (case rs_Consensus s of None \<Rightarrow> True | Some c \<Rightarrow> c \<in> set consensus_levels)"

definition room_state_schema :: schema where
  "room_state_schema = s_object
       [Property ''backlogMode'' (s_kind KindBoolean) False, Property ''consensus'' (ref_schema ''ConsensusLevel'') False,
        Property ''currentStory'' (s_kind KindString) True, Property ''currentStoryIndex'' (s_kind KindInteger) False,
        Property ''deck'' (ref_schema ''DeckDescriptor'') True, Property ''highestVote'' (s_kind KindString) False,
        Property ''lowestVote'' (s_kind KindString) False,
        Property ''mostAppearingVotes'' (s_array True (s_kind KindString)) True,
        Property ''participants'' (s_array False (ref_schema ''Participant'')) True, Property ''result'' s_float32 False,
        Property ''reveal'' (s_kind KindBoolean) True, Property ''roomVersion'' s_version True,
        Property ''specialVoteCount'' (s_kind KindInteger) False, Property ''startedAt'' (s_format ''date-time'') False,
        Property ''stories'' (s_array True (ref_schema ''Story'')) False, Property ''type'' (s_const ''room-state'') True,
        Property ''voteRange'' (s_kind KindInteger) False, Property ''voteSpread'' (s_kind KindInteger) False]"

lemma room_state_known: "(''RoomState'', room_state_schema) \<in> set contract_schemas"
  by (rule contract_members(1)) (simp add: events_schemas_def room_state_schema_def)

lemma valid_plain:
  "valid fmt spec (s_kind KindString) (value_of P (JStr t))" "valid fmt spec (s_kind KindBoolean) (value_of P (JBool b))"
  "valid fmt spec s_float32 (value_of P (JFloat x))"
  "c \<noteq> '''' \<Longrightarrow> valid fmt spec (s_const c) (value_of P (JStr c))"
  by (simp_all add: valid_shapes)

lemma room_state_valid:
  assumes P: "rounds_integers P" and ok: "state_ok s"
    and times: "\<And>t. t \<in> times_of s \<Longrightarrow> fmt ''date-time'' (jp_time P t)"
  shows "valid fmt contract room_state_schema (value_of P (marshal_RoomState s))"
proof -
  have con: "valid fmt contract (ref_schema ''ConsensusLevel'') (value_of P (JStr c))" if "rs_Consensus s = Some c" for c
    using ok that by (auto simp: state_ok_def consensus_levels_def enum_refs consensusHigh_def consensusMedium_def
        consensusLow_def consensusUnavailable_def)
  have ps: "valid fmt contract (s_array False (ref_schema ''Participant'')) (value_of P (JArr (map marshal_Participant (rs_Participants s))))"
    using times by (auto simp: valid_shapes times_of_def intro!: participant_valid)
  have st: "valid fmt contract (s_array True (ref_schema ''Story'')) (value_of P (JArr (map marshal_Story (rs_Stories s))))"
    by (auto simp: valid_shapes intro!: story_valid)
  have at: "valid fmt contract (s_format ''date-time'') (value_of P (JTime t))" if "rs_StartedAt s = Some t" for t
    using times that by (simp add: valid_shapes checked_format_def times_of_def)
  note simple = valid_strings valid_version [OF P] valid_int [OF P] deck_valid valid_plain
  show ?thesis
    unfolding room_state_schema_def marshal_RoomState_def value_of_JObj valid_object
    using con at by (simp add: parsed_member case_map_option ps st simple del: value_of.simps split: option.split)
qed

text \<open>What the server puts on a socket: the state of a room it can get into, the connection's identity, a
  kick, and the frames that answer commands. \<open>parse\<close> is \<open>uuid.Parse\<close>, printed again.\<close>

inductive server_sends :: "(string \<Rightarrow> string option) \<Rightarrow> server_message \<Rightarrow> bool" for parse where
  room_state: "reachable r \<Longrightarrow> NewRoomStateCommand srt r = Some (msg, r') \<Longrightarrow> server_sends parse msg"
| client_id: "server_sends parse (NewUpdateClientIDCommand i)"
| kicked: "server_sends parse NewKickNotification"
| ack: "parse raw = Some i \<Longrightarrow> server_sends parse (CommandAckMessage (newCommandAck i v))"
| error: "server_sends parse (CommandErrorMessage (newCommandError i c t v))"
| stale: "server_sends parse (StaleCommand v)"

fun message_times :: "server_message \<Rightarrow> time set" where
  "message_times (RoomStateMessage s) = times_of s"
| "message_times _ = {}"

lemma new_state_ok:
  assumes "round_ok r" "NewRoomStateCommand srt r = Some (msg, r')"
  obtains s where "msg = RoomStateMessage s" "state_ok s"
proof -
  have c: "case optionalConsensus (Consensus r) of None \<Rightarrow> True | Some c \<Rightarrow> c \<in> set consensus_levels"
    using assms(1) by (cases "Reveal r") (simp_all add: round_ok_def optionalConsensus_def)
  show thesis
    using assms(2) c that
    by (auto simp: NewRoomStateCommand_def MapToParticipants_def Let_def state_ok_def split: option.splits prod.splits)
qed

text \<open>The schema of each event, and its place in the dispatcher.\<close>

fun event_schema :: "server_message \<Rightarrow> string \<times> schema" where
  "event_schema (RoomStateMessage _) = (''RoomState'', room_state_schema)"
| "event_schema (UpdateClientID _) = (''UpdateClientID'', s_object
     [Property ''clientId'' (s_kind KindString) True, Property ''type'' (s_const ''update-client-id'') True])"
| "event_schema Kicked = (''Kicked'', s_object [Property ''type'' (s_const ''kicked'') True])"
| "event_schema (CommandAckMessage _) = (''CommandAck'', s_object
     [Property ''commandId'' (s_format ''uuid'') True, Property ''roomVersion'' s_version False,
      Property ''type'' (s_const ''command-ack'') True])"
| "event_schema (CommandErrorMessage _) = (''CommandError'', s_object
     [Property ''code'' (ref_schema ''CommandErrorCode'') True, Property ''commandId'' (s_kind KindString) True,
      Property ''message'' (s_kind KindString) True, Property ''roomVersion'' s_version False,
      Property ''type'' (s_const ''command-error'') True])"
| "event_schema (StaleCommand _) = (''StaleCommand'', s_object
     [Property ''roomVersion'' s_version True, Property ''type'' (s_const ''stale-command'') True])"

lemma event_schema_known: "event_schema msg \<in> set contract_schemas"
proof -
  have "event_schema msg \<in> set events_schemas"
    by (cases msg) (simp_all add: events_schemas_def room_state_schema_def)
  then show ?thesis using contract_members(1) [of "fst (event_schema msg)" "snd (event_schema msg)"] by simp
qed

lemma event_dispatched:
  "\<exists>m \<in> set (EventMessages contract). msg_WireType m = message_Type msg \<and> msg_DefName m = fst (event_schema msg)"
proof -
  have "list_all (\<lambda>(t, d). list_ex (\<lambda>m. msg_WireType m = t \<and> msg_DefName m = d) (EventMessages contract))
     [(''room-state'', ''RoomState''), (''update-client-id'', ''UpdateClientID''), (''kicked'', ''Kicked''),
      (''command-ack'', ''CommandAck''), (''command-error'', ''CommandError''), (''stale-command'', ''StaleCommand'')]"
    by (simp add: EventMessages_def IsCommand_def contract_raw_messages_def contract_message_def rmsg_def command_wires_def)
  moreover have "(message_Type msg, fst (event_schema msg)) \<in> set
     [(''room-state'', ''RoomState''), (''update-client-id'', ''UpdateClientID''), (''kicked'', ''Kicked''),
      (''command-ack'', ''CommandAck''), (''command-error'', ''CommandError''), (''stale-command'', ''StaleCommand'')]"
    by (cases msg) simp_all
  ultimately show ?thesis by (fastforce simp only: list_all_iff list_ex_iff split: prod.splits)
qed

lemma error_code_valid: "valid fmt contract (ref_schema ''CommandErrorCode'') (AStr (CommandErrorCode_text c))"
proof -
  have e: "(''CommandErrorCode'', s_enum [''validation'', ''forbidden'', ''not_found'', ''conflict'', ''stale_version'',
      ''invalid_payload'', ''unknown_command'', ''invalid_command_id'', ''command_in_progress'', ''internal''])
      \<in> set contract_schemas"
    by (rule contract_members(1)) (simp add: events_schemas_def)
  show ?thesis unfolding valid_contract_ref [OF e] by (cases c) (simp_all add: valid_shapes)
qed

lemma event_valid:
  assumes "server_sends parse msg" "rounds_integers P" "\<And>raw i. parse raw = Some i \<Longrightarrow> fmt ''uuid'' i"
    and "\<And>t. t \<in> message_times msg \<Longrightarrow> fmt ''date-time'' (jp_time P t)"
  shows "valid fmt contract (snd (event_schema msg)) (value_of P (marshal_message text msg))"
  using assms(1)
proof cases
  case (room_state r srt r')
  have "round_ok r" using reachable_ok [OF room_state(1)] room_okD(3) by blast
  then obtain s where "msg = RoomStateMessage s" "state_ok s" using new_state_ok room_state(2) by blast
  then show ?thesis using room_state_valid [OF assms(2)] assms(4) by simp
next
  case (ack raw i v)
  then show ?thesis
    using assms(3) [OF ack(2)] valid_version [OF assms(2)]
    by (simp add: newCommandAck_def marshal_CommandAck_def valid_object parsed_member valid_plain case_map_option
        valid_shapes checked_format_def del: value_of.simps(1-7) split: option.split) simp
next
  case (error i c t v)
  then show ?thesis
    using valid_version [OF assms(2)] error_code_valid
    by (simp add: newCommandError_def marshal_CommandError_def valid_object parsed_member valid_shapes(1,7)
        case_map_option split: option.split)
qed (use valid_version [OF assms(2)] in
  \<open>simp_all add: NewUpdateClientIDCommand_def NewKickNotification_def valid_object parsed_member valid_shapes(1,7)\<close>)

lemma event_type: "member (value_of P (marshal_message text msg)) ''type'' = Some (AStr (message_Type msg))"
  by (cases msg) (simp_all add: marshal_RoomState_def marshal_CommandAck_def marshal_CommandError_def parsed_member Gen_Guards.member_def)


lemma schema_disp:
  assumes "m \<in> set ms" "member v ''type'' = Some (AStr (msg_WireType m))"
    and "(msg_DefName m, s) \<in> set contract_schemas" "valid fmt contract s v"
  shows "\<exists>m \<in> set ms. \<exists>s. member v ''type'' = Some (AStr (msg_WireType m)) \<and>
    (msg_DefName m, s) \<in> set contract_schemas \<and> valid fmt contract s v"
  using assms by blast

text \<open>C30: every frame the server writes satisfies the contract the browser checks. Whatever room the
  program can get into, its marshalled state, and likewise the identity, the kick, the acknowledgement, the
  error and the stale notice, is accepted by the generated \<open>isServerEvent\<close>, provided that the two
  libraries at the ends agree: a rounded integer is an integer of the same sign, a printed UUID has the UUID
  format, and a printed time the date-time format.\<close>

theorem server_events_satisfy_the_contract:
  assumes "server_sends parse msg" "rounds_integers P" "\<And>raw i. parse raw = Some i \<Longrightarrow> fmt ''uuid'' i"
    and "\<And>t. t \<in> message_times msg \<Longrightarrow> fmt ''date-time'' (jp_time P t)"
  shows "\<exists>depth. \<forall>k \<ge> depth. run_dispatcher fmt contract_guards k (EventMessages contract)
    (value_of P (marshal_message text msg))"
proof -
  let ?v = "value_of P (marshal_message text msg)"
  obtain depth where decide: "\<forall>k. depth \<le> k \<longrightarrow> (\<forall>v. run_dispatcher fmt contract_guards k (EventMessages contract) v =
      (\<exists>m \<in> set (EventMessages contract). \<exists>s. member v ''type'' = Some (AStr (msg_WireType m)) \<and>
         (msg_DefName m, s) \<in> set contract_schemas \<and> valid fmt contract s v))"
    using contract_dispatchers [of "EventMessages contract" fmt] by auto
  obtain m where m: "m \<in> set (EventMessages contract)" "msg_WireType m = message_Type msg"
      "msg_DefName m = fst (event_schema msg)"
    using event_dispatched by blast
  have "\<exists>m \<in> set (EventMessages contract). \<exists>s. member ?v ''type'' = Some (AStr (msg_WireType m)) \<and>
      (msg_DefName m, s) \<in> set contract_schemas \<and> valid fmt contract s ?v"
  proof (rule schema_disp [OF m(1)])
    show "member ?v ''type'' = Some (AStr (msg_WireType m))" using m(2) event_type by simp
    show "(msg_DefName m, snd (event_schema msg)) \<in> set contract_schemas" using event_schema_known [of msg] m(3) by simp
    show "valid fmt contract (snd (event_schema msg)) ?v" using event_valid [OF assms(1,2)] assms(3,4) by blast
  qed
  then show ?thesis using decide by blast
qed

definition sample_parse :: json_parse where
  "sample_parse = \<lparr>jp_int = rat_of_int, jp_float = (\<lambda>x. x), jp_time = (\<lambda>_. ''2026-01-02T15:04:05Z'')\<rparr>"

lemma sample_rounds: "rounds_integers sample_parse"
  by (simp add: rounds_integers_def sample_parse_def is_integer_def)

definition sample_format :: format_test where
  "sample_format f t \<longleftrightarrow> (if f = ''uuid'' then length t = 36 else length t = 20)"

lemma sample_story: "EffectiveCurrentStory sample_room \<noteq> None"
  by code_simp

theorem server_events_satisfy_the_contract_witness:
  "\<exists>depth. \<forall>k \<ge> depth. run_dispatcher sample_format contract_guards k (EventMessages contract)
     (value_of sample_parse (marshal_message (\<lambda>_. ''no such room'')
       (fst (the (NewRoomStateCommand (sort_key client_Name) sample_room)))))"
proof -
  obtain msg r' where new: "NewRoomStateCommand (sort_key client_Name) sample_room = Some (msg, r')"
    using sample_story by (auto simp: NewRoomStateCommand_def MapToParticipants_def Let_def split: option.splits)
  show ?thesis
    unfolding new option.sel fst_conv
    by (rule server_events_satisfy_the_contract [OF server_sends.room_state [OF reachable_sample new] sample_rounds,
        where parse = "\<lambda>s. if length s = 36 then Some s else None"])
      (auto simp: sample_format_def sample_parse_def split: if_splits)
qed

end
