(* ===== verification/Wire_Commands.thy ===== *)
theory Wire_Commands
  imports Wire_Contract
begin

text \<open>
  From the browser to the use cases: a command that the generated \<open>isClientCommand\<close> accepts, written by
  \<open>JSON.stringify\<close>, read by \<open>ReadJSON\<close> and dispatched by \<open>mapUsecases\<close>, runs the use case it
  names on the values it carries.
\<close>

section \<open>Commands whose members Go finds\<close>

text \<open>Go matches a member to a field up to case, and keeps numbers up to \<open>2 ^ 53\<close> exact. A tidy object has
  each key once, none that is a field's name in another case, and only such numbers.\<close>

definition plain_keys :: "string list \<Rightarrow> any_map \<Rightarrow> bool" where
  "plain_keys fs m \<longleftrightarrow> distinct (map fst m) \<and>
     list_all (\<lambda>k. list_all (\<lambda>n. map fold_char k = map fold_char n \<longrightarrow> k = n) fs) (map fst m)"

definition frame_keys :: "string list" where "frame_keys = [''commandId'', ''payload'', ''type'']"

definition payload_keys :: "string list" where
  "payload_keys = [''expectedRoomVersion'', ''story'', ''storyId'', ''targetClientId'', ''targetIndex'', ''username'', ''vote'']"

fun safe_number :: "any_value \<Rightarrow> bool" where
  "safe_number (ANum x) \<longleftrightarrow> \<bar>x\<bar> \<le> 2 ^ 53"
| "safe_number _ \<longleftrightarrow> True"

definition tidy_payload :: "any_map \<Rightarrow> bool" where
  "tidy_payload p \<longleftrightarrow> plain_keys payload_keys p \<and> list_all (\<lambda>(k, x). safe_number x) p"

fun tidy_command :: "any_value \<Rightarrow> bool" where
  "tidy_command (AMap m) \<longleftrightarrow> plain_keys frame_keys m \<and>
     (case map_of m ''payload'' of Some (AMap p) \<Rightarrow> tidy_payload p | _ \<Rightarrow> False)"
| "tidy_command _ \<longleftrightarrow> False"

section \<open>Finding a member\<close>

definition documents :: "any_map \<Rightarrow> (string \<times> json) list" where
  "documents m = map (\<lambda>(k, v). (k, document_of v)) m"

lemma document_of_AMap [simp]: "document_of (AMap m) = JObj (documents m)"
  by (simp add: documents_def)

declare document_of.simps(6) [simp del]

lemma documents_simps [simp]:
  "map fst (documents m) = map fst m" "map_of (documents m) n = map_option document_of (map_of m n)"
  by (induction m) (auto simp: documents_def)

lemma member_distinct: "distinct (map fst kvs) \<Longrightarrow> Serialization.member n kvs = map_of kvs n"
proof -
  assume d: "distinct (map fst kvs)"
  have "map_of (rev kvs) = map_of kvs"
    by (rule map_of_inject_set [THEN iffD2]) (use d in \<open>simp_all add: rev_map [symmetric]\<close>)
  then show ?thesis by (simp add: Serialization.member_def)
qed

lemma map_of_folded:
  assumes "\<forall>k \<in> fst ` set kvs. map fold_char k = map fold_char n \<longrightarrow> k = n"
  shows "map_of (map (\<lambda>(k, v). (map fold_char k, v)) kvs) (map fold_char n) = map_of kvs n"
  using assms by (induction kvs) auto

lemma field_plain:
  assumes "distinct (map fst kvs)" "\<forall>k \<in> fst ` set kvs. map fold_char k = map fold_char n \<longrightarrow> k = n"
  shows "field n kvs = map_of kvs n"
proof -
  have "field n kvs = map_of (map (\<lambda>(k, v). (map fold_char k, v)) (rev kvs)) (map fold_char n)"
    by (simp add: field_def Serialization.member_def rev_map)
  also have "\<dots> = map_of (rev kvs) n" by (rule map_of_folded) (use assms(2) in simp)
  also have "\<dots> = map_of kvs n" using member_distinct [OF assms(1)] by (simp add: Serialization.member_def)
  finally show ?thesis .
qed

lemma field_documents:
  assumes "plain_keys fs m" "n \<in> set fs"
  shows "field n (documents m) = map_option document_of (map_of m n)"
proof -
  have k: "fst ` set (documents m) = fst ` set m" by (simp only: set_map [symmetric] documents_simps)
  have "field n (documents m) = map_of (documents m) n"
    using assms by (intro field_plain) (auto simp: plain_keys_def list_all_iff k)
  then show ?thesis by simp
qed

lemma any_members_plain:
  assumes "distinct (map fst kvs)"
  shows "distinct (map fst (any_members big kvs))" "fst ` set (any_members big kvs) = fst ` set kvs"
    "map_of (any_members big kvs) n = map_option (any_number big) (map_of kvs n)"
proof -
  define xs where "xs = map (\<lambda>k. (k, any_number big (the (map_of kvs k)))) (map fst kvs)"
  have e: "any_members big kvs = sort_key fst xs"
    using assms member_distinct by (simp add: any_members_def xs_def distinct_remdups_id)
  have f: "map fst xs = map fst kvs" by (simp add: xs_def comp_def)
  have "distinct (map fst xs)" using assms f by simp
  then have d: "distinct (map fst (sort_key fst xs))"
    by (metis distinct_map distinct_sort set_sort)
  show "distinct (map fst (any_members big kvs))" using d e by simp
  show "fst ` set (any_members big kvs) = fst ` set kvs" using f e by (metis list.set_map set_sort)
  have "map_of (any_members big kvs) = map_of xs"
    unfolding e by (rule map_of_inject_set [THEN iffD2]) (use d assms f in simp_all)
  moreover have "map_of xs n = map_option (any_number big) (map_of kvs n)"
    unfolding xs_def map_of_map_restrict
    using map_of_eq_None_iff [of kvs n] by (cases "map_of kvs n") (auto simp: restrict_map_def)
  ultimately show "map_of (any_members big kvs) n = map_option (any_number big) (map_of kvs n)" by simp
qed

text \<open>What a payload decoder finds, under the name of a field.\<close>

lemma field_payload:
  assumes "tidy_payload p" "n \<in> set payload_keys"
  shows "field n (any_members big (documents p)) = map_option document_of (map_of p n)"
proof -
  have t: "distinct (map fst p)" "\<forall>k \<in> fst ` set p. map fold_char k = map fold_char n \<longrightarrow> k = n"
    "\<And>x. map_of p n = Some x \<Longrightarrow> safe_number x"
    using assms by (auto simp: tidy_payload_def plain_keys_def list_all_iff dest: map_of_SomeD)
  have d: "distinct (map fst (documents p))" using t(1) by simp
  have k: "fst ` set (documents p) = fst ` set p" by (simp only: set_map [symmetric] documents_simps)
  note a = any_members_plain [OF d, of big]
  have "field n (any_members big (documents p)) = map_of (any_members big (documents p)) n"
    using t(2) a(2) k by (intro field_plain [OF a(1)]) simp
  also have "\<dots> = map_option (any_number big) (map_option document_of (map_of p n))" using a(3) by simp
  also have "\<dots> = map_option document_of (map_of p n)"
  proof (cases "map_of p n")
    case (Some x)
    have "any_number big (document_of x) = document_of x"
      using t(3) [OF Some] by (cases x) (auto simp: any_number_def is_integer_def split: if_splits)
    then show ?thesis using Some by simp
  qed simp
  finally show ?thesis .
qed

section \<open>What a command asks for\<close>

definition text_at :: "any_map \<Rightarrow> string \<Rightarrow> string" where
  "text_at p n = (case map_of p n of Some (AStr t) \<Rightarrow> t | _ \<Rightarrow> '''')"

definition number_at :: "any_map \<Rightarrow> string \<Rightarrow> int option" where
  "number_at p n = (case map_of p n of Some (ANum x) \<Rightarrow> Some \<lfloor>x\<rfloor> | _ \<Rightarrow> None)"

definition version_at :: "any_map \<Rightarrow> 64 word option" where
  "version_at p = map_option word_of_int (number_at p ''expectedRoomVersion'')"

text \<open>The use case a command names, on the values its payload has.\<close>

definition requested :: "'w facade \<Rightarrow> string \<Rightarrow> string \<Rightarrow> string \<Rightarrow> any_map \<Rightarrow> ('w, unit) call" where
  "requested U clientID roomID t p =
     (let v = version_at p in
      if t = ''vote'' then ucVote U roomID clientID (Some (text_at p ''vote''))
      else if t = ''update-name'' then ucUpdateName U roomID clientID (text_at p ''username'')
      else if t = ''add-story'' then ucAddStory U roomID clientID (text_at p ''story'')
      else if t = ''reveal-votes'' then ucReveal U roomID clientID v
      else if t = ''reset'' then ucReset U roomID clientID v
      else if t = ''vote-again'' then ucVoteAgain U roomID clientID v
      else if t = ''advance-story'' then ucAdvanceStory U roomID clientID v
      else if t = ''prev-story'' then ucPrevStory U roomID clientID v
      else if t = ''toggle-backlog-mode'' then ucToggleBacklogMode U roomID clientID v
      else if t = ''update-story'' then ucUpdateStory U roomID clientID (text_at p ''story'') v
      else if t = ''toggle-spectator'' then ucToggleSpectator U roomID clientID (text_at p ''targetClientId'') v
      else if t = ''toggle-owner'' then ucToggleOwner U roomID clientID (text_at p ''targetClientId'') v
      else if t = ''remove-story'' then ucRemoveStory U roomID clientID (text_at p ''storyId'') v
      else if t = ''select-story'' then ucSelectStory U roomID clientID (text_at p ''storyId'') v
      else if t = ''reorder-story''
      then ucReorderStory U roomID clientID (text_at p ''storyId'') (the (number_at p ''targetIndex'')) v
      else fail ErrInvalidPayload)"

text \<open>The shapes of the payloads.\<close>

definition text_part :: "string \<Rightarrow> property" where "text_part n = Property n (s_kind KindString) True"

definition version_part :: property where "version_part = Property ''expectedRoomVersion'' s_version False"

definition index_part :: property where "index_part = Property ''targetIndex'' (s_kind KindInteger) True"

lemma dec_text_part:
  assumes "tidy_payload p" "n \<in> set payload_keys" "fields_valid fmt contract [text_part n] p"
  shows "dec_string (field n (any_members big (documents p))) = Inr (text_at p n)"
  using assms(3) by (auto simp: field_payload [OF assms(1,2)] text_part_def valid_shapes text_at_def split: option.splits)

lemma safe_integer:
  assumes "tidy_payload p" "map_of p n = Some (ANum x)" "is_integer x"
  obtains i where "x = rat_of_int i" "document_of (ANum x) = JInt i" "\<bar>i\<bar> \<le> 2 ^ 53"
proof -
  obtain i where i: "x = rat_of_int i" using assms(3) by (metis is_integer_def)
  have "\<bar>x\<bar> \<le> 2 ^ 53" using assms(1,2) by (auto simp: tidy_payload_def list_all_iff dest!: map_of_SomeD)
  then have "rat_of_int \<bar>i\<bar> \<le> rat_of_int (2 ^ 53)" using i by simp
  then have "\<bar>i\<bar> \<le> 2 ^ 53" by (simp only: of_int_le_iff)
  then show thesis using that i by (simp add: is_integer_def)
qed

lemma dec_version_part:
  assumes "tidy_payload p" "fields_valid fmt contract [version_part] p"
  shows "version_field (any_members big (documents p)) = Inr (version_at p)"
proof (cases "map_of p ''expectedRoomVersion''")
  case None
  then show ?thesis
    by (simp add: version_field_def field_payload [OF assms(1)] payload_keys_def version_at_def number_at_def dec_ptr_def)
next
  case (Some y)
  then obtain x where x: "y = ANum x" "is_integer x" "0 \<le> x"
    using assms(2) by (auto simp: version_part_def valid_shapes)
  obtain i where i: "x = rat_of_int i" "document_of (ANum x) = JInt i" "\<bar>i\<bar> \<le> 2 ^ 53"
    using safe_integer [OF assms(1) Some [unfolded x(1)] x(2)] .
  then show ?thesis
    using Some x(1,3)
    by (simp add: version_field_def field_payload [OF assms(1)] payload_keys_def version_at_def number_at_def dec_ptr_def
        del: document_of.simps)
qed

lemma dec_index_part:
  assumes "tidy_payload p" "fields_valid fmt contract [index_part] p"
  shows "dec_int (field ''targetIndex'' (any_members big (documents p))) = Inr (the (number_at p ''targetIndex''))"
proof -
  obtain x where x: "map_of p ''targetIndex'' = Some (ANum x)" "is_integer x"
    using assms(2) by (auto simp: index_part_def valid_shapes split: option.splits)
  obtain i where i: "x = rat_of_int i" "document_of (ANum x) = JInt i" "\<bar>i\<bar> \<le> 2 ^ 53"
    using safe_integer [OF assms(1) x] .
  then show ?thesis
    using x(1) by (simp add: field_payload [OF assms(1)] payload_keys_def number_at_def del: document_of.simps) linarith
qed

lemma fields_valid_Cons:
  "fields_valid fmt spec (q # qs) m \<longleftrightarrow> fields_valid fmt spec [q] m \<and> fields_valid fmt spec qs m"
  by (cases q) simp

text \<open>The decoders of \<open>mapUsecases\<close>, by shape.\<close>

lemma decode_document: "decodePayload big d (JObj kvs) = d (any_members big kvs)"
  by (simp add: decodePayload_def)

lemma decode_shapes:
  assumes p: "tidy_payload p" and n: "n \<in> set payload_keys"
  shows
    "fields_valid fmt contract [text_part n] p \<Longrightarrow>
       withPayload big (\<lambda>kvs. dec_string (field n kvs)) (JObj (documents p)) f = f (text_at p n)"
    "fields_valid fmt contract [version_part] p \<Longrightarrow>
       withExpectedRoomVersion big (JObj (documents p)) g = g (version_at p)"
    "fields_valid fmt contract [version_part, text_part n] p \<Longrightarrow>
       withPayload big (dec_versioned n) (JObj (documents p)) h = h (version_at p, text_at p n)"
    "fields_valid fmt contract [version_part, text_part ''storyId'', index_part] p \<Longrightarrow>
       withPayload big dec_ReorderStory (JObj (documents p)) k =
         k (version_at p, text_at p ''storyId'', the (number_at p ''targetIndex''))"
proof -
  note word = dec_text_part [OF p n, of fmt big] and version = dec_version_part [OF p, of fmt big]
    and index = dec_index_part [OF p, of fmt big]
  have story: "fields_valid fmt contract [text_part ''storyId''] p \<Longrightarrow>
      dec_string (field ''storyId'' (any_members big (documents p))) = Inr (text_at p ''storyId'')"
    by (rule dec_text_part [OF p]) (simp add: payload_keys_def)
  show "withPayload big (\<lambda>kvs. dec_string (field n kvs)) (JObj (documents p)) f = f (text_at p n)"
    if "fields_valid fmt contract [text_part n] p"
    using that word by (simp add: withPayload_def decode_document)
  show "withExpectedRoomVersion big (JObj (documents p)) g = g (version_at p)"
    if "fields_valid fmt contract [version_part] p"
    using that version
    by (simp add: withExpectedRoomVersion_def expectedRoomVersion_def decode_document split: option.split)
  show "withPayload big (dec_versioned n) (JObj (documents p)) h = h (version_at p, text_at p n)"
    if "fields_valid fmt contract [version_part, text_part n] p"
    using that word version fields_valid_Cons [of fmt contract version_part "[text_part n]" p]
    by (simp add: withPayload_def decode_document dec_versioned_def)
  show "withPayload big dec_ReorderStory (JObj (documents p)) k =
         k (version_at p, text_at p ''storyId'', the (number_at p ''targetIndex''))"
    if "fields_valid fmt contract [version_part, text_part ''storyId'', index_part] p"
    using that story version index fields_valid_Cons [of fmt contract version_part "[text_part ''storyId'', index_part]" p]
      fields_valid_Cons [of fmt contract "text_part ''storyId''" "[index_part]" p]
    by (simp add: withPayload_def decode_document dec_ReorderStory_def)
qed

section \<open>The commands of the contract\<close>

text \<open>Wire type, definitions of the frame and of the payload, and the payload's fields.\<close>

definition command_table :: "(string \<times> string \<times> string \<times> property list) list" where
  "command_table =
     [(''add-story'', ''AddStoryCommand'', ''AddStoryPayload'', [text_part ''story'']),
      (''advance-story'', ''AdvanceStoryCommand'', ''AdvanceStoryPayload'', [version_part]),
      (''prev-story'', ''PrevStoryCommand'', ''PrevStoryPayload'', [version_part]),
      (''remove-story'', ''RemoveStoryCommand'', ''RemoveStoryPayload'', [version_part, text_part ''storyId'']),
      (''reorder-story'', ''ReorderStoryCommand'', ''ReorderStoryPayload'', [version_part, text_part ''storyId'', index_part]),
      (''reset'', ''ResetCommand'', ''ResetPayload'', [version_part]),
      (''reveal-votes'', ''RevealVotesCommand'', ''RevealVotesPayload'', [version_part]),
      (''select-story'', ''SelectStoryCommand'', ''SelectStoryPayload'', [version_part, text_part ''storyId'']),
      (''toggle-backlog-mode'', ''ToggleBacklogModeCommand'', ''ToggleBacklogModePayload'', [version_part]),
      (''toggle-owner'', ''ToggleOwnerCommand'', ''ToggleOwnerPayload'', [version_part, text_part ''targetClientId'']),
      (''toggle-spectator'', ''ToggleSpectatorCommand'', ''ToggleSpectatorPayload'', [version_part, text_part ''targetClientId'']),
      (''update-name'', ''UpdateNameCommand'', ''UpdateNamePayload'', [text_part ''username'']),
      (''update-story'', ''UpdateStoryCommand'', ''UpdateStoryPayload'', [version_part, text_part ''story'']),
      (''vote'', ''VoteCommand'', ''VotePayload'', [text_part ''vote'']),
      (''vote-again'', ''VoteAgainCommand'', ''VoteAgainPayload'', [version_part])]"

lemma command_table_messages:
  "map (\<lambda>m. (msg_WireType m, msg_DefName m)) (CommandMessages contract) =
     map (\<lambda>(w, d, _). (w, d)) (sort_key fst command_table)"
  by code_simp

lemma command_table_schemas:
  "list_all (\<lambda>(w, d, pay, ps). (d, s_command w pay) \<in> set commands_schemas \<and> (pay, s_object ps) \<in> set commands_schemas)
     command_table"
  by (simp add: command_table_def commands_schemas_def text_part_def version_part_def index_part_def)

lemma command_entry:
  assumes "m \<in> set (CommandMessages contract)" "(msg_DefName m, s) \<in> set contract_schemas"
  obtains pay ps where "(msg_WireType m, msg_DefName m, pay, ps) \<in> set command_table"
    "s = s_command (msg_WireType m) pay" "(pay, s_object ps) \<in> set contract_schemas"
proof -
  have "(msg_WireType m, msg_DefName m) \<in> set (map (\<lambda>m. (msg_WireType m, msg_DefName m)) (CommandMessages contract))"
    using assms(1) by force
  then obtain pay ps where t: "(msg_WireType m, msg_DefName m, pay, ps) \<in> set command_table"
    unfolding command_table_messages by auto
  then have c: "(msg_DefName m, s_command (msg_WireType m) pay) \<in> set contract_schemas"
    "(pay, s_object ps) \<in> set contract_schemas"
    using command_table_schemas contract_members(3) by (auto simp: list_all_iff)
  have "s = s_command (msg_WireType m) pay"
    using distinct_schemas assms(2) c(1) by (metis eq_key_imp_eq_value)
  then show thesis using that t c(2) by blast
qed

text \<open>Every command's payload decodes, into the call it asks for.\<close>

lemma command_call:
  assumes t: "(w, d, pay, ps) \<in> set command_table" and p: "tidy_payload p" "fields_valid fmt contract ps p"
  shows "\<exists>call. mapUsecases big U c r w = Some call \<and> call (JObj (documents p)) = requested U c r w p"
proof -
  note texts = decode_shapes(1) [OF p(1), of "''story''" fmt] decode_shapes(1) [OF p(1), of "''username''" fmt]
    decode_shapes(1) [OF p(1), of "''vote''" fmt]
  note versioned = decode_shapes(3) [OF p(1), of "''story''" fmt] decode_shapes(3) [OF p(1), of "''storyId''" fmt]
    decode_shapes(3) [OF p(1), of "''targetClientId''" fmt]
  note others = decode_shapes(2,4) [OF p(1), of "''vote''" fmt]
  have eta: "dec_UpdateName = (\<lambda>kvs. dec_string (field ''username'' kvs))" "dec_Vote = (\<lambda>kvs. dec_string (field ''vote'' kvs))"
    "dec_AddStory = (\<lambda>kvs. dec_string (field ''story'' kvs))"
    by (auto simp: dec_UpdateName_def dec_Vote_def dec_AddStory_def)
  have keys: "''story'' \<in> set payload_keys" "''username'' \<in> set payload_keys" "''vote'' \<in> set payload_keys"
    "''storyId'' \<in> set payload_keys" "''targetClientId'' \<in> set payload_keys"
    by (simp_all add: payload_keys_def)
  have "list_all (\<lambda>(w, d, pay, ps). fields_valid fmt contract ps p \<longrightarrow>
      (\<exists>call. mapUsecases big U c r w = Some call \<and> call (JObj (documents p)) = requested U c r w p)) command_table"
    unfolding command_table_def list.pred_inject prod.case
    by (intro conjI TrueI impI; simp add: mapUsecases_def requested_def Let_def eta texts versioned others keys
        del: fields_valid.simps)
  then show ?thesis using t p(2) unfolding list_all_iff by fast
qed

section \<open>Every accepted command is executed\<close>

text \<open>The server's reading of a command: the frame decodes, its identifier is the command's, and its payload
  leads to the use case it names.\<close>

definition executed_as_requested :: "format_test \<Rightarrow> 'w facade \<Rightarrow> any_value \<Rightarrow> bool" where
  "executed_as_requested fmt U v \<longleftrightarrow>
     (case ReadJSON (document_of v) of
        Inl _ \<Rightarrow> False
      | Inr msg \<Rightarrow>
          member v ''type'' = Some (AStr (wm_Type msg)) \<and>
          (case member v ''commandId'' of
             None \<Rightarrow> wm_CommandID msg = ''''
           | Some i \<Rightarrow> i = AStr (wm_CommandID msg) \<and> fmt ''uuid'' (wm_CommandID msg)) \<and>
          (case member v ''payload'' of
             Some (AMap p) \<Rightarrow>
               (\<forall>big clientID roomID. \<exists>call. mapUsecases big U clientID roomID (wm_Type msg) = Some call \<and>
                  call (wm_Payload msg) = requested U clientID roomID (wm_Type msg) p)
           | _ \<Rightarrow> False))"

lemma valid_command_executed:
  assumes m: "m \<in> set (CommandMessages contract)" "(msg_DefName m, s) \<in> set contract_schemas"
    and v: "valid fmt contract s v" "tidy_command v"
  shows "executed_as_requested fmt U v"
proof -
  obtain pay ps where t: "(msg_WireType m, msg_DefName m, pay, ps) \<in> set command_table"
    and s: "s = s_command (msg_WireType m) pay" and ps: "(pay, s_object ps) \<in> set contract_schemas"
    using command_entry [OF m] .
  obtain f p where f: "v = AMap f" "plain_keys frame_keys f" "map_of f ''payload'' = Some (AMap p)" "tidy_payload p"
    using v(2) by (cases v) (auto split: option.splits any_value.splits)
  have nonempty: "msg_WireType m \<noteq> ''''" using t by (auto simp: command_table_def)
  have fs: "fields_valid fmt contract [Property ''commandId'' (s_format ''uuid'') False,
      Property ''payload'' (ref_schema pay) True, Property ''type'' (s_const (msg_WireType m)) True] f"
    using v(1) unfolding s s_command_def f(1) valid_object .
  have type: "map_of f ''type'' = Some (AStr (msg_WireType m))"
    using fs nonempty by (auto simp: valid_shapes split: option.splits)
  have id: "case map_of f ''commandId'' of None \<Rightarrow> True | Some i \<Rightarrow> \<exists>t. i = AStr t \<and> fmt ''uuid'' t"
    using fs by (auto simp: valid_shapes checked_format_def split: option.splits)
  have "valid fmt contract (s_object ps) (AMap p)"
    using fs f(3) valid_contract_ref [OF ps] by simp
  then have fields: "fields_valid fmt contract ps p" by (simp only: valid_object)
  have "field n (documents f) = map_option document_of (map_of f n)" if "n \<in> set frame_keys" for n
    using field_documents [OF f(2) that] .
  then have keys: "field ''type'' (documents f) = Some (JStr (msg_WireType m))"
    "field ''commandId'' (documents f) = map_option document_of (map_of f ''commandId'')"
    "field ''payload'' (documents f) = Some (JObj (documents p))"
    using type f(3) by (simp_all add: frame_keys_def)
  obtain i where i: "dec_string (field ''commandId'' (documents f)) = Inr i"
    "case map_of f ''commandId'' of None \<Rightarrow> i = '''' | Some x \<Rightarrow> x = AStr i \<and> fmt ''uuid'' i"
    using id keys(2) by (cases "map_of f ''commandId''") auto
  have "ReadJSON (document_of v) =
      Inr \<lparr>wm_Type = msg_WireType m, wm_CommandID = i, wm_Payload = JObj (documents p)\<rparr>"
    using keys(1,3) i(1) by (simp add: f(1) ReadJSON_def dec_WebSocketMessage_def)
  then show ?thesis
    using type i(2) f(3) command_call [OF t f(4) fields, of _ U]
    by (cases "map_of f ''commandId''") (simp_all add: executed_as_requested_def f(1) Gen_Guards.member_def)
qed


text \<open>A command to reorder a story, accepted and executed.\<close>

definition sample_command :: any_value where
  "sample_command = AMap
     [(''type'', AStr ''reorder-story''), (''commandId'', AStr ''0b5cf6f8-9f2b-4f0e-8d0c-6d7f4f3b2a11''),
      (''payload'', AMap [(''storyId'', AStr ''s1''), (''targetIndex'', ANum 2), (''expectedRoomVersion'', ANum 7)])]"

lemma sample_accepted:
  "\<exists>depth. \<forall>k \<ge> depth. run_dispatcher sample_format contract_guards k (CommandMessages contract) sample_command"
proof -
  obtain depth where decide: "\<forall>k. depth \<le> k \<longrightarrow>
      (\<forall>v. run_dispatcher sample_format contract_guards k (CommandMessages contract) v =
      (\<exists>m \<in> set (CommandMessages contract). \<exists>s. member v ''type'' = Some (AStr (msg_WireType m)) \<and>
         (msg_DefName m, s) \<in> set contract_schemas \<and> valid sample_format contract s v))"
    using contract_dispatchers [of "CommandMessages contract" sample_format] by auto
  have "(''reorder-story'', ''ReorderStoryCommand'') \<in>
      set (map (\<lambda>m. (msg_WireType m, msg_DefName m)) (CommandMessages contract))"
    unfolding command_table_messages by (simp add: command_table_def)
  then obtain m where m: "m \<in> set (CommandMessages contract)" "msg_WireType m = ''reorder-story''"
      "msg_DefName m = ''ReorderStoryCommand''"
    by auto
  have s: "(''ReorderStoryCommand'', s_command ''reorder-story'' ''ReorderStoryPayload'') \<in> set contract_schemas"
    and p: "(''ReorderStoryPayload'', s_object [version_part, text_part ''storyId'', index_part]) \<in> set contract_schemas"
    by (rule contract_members(3), simp add: commands_schemas_def version_part_def text_part_def index_part_def)+
  have "valid sample_format contract (s_command ''reorder-story'' ''ReorderStoryPayload'') sample_command"
    unfolding s_command_def sample_command_def valid_object
    by (simp add: valid_contract_ref [OF p] valid_object valid_shapes checked_format_def sample_format_def
        version_part_def text_part_def index_part_def is_integer_def)
  moreover have "member sample_command ''type'' = Some (AStr (msg_WireType m))"
    by (simp add: sample_command_def m(2) Gen_Guards.member_def)
  ultimately show ?thesis using decide m(1,3) s by metis
qed


section \<open>The structs of a Go client\<close>

text \<open>The numbers of a payload are kept by a double.\<close>

fun payload_version :: "payload \<Rightarrow> 64 word option" where
  "payload_version (VersionPayload v) = v"
| "payload_version (RemoveStoryPayload v _) = v"
| "payload_version (ReorderStoryPayload v _ _) = v"
| "payload_version (SelectStoryPayload v _) = v"
| "payload_version (ToggleOwnerPayload v _) = v"
| "payload_version (ToggleSpectatorPayload v _) = v"
| "payload_version (UpdateStoryPayload v _) = v"
| "payload_version _ = None"

fun payload_index :: "payload \<Rightarrow> int" where
  "payload_index (ReorderStoryPayload _ _ i) = i"
| "payload_index _ = 0"

definition exact_numbers :: "payload \<Rightarrow> bool" where
  "exact_numbers p \<longleftrightarrow> \<bar>payload_index p\<bar> \<le> 2 ^ 53 \<and>
     (case payload_version p of None \<Rightarrow> True | Some v \<Rightarrow> uint v \<le> 2 ^ 53)"

definition command_of :: "'w facade \<Rightarrow> string \<Rightarrow> string \<Rightarrow> string \<Rightarrow> payload \<Rightarrow> ('w, unit) call" where
  "command_of U c r t p =
     (case p of
        AddStoryPayload s \<Rightarrow> ucAddStory U r c s
      | VersionPayload v \<Rightarrow>
          (if t = ''advance-story'' then ucAdvanceStory U r c v
           else if t = ''prev-story'' then ucPrevStory U r c v
           else if t = ''reset'' then ucReset U r c v
           else if t = ''reveal-votes'' then ucReveal U r c v
           else if t = ''toggle-backlog-mode'' then ucToggleBacklogMode U r c v
           else ucVoteAgain U r c v)
      | RemoveStoryPayload v s \<Rightarrow> ucRemoveStory U r c s v
      | ReorderStoryPayload v s i \<Rightarrow> ucReorderStory U r c s i v
      | SelectStoryPayload v s \<Rightarrow> ucSelectStory U r c s v
      | ToggleOwnerPayload v s \<Rightarrow> ucToggleOwner U r c s v
      | ToggleSpectatorPayload v s \<Rightarrow> ucToggleSpectator U r c s v
      | UpdateNamePayload n \<Rightarrow> ucUpdateName U r c n
      | UpdateStoryPayload v s \<Rightarrow> ucUpdateStory U r c s v
      | VotePayload v \<Rightarrow> ucVote U r c (Some v))"

text \<open>The fields of a written payload, found again.\<close>

lemma written_version:
  assumes "case v of None \<Rightarrow> True | Some x \<Rightarrow> uint (x :: 64 word) \<le> 2 ^ 53"
  shows "dec_ptr dec_uint64 (map_option (any_number big) (map_option enc_version v)) = Inr v"
proof (cases v)
  case (Some x)
  have "uint x < 2 ^ 64" using uint_lt2p [of x] by simp
  then show ?thesis using Some assms by (simp add: enc_version_def any_number_def dec_ptr_def)
qed (simp add: dec_ptr_def)

lemma payload_keys_plain:
  "k \<in> set payload_keys \<Longrightarrow> n \<in> set payload_keys \<Longrightarrow> map fold_char k = map fold_char n \<Longrightarrow> k = n"
proof -
  have "list_all (\<lambda>k. list_all (\<lambda>n. map fold_char k = map fold_char n \<longrightarrow> k = n) payload_keys) payload_keys"
    by code_simp
  then show "k \<in> set payload_keys \<Longrightarrow> n \<in> set payload_keys \<Longrightarrow> map fold_char k = map fold_char n \<Longrightarrow> k = n"
    unfolding list_all_iff by blast
qed

lemma written_field:
  assumes "distinct (map fst kvs)" "fst ` set kvs \<subseteq> set payload_keys" "n \<in> set payload_keys"
  shows "field n (any_members big kvs) = map_option (any_number big) (map_of kvs n)"
proof -
  note a = any_members_plain [OF assms(1), of big]
  have "field n (any_members big kvs) = map_of (any_members big kvs) n"
    using a(2) assms(2,3) payload_keys_plain by (intro field_plain [OF a(1)]) blast
  then show ?thesis using a(3) by simp
qed

lemma written_expected:
  "distinct (map fst (enc_expected v @ kvs)) \<longleftrightarrow> ''expectedRoomVersion'' \<notin> fst ` set kvs \<and> distinct (map fst kvs) \<or>
     v = None \<and> distinct (map fst kvs)"
  "fst ` set (enc_expected v @ kvs) \<subseteq> set payload_keys \<longleftrightarrow> fst ` set kvs \<subseteq> set payload_keys"
  "map_of (enc_expected v) n = (if n = ''expectedRoomVersion'' then map_option enc_version v else None)"
  by (cases v; auto simp: enc_expected_def enc_opt_def payload_keys_def)+

text \<open>Decoding the members that a payload struct writes.\<close>

lemma decode_text:
  "n \<in> set payload_keys \<Longrightarrow> dec_string (field n (any_members big [(n, JStr s)])) = Inr s"
  by (simp add: written_field any_number_def)

lemma decode_version:
  assumes v: "case v of None \<Rightarrow> True | Some x \<Rightarrow> uint (x :: 64 word) \<le> 2 ^ 53"
    and k: "''expectedRoomVersion'' \<notin> fst ` set kvs" "distinct (map fst kvs)" "fst ` set kvs \<subseteq> set payload_keys"
  shows "version_field (any_members big (enc_expected v @ kvs)) = Inr v"
proof -
  have n: "map_of kvs ''expectedRoomVersion'' = None" using k(1) by (simp add: map_of_eq_None_iff)
  have "field ''expectedRoomVersion'' (any_members big (enc_expected v @ kvs)) =
      map_option (any_number big) (map_of (enc_expected v @ kvs) ''expectedRoomVersion'')"
    using k by (intro written_field) (simp_all only: written_expected, simp_all add: payload_keys_def)
  also have "map_of (enc_expected v @ kvs) ''expectedRoomVersion'' = map_option enc_version v"
    using n by (cases v) (simp_all add: written_expected map_add_def)
  finally show ?thesis using written_version [OF v] by (simp add: version_field_def)
qed

lemma decode_other:
  assumes "''expectedRoomVersion'' \<notin> fst ` set kvs" "distinct (map fst kvs)" "fst ` set kvs \<subseteq> set payload_keys"
    and "n \<in> set payload_keys" "n \<noteq> ''expectedRoomVersion''"
  shows "field n (any_members big (enc_expected v @ kvs)) = map_option (any_number big) (map_of kvs n)"
proof -
  have "field n (any_members big (enc_expected v @ kvs)) = map_option (any_number big) (map_of (enc_expected v @ kvs) n)"
    using assms by (intro written_field) (simp_all only: written_expected, simp_all)
  then show ?thesis using assms(5) by (simp add: written_expected map_add_def split: option.split)
qed

lemma decode_versioned:
  assumes "case v of None \<Rightarrow> True | Some x \<Rightarrow> uint (x :: 64 word) \<le> 2 ^ 53" "n \<in> {''story'', ''storyId'', ''targetClientId''}"
  shows "dec_versioned n (any_members big (enc_expected v @ [(n, JStr s)])) = Inr (v, s)"
proof -
  have k: "''expectedRoomVersion'' \<notin> fst ` set [(n, JStr s)]" "distinct (map fst [(n, JStr s)])"
    "fst ` set [(n, JStr s)] \<subseteq> set payload_keys" "n \<in> set payload_keys" "n \<noteq> ''expectedRoomVersion''"
    using assms(2) by (auto simp: payload_keys_def)
  show ?thesis
    by (simp add: dec_versioned_def decode_version [OF assms(1) k(1-3)] decode_other [OF k] any_number_def)
qed

lemma decode_reorder:
  assumes v: "case v of None \<Rightarrow> True | Some x \<Rightarrow> uint (x :: 64 word) \<le> 2 ^ 53" and i: "\<bar>i\<bar> \<le> 2 ^ 53"
  shows "dec_ReorderStory (any_members big (enc_expected v @ [(''storyId'', JStr s), (''targetIndex'', JInt i)])) = Inr (v, s, i)"
proof -
  let ?kvs = "[(''storyId'', JStr s), (''targetIndex'', JInt i)]"
  have k: "''expectedRoomVersion'' \<notin> fst ` set ?kvs" "distinct (map fst ?kvs)" "fst ` set ?kvs \<subseteq> set payload_keys"
    by (simp_all add: payload_keys_def)
  have m: "''storyId'' \<in> set payload_keys" "''targetIndex'' \<in> set payload_keys" by (simp_all add: payload_keys_def)
  have "- (2 ^ 63) \<le> i \<and> i < 2 ^ 63" using i by simp linarith
  then show ?thesis
    using i by (simp add: dec_ReorderStory_def decode_version [OF v k] decode_other [OF k m(1)] decode_other [OF k m(2)]
        any_number_def)
qed

lemma frame_keys_plain:
  "k \<in> set frame_keys \<Longrightarrow> n \<in> set frame_keys \<Longrightarrow> map fold_char k = map fold_char n \<Longrightarrow> k = n"
proof -
  have "list_all (\<lambda>k. list_all (\<lambda>n. map fold_char k = map fold_char n \<longrightarrow> k = n) frame_keys) frame_keys"
    by code_simp
  then show "k \<in> set frame_keys \<Longrightarrow> n \<in> set frame_keys \<Longrightarrow> map fold_char k = map fold_char n \<Longrightarrow> k = n"
    unfolding list_all_iff by blast
qed

lemma field_frame:
  assumes "distinct (map fst kvs)" "fst ` set kvs \<subseteq> set frame_keys" "n \<in> set frame_keys"
  shows "field n kvs = map_of kvs n"
  using assms(2,3) frame_keys_plain by (intro field_plain [OF assms(1)]) blast

lemma read_marshalled:
  "ReadJSON (marshal_frame f) = Inr \<lparr>wm_Type = cf_Type f,
     wm_CommandID = (case cf_CommandID f of None \<Rightarrow> '''' | Some i \<Rightarrow> i), wm_Payload = marshal_payload (cf_Payload f)\<rparr>"
proof -
  let ?kvs = "enc_opt ''commandId'' JStr (cf_CommandID f) @
      [(''payload'', marshal_payload (cf_Payload f)), (''type'', JStr (cf_Type f))]"
  have k: "distinct (map fst ?kvs)" "fst ` set ?kvs \<subseteq> set frame_keys"
    by (cases "cf_CommandID f"; simp add: enc_opt_def frame_keys_def)+
  have n: "''type'' \<in> set frame_keys" "''commandId'' \<in> set frame_keys" "''payload'' \<in> set frame_keys"
    by (simp_all add: frame_keys_def)
  have m: "map_of ?kvs ''type'' = Some (JStr (cf_Type f))" "map_of ?kvs ''commandId'' = map_option JStr (cf_CommandID f)"
    "map_of ?kvs ''payload'' = Some (marshal_payload (cf_Payload f))"
    by (cases "cf_CommandID f"; simp add: enc_opt_def)+
  note fs = field_frame [OF k n(1), unfolded m(1)] field_frame [OF k n(2), unfolded m(2)] field_frame [OF k n(3), unfolded m(3)]
  have "dec_WebSocketMessage ?kvs = Inr \<lparr>wm_Type = cf_Type f,
      wm_CommandID = (case cf_CommandID f of None \<Rightarrow> '''' | Some i \<Rightarrow> i), wm_Payload = marshal_payload (cf_Payload f)\<rparr>"
    unfolding dec_WebSocketMessage_def fs by (cases "cf_CommandID f") simp_all
  then show ?thesis by (simp add: ReadJSON_def marshal_frame_def)
qed

text \<open>The types a payload goes with.\<close>

fun payload_types :: "payload \<Rightarrow> string list" where
  "payload_types (AddStoryPayload _) = [''add-story'']"
| "payload_types (VersionPayload _) =
     [''advance-story'', ''prev-story'', ''reset'', ''reveal-votes'', ''toggle-backlog-mode'', ''vote-again'']"
| "payload_types (RemoveStoryPayload _ _) = [''remove-story'']"
| "payload_types (ReorderStoryPayload _ _ _) = [''reorder-story'']"
| "payload_types (SelectStoryPayload _ _) = [''select-story'']"
| "payload_types (ToggleOwnerPayload _ _) = [''toggle-owner'']"
| "payload_types (ToggleSpectatorPayload _ _) = [''toggle-spectator'']"
| "payload_types (UpdateNamePayload _) = [''update-name'']"
| "payload_types (UpdateStoryPayload _ _) = [''update-story'']"
| "payload_types (VotePayload _) = [''vote'']"

lemma frame_types: "frame_ok f \<Longrightarrow> cf_Type f \<in> set (payload_types (cf_Payload f))"
  unfolding frame_ok_def NewClientCommandPayload_def
  by (cases "cf_Payload f") (simp_all split: if_split_asm)

text \<open>The decoders of \<open>mapUsecases\<close> on what the structs write.\<close>

definition exact_version :: "64 word option \<Rightarrow> bool" where
  "exact_version v \<longleftrightarrow> (case v of None \<Rightarrow> True | Some x \<Rightarrow> uint x \<le> 2 ^ 53)"

lemma written_calls:
  "n \<in> set payload_keys \<Longrightarrow> withPayload big (\<lambda>kvs. dec_string (field n kvs)) (JObj [(n, JStr s)]) f = f s"
  "exact_version v \<Longrightarrow> withExpectedRoomVersion big (JObj (enc_expected v)) g = g v"
  "exact_version v \<Longrightarrow> n \<in> {''story'', ''storyId'', ''targetClientId''} \<Longrightarrow>
     withPayload big (dec_versioned n) (JObj (enc_expected v @ [(n, JStr s)])) h = h (v, s)"
  "exact_version v \<Longrightarrow> \<bar>i\<bar> \<le> 2 ^ 53 \<Longrightarrow>
     withPayload big dec_ReorderStory (JObj (enc_expected v @ [(''storyId'', JStr s), (''targetIndex'', JInt i)])) k =
       k (v, s, i)"
proof -
  show "n \<in> set payload_keys \<Longrightarrow> withPayload big (\<lambda>kvs. dec_string (field n kvs)) (JObj [(n, JStr s)]) f = f s"
    by (simp add: withPayload_def decode_document decode_text)
  show "withExpectedRoomVersion big (JObj (enc_expected v)) g = g v" if "exact_version v"
    using decode_version [OF that [unfolded exact_version_def], of "[]" big]
    by (simp add: withExpectedRoomVersion_def expectedRoomVersion_def decode_document split: option.split)
  show "withPayload big (dec_versioned n) (JObj (enc_expected v @ [(n, JStr s)])) h = h (v, s)"
    if "exact_version v" "n \<in> {''story'', ''storyId'', ''targetClientId''}"
    using decode_versioned [OF that(1) [unfolded exact_version_def] that(2), of big s]
    by (simp add: withPayload_def decode_document)
  show "withPayload big dec_ReorderStory (JObj (enc_expected v @ [(''storyId'', JStr s), (''targetIndex'', JInt i)])) k =
       k (v, s, i)" if "exact_version v" "\<bar>i\<bar> \<le> 2 ^ 53"
    using decode_reorder [OF that(1) [unfolded exact_version_def] that(2), of big s]
    by (simp add: withPayload_def decode_document)
qed

lemma payload_executed:
  assumes t: "t \<in> set (payload_types p)" and e: "exact_numbers p"
  shows "\<exists>call. mapUsecases big U c r t = Some call \<and> call (marshal_payload p) = command_of U c r t p"
proof -
  have v: "exact_version (payload_version p)" and i: "\<bar>payload_index p\<bar> \<le> 2 ^ 53"
    using e by (simp_all add: exact_numbers_def exact_version_def)
  have keys: "''story'' \<in> set payload_keys" "''username'' \<in> set payload_keys" "''vote'' \<in> set payload_keys"
    by (simp_all add: payload_keys_def)
  have eta: "dec_UpdateName = (\<lambda>kvs. dec_string (field ''username'' kvs))" "dec_Vote = (\<lambda>kvs. dec_string (field ''vote'' kvs))"
    "dec_AddStory = (\<lambda>kvs. dec_string (field ''story'' kvs))"
    by (auto simp: dec_UpdateName_def dec_Vote_def dec_AddStory_def)
  note known = mapUsecases_def command_of_def eta written_calls keys
  show ?thesis
  proof (cases p)
    case (VersionPayload x)
    have "list_all (\<lambda>t. \<exists>call. mapUsecases big U c r t = Some call \<and> call (marshal_payload p) = command_of U c r t p)
        (payload_types p)"
      using v unfolding VersionPayload payload_types.simps list.pred_inject
      by (intro conjI TrueI; simp add: known)
    then show ?thesis using t by (simp only: list_all_iff)
  qed (use t v i in \<open>simp_all add: known\<close>)
qed



end
