(* ===== verification/Decorators.thy ===== *)
theory Decorators
  imports Commands
begin

text \<open>
  The use cases in their spans: \<open>internal/infra/decorators/usecasedecorators/trace.go\<close>, and the facade
  that \<open>newUsecases\<close> of \<open>internal/setup/container.go\<close> makes of them. \<open>trace.Trace\<close> of the toolkit is a
  parameter, a function of the two names and of the function it runs; its result has type \<open>any\<close>, so
  that \<open>None\<close> stands for nil. What the program relies on is that it runs the function once and returns what
  that returned; spans are no part of the state.
\<close>

section \<open>The decorators\<close>

type_synonym ('w, 'r) tracer = "string \<Rightarrow> string \<Rightarrow> ('w, 'r option) call \<Rightarrow> ('w, 'r option) call"

definition runs_inside :: "('w, 'r) tracer \<Rightarrow> bool" where
  "runs_inside trace \<longleftrightarrow> (\<forall>traceName spanName f. trace traceName spanName f = f)"

text \<open>The type assertion \<open>result.(Out)\<close> panics on nil.\<close>

definition assertOut :: "'r option \<Rightarrow> ('w, 'r) call" where
  "assertOut result =
     (case result of
        None \<Rightarrow> fail (PlainError (Some RuntimePanic) (Msg ''interface conversion: interface is nil'' []))
      | Some out \<Rightarrow> ret out)"

definition TraceableUseCaseR_Execute ::
  "('w, 'out) tracer \<Rightarrow> ('cmd \<Rightarrow> ('w, 'out) call) \<Rightarrow> string \<Rightarrow> string \<Rightarrow> 'cmd \<Rightarrow> ('w, 'out) call" where
  "TraceableUseCaseR_Execute trace inner traceName spanName cmd =
     andThen (trace traceName spanName (andThen (inner cmd) (\<lambda>out. ret (Some out)))) assertOut"

definition TraceableUseCase_Execute ::
  "('w, unit) tracer \<Rightarrow> ('cmd \<Rightarrow> ('w, unit) call) \<Rightarrow> string \<Rightarrow> string \<Rightarrow> 'cmd \<Rightarrow> ('w, unit) call" where
  "TraceableUseCase_Execute trace inner traceName spanName cmd =
     andThen (trace traceName spanName (andThen (inner cmd) (\<lambda>_. ret None))) (\<lambda>_. ret ())"

definition TraceableUseCaseO_Execute ::
  "('w, 'out) tracer \<Rightarrow> ('w, 'out) call \<Rightarrow> string \<Rightarrow> string \<Rightarrow> ('w, 'out) call" where
  "TraceableUseCaseO_Execute trace inner traceName spanName =
     andThen (trace traceName spanName (andThen inner (\<lambda>out. ret (Some out)))) assertOut"

section \<open>The facade\<close>

text \<open>A use case of the facade takes its command as arguments; the decorator passes them on together.\<close>

definition traced2 :: "('w, unit) tracer \<Rightarrow> string \<Rightarrow> string \<Rightarrow>
    ('a \<Rightarrow> 'b \<Rightarrow> ('w, unit) call) \<Rightarrow> 'a \<Rightarrow> 'b \<Rightarrow> ('w, unit) call" where
  "traced2 trace t s inner a b = TraceableUseCase_Execute trace (\<lambda>(a, b). inner a b) t s (a, b)"

definition traced3 :: "('w, unit) tracer \<Rightarrow> string \<Rightarrow> string \<Rightarrow>
    ('a \<Rightarrow> 'b \<Rightarrow> 'c \<Rightarrow> ('w, unit) call) \<Rightarrow> 'a \<Rightarrow> 'b \<Rightarrow> 'c \<Rightarrow> ('w, unit) call" where
  "traced3 trace t s inner a b c = TraceableUseCase_Execute trace (\<lambda>(a, b, c). inner a b c) t s (a, b, c)"

definition traced4 :: "('w, unit) tracer \<Rightarrow> string \<Rightarrow> string \<Rightarrow>
    ('a \<Rightarrow> 'b \<Rightarrow> 'c \<Rightarrow> 'd \<Rightarrow> ('w, unit) call) \<Rightarrow> 'a \<Rightarrow> 'b \<Rightarrow> 'c \<Rightarrow> 'd \<Rightarrow> ('w, unit) call" where
  "traced4 trace t s inner a b c d = TraceableUseCase_Execute trace (\<lambda>(a, b, c, d). inner a b c d) t s (a, b, c, d)"

definition traced5 :: "('w, unit) tracer \<Rightarrow> string \<Rightarrow> string \<Rightarrow>
    ('a \<Rightarrow> 'b \<Rightarrow> 'c \<Rightarrow> 'd \<Rightarrow> 'e \<Rightarrow> ('w, unit) call) \<Rightarrow> 'a \<Rightarrow> 'b \<Rightarrow> 'c \<Rightarrow> 'd \<Rightarrow> 'e \<Rightarrow> ('w, unit) call" where
  "traced5 trace t s inner a b c d e =
     TraceableUseCase_Execute trace (\<lambda>(a, b, c, d, e). inner a b c d e) t s (a, b, c, d, e)"

definition traced_facade :: "('w, unit) tracer \<Rightarrow> 'w facade \<Rightarrow> 'w facade" where
  "traced_facade trace U =
     \<lparr>ucUpdateName = traced3 trace ''UpdateNameUseCase'' ''UpdateName'' (ucUpdateName U),
      ucVote = traced3 trace ''VoteUseCase'' ''Vote'' (ucVote U),
      ucReveal = traced3 trace ''RevealUseCase'' ''Reveal'' (ucReveal U),
      ucReset = traced3 trace ''ResetUseCase'' ''Reset'' (ucReset U),
      ucToggleSpectator = traced4 trace ''ToggleSpectatorUseCase'' ''ToggleSpectator'' (ucToggleSpectator U),
      ucToggleOwner = traced4 trace ''ToggleOwnerUseCase'' ''ToggleOwner'' (ucToggleOwner U),
      ucUpdateStory = traced4 trace ''UpdateStoryUseCase'' ''UpdateStory'' (ucUpdateStory U),
      ucVoteAgain = traced3 trace ''VoteAgainUseCase'' ''VoteAgain'' (ucVoteAgain U),
      ucLeaveRoom = traced2 trace ''LeaveRoomUseCase'' ''LeaveRoom'' (ucLeaveRoom U),
      ucToggleBacklogMode = traced3 trace ''ToggleBacklogModeUseCase'' ''ToggleBacklogMode'' (ucToggleBacklogMode U),
      ucAddStory = traced3 trace ''AddStoryUseCase'' ''AddStory'' (ucAddStory U),
      ucRemoveStory = traced4 trace ''RemoveStoryUseCase'' ''RemoveStory'' (ucRemoveStory U),
      ucAdvanceStory = traced3 trace ''AdvanceStoryUseCase'' ''AdvanceStory'' (ucAdvanceStory U),
      ucPrevStory = traced3 trace ''PrevStoryUseCase'' ''PrevStory'' (ucPrevStory U),
      ucSelectStory = traced4 trace ''SelectStoryUseCase'' ''SelectStory'' (ucSelectStory U),
      ucReorderStory = traced5 trace ''ReorderStoryUseCase'' ''ReorderStory'' (ucReorderStory U)\<rparr>"

section \<open>A span changes nothing\<close>

lemma andThen_ret_id: "andThen m (\<lambda>a. Pair (Inr a)) = m" "andThen m (\<lambda>_. Pair (Inr ())) = m"
  "andThen (\<lambda>w. (Inr a, w)) k = k a" "andThen (ret a) k = k a"
  by (auto simp: andThen_def fun_eq_iff split: sum.splits prod.splits)

lemma runs_insideD: "runs_inside trace \<Longrightarrow> trace t s f = f"
  by (simp add: runs_inside_def)

lemma decorators_transparent:
  assumes "runs_inside trace"
  shows "TraceableUseCaseR_Execute trace inner t s cmd = inner cmd"
    and "TraceableUseCaseO_Execute trace m t s = m"
  by (simp_all add: runs_insideD [OF assms] TraceableUseCaseR_Execute_def TraceableUseCaseO_Execute_def assertOut_def
      andThen_assoc andThen_ret_id, simp_all add: andThen_def fun_eq_iff split: sum.splits prod.splits)

lemma decorator_transparent: "runs_inside trace \<Longrightarrow> TraceableUseCase_Execute trace inner t s cmd = inner cmd"
  by (simp add: runs_insideD TraceableUseCase_Execute_def andThen_assoc andThen_ret_id)

lemma traced_transparent:
  assumes "runs_inside trace"
  shows "traced2 trace t s f2 = f2" "traced3 trace t s f3 = f3" "traced4 trace t s f4 = f4" "traced5 trace t s f5 = f5"
  by (intro ext, simp add: traced2_def traced3_def traced4_def traced5_def decorator_transparent [OF assms])+

text \<open>The program may be read without its spans, as the other theories do.\<close>

lemma traced_facade_transparent: "runs_inside trace \<Longrightarrow> traced_facade trace U = U"
  by (simp add: traced_facade_def traced_transparent)

lemma runs_inside_example: "runs_inside (\<lambda>_ _ f. f)"
  by (simp add: runs_inside_def)

end
