(* ===== verification/Spec2Isabelle.thy ===== *)
theory Spec2Isabelle
  imports Room_Properties Hub_Properties System_Properties Http_Properties Gen_Properties
    Connection_Properties Redis_Pubsub Wire_Commands Decorators
begin

text \<open>
  \<^bold>\<open>Planning poker: the Go server, modelled and verified.\<close>

  The program lets the participants of a room estimate stories. A browser holds a websocket; its
  messages are dispatched to use cases; a use case loads the room from a hub, changes it, saves it
  under optimistic concurrency control and broadcasts the new state. Rooms live in Redis, shared by
  several servers, or (in tests) in memory. Commands carry identifiers, so that a retry is answered
  from a ledger instead of being executed again.

  \<^bold>\<open>The theories, from the bottom.\<close>

  \<^item> \<open>Go_Prelude\<close>, \<open>Go_Errors\<close>: what the sources use of Go: slices, \<open>strconv.Atoi\<close>, time,
    error trees with \<open>errors.Is\<close> and \<open>errors.As\<close>, and calls \<open>('s, 'a) call\<close> that return a value
    or an error beside the state they leave. \<open>domainerror/domainerror.go\<close>. A panic is an error
    marked \<open>RuntimePanic\<close> that no model of an error handler handles.
  \<^item> \<open>Float32\<close>: the \<open>float32\<close> additions and the division of the average, with IEEE rounding.
  \<^item> \<open>Deck\<close>, \<open>Client\<close>, \<open>Room\<close>, \<open>Room_Voting\<close>, \<open>Room_Presence\<close>, \<open>Room_Backlog\<close>: the aggregate of
    \<open>internal/domain/entity\<close>, one operation of the source per definition, and
    \<open>clientcollection.go\<close>. A method that can fail returns the room and an error. The locale
    \<open>collection\<close> is the contract of \<open>ClientCollection\<close>, \<open>owner_guarded\<close> the shape of the
    operations only owners may use; both are interpreted on the code's model.
  \<^item> \<open>Voting_Facts\<close>: a reference definition of a round's figures and the proof that \<open>reveal\<close>
    computes it. \<open>Room_Machine\<close>: all operations as one step relation, the reachable rooms, and the
    invariant \<open>room_ok\<close>. \<open>Room_Properties\<close>: what follows for each operation.
  \<^item> \<open>Protocol\<close>: the wire messages (\<open>internal/protocol\<close>) and their construction
    (\<open>usecase/dto/commands.go\<close>). \<open>Serialization\<close>: the stored document of a room and the part of
    \<open>encoding/json\<close> it uses (\<open>hub/redis/serialization.go\<close>).
  \<^item> \<open>Hub\<close>: the interfaces \<open>domain.Hub\<close>, \<open>domain.Bus\<close>, \<open>lock.LockManager\<close> and the metric, as records
    of functions over the state behind them. \<open>Redis_Hub\<close> and \<open>InMemory_Hub\<close>: the two hubs. Redis
    itself is a parameter: the locale \<open>redis_contract\<close> says what the program relies on, and an
    executable server with faults interprets it. The two Lua scripts are translated.
  \<^item> \<open>Use_Cases\<close>: every \<open>Execute\<close> of \<open>internal/application/planningpoker/usecase\<close>, over any hub.
    \<open>Hub_Properties\<close>: the properties of both hubs and of use cases on them.
  \<^item> \<open>Command_Ledger\<close>: both ledgers; the locale \<open>command_ledger\<close> is their contract, proved of both.
    \<open>Commands\<close>: decoding of payloads, dispatch table, error frames. \<open>Websocket_Bus\<close>: a connection
    (\<open>infra/bus/websocketbus.go\<close>). \<open>Locks\<close>: both lock managers, as code and as step relations over
    all who use them. \<open>Metric\<close>: the counters.
  \<^item> \<open>System\<close>: everything put together over the in-memory hub, as \<open>setup/container.go\<close> does, and
    the part of the world no use case touches. \<open>System_Properties\<close>: commands that run once, closing,
    locks, counters. \<open>Decorators\<close>: the spans around the use cases
    (\<open>infra/decorators/usecasedecorators/trace.go\<close>), and that the program may be read without them.

  \<^item> \<open>Room_Store\<close>: an abstract store of versioned rooms; the locale \<open>implements_store\<close> is the
    simulation both hubs are proved to satisfy.
  \<^item> \<open>Http\<close>: the handlers of \<open>internal/infra/boundaries/http\<close>, the admin middleware, the health checks,
    and the routes of \<open>setup/container.go\<close> and \<open>setup/api.go\<close>. \<open>Http_Properties\<close>: the handlers over the
    in-memory system.

  \<^bold>\<open>What runs concurrently.\<close> The theories above let an operation run to its end. Three refine
  that to interleavings of statements or messages; the lock managers and the counters have theirs in
  \<open>Locks\<close> and \<open>Metric\<close>.

  \<^item> \<open>Connection\<close>: the goroutines of one connection (\<open>websocketbus.go\<close>): the reader \<open>Listen\<close>, the
    \<open>pinger\<close> it starts, and any number of others in \<open>Send\<close>, \<open>Close\<close> and \<open>Detach\<close>, with deadlines,
    \<open>writeMu\<close>, \<open>closeOnce\<close> and the channel \<open>done\<close>. The invariants say who runs what, who holds the lock, and
    how far closing has come. \<open>Connection_Properties\<close>: exclusion of writes, absence of deadlock, the
    order of closing, the end of the pinger and of the reader; \<open>close_alone\<close> and \<open>send_alone\<close> relate it to
    \<open>Websocket_Bus\<close>.
  \<^item> \<open>Redis_Pubsub\<close>: several instances of \<open>RedisHub\<close> on one server: the registry of connections and
    subscriptions that \<open>AddBus\<close> and \<open>RemoveBus\<close> keep, the goroutines \<open>listenToRoomPubSub\<close>, the channels
    they read, and \<open>Close\<close>.

  \<^bold>\<open>The protocol generator.\<close> \<open>tools/protocolgen\<close> is a program of its own: it reads
  \<open>protocol/asyncapi.yaml\<close> and the JSON schemas and writes the Go and TypeScript types, the guards of
  the front end and the README.

  \<^item> \<open>Gen_Values\<close>: decoded values, normalizing, names, pointers. \<open>Gen_Schema\<close>: the schema loader of
    \<open>spec.go\<close>; parsing follows references, and \<open>well_founded\<close> is what it leaves behind. \<open>Gen_Spec\<close>: the
    AsyncAPI document, its messages and \<open>loadSpec\<close>. \<open>Gen_Go\<close>: \<open>golang.go\<close>. \<open>Gen_TypeScript\<close>:
    \<open>typescript.go\<close>, the checks as terms that are printed. \<open>Gen_Main\<close>: \<open>docs.go\<close>, \<open>main.go\<close> and the disk.
  \<^item> \<open>Gen_Guards\<close>: what the printed checks mean to JavaScript, and the proof that they decide the schemas.
    \<open>Gen_Properties\<close>: the properties, on every input or on a contract that loads.
  \<^item> \<open>Gen_Reference\<close>: a reference reading of the schemas, one definition at a time without following
    references, and the proof that the loader succeeds exactly when it does and computes it.

  \<^bold>\<open>The two programs together.\<close> The front end checks frames with the guards the generator printed from
  \<open>protocol/\<close>; the server writes and reads them with the structs it printed.

  \<^item> \<open>Contract\<close>: the documents of \<open>protocol/schemas\<close> and \<open>protocol/asyncapi.yaml\<close>, and the specification
    they stand for. \<open>Contract_Loads\<close>: \<open>loadSpec\<close> makes the one of the others, by \<open>Gen_Reference\<close>.
  \<^item> \<open>Wire\<close>: \<open>types.generated.go\<close> as \<open>encoding/json\<close> writes it, \<open>receive\<close> of \<open>websocketbus.go\<close>, and
    \<open>JSON.parse\<close> and \<open>JSON.stringify\<close> at the other end. \<open>Wire_Contract\<close>: the guards of the shipped contract
    exist and decide its schemas, and every frame the server sends passes \<open>isServerEvent\<close>. \<open>Wire_Commands\<close>:
    a command that \<open>isClientCommand\<close> passes runs the use case it asks for, and so does one marshalled from a
    Go struct. Commands are tidy there: Go matches members up to case and reads an array as no struct, which the
    guards do not rule out, and numbers beyond \<open>2 ^ 53\<close> do not survive a double.

  \<^bold>\<open>How the code is modelled.\<close> A struct is a record, a tagged value a datatype, \<open>uint64\<close> versions
  and atomic counters are 64-bit words, \<open>int\<close> values bounded by a slice are \<open>int\<close>. Pointers that
  matter are references into a heap: the in-memory hub hands out the room it holds, the Redis hub a
  fresh copy each time, and the use cases behave differently over the two. The clock, fresh
  identifiers and the order in which \<open>slices.SortFunc\<close> leaves equal names are arguments of the
  operations that use them. There is no fuel in the server: every loop is bounded by a list or by the
  number of retries. Two functions of the generator recurse through references: the loader with a
  termination measure, \<open>schemaUsesTime\<close> as a partial function that \<open>generator_ends\<close> shows to return.
  The meaning of the guards counts nested calls; as many as there are definitions are enough.

  \<^bold>\<open>Not modelled.\<close> Logging and what tracing records, which change no state; expiry of rooms in Redis; reading of the
  configuration and \<open>main\<close>, which are calls into libraries; mocks, which are generated; the TypeScript
  front end, of which only the generated guards have a meaning here. What \<open>net/http\<close>, \<open>gorilla/mux\<close>,
  \<open>gorilla/websocket\<close>, \<open>go-redis\<close>, \<open>go/format\<close>, the JSON and YAML decoders of the generator and the operating
  system do is a parameter.
\<close>

end
